(* ===== verification/Prelude.thy ===== *)
theory Prelude
  imports Main "HOL-Library.Word"
begin

text \<open>
  What every component shares: the results of fallible Rust code as sums, the checked and saturating
  arithmetic of \<^verbatim>\<open>usize\<close> and \<^verbatim>\<open>u64\<close> (64-bit targets), mutexes that can be poisoned, and Rust
  strings as lists of Unicode scalar values with their UTF-8 length, whitespace and trimming.
  Facts that unfold results go to the collection \<open>result_simps\<close>, arithmetic bounds to
  \<open>checked_simps\<close>.
\<close>

named_theorems result_simps \<open>case analysis of results and their combinators\<close>
named_theorems checked_simps \<open>characterisations of checked machine arithmetic\<close>

section \<open>Results\<close>

text \<open>\<^verbatim>\<open>Result<T, E>\<close> is a sum, the error on the left.\<close>

abbreviation Ok :: "'a \<Rightarrow> 'e + 'a" where
  "Ok \<equiv> Inr"

abbreviation Err :: "'e \<Rightarrow> 'e + 'a" where
  "Err \<equiv> Inl"

text \<open>The question mark operator, or \<^verbatim>\<open>and_then\<close>.\<close>

definition and_then :: "'e + 'a \<Rightarrow> ('a \<Rightarrow> 'e + 'b) \<Rightarrow> 'e + 'b" where
  "and_then r f = (case r of Inl e \<Rightarrow> Inl e | Inr x \<Rightarrow> f x)"

definition ok_or :: "'e \<Rightarrow> 'a option \<Rightarrow> 'e + 'a" where
  "ok_or e opt = (case opt of None \<Rightarrow> Inl e | Some x \<Rightarrow> Inr x)"

definition map_err :: "('e \<Rightarrow> 'f) \<Rightarrow> 'e + 'a \<Rightarrow> 'f + 'a" where
  "map_err g r = (case r of Inl e \<Rightarrow> Inl (g e) | Inr x \<Rightarrow> Inr x)"

text \<open>\<^verbatim>\<open>if bad { return Err(e) }\<close>.\<close>

definition reject_if :: "bool \<Rightarrow> 'e \<Rightarrow> 'e + unit" where
  "reject_if bad e = (if bad then Inl e else Inr ())"

definition is_ok :: "'e + 'a \<Rightarrow> bool" where
  "is_ok r = (case r of Inl _ \<Rightarrow> False | Inr _ \<Rightarrow> True)"

text \<open>\<^verbatim>\<open>iter.map(f).collect::<Result<Vec<_>, _>>()\<close>: the first error wins.\<close>

fun collect_results :: "('a \<Rightarrow> 'e + 'b) \<Rightarrow> 'a list \<Rightarrow> 'e + 'b list" where
  "collect_results f [] = Inr []"
| "collect_results f (x # xs) =
     (case f x of Inl e \<Rightarrow> Inl e
      | Inr y \<Rightarrow> (case collect_results f xs of Inl e \<Rightarrow> Inl e | Inr ys \<Rightarrow> Inr (y # ys)))"

lemma and_then_simps [simp, result_simps]:
  "and_then (Inl e) f = Inl e"
  "and_then (Inr x) f = f x"
  by (simp_all add: and_then_def)

lemma and_then_eq_Inr [result_simps]:
  "and_then r f = Inr y \<longleftrightarrow> (\<exists>x. r = Inr x \<and> f x = Inr y)"
  by (cases r) simp_all

lemma and_then_eq_Inl [result_simps]:
  "and_then r f = Inl e \<longleftrightarrow> r = Inl e \<or> (\<exists>x. r = Inr x \<and> f x = Inl e)"
  by (cases r) simp_all

lemma ok_or_simps [simp, result_simps]:
  "ok_or e None = Inl e"
  "ok_or e (Some x) = Inr x"
  by (simp_all add: ok_or_def)

lemma ok_or_eq_Inr [result_simps]: "ok_or e opt = Inr x \<longleftrightarrow> opt = Some x"
  by (cases opt) simp_all

lemma ok_or_eq_Inl [result_simps]: "ok_or e opt = Inl e' \<longleftrightarrow> opt = None \<and> e' = e"
  by (cases opt) auto

lemma map_err_simps [simp, result_simps]:
  "map_err g (Inl e) = Inl (g e)"
  "map_err g (Inr x) = Inr x"
  by (simp_all add: map_err_def)

lemma map_err_eq_Inr [result_simps]: "map_err g r = Inr x \<longleftrightarrow> r = Inr x"
  by (cases r) simp_all

lemma reject_if_simps [simp, result_simps]:
  "reject_if True e = Inl e"
  "reject_if False e = Inr ()"
  by (simp_all add: reject_if_def)

lemma reject_if_eq_Inr [result_simps]: "reject_if bad e = Inr u \<longleftrightarrow> \<not> bad"
  by (simp add: reject_if_def)

lemma reject_if_eq_Inl [result_simps]: "reject_if bad e = Inl e' \<longleftrightarrow> bad \<and> e' = e"
  by (auto simp: reject_if_def)

lemma is_ok_simps [simp, result_simps]:
  "\<not> is_ok (Inl e)"
  "is_ok (Inr x)"
  by (simp_all add: is_ok_def)

lemma is_ok_iff: "is_ok r \<longleftrightarrow> (\<exists>x. r = Inr x)"
  by (cases r) simp_all

lemma collect_results_Inr:
  "collect_results f xs = Inr ys \<longleftrightarrow> list_all2 (\<lambda>x y. f x = Inr y) xs ys"
proof (induction xs arbitrary: ys)
  case Nil
  show ?case by auto
next
  case (Cons x xs)
  have "collect_results f (x # xs) = Inr ys \<longleftrightarrow>
      (\<exists>y zs. f x = Inr y \<and> collect_results f xs = Inr zs \<and> ys = y # zs)"
    by (auto split: sum.splits)
  then show ?case
    by (auto simp: Cons.IH list_all2_Cons1)
qed

lemma collect_results_length: "collect_results f xs = Inr ys \<Longrightarrow> length ys = length xs"
  by (simp add: collect_results_Inr list_all2_lengthD)

section \<open>Machine arithmetic\<close>

text \<open>
  \<^verbatim>\<open>usize\<close> and \<^verbatim>\<open>u64\<close> values are natural numbers; every operation that can leave the 64-bit range
  writes its overflow behaviour out.
\<close>

definition word_limit :: nat where
  "word_limit = 2 ^ 64"

definition checked_add :: "nat \<Rightarrow> nat \<Rightarrow> nat option" where
  "checked_add a b = (if a + b < word_limit then Some (a + b) else None)"

definition checked_mul :: "nat \<Rightarrow> nat \<Rightarrow> nat option" where
  "checked_mul a b = (if a * b < word_limit then Some (a * b) else None)"

definition saturating_add :: "nat \<Rightarrow> nat \<Rightarrow> nat" where
  "saturating_add a b = min (a + b) (word_limit - 1)"

definition saturating_sub :: "nat \<Rightarrow> nat \<Rightarrow> nat" where
  "saturating_sub a b = a - b"

text \<open>\<^verbatim>\<open>iter.try_fold(acc, |sum, x| sum.checked_add(x))\<close>.\<close>

fun checked_sum_from :: "nat \<Rightarrow> nat list \<Rightarrow> nat option" where
  "checked_sum_from acc [] = Some acc"
| "checked_sum_from acc (x # xs) =
     (case checked_add acc x of None \<Rightarrow> None | Some acc' \<Rightarrow> checked_sum_from acc' xs)"

lemma word_limit_pos [simp]: "0 < word_limit"
  by (simp add: word_limit_def)

lemma checked_add_Some [checked_simps]:
  "checked_add a b = Some c \<longleftrightarrow> c = a + b \<and> a + b < word_limit"
  by (auto simp: checked_add_def)

lemma checked_add_None [checked_simps]: "checked_add a b = None \<longleftrightarrow> word_limit \<le> a + b"
  by (auto simp: checked_add_def)

lemma checked_mul_Some [checked_simps]:
  "checked_mul a b = Some c \<longleftrightarrow> c = a * b \<and> a * b < word_limit"
  by (auto simp: checked_mul_def)

lemma checked_mul_None [checked_simps]: "checked_mul a b = None \<longleftrightarrow> word_limit \<le> a * b"
  by (auto simp: checked_mul_def)

text \<open>The checked sum fails exactly when the true sum leaves the range.\<close>

lemma checked_sum_from_eq:
  "acc < word_limit \<Longrightarrow>
   checked_sum_from acc xs =
     (if acc + sum_list xs < word_limit then Some (acc + sum_list xs) else None)"
proof (induction xs arbitrary: acc)
  case Nil
  then show ?case by simp
next
  case (Cons x xs)
  show ?case
  proof (cases "acc + x < word_limit")
    case True
    with Cons.IH [of "acc + x"] show ?thesis
      by (simp add: checked_add_def add.assoc)
  next
    case False
    then show ?thesis by (simp add: checked_add_def)
  qed
qed

lemma checked_sum_Some [checked_simps]:
  "checked_sum_from 0 xs = Some s \<longleftrightarrow> s = sum_list xs \<and> sum_list xs < word_limit"
  by (auto simp: checked_sum_from_eq)

lemma saturating_add_bound: "saturating_add a b < word_limit"
  by (simp add: saturating_add_def min.strict_coboundedI2)

section \<open>Lists\<close>

text \<open>Reading after an update, whatever the index.\<close>

lemma nth_upd: "xs[i := v] ! j = (if j = i \<and> i < length xs then v else xs ! j)"
  by (cases "i < length xs") (auto simp: nth_list_update list_update_beyond)

section \<open>Locks\<close>

text \<open>A \<^verbatim>\<open>Mutex\<close> or \<^verbatim>\<open>RwLock\<close>: after a panic of a holder every later acquisition fails.\<close>

datatype 'a lock = Held_By_Nobody 'a | Poisoned

fun lock_read :: "'a lock \<Rightarrow> 'a option" where
  "lock_read (Held_By_Nobody x) = Some x"
| "lock_read Poisoned = None"

fun lock_update :: "('a \<Rightarrow> 'a) \<Rightarrow> 'a lock \<Rightarrow> 'a lock" where
  "lock_update f (Held_By_Nobody x) = Held_By_Nobody (f x)"
| "lock_update f Poisoned = Poisoned"

text \<open>\<^verbatim>\<open>lock().map(..).unwrap_or_default()\<close> on a locked vector.\<close>

fun lock_list :: "'a list lock \<Rightarrow> 'a list" where
  "lock_list (Held_By_Nobody xs) = xs"
| "lock_list Poisoned = []"

lemma lock_list_const [simp]: "lock_list (lock_update (\<lambda>_. []) l) = []"
  by (cases l) simp_all

lemma lock_list_filter [simp]: "lock_list (lock_update (filter p) l) = filter p (lock_list l)"
  by (cases l) simp_all

lemma lock_read_update: "lock_read (lock_update f l) = map_option f (lock_read l)"
  by (cases l) simp_all

section \<open>Strings\<close>

text \<open>A Rust string is a list of Unicode scalar values; \<^verbatim>\<open>len()\<close> counts its UTF-8 bytes.\<close>

type_synonym rstr = "nat list"

definition lit :: "string \<Rightarrow> rstr" where
  "lit s = map of_char s"

lemma lit_inj [simp]: "lit s = lit t \<longleftrightarrow> s = t"
  by (simp add: lit_def inj_map_eq_map inj_on_def)

lemma lit_Nil [simp]: "lit [] = []" "lit s = [] \<longleftrightarrow> s = []"
  by (simp_all add: lit_def)

lemma lit_append: "lit (s @ t) = lit s @ lit t"
  by (simp add: lit_def)

definition utf8_len :: "nat \<Rightarrow> nat" where
  "utf8_len c = (if c < 0x80 then 1 else if c < 0x800 then 2 else if c < 0x10000 then 3 else 4)"

definition str_len :: "rstr \<Rightarrow> nat" where
  "str_len s = sum_list (map utf8_len s)"

text \<open>\<^verbatim>\<open>char::is_whitespace\<close>: the Unicode property White_Space.\<close>

definition is_whitespace :: "nat \<Rightarrow> bool" where
  "is_whitespace c \<longleftrightarrow>
     (9 \<le> c \<and> c \<le> 13) \<or> c = 0x20 \<or> c = 0x85 \<or> c = 0xA0 \<or> c = 0x1680 \<or>
     (0x2000 \<le> c \<and> c \<le> 0x200A) \<or> c = 0x2028 \<or> c = 0x2029 \<or> c = 0x202F \<or> c = 0x205F \<or> c = 0x3000"

text \<open>\<^verbatim>\<open>char::is_control\<close>: the Unicode general category Cc.\<close>

definition is_control :: "nat \<Rightarrow> bool" where
  "is_control c \<longleftrightarrow> c < 0x20 \<or> (0x7F \<le> c \<and> c \<le> 0x9F)"

definition trim :: "rstr \<Rightarrow> rstr" where
  "trim s = rev (dropWhile is_whitespace (rev (dropWhile is_whitespace s)))"

lemma trim_empty_iff: "trim s = [] \<longleftrightarrow> (\<forall>c \<in> set s. is_whitespace c)"
proof -
  have "dropWhile is_whitespace (rev t) = [] \<longleftrightarrow> (\<forall>c \<in> set t. is_whitespace c)" for t
    by (simp add: dropWhile_eq_Nil_conv)
  then show ?thesis
    by (auto simp: trim_def dest: set_dropWhileD)
      (metis dropWhile_eq_Nil_conv hd_dropWhile hd_in_set)
qed

text \<open>\<^verbatim>\<open>str::strip_prefix\<close> and \<^verbatim>\<open>str::starts_with\<close>.\<close>

fun strip_prefix :: "rstr \<Rightarrow> rstr \<Rightarrow> rstr option" where
  "strip_prefix [] s = Some s"
| "strip_prefix (p # ps) [] = None"
| "strip_prefix (p # ps) (c # s) = (if p = c then strip_prefix ps s else None)"

lemma strip_prefix_Some: "strip_prefix p s = Some r \<longleftrightarrow> s = p @ r"
  by (induction p s rule: strip_prefix.induct) auto

text \<open>\<^verbatim>\<open>str::contains\<close> of a substring.\<close>

fun str_contains :: "rstr \<Rightarrow> rstr \<Rightarrow> bool" where
  "str_contains [] p = (p = [])"
| "str_contains (c # s) p = (strip_prefix p (c # s) \<noteq> None \<or> str_contains s p)"

lemma str_contains_iff: "str_contains s p \<longleftrightarrow> (\<exists>a b. s = a @ p @ b)"
proof (induction s)
  case Nil
  show ?case by simp
next
  case (Cons c s)
  have "strip_prefix p (c # s) \<noteq> None \<longleftrightarrow> (\<exists>b. c # s = p @ b)"
    by (auto simp: strip_prefix_Some)
  moreover have "(\<exists>a b. c # s = a @ p @ b) \<longleftrightarrow> (\<exists>b. c # s = p @ b) \<or> (\<exists>a b. s = a @ p @ b)"
    by (metis append_Cons append_eq_Cons_conv)
  ultimately show ?case
    using Cons.IH by simp
qed

end
