(* ===== verification/Errors.thy ===== *)
theory Errors
  imports Prelude
begin

text \<open>
  The stable failures of \<^verbatim>\<open>crates/impossible-embedding-core/src/lib.rs\<close>: error codes, retry guidance,
  the privacy-reviewed public error and the engine failure that keeps a private diagnostic apart
  from it.
\<close>

section \<open>Codes\<close>

datatype error_code =
  InvalidRequest | ModelUnavailable | QueueFull | Cancelled | DeadlineExceeded | InferenceFailed
| Internal

fun error_code_as_str :: "error_code \<Rightarrow> rstr" where
  "error_code_as_str InvalidRequest = lit ''invalid_request''"
| "error_code_as_str ModelUnavailable = lit ''model_unavailable''"
| "error_code_as_str QueueFull = lit ''queue_full''"
| "error_code_as_str Cancelled = lit ''cancelled''"
| "error_code_as_str DeadlineExceeded = lit ''deadline_exceeded''"
| "error_code_as_str InferenceFailed = lit ''inference_failed''"
| "error_code_as_str Internal = lit ''internal''"

datatype retryability = Never | Retryable | Unknown

record public_error =
  pe_code :: error_code
  pe_retryability :: retryability
  pe_message :: rstr

definition public_error_new :: "error_code \<Rightarrow> retryability \<Rightarrow> rstr \<Rightarrow> public_error" where
  "public_error_new code retry message =
     \<lparr>pe_code = code, pe_retryability = retry, pe_message = message\<rparr>"

fun for_code :: "error_code \<Rightarrow> public_error" where
  "for_code InvalidRequest =
     public_error_new InvalidRequest Never (lit ''the embedding request is invalid'')"
| "for_code ModelUnavailable =
     public_error_new ModelUnavailable Retryable (lit ''the requested model is unavailable'')"
| "for_code QueueFull =
     public_error_new QueueFull Retryable (lit ''the request queue is full'')"
| "for_code Cancelled =
     public_error_new Cancelled Never (lit ''the request was cancelled'')"
| "for_code DeadlineExceeded =
     public_error_new DeadlineExceeded Never (lit ''the request deadline was exceeded'')"
| "for_code InferenceFailed =
     public_error_new InferenceFailed Unknown (lit ''embedding inference failed'')"
| "for_code Internal =
     public_error_new Internal Unknown (lit ''an internal server error occurred'')"

section \<open>Engine failures\<close>

text \<open>The diagnostic is the text of the boxed source error.\<close>

record engine_failure =
  ef_public :: public_error
  ef_source :: "rstr option"

definition failure :: "error_code \<Rightarrow> engine_failure" where
  "failure code = \<lparr>ef_public = for_code code, ef_source = None\<rparr>"

definition with_source :: "error_code \<Rightarrow> rstr \<Rightarrow> engine_failure" where
  "with_source code diagnostic = \<lparr>ef_public = for_code code, ef_source = Some diagnostic\<rparr>"

definition failure_code :: "engine_failure \<Rightarrow> error_code" where
  "failure_code f = pe_code (ef_public f)"

text \<open>
  What the ordinary formatters show: \<^verbatim>\<open>Display\<close> writes the public message, \<^verbatim>\<open>Debug\<close> the public error and
  whether a diagnostic exists, and \<^verbatim>\<open>Error::source\<close> keeps its default of nothing.
\<close>

definition failure_display :: "engine_failure \<Rightarrow> rstr" where
  "failure_display f = pe_message (ef_public f)"

definition failure_debug :: "engine_failure \<Rightarrow> public_error \<times> bool" where
  "failure_debug f = (ef_public f, ef_source f \<noteq> None)"

definition failure_error_source :: "engine_failure \<Rightarrow> rstr option" where
  "failure_error_source f = None"

definition diagnostic_source :: "engine_failure \<Rightarrow> rstr option" where
  "diagnostic_source f = ef_source f"

section \<open>Lemmas\<close>

lemma pe_code_for_code [simp]: "pe_code (for_code c) = c"
  by (cases c) (simp_all add: public_error_new_def)

lemma failure_code_simps [simp]:
  "failure_code (failure c) = c"
  "failure_code (with_source c d) = c"
  by (simp_all add: failure_code_def failure_def with_source_def)

lemma failure_inj [simp]: "failure c = failure c' \<longleftrightarrow> c = c'"
  by (metis failure_code_simps(1))

lemma error_code_as_str_inj: "error_code_as_str c = error_code_as_str c' \<longleftrightarrow> c = c'"
  by (cases c; cases c') simp_all

lemma for_code_message_inj: "pe_message (for_code c) = pe_message (for_code c') \<longleftrightarrow> c = c'"
  by (cases c; cases c') (simp_all add: public_error_new_def)

end
