(* ===== verification/Batch.thy ===== *)
theory Batch
  imports Errors
begin

text \<open>
  The request-side values of \<^verbatim>\<open>crates/impossible-embedding-core/src/lib.rs\<close>: batch costs with their
  checked arithmetic, options, batches, model names, resolved identities and exact token usage.
\<close>

section \<open>Batch cost\<close>

record batch_cost =
  cost_items :: nat
  cost_tokens :: nat
  cost_max_sequence_length :: nat

definition cost_new :: "nat \<Rightarrow> nat \<Rightarrow> nat \<Rightarrow> engine_failure + batch_cost" where
  "cost_new items tokens max_sequence_length =
     and_then (ok_or (failure InvalidRequest) (checked_mul items max_sequence_length)) (\<lambda>padded_tokens.
       if items = 0 \<or> max_sequence_length = 0 \<or> tokens > padded_tokens
       then Err (failure InvalidRequest)
       else Ok \<lparr>cost_items = items, cost_tokens = tokens,
                cost_max_sequence_length = max_sequence_length\<rparr>)"

definition padded_tokens :: "batch_cost \<Rightarrow> engine_failure + nat" where
  "padded_tokens c =
     ok_or (failure InvalidRequest) (checked_mul (cost_items c) (cost_max_sequence_length c))"

definition combined_padded_tokens :: "batch_cost \<Rightarrow> batch_cost \<Rightarrow> engine_failure + nat" where
  "combined_padded_tokens a b =
     ok_or (failure InvalidRequest)
       (case checked_add (cost_items a) (cost_items b) of
          None \<Rightarrow> None
        | Some items \<Rightarrow>
            checked_mul items (max (cost_max_sequence_length a) (cost_max_sequence_length b)))"

section \<open>Options and batches\<close>

datatype embedding_task = Query | Document

datatype truncation = Reject | Truncate

record embed_options =
  opt_task :: embedding_task
  opt_truncation :: truncation
  opt_dimensions :: "nat option"
  opt_normalize :: "bool option"

definition default_options :: embed_options where
  "default_options =
     \<lparr>opt_task = Document, opt_truncation = Reject, opt_dimensions = None, opt_normalize = None\<rparr>"

datatype model_verification_status = Missing | Invalid | IntegrityVerified | Loadable

text \<open>A batch is its non-empty list of inputs.\<close>

definition batch_new :: "rstr list \<Rightarrow> engine_failure + rstr list" where
  "batch_new inputs = (if inputs = [] then Err (failure InvalidRequest) else Ok inputs)"

text \<open>A requested model is its non-blank name.\<close>

definition requested_model_new :: "rstr \<Rightarrow> engine_failure + rstr" where
  "requested_model_new value =
     (if trim value = [] then Err (failure InvalidRequest) else Ok value)"

section \<open>Resolved identity\<close>

record resolved_identity =
  canonical_id :: rstr
  revision :: rstr
  runtime_name :: rstr
  artifact_fingerprint :: rstr
  semantic_fingerprint :: rstr

definition identity_new ::
  "rstr \<Rightarrow> rstr \<Rightarrow> rstr \<Rightarrow> rstr \<Rightarrow> rstr \<Rightarrow> engine_failure + resolved_identity" where
  "identity_new cid rvn rt art sem =
     (if list_ex (\<lambda>value. trim value = []) [cid, rvn, rt, art, sem]
      then Err (failure Internal)
      else Ok \<lparr>canonical_id = cid, revision = rvn, runtime_name = rt,
               artifact_fingerprint = art, semantic_fingerprint = sem\<rparr>)"

section \<open>Usage\<close>

record embedding_usage =
  usage_input_tokens :: "nat list"
  usage_total_tokens :: nat

definition usage_new :: "nat list \<Rightarrow> engine_failure + embedding_usage" where
  "usage_new input_tokens =
     (if input_tokens = [] then Err (failure InferenceFailed)
      else and_then (ok_or (failure InferenceFailed) (checked_sum_from 0 input_tokens)) (\<lambda>total.
        Ok \<lparr>usage_input_tokens = input_tokens, usage_total_tokens = total\<rparr>))"

text \<open>
  A 32-bit float is its bit pattern: \<^verbatim>\<open>is_finite\<close> holds when the exponent bits are not all ones.
\<close>

type_synonym f32 = "32 word"

definition f32_is_finite :: "f32 \<Rightarrow> bool" where
  "f32_is_finite x \<longleftrightarrow> take_bit 8 (drop_bit 23 x) \<noteq> 255"

record embedding_output =
  out_vectors :: "f32 list list"
  out_model :: resolved_identity
  out_usage :: embedding_usage

section \<open>Well-formedness\<close>

definition wf_cost :: "batch_cost \<Rightarrow> bool" where
  "wf_cost c \<longleftrightarrow> 0 < cost_items c \<and> 0 < cost_max_sequence_length c \<and>
     cost_items c * cost_max_sequence_length c < word_limit \<and>
     cost_tokens c \<le> cost_items c * cost_max_sequence_length c"

definition wf_usage :: "embedding_usage \<Rightarrow> bool" where
  "wf_usage u \<longleftrightarrow> usage_input_tokens u \<noteq> [] \<and>
     usage_total_tokens u = sum_list (usage_input_tokens u) \<and> usage_total_tokens u < word_limit"

section \<open>Lemmas\<close>

lemma cost_new_Ok:
  "cost_new i t m = Ok c \<longleftrightarrow>
     c = \<lparr>cost_items = i, cost_tokens = t, cost_max_sequence_length = m\<rparr> \<and> wf_cost c"
  by (auto simp: cost_new_def wf_cost_def checked_simps result_simps split: if_splits)

lemma cost_new_Err: "cost_new i t m = Err e \<Longrightarrow> e = failure InvalidRequest"
  by (auto simp: cost_new_def result_simps split: if_splits)

lemma padded_tokens_Ok:
  "padded_tokens c = Ok n \<longleftrightarrow>
     n = cost_items c * cost_max_sequence_length c \<and> n < word_limit"
  by (auto simp: padded_tokens_def result_simps checked_simps)

lemma usage_new_Ok:
  "usage_new ts = Ok u \<longleftrightarrow>
     u = \<lparr>usage_input_tokens = ts, usage_total_tokens = sum_list ts\<rparr> \<and> wf_usage u"
  by (auto simp: usage_new_def wf_usage_def result_simps checked_simps)

lemma usage_new_Err:
  "usage_new ts = Err e \<longleftrightarrow>
     e = failure InferenceFailed \<and> (ts = [] \<or> word_limit \<le> sum_list ts)"
  by (auto simp: usage_new_def result_simps checked_sum_from_eq)

lemma requested_model_new_Ok:
  "requested_model_new v = Ok m \<longleftrightarrow> m = v \<and> trim v \<noteq> []"
  by (auto simp: requested_model_new_def)

lemma combined_padded_tokens_Ok:
  "combined_padded_tokens a b = Ok n \<longleftrightarrow>
     n = (cost_items a + cost_items b) *
           max (cost_max_sequence_length a) (cost_max_sequence_length b) \<and>
     cost_items a + cost_items b < word_limit \<and> n < word_limit"
  by (auto simp: combined_padded_tokens_def result_simps checked_simps split: option.splits)

lemma combined_padded_tokens_ge:
  assumes "combined_padded_tokens a b = Ok n"
  shows "cost_items a * cost_max_sequence_length a + cost_items b * cost_max_sequence_length b \<le> n"
proof -
  let ?m = "max (cost_max_sequence_length a) (cost_max_sequence_length b)"
  have "cost_items a * cost_max_sequence_length a \<le> cost_items a * ?m"
    and "cost_items b * cost_max_sequence_length b \<le> cost_items b * ?m"
    by simp_all
  then show ?thesis
    using assms by (simp add: combined_padded_tokens_Ok add_mult_distrib add_mono)
qed

end
