(* ===== verification/Cancel_Tokens.thy ===== *)
theory Cancel_Tokens
  imports Batch
begin

text \<open>
  Cancellation tokens and execution controls of \<^verbatim>\<open>crates/impossible-embedding-core/src/lib.rs\<close>.
  The shared mutable part of a token is its signal; signals live in a heap of cells, addressed by
  position, so that clones of a token alias one cell. A token itself is the immutable tree of
  \<^verbatim>\<open>CancellationState\<close> nodes. A weak reference to a combined token upgrades while its cell is alive.
  Time is a monotonic instant in nanoseconds, passed to every operation that reads the clock.

  The cascade that \<^verbatim>\<open>CancellationSignal::cancel\<close> starts through \<^verbatim>\<open>source_changed\<close> is a depth-first
  recursion; \<open>notify_dependents\<close> keeps its pending calls as an explicit stack, and terminates
  because every signal that is entered was not cancelled before.
\<close>

section \<open>State\<close>

datatype token = Single nat | Any nat "token list" | Composite "control list"
  and control = Control token "nat option" "control list option"

record cell =
  cell_cancelled :: bool
  cell_waiters :: "nat list lock"
  cell_dependents :: "token list lock"
  cell_alive :: bool

type_synonym heap_cells = "cell list"

record heap =
  cells :: heap_cells
  woken :: "nat list"

definition signal_default :: cell where
  "signal_default = \<lparr>cell_cancelled = False, cell_waiters = Held_By_Nobody [],
     cell_dependents = Held_By_Nobody [], cell_alive = True\<rparr>"

text \<open>Every address the program holds is allocated; elsewhere the model reads a fresh signal.\<close>

definition cell_at :: "heap \<Rightarrow> nat \<Rightarrow> cell" where
  "cell_at h i = (if i < length (cells h) then cells h ! i else signal_default)"

definition flagged :: "heap \<Rightarrow> nat \<Rightarrow> bool" where
  "flagged h i = cell_cancelled (cell_at h i)"

definition waiters_of :: "heap \<Rightarrow> nat \<Rightarrow> nat list" where
  "waiters_of h i = lock_list (cell_waiters (cell_at h i))"

definition alive :: "heap \<Rightarrow> nat \<Rightarrow> bool" where
  "alive h i \<longleftrightarrow> i < length (cells h) \<and> cell_alive (cell_at h i)"

fun token_alive :: "heap \<Rightarrow> token \<Rightarrow> bool" where
  "token_alive h (Any i ts) = alive h i"
| "token_alive h (Single i) = alive h i"
| "token_alive h (Composite cs) = True"

text \<open>The live dependents of a signal, as \<^verbatim>\<open>cancel\<close> clones them.\<close>

definition dependents_of :: "heap \<Rightarrow> nat \<Rightarrow> token list" where
  "dependents_of h i = filter (token_alive h) (lock_list (cell_dependents (cell_at h i)))"

fun control_token :: "control \<Rightarrow> token" where
  "control_token (Control t d cs) = t"

lemma control_token_size [termination_simp]:
  "c \<in> set cs \<Longrightarrow> size (control_token c) < size_list size cs"
proof (induction cs)
  case (Cons a cs)
  have "size (control_token a) < size a" by (cases a) simp
  with Cons show ?case by auto
qed simp

section \<open>Reading: is_cancelled and ensure_active\<close>

fun is_cancelled :: "heap \<Rightarrow> nat \<Rightarrow> token \<Rightarrow> bool"
  and ensure_active :: "heap \<Rightarrow> nat \<Rightarrow> control \<Rightarrow> engine_failure + unit" where
  "is_cancelled h now (Single i) = flagged h i"
| "is_cancelled h now (Any i ts) = (flagged h i \<or> list_ex (is_cancelled h now) ts)"
| "is_cancelled h now (Composite cs) = list_all (\<lambda>c. \<not> is_ok (ensure_active h now c)) cs"
| "ensure_active h now (Control t d (Some cs)) =
     (if list_ex (\<lambda>c. is_ok (ensure_active h now c)) cs then Ok ()
      else Err (failure (if list_ex (\<lambda>c. is_cancelled h now (control_token c)) cs
                         then Cancelled else DeadlineExceeded)))"
| "ensure_active h now (Control t d None) =
     (if is_cancelled h now t then Err (failure Cancelled)
      else if (case d of None \<Rightarrow> False | Some deadline \<Rightarrow> deadline \<le> now)
      then Err (failure DeadlineExceeded)
      else Ok ())"

section \<open>Writing: cancel, waiters and dependents\<close>

text \<open>
  The first half of \<^verbatim>\<open>CancellationSignal::cancel\<close>: set the flag, drain and wake the waiters, drop
  the dead dependents.
\<close>

definition mark_cancelled :: "heap \<Rightarrow> nat \<Rightarrow> heap" where
  "mark_cancelled h i =
     h\<lparr>cells := (cells h)[i := (cell_at h i)\<lparr>cell_cancelled := True,
          cell_waiters := lock_update (\<lambda>_. []) (cell_waiters (cell_at h i)),
          cell_dependents := lock_update (filter (token_alive h)) (cell_dependents (cell_at h i))\<rparr>],
        woken := woken h @ waiters_of h i\<rparr>"

definition unflagged_count :: "heap \<Rightarrow> nat" where
  "unflagged_count h = length (filter (\<lambda>c. \<not> cell_cancelled c) (cells h))"

lemma unflagged_count_mark:
  assumes "i < length (cells h)" and "\<not> cell_cancelled (cells h ! i)"
  shows "unflagged_count (mark_cancelled h i) < unflagged_count h"
proof -
  let ?p = "\<lambda>c. \<not> cell_cancelled c"
  have "length (filter ?p (take i (cells h) @ (cells h ! i) # drop (Suc i) (cells h)))
      = Suc (length (filter ?p (take i (cells h))) + length (filter ?p (drop (Suc i) (cells h))))"
    using assms(2) by simp
  then show ?thesis
    using assms(1)
    by (simp add: unflagged_count_def mark_cancelled_def upd_conv_take_nth_drop id_take_nth_drop [symmetric])
qed

text \<open>The second half: every dependent that upgrades runs \<^verbatim>\<open>source_changed\<close>.\<close>

function notify_dependents :: "nat \<Rightarrow> heap \<Rightarrow> token list \<Rightarrow> heap" where
  "notify_dependents now h [] = h"
| "notify_dependents now h (Any i ts # ds) =
     (if alive h i \<and> list_ex (is_cancelled h now) ts \<and> \<not> flagged h i
      then notify_dependents now (mark_cancelled h i) (dependents_of h i @ ds)
      else notify_dependents now h ds)"
| "notify_dependents now h (Single i # ds) = notify_dependents now h ds"
| "notify_dependents now h (Composite cs # ds) = notify_dependents now h ds"
  by pat_completeness auto
termination
  by (relation "measures [\<lambda>(now, h, ds). unflagged_count h, \<lambda>(now, h, ds). length ds]")
    (auto simp: alive_def flagged_def cell_at_def unflagged_count_mark)

declare notify_dependents.simps(2) [simp del]

definition signal_cancel :: "nat \<Rightarrow> heap \<Rightarrow> nat \<Rightarrow> heap" where
  "signal_cancel now h i =
     (if flagged h i \<or> length (cells h) \<le> i then h
      else notify_dependents now (mark_cancelled h i) (dependents_of h i))"

fun source_changed :: "nat \<Rightarrow> heap \<Rightarrow> token \<Rightarrow> heap" where
  "source_changed now h (Any i ts) =
     (if list_ex (is_cancelled h now) ts then signal_cancel now h i else h)"
| "source_changed now h (Single i) = h"
| "source_changed now h (Composite cs) = h"

definition wake :: "heap \<Rightarrow> nat \<Rightarrow> heap" where
  "wake h w = h\<lparr>woken := woken h @ [w]\<rparr>"

definition update_cell :: "heap \<Rightarrow> nat \<Rightarrow> (cell \<Rightarrow> cell) \<Rightarrow> heap" where
  "update_cell h i f = h\<lparr>cells := (cells h)[i := f (cell_at h i)]\<rparr>"

text \<open>\<^verbatim>\<open>will_wake\<close> compares the identity of wakers.\<close>

definition signal_register_waiter :: "heap \<Rightarrow> nat \<Rightarrow> nat \<Rightarrow> heap" where
  "signal_register_waiter h i w =
     (if flagged h i then wake h w
      else let h' = update_cell h i (\<lambda>c. c\<lparr>cell_waiters :=
                 lock_update (\<lambda>ws. if w \<in> set ws then ws else ws @ [w]) (cell_waiters c)\<rparr>)
           in if flagged h' i then wake h' w else h')"

text \<open>\<^verbatim>\<open>Weak::ptr_eq\<close> on combined tokens compares their cells.\<close>

fun ptr_eq :: "token \<Rightarrow> token \<Rightarrow> bool" where
  "ptr_eq (Any i ts) (Any j us) = (i = j)"
| "ptr_eq (Single i) (Single j) = (i = j)"
| "ptr_eq _ _ = False"

text \<open>The locked part of \<^verbatim>\<open>register_dependent\<close>: drop dead entries, then add a new one once.\<close>

definition add_dependent :: "heap \<Rightarrow> nat \<Rightarrow> token \<Rightarrow> heap" where
  "add_dependent h i d = update_cell h i (\<lambda>c. c\<lparr>cell_dependents :=
     lock_update (\<lambda>ds. let live = filter (token_alive h) ds in
                    if list_ex (\<lambda>x. ptr_eq x d) live then live else live @ [d])
       (cell_dependents c)\<rparr>)"

definition signal_register_dependent :: "nat \<Rightarrow> heap \<Rightarrow> nat \<Rightarrow> token \<Rightarrow> heap" where
  "signal_register_dependent now h i d =
     (let h' = add_dependent h i d
      in if flagged h' i \<and> token_alive h' d then source_changed now h' d else h')"

fun register_waiter :: "heap \<Rightarrow> token \<Rightarrow> nat \<Rightarrow> heap" where
  "register_waiter h (Single i) w = signal_register_waiter h i w"
| "register_waiter h (Any i ts) w = signal_register_waiter h i w"
| "register_waiter h (Composite cs) w =
     fold (\<lambda>c h. register_waiter h (control_token c) w) cs h"

fun register_dependent :: "nat \<Rightarrow> heap \<Rightarrow> token \<Rightarrow> token \<Rightarrow> heap" where
  "register_dependent now h (Single i) d = signal_register_dependent now h i d"
| "register_dependent now h (Any i ts) d = signal_register_dependent now h i d"
| "register_dependent now h (Composite cs) d =
     fold (\<lambda>c h. register_dependent now h (control_token c) d) cs h"

fun token_cancel :: "nat \<Rightarrow> heap \<Rightarrow> token \<Rightarrow> heap" where
  "token_cancel now h (Single i) = signal_cancel now h i"
| "token_cancel now h (Any i ts) = signal_cancel now h i"
| "token_cancel now h (Composite cs) =
     fold (\<lambda>c h. token_cancel now h (control_token c)) cs h"

definition token_default :: "heap \<Rightarrow> heap \<times> token" where
  "token_default h = (h\<lparr>cells := cells h @ [signal_default]\<rparr>, Single (length (cells h)))"

definition token_any :: "nat \<Rightarrow> heap \<Rightarrow> token list \<Rightarrow> heap \<times> token" where
  "token_any now h constituents =
     (let combined = Any (length (cells h)) constituents;
          h1 = h\<lparr>cells := cells h @ [signal_default]\<rparr>;
          h2 = fold (\<lambda>t h. register_dependent now h t combined) constituents h1
      in (source_changed now h2 combined, combined))"

text \<open>One poll of \<^verbatim>\<open>cancelled()\<close>: whether it is ready, and the heap after registering the waker.\<close>

definition poll_cancelled :: "nat \<Rightarrow> heap \<Rightarrow> token \<Rightarrow> nat \<Rightarrow> heap \<times> bool" where
  "poll_cancelled now h t w =
     (if is_cancelled h now t then (h, True)
      else let h' = register_waiter h t w in (h', is_cancelled h' now t))"

text \<open>Dropping the last strong reference to a combined token.\<close>

definition drop_token :: "heap \<Rightarrow> nat \<Rightarrow> heap" where
  "drop_token h i = update_cell h i (\<lambda>c. c\<lparr>cell_alive := False\<rparr>)"

section \<open>Controls and execution\<close>

definition control_new :: "token \<Rightarrow> nat option \<Rightarrow> control" where
  "control_new t deadline = Control t deadline None"

definition control_composite :: "control list \<Rightarrow> control" where
  "control_composite cs = Control (Composite cs) None (Some cs)"

text \<open>
  \<^verbatim>\<open>execute_embedding\<close>: the engine runs between two reads of the control, which may see different
  heaps and instants; \<open>result\<close> is what the engine returned.
\<close>

definition execute_embedding ::
  "heap \<times> nat \<Rightarrow> engine_failure + 'a \<Rightarrow> heap \<times> nat \<Rightarrow> control \<Rightarrow> engine_failure + 'a" where
  "execute_embedding before result after c =
     and_then (ensure_active (fst before) (snd before) c) (\<lambda>_.
     and_then (ensure_active (fst after) (snd after) c) (\<lambda>_. result))"

section \<open>Addresses\<close>

fun token_addrs :: "token \<Rightarrow> nat set"
  and control_addrs :: "control \<Rightarrow> nat set" where
  "token_addrs (Single i) = {i}"
| "token_addrs (Any i ts) = insert i (\<Union>t \<in> set ts. token_addrs t)"
| "token_addrs (Composite cs) = (\<Union>c \<in> set cs. control_addrs c)"
| "control_addrs (Control t d None) = token_addrs t"
| "control_addrs (Control t d (Some cs)) = token_addrs t \<union> (\<Union>c \<in> set cs. control_addrs c)"

text \<open>The constituents through which a signal reaches a combined token directly.\<close>

definition direct :: "nat \<Rightarrow> token list \<Rightarrow> bool" where
  "direct i ts \<longleftrightarrow> (\<exists>t \<in> set ts. t = Single i \<or> (\<exists>us. t = Any i us))"

section \<open>Invariants\<close>

text \<open>Dependents are combined tokens created after the signal they depend on.\<close>

definition ranked :: "heap \<Rightarrow> bool" where
  "ranked h \<longleftrightarrow> (\<forall>i. \<forall>d \<in> set (lock_list (cell_dependents (cell_at h i))).
     \<exists>k ts. d = Any k ts \<and> i < k \<and> k < length (cells h))"

text \<open>
  A cancelled signal has cancelled every live combined token that depends on it directly, up to
  those still waiting in the work list.
\<close>

definition coherent_upto :: "heap \<Rightarrow> token list \<Rightarrow> bool" where
  "coherent_upto h work \<longleftrightarrow> (\<forall>i k ts. flagged h i \<longrightarrow> Any k ts \<in> set (dependents_of h i) \<longrightarrow>
     direct i ts \<longrightarrow> flagged h k \<or> Any k ts \<in> set work)"

definition drained :: "heap \<Rightarrow> bool" where
  "drained h \<longleftrightarrow> (\<forall>i. flagged h i \<longrightarrow> waiters_of h i = [])"

definition heap_ok :: "heap \<Rightarrow> bool" where
  "heap_ok h \<longleftrightarrow> ranked h \<and> coherent_upto h [] \<and> drained h"

definition flags_le :: "heap \<Rightarrow> heap \<Rightarrow> bool" where
  "flags_le h h' \<longleftrightarrow> (\<forall>i. flagged h i \<longrightarrow> flagged h' i)"

text \<open>The wiring of the heap: what a cancellation never changes.\<close>

definition same_graph :: "heap \<Rightarrow> heap \<Rightarrow> bool" where
  "same_graph h h' \<longleftrightarrow> length (cells h') = length (cells h) \<and>
     alive h' = alive h \<and> dependents_of h' = dependents_of h"

text \<open>No waker disappears without being woken.\<close>

definition waiters_kept :: "heap \<Rightarrow> heap \<Rightarrow> bool" where
  "waiters_kept h h' \<longleftrightarrow> set (woken h) \<subseteq> set (woken h') \<and>
     (\<forall>i w. w \<in> set (waiters_of h i) \<longrightarrow> w \<in> set (waiters_of h' i) \<or> w \<in> set (woken h'))"

section \<open>Reading lemmas\<close>

lemma flags_le_refl [simp]: "flags_le h h"
  by (simp add: flags_le_def)

lemma flags_le_trans [trans]: "flags_le h h' \<Longrightarrow> flags_le h' h'' \<Longrightarrow> flags_le h h''"
  by (simp add: flags_le_def)

lemma is_cancelled_ensure_active_mono:
  "flags_le h h' \<Longrightarrow> now \<le> now' \<Longrightarrow> is_cancelled h now t \<Longrightarrow> is_cancelled h' now' t"
  "flags_le h h' \<Longrightarrow> now \<le> now' \<Longrightarrow> is_ok (ensure_active h' now' c) \<Longrightarrow> is_ok (ensure_active h now c)"
proof (induction h now t and h now c rule: is_cancelled_ensure_active.induct)
  case (4 h now t d cs)
  then show ?case by (auto simp: list_ex_iff split: if_splits)
next
  case (5 h now t d)
  then show ?case by (auto split: if_splits option.splits)
qed (auto simp: flags_le_def list_ex_iff list_all_iff)

lemma control_cases:
  obtains t d where "c = Control t d None" | t d cs where "c = Control t d (Some cs)"
  by (metis control.exhaust option.exhaust)

lemma control_token_addrs: "token_addrs (control_token c) \<subseteq> control_addrs c"
  by (cases c rule: control_cases) auto

lemma is_cancelled_ensure_active_cong:
  "(\<And>i. i \<in> token_addrs t \<Longrightarrow> flagged h i = flagged h' i) \<Longrightarrow>
     is_cancelled h now t = is_cancelled h' now t"
  "(\<And>i. i \<in> control_addrs c \<Longrightarrow> flagged h i = flagged h' i) \<Longrightarrow>
     ensure_active h now c = ensure_active h' now c"
proof (induction h now t and h now c rule: is_cancelled_ensure_active.induct)
  case (2 h now i ts)
  then have "list_ex (is_cancelled h now) ts = list_ex (is_cancelled h' now) ts"
    by (intro list_ex_cong) auto
  with 2 show ?case by simp
next
  case (3 h now cs)
  then have "ensure_active h now c = ensure_active h' now c" if "c \<in> set cs" for c
    using that by auto
  then have "list_all (\<lambda>c. \<not> is_ok (ensure_active h now c)) cs =
      list_all (\<lambda>c. \<not> is_ok (ensure_active h' now c)) cs"
    by (intro list_all_cong) auto
  then show ?case by simp
next
  case (4 h now t d cs)
  have active: "ensure_active h now c = ensure_active h' now c" if "c \<in> set cs" for c
    using that 4 by auto
  then have *: "list_ex (\<lambda>c. is_ok (ensure_active h now c)) cs =
      list_ex (\<lambda>c. is_ok (ensure_active h' now c)) cs"
    by (intro list_ex_cong) auto
  show ?case
  proof (cases "list_ex (\<lambda>c. is_ok (ensure_active h now c)) cs")
    case True
    with * show ?thesis by simp
  next
    case False
    have "is_cancelled h now (control_token c) = is_cancelled h' now (control_token c)"
      if "c \<in> set cs" for c
      using that control_token_addrs [of c] by (intro 4(2) False 4(3)) auto
    then have "list_ex (\<lambda>c. is_cancelled h now (control_token c)) cs =
        list_ex (\<lambda>c. is_cancelled h' now (control_token c)) cs"
      by (intro list_ex_cong) auto
    with * show ?thesis by simp
  qed
qed auto

lemma direct_is_cancelled: "direct i ts \<Longrightarrow> flagged h i \<Longrightarrow> list_ex (is_cancelled h now) ts"
  unfolding direct_def list_ex_iff by force

lemma ensure_active_codes:
  "ensure_active h now c = Err e \<Longrightarrow> e = failure Cancelled \<or> e = failure DeadlineExceeded"
  by (cases c rule: control_cases) (auto split: if_splits option.splits)

section \<open>Cancelling one cell\<close>

lemma length_cells_mark [simp]: "length (cells (mark_cancelled h i)) = length (cells h)"
  by (simp add: mark_cancelled_def)

lemma cell_at_mark:
  "cell_at (mark_cancelled h i) j =
     (if j = i \<and> i < length (cells h)
      then (cell_at h i)\<lparr>cell_cancelled := True,
          cell_waiters := lock_update (\<lambda>_. []) (cell_waiters (cell_at h i)),
          cell_dependents := lock_update (filter (token_alive h)) (cell_dependents (cell_at h i))\<rparr>
      else cell_at h j)"
  by (auto simp: mark_cancelled_def cell_at_def nth_upd)

lemma alive_mark [simp]: "alive (mark_cancelled h i) = alive h"
  by (auto simp: fun_eq_iff alive_def cell_at_mark)

lemma token_alive_cong: "alive h = alive h' \<Longrightarrow> token_alive h = token_alive h'"
proof
  fix t assume "alive h = alive h'"
  then show "token_alive h t = token_alive h' t" by (cases t) simp_all
qed

lemma token_alive_mark [simp]: "token_alive (mark_cancelled h i) = token_alive h"
  by (rule token_alive_cong) simp

lemma dependents_of_mark: "dependents_of (mark_cancelled h i) = dependents_of h"
  by (auto simp: fun_eq_iff dependents_of_def cell_at_mark)

lemma same_graph_mark: "same_graph h (mark_cancelled h i)"
  by (simp add: same_graph_def dependents_of_mark)

lemma flagged_mark:
  "flagged (mark_cancelled h i) j \<longleftrightarrow> flagged h j \<or> (j = i \<and> i < length (cells h))"
  by (auto simp: flagged_def cell_at_mark)

lemma waiters_of_mark:
  "waiters_of (mark_cancelled h i) j =
     (if j = i \<and> i < length (cells h) then [] else waiters_of h j)"
  by (auto simp: waiters_of_def cell_at_mark)

lemma woken_mark: "woken (mark_cancelled h i) = woken h @ waiters_of h i"
  by (simp add: mark_cancelled_def)

lemma waiters_kept_mark: "waiters_kept h (mark_cancelled h i)"
  by (auto simp: waiters_kept_def waiters_of_mark woken_mark)

lemma drained_mark: "drained h \<Longrightarrow> drained (mark_cancelled h i)"
  by (auto simp: drained_def flagged_mark waiters_of_mark)

lemma coherent_mark:
  assumes "coherent_upto h (work @ rest)" and "\<And>k ts. Any k ts \<in> set work \<Longrightarrow> k = i"
    and "i < length (cells h)"
  shows "coherent_upto (mark_cancelled h i) (dependents_of h i @ rest)"
  using assms unfolding coherent_upto_def
  by (auto simp: flagged_mark dependents_of_mark) blast

section \<open>The cascade\<close>

lemma same_graph_refl [simp]: "same_graph h h"
  by (simp add: same_graph_def)

lemma same_graph_trans [trans]: "same_graph h h' \<Longrightarrow> same_graph h' h'' \<Longrightarrow> same_graph h h''"
  by (simp add: same_graph_def)

lemma waiters_kept_refl [simp]: "waiters_kept h h"
  by (simp add: waiters_kept_def)

lemma waiters_kept_trans [trans]:
  "waiters_kept h h' \<Longrightarrow> waiters_kept h' h'' \<Longrightarrow> waiters_kept h h''"
  unfolding waiters_kept_def by blast

lemma flags_le_mark [simp]: "flags_le h (mark_cancelled h i)"
  by (simp add: flags_le_def flagged_mark)

lemmas mark_lemmas = same_graph_mark waiters_kept_mark flags_le_mark drained_mark

lemma notify_preserves:
  "same_graph h (notify_dependents now h ds) \<and> waiters_kept h (notify_dependents now h ds) \<and>
   flags_le h (notify_dependents now h ds) \<and> (drained h \<longrightarrow> drained (notify_dependents now h ds))"
proof (induction now h ds rule: notify_dependents.induct)
  case (2 now h i ts ds)
  show ?case
    using 2 mark_lemmas [of h i]
    by (auto simp: notify_dependents.simps(2) [of now h i ts ds]
        intro: same_graph_trans waiters_kept_trans flags_le_trans [OF flags_le_mark])
qed simp_all

lemma notify_coherent:
  "coherent_upto h ds \<Longrightarrow> coherent_upto (notify_dependents now h ds) []"
proof (induction now h ds rule: notify_dependents.induct)
  case (2 now h i ts ds)
  show ?case
  proof (cases "alive h i \<and> list_ex (is_cancelled h now) ts \<and> \<not> flagged h i")
    case True
    then have "coherent_upto (mark_cancelled h i) (dependents_of h i @ ds)"
      using coherent_mark [of h "[Any i ts]" ds i] 2(3) by (simp add: alive_def)
    with True 2(1) show ?thesis
      by (simp add: notify_dependents.simps(2))
  next
    case False
    have "coherent_upto h ds"
      unfolding coherent_upto_def
    proof (intro allI impI)
      fix j k us
      assume *: "flagged h j" "Any k us \<in> set (dependents_of h j)" "direct j us"
      have "alive h k"
        using *(2) by (simp add: dependents_of_def)
      moreover have "list_ex (is_cancelled h now) us"
        using * by (simp add: direct_is_cancelled)
      moreover have "flagged h k \<or> Any k us \<in> set (Any i ts # ds)"
        using * 2(3) by (simp add: coherent_upto_def)
      ultimately show "flagged h k \<or> Any k us \<in> set ds"
        using False by auto
    qed
    with 2(2) [OF False] show ?thesis
      by (subst notify_dependents.simps(2)) (simp only: False if_False)
  qed
qed (auto simp: coherent_upto_def)

text \<open>Only cells above a bound that holds for the work list and the heap are touched.\<close>

lemma rankedD:
  "ranked h \<Longrightarrow> d \<in> set (lock_list (cell_dependents (cell_at h i))) \<Longrightarrow>
     \<exists>k ts. d = Any k ts \<and> i < k \<and> k < length (cells h)"
  unfolding ranked_def by blast

lemma dependents_above:
  "ranked h \<Longrightarrow> d \<in> set (dependents_of h i) \<Longrightarrow> \<exists>k ts. d = Any k ts \<and> i < k \<and> k < length (cells h)"
  unfolding ranked_def dependents_of_def by fastforce

lemma notify_above:
  assumes "\<And>i d. d \<in> set (dependents_of h i) \<Longrightarrow> \<exists>k ts. d = Any k ts \<and> i < k"
    and "\<And>k ts. Any k ts \<in> set ds \<Longrightarrow> b < k"
    and "flagged (notify_dependents now h ds) j"
  shows "flagged h j \<or> b < j"
  using assms
proof (induction now h ds rule: notify_dependents.induct)
  case (2 now h i ts ds)
  show ?case
  proof (cases "alive h i \<and> list_ex (is_cancelled h now) ts \<and> \<not> flagged h i")
    case True
    have "b < k" if "Any k us \<in> set (dependents_of h i @ ds)" for k us
      using that 2(3) [of "Any k us" i] 2(4) [of i ts] 2(4) [of k us] by auto
    moreover have "flagged (notify_dependents now (mark_cancelled h i) (dependents_of h i @ ds)) j"
      using 2(5) True by (simp add: notify_dependents.simps(2))
    ultimately have "flagged (mark_cancelled h i) j \<or> b < j"
      using 2(1) [OF True] 2(3) by (simp add: dependents_of_mark)
    moreover have "b < i"
      using 2(4) [of i ts] by simp
    ultimately show ?thesis by (auto simp: flagged_mark)
  next
    case False
    with 2 show ?thesis by (auto simp: notify_dependents.simps(2))
  qed
qed auto

section \<open>Cancelling a signal\<close>

lemma signal_cancel_preserves:
  "same_graph h (signal_cancel now h i) \<and> waiters_kept h (signal_cancel now h i) \<and>
   flags_le h (signal_cancel now h i) \<and> (drained h \<longrightarrow> drained (signal_cancel now h i))"
  using notify_preserves [of "mark_cancelled h i" now "dependents_of h i"] mark_lemmas [of h i]
  by (auto simp: signal_cancel_def
      intro: same_graph_trans waiters_kept_trans flags_le_trans [OF flags_le_mark])

lemma signal_cancel_flagged:
  "i < length (cells h) \<Longrightarrow> flagged (signal_cancel now h i) i"
  using notify_preserves [of "mark_cancelled h i" now "dependents_of h i"]
  by (auto simp: signal_cancel_def flags_le_def flagged_mark)

lemma signal_cancel_coherent:
  assumes "coherent_upto h work" and "\<And>k ts. Any k ts \<in> set work \<Longrightarrow> k = i"
    and "i < length (cells h)"
  shows "coherent_upto (signal_cancel now h i) []"
proof (cases "flagged h i")
  case True
  with assms show ?thesis
    unfolding signal_cancel_def coherent_upto_def by auto metis
next
  case False
  have "coherent_upto (mark_cancelled h i) (dependents_of h i)"
    using coherent_mark [of h work "[]" i] assms by simp
  with False assms(3) show ?thesis
    by (simp add: signal_cancel_def notify_coherent)
qed

lemma ranked_cells_cong:
  assumes "ranked h" and "length (cells h') = length (cells h)"
    and "\<And>i. set (lock_list (cell_dependents (cell_at h' i))) \<subseteq>
           set (lock_list (cell_dependents (cell_at h i)))"
  shows "ranked h'"
  using assms unfolding ranked_def by (metis subsetD)

lemma ranked_mark: "ranked h \<Longrightarrow> ranked (mark_cancelled h i)"
  by (rule ranked_cells_cong) (auto simp: cell_at_mark)

lemma ranked_notify: "ranked h \<Longrightarrow> ranked (notify_dependents now h ds)"
  by (induction now h ds rule: notify_dependents.induct)
    (auto simp: ranked_mark notify_dependents.simps(2))

lemma ranked_signal_cancel: "ranked h \<Longrightarrow> ranked (signal_cancel now h i)"
  by (simp add: signal_cancel_def ranked_mark ranked_notify)

lemma signal_cancel_frame:
  assumes "ranked h" and "j < i"
  shows "flagged (signal_cancel now h i) j = flagged h j"
proof -
  have "flagged (mark_cancelled h i) j \<or> i < j"
    if "flagged (notify_dependents now (mark_cancelled h i) (dependents_of h i)) j"
    using that
  proof (rule notify_above [rotated 2])
    show "\<exists>k ts. d = Any k ts \<and> i' < k" if "d \<in> set (dependents_of (mark_cancelled h i) i')" for i' d
      using that dependents_above [OF assms(1)] by (metis dependents_of_mark)
    show "i < k" if "Any k ts \<in> set (dependents_of h i)" for k ts
      using that dependents_above [OF assms(1), of "Any k ts" i] by auto
  qed
  then have "flagged (signal_cancel now h i) j \<Longrightarrow> flagged h j"
    using assms(2) by (auto simp: signal_cancel_def flagged_mark split: if_splits)
  moreover have "flagged h j \<Longrightarrow> flagged (signal_cancel now h i) j"
    using signal_cancel_preserves [of h now i] by (simp add: flags_le_def)
  ultimately show ?thesis by blast
qed

lemma heap_ok_signal_cancel:
  assumes "heap_ok h"
  shows "heap_ok (signal_cancel now h i)"
proof (cases "i < length (cells h)")
  case True
  with assms show ?thesis
    using signal_cancel_coherent [of h "[]" i now] signal_cancel_preserves [of h now i]
    by (simp add: heap_ok_def ranked_signal_cancel)
next
  case False
  with assms show ?thesis by (simp add: signal_cancel_def)
qed

text \<open>A second cancellation of the same signal does nothing.\<close>

lemma signal_cancel_idem:
  "signal_cancel now' (signal_cancel now h i) i = signal_cancel now h i"
proof (cases "i < length (cells h)")
  case True
  then show ?thesis
    using signal_cancel_flagged [OF True, of now] by (simp add: signal_cancel_def [of now'])
next
  case False
  then show ?thesis by (simp add: signal_cancel_def)
qed

text \<open>Every waiter of a live combined token is woken when a direct constituent is cancelled.\<close>

lemma signal_cancel_wakes:
  assumes ok: "heap_ok h" and i: "i < length (cells h)"
    and dep: "Any k ts \<in> set (dependents_of h i)" and dir: "direct i ts"
    and w: "w \<in> set (waiters_of h k)"
  shows "flagged (signal_cancel now h i) k \<and> w \<in> set (woken (signal_cancel now h i))"
proof -
  let ?h = "signal_cancel now h i"
  have ok': "heap_ok ?h" using ok by (rule heap_ok_signal_cancel)
  have "Any k ts \<in> set (dependents_of ?h i)"
    using dep signal_cancel_preserves [of h now i] by (simp add: same_graph_def)
  then have k: "flagged ?h k"
    using ok' dir signal_cancel_flagged [OF i, of now] by (auto simp: heap_ok_def coherent_upto_def)
  with ok' have "waiters_of ?h k = []"
    by (simp add: heap_ok_def drained_def)
  then have "w \<in> set (woken ?h)"
    using w signal_cancel_preserves [of h now i] unfolding waiters_kept_def by fastforce
  with k show ?thesis by simp
qed

section \<open>Registration\<close>

lemma update_cell_simps [simp]:
  "length (cells (update_cell h i f)) = length (cells h)"
  "woken (update_cell h i f) = woken h"
  "cell_at (update_cell h i f) j =
     (if j = i \<and> i < length (cells h) then f (cell_at h i) else cell_at h j)"
  by (auto simp: update_cell_def cell_at_def nth_upd)

lemma signal_register_dependent_alt:
  "signal_register_dependent now h i d =
     (if flagged h i \<and> token_alive h d then source_changed now (add_dependent h i d) d
      else add_dependent h i d)"
proof -
  have "flagged (add_dependent h i d) i = flagged h i" "alive (add_dependent h i d) = alive h"
    by (auto simp: add_dependent_def flagged_def alive_def fun_eq_iff)
  then show ?thesis
    using token_alive_cong [of "add_dependent h i d" h]
    by (simp add: signal_register_dependent_def Let_def)
qed

lemma add_dependent_simps [simp]:
  "length (cells (add_dependent h i d)) = length (cells h)"
  "flagged (add_dependent h i d) = flagged h"
  "alive (add_dependent h i d) = alive h"
  "waiters_of (add_dependent h i d) = waiters_of h"
  "woken (add_dependent h i d) = woken h"
  by (simp_all add: add_dependent_def flagged_def alive_def waiters_of_def fun_eq_iff)

lemma token_alive_add_dependent [simp]: "token_alive (add_dependent h i d) = token_alive h"
  by (rule token_alive_cong) simp

lemma add_dependent_rawD:
  "x \<in> set (lock_list (cell_dependents (cell_at (add_dependent h i d) j))) \<Longrightarrow>
     x \<in> set (lock_list (cell_dependents (cell_at h j))) \<or> (x = d \<and> j = i)"
  by (cases "cell_dependents (cell_at h i)")
    (auto simp: add_dependent_def Let_def split: if_splits)

lemma add_dependent_dependentsD:
  "x \<in> set (dependents_of (add_dependent h i d) j) \<Longrightarrow>
     x \<in> set (dependents_of h j) \<or> (x = d \<and> j = i \<and> token_alive h d)"
  using add_dependent_rawD [of x h i d j] by (auto simp: dependents_of_def)

lemma ranked_add_dependent:
  assumes "ranked h" and "i < k" and "k < length (cells h)"
  shows "ranked (add_dependent h i (Any k ts))"
  unfolding ranked_def
proof (intro allI ballI)
  fix j d
  assume "d \<in> set (lock_list (cell_dependents (cell_at (add_dependent h i (Any k ts)) j)))"
  then consider "d \<in> set (lock_list (cell_dependents (cell_at h j)))" | "d = Any k ts" "j = i"
    by (metis add_dependent_rawD)
  then show "\<exists>k' us. d = Any k' us \<and> j < k' \<and> k' < length (cells (add_dependent h i (Any k ts)))"
    using assms by cases (auto simp: ranked_def)
qed

lemma heap_ok_register_signal:
  assumes ok: "heap_ok h" and k: "i < k" "k < length (cells h)"
  shows "heap_ok (signal_register_dependent now h i (Any k ts))"
proof -
  let ?h = "add_dependent h i (Any k ts)"
  have r: "ranked ?h" and d: "drained ?h"
    using ok k by (simp_all add: heap_ok_def ranked_add_dependent drained_def)
  have up: "coherent_upto ?h [Any k ts]"
    using ok unfolding heap_ok_def coherent_upto_def
    by (auto dest: add_dependent_dependentsD)
  have quiet: "coherent_upto ?h []"
    if "\<not> (flagged h i \<and> alive h k \<and> list_ex (is_cancelled ?h now) ts)"
    unfolding coherent_upto_def
  proof (intro allI impI)
    fix j k' us
    assume *: "flagged ?h j" "Any k' us \<in> set (dependents_of ?h j)" "direct j us"
    then have "Any k' us \<in> set (dependents_of h j) \<or> (j = i \<and> alive h k \<and> k' = k \<and> us = ts)"
      by (auto dest: add_dependent_dependentsD)
    then show "flagged ?h k' \<or> Any k' us \<in> set []"
      using that * ok direct_is_cancelled [of j us ?h now]
      by (auto simp: heap_ok_def coherent_upto_def)
  qed
  show ?thesis
  proof (cases "flagged h i \<and> alive h k \<and> list_ex (is_cancelled ?h now) ts")
    case True
    then have "signal_register_dependent now h i (Any k ts) = signal_cancel now ?h k"
      by (simp add: signal_register_dependent_alt)
    moreover have "heap_ok (signal_cancel now ?h k)"
      using signal_cancel_coherent [OF up, of k now] signal_cancel_preserves [of ?h now k] k r d
      by (simp add: heap_ok_def ranked_signal_cancel)
    ultimately show ?thesis by simp
  next
    case False
    then have "signal_register_dependent now h i (Any k ts) = ?h"
      by (auto simp: signal_register_dependent_alt)
    with False r d quiet show ?thesis by (simp add: heap_ok_def)
  qed
qed

section \<open>Combining tokens\<close>

definition new_cell :: "heap \<Rightarrow> heap" where
  "new_cell h = h\<lparr>cells := cells h @ [signal_default]\<rparr>"

lemma token_default_alt: "token_default h = (new_cell h, Single (length (cells h)))"
  by (simp add: token_default_def new_cell_def)

lemma new_cell_simps [simp]:
  "length (cells (new_cell h)) = Suc (length (cells h))"
  "cell_at (new_cell h) i = cell_at h i"
  "flagged (new_cell h) = flagged h"
  "waiters_of (new_cell h) = waiters_of h"
  "woken (new_cell h) = woken h"
  "alive (new_cell h) i \<longleftrightarrow> alive h i \<or> i = length (cells h)"
  by (auto simp: new_cell_def cell_at_def flagged_def waiters_of_def alive_def fun_eq_iff nth_append
      signal_default_def)

lemma cell_at_beyond: "length (cells h) \<le> i \<Longrightarrow> cell_at h i = signal_default"
  by (simp add: cell_at_def)

lemma dependents_of_new_cell: "ranked h \<Longrightarrow> dependents_of (new_cell h) = dependents_of h"
proof
  fix i
  assume r: "ranked h"
  show "dependents_of (new_cell h) i = dependents_of h i"
    unfolding dependents_of_def
  proof (rule filter_cong)
    fix d assume "d \<in> set (lock_list (cell_dependents (cell_at h i)))"
    with r obtain k ts where "d = Any k ts" "k < length (cells h)"
      using rankedD by blast
    then show "token_alive (new_cell h) d = token_alive h d" by simp
  qed simp
qed

lemma ranked_new_cell: "ranked h \<Longrightarrow> ranked (new_cell h)"
  unfolding ranked_def
proof (intro allI ballI)
  fix i d
  assume r: "\<forall>i. \<forall>d \<in> set (lock_list (cell_dependents (cell_at h i))).
      \<exists>k ts. d = Any k ts \<and> i < k \<and> k < length (cells h)"
    and "d \<in> set (lock_list (cell_dependents (cell_at (new_cell h) i)))"
  then have "d \<in> set (lock_list (cell_dependents (cell_at h i)))" by simp
  with r obtain k ts where "d = Any k ts" "i < k" "k < length (cells h)" by blast
  then show "\<exists>k ts. d = Any k ts \<and> i < k \<and> k < length (cells (new_cell h))" by auto
qed

lemma heap_ok_new_cell: "heap_ok h \<Longrightarrow> heap_ok (new_cell h)"
  unfolding heap_ok_def drained_def coherent_upto_def
  by (simp add: dependents_of_new_cell ranked_new_cell)

text \<open>What holds of the heap while the combined token of cell \<open>n\<close> registers with its constituents.\<close>

definition registering :: "nat \<Rightarrow> heap \<Rightarrow> nat \<Rightarrow> token list \<Rightarrow> heap \<Rightarrow> bool" where
  "registering now h0 n ts h \<longleftrightarrow> heap_ok h \<and> length (cells h) = Suc n \<and> alive h = alive (new_cell h0) \<and>
     (\<forall>j < n. flagged h j = flagged h0 j) \<and> (flagged h n \<longrightarrow> list_ex (is_cancelled h0 now) ts) \<and>
     waiters_kept h0 h \<and>
     (\<forall>j us. Any n us \<in> set (lock_list (cell_dependents (cell_at h j))) \<longrightarrow> us = ts) \<and>
     (\<forall>j x. x \<in> set (dependents_of h0 j) \<longrightarrow> x \<in> set (dependents_of h j))"

lemma registering_is_cancelled:
  assumes "registering now h0 n ts h" and "\<And>t. t \<in> set ts \<Longrightarrow> token_addrs t \<subseteq> {..<n}"
  shows "list_ex (is_cancelled h now') ts = list_ex (is_cancelled h0 now') ts"
proof (rule list_ex_cong)
  fix t assume "t \<in> set ts"
  then show "is_cancelled h now' t = is_cancelled h0 now' t"
    using assms by (intro is_cancelled_ensure_active_cong(1)) (auto simp: registering_def)
qed simp

lemma registering_start:
  assumes "heap_ok h0" and "n = length (cells h0)"
  shows "registering now h0 n ts (new_cell h0)"
proof -
  have "ranked h0" using assms(1) by (simp add: heap_ok_def)
  then have "Any n us \<notin> set (lock_list (cell_dependents (cell_at h0 j)))" for us j
    using assms(2) by (fastforce simp: ranked_def)
  moreover have "\<not> flagged h0 n"
    using assms(2) by (simp add: flagged_def cell_at_beyond signal_default_def)
  ultimately show ?thesis
    using assms \<open>ranked h0\<close>
    by (simp add: registering_def heap_ok_new_cell waiters_kept_def dependents_of_new_cell)
qed

lemma raw_signal_cancel:
  "set (lock_list (cell_dependents (cell_at (signal_cancel now h i) j))) \<subseteq>
     set (lock_list (cell_dependents (cell_at h j)))"
proof -
  have n: "set (lock_list (cell_dependents (cell_at (notify_dependents now h ds) j))) \<subseteq>
      set (lock_list (cell_dependents (cell_at h j)))" for h ds
  proof (induction now h ds rule: notify_dependents.induct)
    case (2 now h i ts ds)
    have "set (lock_list (cell_dependents (cell_at (mark_cancelled h i) j))) \<subseteq>
        set (lock_list (cell_dependents (cell_at h j)))"
      by (auto simp: cell_at_mark)
    with 2 show ?case by (auto simp: notify_dependents.simps(2))
  qed simp_all
  have "set (lock_list (cell_dependents (cell_at (mark_cancelled h i) j))) \<subseteq>
      set (lock_list (cell_dependents (cell_at h j)))"
    by (auto simp: cell_at_mark)
  then show ?thesis
    using n [of "mark_cancelled h i"] by (auto simp: signal_cancel_def)
qed

lemma add_dependent_raw_keeps:
  "x \<in> set (lock_list (cell_dependents (cell_at h j))) \<Longrightarrow> token_alive h x \<Longrightarrow>
     x \<in> set (lock_list (cell_dependents (cell_at (add_dependent h i d) j)))"
  by (cases "cell_dependents (cell_at h i)") (auto simp: add_dependent_def Let_def)

lemma add_dependent_keeps:
  "x \<in> set (dependents_of h j) \<Longrightarrow> x \<in> set (dependents_of (add_dependent h i d) j)"
  by (simp add: dependents_of_def add_dependent_raw_keeps)

lemma add_dependent_adds:
  assumes "i < length (cells h)" and "cell_dependents (cell_at h i) \<noteq> Poisoned" and "alive h k"
    and "\<And>us. Any k us \<in> set (lock_list (cell_dependents (cell_at h i))) \<Longrightarrow> us = ts"
  shows "Any k ts \<in> set (dependents_of (add_dependent h i (Any k ts)) i)"
proof -
  obtain ds where ds: "cell_dependents (cell_at h i) = Held_By_Nobody ds"
    using assms(2) by (cases "cell_dependents (cell_at h i)") auto
  have "x = Any k ts" if "x \<in> set ds" "ptr_eq x (Any k ts)" for x
    using that assms(4) ds by (cases x rule: token.exhaust) auto
  then show ?thesis
    using assms(1,3) ds
    by (auto simp: dependents_of_def) (auto simp: add_dependent_def Let_def list_ex_iff)
qed

lemma waiters_kept_add_dependent [simp]: "waiters_kept h0 (add_dependent h i d) = waiters_kept h0 h"
  by (simp add: waiters_kept_def)

lemma registering_signal:
  assumes reg: "registering now h0 n ts h" and i: "i < n"
    and ts: "\<And>t. t \<in> set ts \<Longrightarrow> token_addrs t \<subseteq> {..<n}"
  shows "registering now h0 n ts (signal_register_dependent now h i (Any n ts))"
proof -
  let ?a = "add_dependent h i (Any n ts)"
  let ?r = "signal_register_dependent now h i (Any n ts)"
  have ok: "heap_ok h" and n: "n < length (cells h)"
    using reg by (simp_all add: registering_def)
  have okr: "heap_ok ?r" using ok i n by (rule heap_ok_register_signal)
  have ra: "ranked ?a" using ok i n by (simp add: heap_ok_def ranked_add_dependent)
  have a: "length (cells ?a) = Suc n" "alive ?a = alive (new_cell h0)"
    "\<forall>j < n. flagged ?a j = flagged h0 j" "waiters_kept h0 ?a"
    "\<forall>j x. x \<in> set (dependents_of h0 j) \<longrightarrow> x \<in> set (dependents_of ?a j)"
    using reg by (auto simp: registering_def add_dependent_keeps)
  have raw: "\<forall>j us. Any n us \<in> set (lock_list (cell_dependents (cell_at ?a j))) \<longrightarrow> us = ts"
    using reg by (auto simp: registering_def dest: add_dependent_rawD)
  have fa: "flagged ?a n \<longrightarrow> list_ex (is_cancelled h0 now) ts"
    using reg by (simp add: registering_def)
  have ca: "list_ex (is_cancelled ?a now) ts = list_ex (is_cancelled h0 now) ts"
    using registering_is_cancelled [OF reg ts]
      is_cancelled_ensure_active_cong(1) [of _ ?a h now]
    by (metis (mono_tags, lifting) add_dependent_simps(2) list_ex_cong)
  consider "?r = ?a" | "?r = signal_cancel now ?a n" "list_ex (is_cancelled ?a now) ts"
    by (cases "flagged h i \<and> alive h n"; cases "list_ex (is_cancelled ?a now) ts")
      (auto simp: signal_register_dependent_alt)
  then show ?thesis
  proof cases
    case 1
    with a raw fa okr show ?thesis by (simp add: registering_def)
  next
    case 2
    have rawr: "\<forall>j us. Any n us \<in> set (lock_list (cell_dependents (cell_at ?r j))) \<longrightarrow> us = ts"
      unfolding 2 using raw raw_signal_cancel by (meson subsetD)
    have sg: "same_graph ?a ?r" and wk: "waiters_kept h0 ?r"
      using signal_cancel_preserves [of ?a now n] waiters_kept_trans [OF a(4)]
      unfolding 2 by blast+
    have "\<forall>j < n. flagged ?r j = flagged h0 j"
      unfolding 2 using signal_cancel_frame [OF ra, of _ n now] a(3) by simp
    with rawr wk sg a(1,2,5) okr ca 2(2) show ?thesis
      by (simp add: registering_def same_graph_def)
  qed
qed

fun own_cells :: "token \<Rightarrow> nat set" where
  "own_cells (Single i) = {i}"
| "own_cells (Any i ts) = {i}"
| "own_cells (Composite cs) = (\<Union>c \<in> set cs. own_cells (control_token c))"

lemma own_cells_addrs: "own_cells t \<subseteq> token_addrs t"
proof (induction t rule: own_cells.induct)
  case (3 cs)
  then show ?case using control_token_addrs by fastforce
qed auto

lemma registering_token:
  assumes "registering now h0 n ts h" and "own_cells t \<subseteq> {..<n}"
    and ts: "\<And>t. t \<in> set ts \<Longrightarrow> token_addrs t \<subseteq> {..<n}"
  shows "registering now h0 n ts (register_dependent now h t (Any n ts))"
  using assms(1,2)
proof (induction now h t "Any n ts" rule: register_dependent.induct)
  case (3 now h cs)
  show ?case
    unfolding register_dependent.simps
    by (rule fold_invariant [where Q = "\<lambda>c. c \<in> set cs"])
      (use 3 in auto)
qed (auto intro!: registering_signal [OF _ _ ts])

lemma token_any_registering:
  assumes "heap_ok h" and "\<And>t. t \<in> set ts \<Longrightarrow> token_addrs t \<subseteq> {..<length (cells h)}"
  shows "registering now h (length (cells h)) ts
    (fold (\<lambda>t h'. register_dependent now h' t (Any (length (cells h)) ts)) ts (new_cell h))"
proof (rule fold_invariant [where Q = "\<lambda>t. t \<in> set ts"])
  fix t h'
  assume "t \<in> set ts" and "registering now h (length (cells h)) ts h'"
  then show "registering now h (length (cells h)) ts
      (register_dependent now h' t (Any (length (cells h)) ts))"
    using assms(2) own_cells_addrs by (intro registering_token) blast+
qed (use assms in \<open>auto intro: registering_start\<close>)

text \<open>
  Combining tokens: the constituents and every other signal keep their flags, the combined signal
  is set exactly when a constituent is already cancelled.
\<close>

lemma token_any_spec:
  assumes "heap_ok h" and ts: "\<And>t. t \<in> set ts \<Longrightarrow> token_addrs t \<subseteq> {..<length (cells h)}"
    and any: "token_any now h ts = (h', tok)"
  shows "tok = Any (length (cells h)) ts \<and> heap_ok h' \<and> length (cells h') = Suc (length (cells h)) \<and>
    (\<forall>j < length (cells h). flagged h' j = flagged h j) \<and>
    (flagged h' (length (cells h)) \<longleftrightarrow> list_ex (is_cancelled h now) ts) \<and>
    alive h' = alive (new_cell h) \<and> waiters_kept h h' \<and>
    (\<forall>j x. x \<in> set (dependents_of h j) \<longrightarrow> x \<in> set (dependents_of h' j))"
proof -
  let ?n = "length (cells h)"
  let ?h = "fold (\<lambda>t h'. register_dependent now h' t (Any ?n ts)) ts (new_cell h)"
  have reg: "registering now h ?n ts ?h"
    using assms(1,2) by (rule token_any_registering)
  have h': "h' = source_changed now ?h (Any ?n ts)" "tok = Any ?n ts"
    using any by (auto simp: token_any_def new_cell_def Let_def simp del: source_changed.simps)
  have c: "list_ex (is_cancelled ?h now) ts = list_ex (is_cancelled h now) ts"
    by (rule registering_is_cancelled [OF reg ts])
  show ?thesis
  proof (cases "list_ex (is_cancelled h now) ts")
    case True
    have r: "ranked ?h" and len: "length (cells ?h) = Suc ?n" and ok: "heap_ok ?h"
      using reg by (simp_all add: registering_def heap_ok_def)
    have eq: "h' = signal_cancel now ?h ?n" using True c h' by simp
    have "waiters_kept h h'"
      using reg signal_cancel_preserves [of ?h now ?n] unfolding eq registering_def
      by (blast intro: waiters_kept_trans)
    moreover have "\<forall>j < ?n. flagged h' j = flagged h j"
      using reg signal_cancel_frame [OF r, of _ ?n now] by (simp add: eq registering_def)
    moreover have "flagged h' ?n"
      using len by (simp add: eq signal_cancel_flagged)
    ultimately show ?thesis
      using True reg len h'(2) signal_cancel_preserves [of ?h now ?n] heap_ok_signal_cancel [OF ok]
      by (simp add: eq registering_def same_graph_def)
  next
    case False
    have "h' = ?h" using False c h' by simp
    with False reg h'(2) show ?thesis by (simp add: registering_def)
  qed
qed

section \<open>Registration is complete\<close>

definition unpoisoned :: "heap \<Rightarrow> bool" where
  "unpoisoned h \<longleftrightarrow> (\<forall>i. cell_dependents (cell_at h i) \<noteq> Poisoned)"

lemma lock_update_Poisoned [simp]: "lock_update f l = Poisoned \<longleftrightarrow> l = Poisoned"
  by (cases l) simp_all

lemma unpoisoned_mark: "unpoisoned h \<Longrightarrow> unpoisoned (mark_cancelled h i)"
  by (simp add: unpoisoned_def cell_at_mark)

lemma unpoisoned_notify: "unpoisoned h \<Longrightarrow> unpoisoned (notify_dependents now h ds)"
  by (induction now h ds rule: notify_dependents.induct)
    (auto simp: unpoisoned_mark notify_dependents.simps(2))

lemma unpoisoned_signal_cancel: "unpoisoned h \<Longrightarrow> unpoisoned (signal_cancel now h i)"
  by (simp add: signal_cancel_def unpoisoned_mark unpoisoned_notify)

lemma unpoisoned_source_changed: "unpoisoned h \<Longrightarrow> unpoisoned (source_changed now h t)"
  by (cases t) (simp_all add: unpoisoned_signal_cancel)

lemma unpoisoned_add_dependent: "unpoisoned h \<Longrightarrow> unpoisoned (add_dependent h i d)"
  by (simp add: unpoisoned_def add_dependent_def)

lemma unpoisoned_register: "unpoisoned h \<Longrightarrow> unpoisoned (register_dependent now h t d)"
proof (induction now h t d rule: register_dependent.induct)
  case (3 now h cs d)
  show ?case
    unfolding register_dependent.simps
    by (rule fold_invariant [where Q = "\<lambda>c. c \<in> set cs"]) (use 3 in auto)
qed (simp_all add: signal_register_dependent_alt unpoisoned_source_changed unpoisoned_add_dependent)

lemma source_changed_dependents: "dependents_of (source_changed now h t) = dependents_of h"
  using signal_cancel_preserves by (cases t) (auto simp: same_graph_def)

lemma register_keeps:
  "x \<in> set (dependents_of h j) \<Longrightarrow> x \<in> set (dependents_of (register_dependent now h t d) j)"
proof (induction now h t d rule: register_dependent.induct)
  case (3 now h cs d)
  show ?case
    unfolding register_dependent.simps
    by (rule fold_invariant [where Q = "\<lambda>c. c \<in> set cs"]) (use 3 in auto)
qed (auto simp: signal_register_dependent_alt source_changed_dependents add_dependent_keeps)

lemma register_adds:
  assumes reg: "registering now h0 n ts h" and up: "unpoisoned h" and i: "i < n"
    and t: "t = Single i \<or> (\<exists>us. t = Any i us)"
    and al: "alive h n"
  shows "Any n ts \<in> set (dependents_of (register_dependent now h t (Any n ts)) i)"
proof -
  have "Any n ts \<in> set (dependents_of (add_dependent h i (Any n ts)) i)"
    using reg up i al by (intro add_dependent_adds) (auto simp: registering_def unpoisoned_def)
  moreover have "register_dependent now h t (Any n ts) = signal_register_dependent now h i (Any n ts)"
    using t by auto
  ultimately show ?thesis
    by (simp add: signal_register_dependent_alt source_changed_dependents del: source_changed.simps)
qed

lemma token_any_registered:
  assumes ok: "heap_ok h" and ts: "\<And>t. t \<in> set ts \<Longrightarrow> token_addrs t \<subseteq> {..<length (cells h)}"
    and up: "unpoisoned h" and any: "token_any now h ts = (h', tok)"
    and dir: "direct i ts"
  shows "Any (length (cells h)) ts \<in> set (dependents_of h' i)"
proof -
  let ?n = "length (cells h)"
  let ?f = "\<lambda>t h'. register_dependent now h' t (Any ?n ts)"
  let ?P = "\<lambda>g. registering now h ?n ts g \<and> unpoisoned g"
  obtain t us vs where t: "t = Single i \<or> (\<exists>us. t = Any i us)" and split: "ts = us @ t # vs"
    using dir unfolding direct_def by (metis split_list)
  have step: "?P (?f u g)" if "u \<in> set ts" "?P g" for u g
    using that ts own_cells_addrs by (blast intro: registering_token unpoisoned_register)
  have start: "?P (new_cell h)"
    using ok up by (simp add: registering_start unpoisoned_def)
  have "?P (fold ?f us (new_cell h))"
    by (rule fold_invariant [where Q = "\<lambda>u. u \<in> set ts"]) (use split start step in auto)
  moreover have "i < ?n"
    using t ts [of t] split by auto
  moreover have "alive (new_cell h) ?n" by simp
  ultimately have added: "Any ?n ts \<in> set (dependents_of (?f t (fold ?f us (new_cell h))) i)"
    using t by (intro register_adds) (auto simp: registering_def)
  have "Any ?n ts \<in> set (dependents_of (fold ?f vs (?f t (fold ?f us (new_cell h)))) i)"
    by (rule fold_invariant [where Q = "\<lambda>u. True"]) (use added in \<open>auto intro: register_keeps\<close>)
  then have "Any ?n ts \<in> set (dependents_of (fold ?f ts (new_cell h)) i)"
    by (simp add: split)
  moreover have "h' = source_changed now (fold ?f ts (new_cell h)) (Any ?n ts)"
    using any by (auto simp: token_any_def new_cell_def Let_def simp del: source_changed.simps)
  ultimately show ?thesis
    by (simp add: source_changed_dependents del: source_changed.simps)
qed

section \<open>Waiting\<close>

lemma signal_register_waiter_graph:
  "flagged (signal_register_waiter h i w) = flagged h"
  "alive (signal_register_waiter h i w) = alive h"
  "length (cells (signal_register_waiter h i w)) = length (cells h)"
  "cell_dependents (cell_at (signal_register_waiter h i w) j) = cell_dependents (cell_at h j)"
  by (auto simp: signal_register_waiter_def wake_def Let_def flagged_def alive_def fun_eq_iff cell_at_def
      update_cell_def nth_upd)

lemma signal_register_waiter_new:
  "x \<in> set (waiters_of (signal_register_waiter h i w) j) \<Longrightarrow>
     x \<in> set (waiters_of h j) \<or> (x = w \<and> j = i \<and> \<not> flagged h i)"
  by (cases "cell_waiters (cell_at h i)")
    (auto simp: signal_register_waiter_def wake_def Let_def waiters_of_def flagged_def cell_at_def
      update_cell_def nth_upd split: if_splits)

lemma waiters_kept_register_signal: "waiters_kept h (signal_register_waiter h i w)"
  by (cases "cell_waiters (cell_at h i)")
    (auto simp: waiters_kept_def signal_register_waiter_def wake_def Let_def waiters_of_def flagged_def
      cell_at_def update_cell_def nth_upd)

text \<open>Two heaps with the same flags and wiring, one with more waiters on pending signals.\<close>

definition same_but_waiters :: "heap \<Rightarrow> heap \<Rightarrow> bool" where
  "same_but_waiters h h' \<longleftrightarrow> flagged h' = flagged h \<and> alive h' = alive h \<and>
     length (cells h') = length (cells h) \<and>
     (\<forall>j. cell_dependents (cell_at h' j) = cell_dependents (cell_at h j)) \<and>
     waiters_kept h h' \<and> (\<forall>j. flagged h j \<longrightarrow> set (waiters_of h' j) \<subseteq> set (waiters_of h j))"

lemma same_but_waiters_trans:
  "same_but_waiters h h' \<Longrightarrow> same_but_waiters h' h'' \<Longrightarrow> same_but_waiters h h''"
  unfolding same_but_waiters_def by (auto intro: waiters_kept_trans) blast

lemma same_but_waiters_signal: "same_but_waiters h (signal_register_waiter h i w)"
  by (auto simp: same_but_waiters_def signal_register_waiter_graph waiters_kept_register_signal
      dest: signal_register_waiter_new)

lemma register_waiter_same: "same_but_waiters h (register_waiter h t w)"
proof (induction h t w rule: register_waiter.induct)
  case (3 h cs w)
  show ?case
    unfolding register_waiter.simps
    by (rule fold_invariant [where Q = "\<lambda>c. c \<in> set cs"])
      (use 3 in \<open>auto intro: same_but_waiters_trans simp: same_but_waiters_def [of h h]\<close>)
qed (simp_all add: same_but_waiters_signal)

lemma same_but_waiters_dependents:
  assumes "same_but_waiters h h'" shows "dependents_of h' = dependents_of h"
proof -
  have "token_alive h' = token_alive h"
    using assms by (intro token_alive_cong) (simp add: same_but_waiters_def)
  with assms show ?thesis
    by (intro ext) (simp add: dependents_of_def same_but_waiters_def)
qed

lemma heap_ok_same_but_waiters:
  assumes "same_but_waiters h h'" and "heap_ok h" shows "heap_ok h'"
  using assms(2) same_but_waiters_dependents [OF assms(1)] assms(1)
  by (simp add: heap_ok_def same_but_waiters_def coherent_upto_def drained_def ranked_def)

section \<open>The token system\<close>

text \<open>
  The tokens that the program holds, and every way it can use them: new signals, combined and
  composite tokens, cancellation, polling and the drop of the last handle of a combined token.
\<close>

record token_system =
  ts_heap :: heap
  ts_now :: nat
  ts_tokens :: "token set"

definition ts_init :: token_system where
  "ts_init = \<lparr>ts_heap = \<lparr>cells = [], woken = []\<rparr>, ts_now = 0, ts_tokens = {}\<rparr>"

inductive ts_step :: "token_system \<Rightarrow> token_system \<Rightarrow> bool" where
  ts_new: "token_default (ts_heap s) = (h, t) \<Longrightarrow>
     ts_step s (s\<lparr>ts_heap := h, ts_tokens := insert t (ts_tokens s)\<rparr>)"
| ts_any: "set ts \<subseteq> ts_tokens s \<Longrightarrow> token_any (ts_now s) (ts_heap s) ts = (h, t) \<Longrightarrow>
     ts_step s (s\<lparr>ts_heap := h, ts_tokens := insert t (ts_tokens s)\<rparr>)"
| ts_composite: "\<forall>c \<in> set cs. \<exists>t \<in> ts_tokens s. \<exists>d. c = control_new t d \<Longrightarrow>
     ts_step s (s\<lparr>ts_tokens := insert (control_token (control_composite cs)) (ts_tokens s)\<rparr>)"
| ts_cancel: "t \<in> ts_tokens s \<Longrightarrow>
     ts_step s (s\<lparr>ts_heap := token_cancel (ts_now s) (ts_heap s) t\<rparr>)"
| ts_poll: "t \<in> ts_tokens s \<Longrightarrow>
     ts_step s (s\<lparr>ts_heap := fst (poll_cancelled (ts_now s) (ts_heap s) t w)\<rparr>)"
| ts_tick: "ts_now s \<le> now \<Longrightarrow> ts_step s (s\<lparr>ts_now := now\<rparr>)"
| ts_drop: "Any k ts \<in> ts_tokens s \<Longrightarrow> \<forall>t \<in> ts_tokens s - {Any k ts}. k \<notin> token_addrs t \<Longrightarrow>
     ts_step s (s\<lparr>ts_heap := drop_token (ts_heap s) k, ts_tokens := ts_tokens s - {Any k ts}\<rparr>)"

inductive ts_reachable :: "token_system \<Rightarrow> bool" where
  ts_start: "ts_reachable ts_init"
| ts_next: "ts_reachable s \<Longrightarrow> ts_step s s' \<Longrightarrow> ts_reachable s'"

definition ts_inv :: "token_system \<Rightarrow> bool" where
  "ts_inv s \<longleftrightarrow> heap_ok (ts_heap s) \<and> unpoisoned (ts_heap s) \<and>
     (\<forall>t \<in> ts_tokens s. token_addrs t \<subseteq> {..<length (cells (ts_heap s))}) \<and>
     (\<forall>k ts i. Any k ts \<in> ts_tokens s \<longrightarrow> direct i ts \<longrightarrow>
        Any k ts \<in> set (dependents_of (ts_heap s) i))"

text \<open>Steps that only change the heap keep the invariant when they keep the wiring.\<close>

lemma ts_inv_heap:
  assumes "ts_inv s" and "heap_ok h" and "unpoisoned h"
    and "length (cells h) = length (cells (ts_heap s))"
    and "dependents_of h = dependents_of (ts_heap s)"
  shows "ts_inv (s\<lparr>ts_heap := h\<rparr>)"
  using assms by (simp add: ts_inv_def)

definition cancel_keeps :: "heap \<Rightarrow> heap \<Rightarrow> bool" where
  "cancel_keeps h h' \<longleftrightarrow> same_graph h h' \<and> waiters_kept h h' \<and> flags_le h h' \<and>
     (heap_ok h \<longrightarrow> heap_ok h') \<and> (unpoisoned h \<longrightarrow> unpoisoned h')"

lemma cancel_keeps_trans: "cancel_keeps h h' \<Longrightarrow> cancel_keeps h' h'' \<Longrightarrow> cancel_keeps h h''"
  unfolding cancel_keeps_def
  by (auto intro: same_graph_trans waiters_kept_trans flags_le_trans)

lemma token_cancel_keeps: "cancel_keeps h (token_cancel now h t)"
proof (induction now h t rule: token_cancel.induct)
  case (3 now h cs)
  show ?case
    unfolding token_cancel.simps
    by (rule fold_invariant [where Q = "\<lambda>c. c \<in> set cs"])
      (use 3 in \<open>auto intro: cancel_keeps_trans simp: cancel_keeps_def [of h h]\<close>)
qed (simp_all add: cancel_keeps_def signal_cancel_preserves heap_ok_signal_cancel
    unpoisoned_signal_cancel)

lemma token_addrs_composite:
  assumes "\<forall>c \<in> set cs. \<exists>t \<in> T. \<exists>d. c = control_new t d" and "\<forall>t \<in> T. token_addrs t \<subseteq> A"
  shows "token_addrs (control_token (control_composite cs)) \<subseteq> A"
  using assms by (fastforce simp: control_composite_def control_new_def)

lemma alive_drop: "alive (drop_token h k) i \<longleftrightarrow> alive h i \<and> i \<noteq> k"
  by (auto simp: alive_def drop_token_def)

lemma drop_token_simps [simp]:
  "length (cells (drop_token h k)) = length (cells h)"
  "cell_dependents (cell_at (drop_token h k) j) = cell_dependents (cell_at h j)"
  "flagged (drop_token h k) = flagged h"
  "waiters_of (drop_token h k) = waiters_of h"
  by (simp_all add: drop_token_def flagged_def waiters_of_def fun_eq_iff)

lemma drop_dependents:
  "Any j ts \<in> set (dependents_of (drop_token h k) i) \<longleftrightarrow> Any j ts \<in> set (dependents_of h i) \<and> j \<noteq> k"
  by (auto simp: dependents_of_def alive_drop)

lemma heap_ok_drop: "heap_ok h \<Longrightarrow> heap_ok (drop_token h k)"
  unfolding heap_ok_def coherent_upto_def
  by (auto simp: ranked_def drained_def drop_dependents)

lemma ts_inv_init: "ts_inv ts_init"
  by (simp add: ts_inv_def ts_init_def heap_ok_def ranked_def coherent_upto_def drained_def unpoisoned_def
      dependents_of_def cell_at_def signal_default_def waiters_of_def)

lemma unpoisoned_token_any:
  assumes "unpoisoned h" and "token_any now h ts = (h', tok)"
  shows "unpoisoned h'"
proof -
  have "unpoisoned (fold (\<lambda>t h. register_dependent now h t (Any (length (cells h0)) ts)) ts h1)"
    if "unpoisoned h1" for h0 h1
    by (rule fold_invariant [where Q = "\<lambda>_. True"]) (use that in \<open>auto intro: unpoisoned_register\<close>)
  moreover have "unpoisoned (new_cell h)"
    using assms(1) by (simp add: unpoisoned_def)
  ultimately show ?thesis
    using assms(2)
    by (auto simp: token_any_def new_cell_def [symmetric] Let_def simp del: source_changed.simps
        intro!: unpoisoned_source_changed)
qed

lemma ts_inv_any:
  assumes inv: "ts_inv s" and sub: "set ts \<subseteq> ts_tokens s"
    and any: "token_any (ts_now s) (ts_heap s) ts = (h, t)"
  shows "ts_inv (s\<lparr>ts_heap := h, ts_tokens := insert t (ts_tokens s)\<rparr>)"
proof -
  have ok: "heap_ok (ts_heap s)" and up: "unpoisoned (ts_heap s)"
    and addrs: "\<And>u. u \<in> ts_tokens s \<Longrightarrow> token_addrs u \<subseteq> {..<length (cells (ts_heap s))}"
    using inv by (auto simp: ts_inv_def)
  have ts: "\<And>u. u \<in> set ts \<Longrightarrow> token_addrs u \<subseteq> {..<length (cells (ts_heap s))}"
    using sub addrs by blast
  note spec = token_any_spec [OF ok ts any]
  have "token_addrs u \<subseteq> {..<length (cells h)}" if "u \<in> insert t (ts_tokens s)" for u
    using that spec addrs ts by fastforce
  moreover have "Any k us \<in> set (dependents_of h i)"
    if "Any k us \<in> insert t (ts_tokens s)" "direct i us" for k us i
    using that spec inv token_any_registered [OF ok ts up any, of i]
    by (auto simp: ts_inv_def)
  ultimately show ?thesis
    using spec unpoisoned_token_any [OF up any] by (simp add: ts_inv_def)
qed

lemma ts_inv_new:
  assumes "ts_inv s" and "token_default (ts_heap s) = (h, t)"
  shows "ts_inv (s\<lparr>ts_heap := h, ts_tokens := insert t (ts_tokens s)\<rparr>)"
  using assms dependents_of_new_cell [of "ts_heap s"] heap_ok_new_cell [of "ts_heap s"]
  by (auto simp: ts_inv_def token_default_alt heap_ok_def unpoisoned_def less_Suc_eq)
    (metis lessThan_iff subsetD)

lemma ts_inv_drop:
  assumes inv: "ts_inv s" and others: "\<forall>t \<in> ts_tokens s - {Any k ts}. k \<notin> token_addrs t"
  shows "ts_inv (s\<lparr>ts_heap := drop_token (ts_heap s) k, ts_tokens := ts_tokens s - {Any k ts}\<rparr>)"
proof -
  have "j \<noteq> k" if "Any j us \<in> ts_tokens s - {Any k ts}" for j us
    using bspec [OF others that] by auto
  with inv show ?thesis
    by (auto simp: ts_inv_def heap_ok_drop drop_dependents unpoisoned_def)
qed

lemma ts_step_inv: "ts_step s s' \<Longrightarrow> ts_inv s \<Longrightarrow> ts_inv s'"
proof (induction rule: ts_step.induct)
  case (ts_composite cs s)
  then show ?case
    using token_addrs_composite [of cs "ts_tokens s"]
    by (auto simp: ts_inv_def control_composite_def)
next
  case (ts_cancel t s)
  then show ?case
    using token_cancel_keeps [of "ts_heap s" "ts_now s" t]
    by (intro ts_inv_heap) (auto simp: cancel_keeps_def same_graph_def ts_inv_def)
next
  case (ts_poll t s w)
  have same: "same_but_waiters (ts_heap s) (register_waiter (ts_heap s) t w)"
    by (rule register_waiter_same)
  then have "ts_inv (s\<lparr>ts_heap := register_waiter (ts_heap s) t w\<rparr>)"
    using ts_poll.prems same_but_waiters_dependents [OF same] heap_ok_same_but_waiters [OF same]
    by (intro ts_inv_heap) (auto simp: same_but_waiters_def unpoisoned_def ts_inv_def)
  with ts_poll.prems show ?case
    by (simp add: poll_cancelled_def Let_def)
next
  case (ts_tick s now)
  then show ?case by (simp add: ts_inv_def)
qed (auto intro: ts_inv_new ts_inv_any ts_inv_drop)

lemma ts_reachable_inv: "ts_reachable s \<Longrightarrow> ts_inv s"
  by (induction rule: ts_reachable.induct) (auto intro: ts_inv_init ts_step_inv)

section \<open>The gate that clients rely on\<close>

text \<open>
  What admission, scheduling and publication need of a control: it refuses with one of two codes
  only, and once it refuses it refuses for ever.
\<close>

locale execution_gate =
  fixes check :: "'w \<Rightarrow> 'c \<Rightarrow> engine_failure + unit"
    and progress :: "'w \<Rightarrow> 'w \<Rightarrow> bool"
  assumes check_codes: "check w c = Err e \<Longrightarrow> e = failure Cancelled \<or> e = failure DeadlineExceeded"
    and check_sticky: "progress w w' \<Longrightarrow> check w c = Err e \<Longrightarrow> \<exists>e'. check w' c = Err e'"
    and progress_refl: "progress w w"
    and progress_trans: "progress w w' \<Longrightarrow> progress w' w'' \<Longrightarrow> progress w w''"
begin

lemma active_before:
  assumes "progress w w'" and "check w' c = Ok u"
  shows "check w c = Ok ()"
  using assms check_sticky [of w w' c] by (cases "check w c") fastforce+

lemma refused_code: "check w c = Err e \<Longrightarrow> failure_code e \<in> {Cancelled, DeadlineExceeded}"
  using check_codes [of w c e] by auto

text \<open>A result fetched between two checks is published only if the control was active throughout.\<close>

lemma guarded_Ok:
  assumes "progress w w'" and "progress w' w''"
    and "and_then (check w c) (\<lambda>_. and_then (check w'' c) (\<lambda>_. r)) = Ok v"
  shows "check w' c = Ok () \<and> r = Ok v"
  using assms active_before [of w' w'' c] by (auto simp: result_simps)

lemma guarded_refused:
  assumes "progress w w'" and "check w' c = Err e"
  shows "\<exists>e'. and_then (check w c) (\<lambda>_. and_then (check w' c) (\<lambda>_. r)) = Err e' \<and>
    failure_code e' \<in> {Cancelled, DeadlineExceeded}"
  using assms refused_code [of w' c e] refused_code [of w c] by (cases "check w c") auto

end

definition world_progress :: "heap \<times> nat \<Rightarrow> heap \<times> nat \<Rightarrow> bool" where
  "world_progress w w' \<longleftrightarrow> flags_le (fst w) (fst w') \<and> snd w \<le> snd w'"

definition check_control :: "heap \<times> nat \<Rightarrow> control \<Rightarrow> engine_failure + unit" where
  "check_control w c = ensure_active (fst w) (snd w) c"

interpretation gate: execution_gate check_control world_progress
proof (unfold_locales, goal_cases)
  case (1 w c e)
  then show ?case by (simp add: check_control_def ensure_active_codes)
next
  case (2 w w' c e)
  then have "\<not> is_ok (ensure_active (fst w') (snd w') c)"
    using is_cancelled_ensure_active_mono(2) [of "fst w" "fst w'" "snd w" "snd w'" c]
    by (auto simp: check_control_def world_progress_def)
  then show ?case
    by (cases "ensure_active (fst w') (snd w') c") (auto simp: check_control_def)
next
  case (3 w)
  show ?case by (simp add: world_progress_def)
next
  case (4 w w' w'')
  then show ?case by (auto simp: world_progress_def intro: flags_le_trans)
qed

lemma execute_embedding_alt:
  "execute_embedding w r w' c = and_then (check_control w c) (\<lambda>_. and_then (check_control w' c) (\<lambda>_. r))"
  by (simp add: execute_embedding_def check_control_def)

section \<open>Properties\<close>


definition wakeup_example :: token_system where
  "wakeup_example =
     \<lparr>ts_heap = token_cancel 0 (fst (poll_cancelled 0
        (fst (token_any 0 (fst (token_default (ts_heap ts_init))) [Single 0])) (Any 1 [Single 0]) 7)) (Single 0),
      ts_now = 0, ts_tokens = {Any 1 [Single 0], Single 0}\<rparr>"

lemma wakeup_example_reachable: "ts_reachable wakeup_example"
proof -
  let ?s1 = "ts_init\<lparr>ts_heap := fst (token_default (ts_heap ts_init)), ts_tokens := {Single 0}\<rparr>"
  let ?s2 = "?s1\<lparr>ts_heap := fst (token_any 0 (ts_heap ?s1) [Single 0]),
      ts_tokens := {Any 1 [Single 0], Single 0}\<rparr>"
  let ?s3 = "?s2\<lparr>ts_heap := fst (poll_cancelled 0 (ts_heap ?s2) (Any 1 [Single 0]) 7)\<rparr>"
  have "ts_reachable ?s1"
    using ts_next [OF ts_start ts_new [of ts_init]] by (simp add: ts_init_def token_default_def)
  moreover have "ts_step ?s1 ?s2"
    using ts_any [of "[Single 0]" ?s1 "ts_heap ?s2" "Any 1 [Single 0]"]
    by (simp add: ts_init_def token_default_def token_any_def Let_def)
  moreover have "ts_step ?s2 ?s3"
    using ts_poll [of "Any 1 [Single 0]" ?s2 7] by (simp add: ts_init_def)
  moreover have "ts_step ?s3 (?s3\<lparr>ts_heap := token_cancel 0 (ts_heap ?s3) (Single 0)\<rparr>)"
    using ts_cancel [of "Single 0" ?s3] by (simp add: ts_init_def)
  ultimately have "ts_reachable (?s3\<lparr>ts_heap := token_cancel 0 (ts_heap ?s3) (Single 0)\<rparr>)"
    by (blast intro: ts_next)
  then show ?thesis
    by (simp add: wakeup_example_def ts_init_def del: token_cancel.simps)
qed


text \<open>
  Combining tokens never mutates the constituents or any other existing token, and the combined
  token reads as cancelled exactly when one of its constituents does.
\<close>

theorem token_any_reads_as_disjunction:
  assumes "heap_ok h" and "\<forall>t \<in> set ts. token_addrs t \<subseteq> {..<length (cells h)}"
    and "token_any now h ts = (h', tok)"
  shows "is_cancelled h' now tok = list_ex (is_cancelled h now) ts \<and>
    (\<forall>u now'. token_addrs u \<subseteq> {..<length (cells h)} \<longrightarrow> is_cancelled h' now' u = is_cancelled h now' u)"
proof -
  have "\<And>t. t \<in> set ts \<Longrightarrow> token_addrs t \<subseteq> {..<length (cells h)}" using assms(2) by blast
  note spec = token_any_spec [OF assms(1) this assms(3)]
  have same: "is_cancelled h' now' u = is_cancelled h now' u"
    if "token_addrs u \<subseteq> {..<length (cells h)}" for u now'
    using that spec by (intro is_cancelled_ensure_active_cong(1)) auto
  then have "list_ex (is_cancelled h' now) ts = list_ex (is_cancelled h now) ts"
    using assms(2) by (intro list_ex_cong) auto
  with spec same show ?thesis by auto
qed

definition two_signals :: heap where
  "two_signals = \<lparr>cells = [signal_default, signal_default\<lparr>cell_cancelled := True\<rparr>], woken = []\<rparr>"

lemma cell_at_two_signals:
  "cell_at two_signals i = (if i = 1 then signal_default\<lparr>cell_cancelled := True\<rparr> else signal_default)"
  by (auto simp: cell_at_def two_signals_def nth_Cons split: nat.splits)

lemma heap_ok_two_signals: "heap_ok two_signals"
  by (simp add: heap_ok_def ranked_def coherent_upto_def drained_def dependents_of_def waiters_of_def
      cell_at_two_signals signal_default_def)

theorem token_any_reads_as_disjunction_witness:
  "is_cancelled (fst (token_any 5 two_signals [Single 0, Single 1])) 5
     (snd (token_any 5 two_signals [Single 0, Single 1]))"
proof -
  have "\<forall>t \<in> set [Single 0, Single 1]. token_addrs t \<subseteq> {..<length (cells two_signals)}"
    by (simp add: two_signals_def)
  from token_any_reads_as_disjunction [OF heap_ok_two_signals this, of 5] show ?thesis
    by (simp add: flagged_def cell_at_two_signals)
qed

text \<open>
  Cancelling a combined token cancels it, is idempotent, and leaves the flag of every signal
  created before it, in particular of its constituents, as it was.
\<close>

theorem cancel_combined_isolated:
  assumes "heap_ok h" and "k < length (cells h)" and "\<forall>t \<in> set ts. token_addrs t \<subseteq> {..<k}"
  shows "is_cancelled (token_cancel now h (Any k ts)) now' (Any k ts) \<and>
    token_cancel now' (token_cancel now h (Any k ts)) (Any k ts) = token_cancel now h (Any k ts) \<and>
    (\<forall>t \<in> set ts. is_cancelled (token_cancel now h (Any k ts)) now' t = is_cancelled h now' t) \<and>
    heap_ok (token_cancel now h (Any k ts))"
proof -
  have "is_cancelled (signal_cancel now h k) now' t = is_cancelled h now' t" if "t \<in> set ts" for t
    using that assms signal_cancel_frame [of h _ k now]
    by (intro is_cancelled_ensure_active_cong(1)) (auto simp: heap_ok_def)
  then show ?thesis
    using assms(1,2) by (simp add: signal_cancel_flagged signal_cancel_idem heap_ok_signal_cancel)
qed

theorem cancel_combined_isolated_witness:
  "is_cancelled (token_cancel 3 two_signals (Any 1 [Single 0])) 4 (Any 1 [Single 0]) \<and>
   is_cancelled (token_cancel 3 two_signals (Any 1 [Single 0])) 4 (Single 0) =
     is_cancelled two_signals 4 (Single 0)"
proof -
  have "1 < length (cells two_signals)" and "\<forall>t \<in> set [Single 0]. token_addrs t \<subseteq> {..<1}"
    by (simp_all add: two_signals_def)
  from cancel_combined_isolated [OF heap_ok_two_signals this, of 3 4] show ?thesis
    by (simp del: token_cancel.simps is_cancelled.simps)
qed

text \<open>
  A native batch stays active exactly while one of its members is active: cancelling or
  expiring some members never stops it, and when it stops the code is \<open>Cancelled\<close> if any member
  was cancelled, otherwise \<open>DeadlineExceeded\<close>, whatever the order of the members.
\<close>

theorem composite_active_iff_member_active:
  "(ensure_active h now (control_composite cs) = Ok () \<longleftrightarrow> (\<exists>c \<in> set cs. ensure_active h now c = Ok ())) \<and>
   (is_cancelled h now (control_token (control_composite cs)) \<longleftrightarrow>
      \<not> (\<exists>c \<in> set cs. ensure_active h now c = Ok ())) \<and>
   (ensure_active h now (control_composite cs) \<noteq> Ok () \<longrightarrow>
      ensure_active h now (control_composite cs) =
        Err (failure (if \<exists>c \<in> set cs. is_cancelled h now (control_token c)
                      then Cancelled else DeadlineExceeded)))"
proof -
  have "is_ok (ensure_active h now c) \<longleftrightarrow> ensure_active h now c = Ok ()" for c
    by (cases "ensure_active h now c") simp_all
  then show ?thesis
    by (auto simp: control_composite_def list_ex_iff list_all_iff)
qed

theorem composite_active_iff_member_active_witness:
  "ensure_active two_signals 9
     (control_composite [control_new (Single 1) None, control_new (Single 0) (Some 10)]) = Ok ()"
  using composite_active_iff_member_active
    [of two_signals 9 "[control_new (Single 1) None, control_new (Single 0) (Some 10)]"]
  by (simp add: control_new_def flagged_def cell_at_two_signals signal_default_def)

text \<open>
  A late native result is never published: whatever the engine returned, success or failure, if
  the control is inactive after inference the caller gets \<open>Cancelled\<close> or \<open>DeadlineExceeded\<close>; and a
  published value is the engine's own result, produced while the control was active throughout.
\<close>

theorem execute_embedding_discards_late_results:
  assumes "world_progress before during" and "world_progress during after"
  shows "(execute_embedding before r after c = Ok v \<longrightarrow>
      r = Ok v \<and> check_control during c = Ok ()) \<and>
    (check_control after c \<noteq> Ok () \<longrightarrow> (\<exists>e. execute_embedding before r after c = Err e \<and>
      failure_code e \<in> {Cancelled, DeadlineExceeded}))"
proof -
  have "world_progress before after"
    using assms by (rule gate.progress_trans)
  note through = this
  show ?thesis
    unfolding execute_embedding_alt
  proof (intro conjI impI)
    assume "and_then (check_control before c) (\<lambda>_. and_then (check_control after c) (\<lambda>_. r)) = Ok v"
    from gate.guarded_Ok [OF assms this]
    show "r = Ok v" "check_control during c = Ok ()" by simp_all
  next
    assume "check_control after c \<noteq> Ok ()"
    then obtain e where "check_control after c = Err e"
      by (cases "check_control after c") auto
    with through show "\<exists>e. and_then (check_control before c)
          (\<lambda>_. and_then (check_control after c) (\<lambda>_. r)) = Err e \<and>
        failure_code e \<in> {Cancelled, DeadlineExceeded}"
      by (rule gate.guarded_refused)
  qed
qed

theorem execute_embedding_discards_late_results_witness:
  "\<exists>e. execute_embedding (two_signals, 1) (Ok True) (two_signals, 5) (control_new (Single 0) (Some 4)) = Err e \<and>
     failure_code e \<in> {Cancelled, DeadlineExceeded}"
  using execute_embedding_discards_late_results
    [of "(two_signals, 1)" "(two_signals, 2)" "(two_signals, 5)" "Ok True"
      "control_new (Single 0) (Some 4)"]
  by (simp add: world_progress_def check_control_def control_new_def flagged_def cell_at_two_signals
      signal_default_def)

end
