(* ===== verification/Shutdown.thy ===== *)
theory Shutdown
  imports Prelude
begin

text \<open>
  The shutdown coordinator of \<^verbatim>\<open>crates/impossible-server-core/src/shutdown.rs\<close>: a phase and a count of
  admitted work behind one mutex, permits that release their count when dropped, and the bounded
  wait on the condition variable.
\<close>

section \<open>State and operations\<close>

datatype shutdown_state = Running | Draining | Stopped

record coordinator_state =
  sd_shutdown :: shutdown_state
  sd_active :: nat

type_synonym coordinator = "coordinator_state lock"

definition coordinator_default :: coordinator where
  "coordinator_default = Held_By_Nobody \<lparr>sd_shutdown = Running, sd_active = 0\<rparr>"

fun shutdown_phase :: "coordinator \<Rightarrow> shutdown_state" where
  "shutdown_phase Poisoned = Stopped"
| "shutdown_phase (Held_By_Nobody s) = sd_shutdown s"

text \<open>\<^verbatim>\<open>admit\<close>: the new state and whether a permit was handed out.\<close>

fun admit :: "coordinator \<Rightarrow> coordinator \<times> bool" where
  "admit Poisoned = (Poisoned, False)"
| "admit (Held_By_Nobody s) =
     (if sd_shutdown s \<noteq> Running then (Held_By_Nobody s, False)
      else (Held_By_Nobody (s\<lparr>sd_active := saturating_add (sd_active s) 1\<rparr>), True))"

definition begin_locked :: "coordinator_state \<Rightarrow> coordinator_state" where
  "begin_locked s =
     (let s1 = (if sd_shutdown s = Running then s\<lparr>sd_shutdown := Draining\<rparr> else s)
      in if sd_active s1 = 0 then s1\<lparr>sd_shutdown := Stopped\<rparr> else s1)"

definition begin_shutdown :: "coordinator \<Rightarrow> coordinator" where
  "begin_shutdown c = lock_update begin_locked c"

definition force_stop :: "coordinator \<Rightarrow> coordinator" where
  "force_stop c = lock_update (\<lambda>s. s\<lparr>sd_shutdown := Stopped\<rparr>) c"

definition drop_locked :: "coordinator_state \<Rightarrow> coordinator_state" where
  "drop_locked s =
     (let s1 = s\<lparr>sd_active := saturating_sub (sd_active s) 1\<rparr>
      in if sd_active s1 = 0 \<and> sd_shutdown s1 = Draining then s1\<lparr>sd_shutdown := Stopped\<rparr> else s1)"

definition drop_permit :: "coordinator \<Rightarrow> coordinator" where
  "drop_permit c = lock_update drop_locked c"

text \<open>
  \<^verbatim>\<open>wait\<close>: each turn of the loop reads the elapsed time and, unless it is over, blocks on the
  condition variable, which hands the lock back with the state the other threads left and whether
  it timed out (or reports poisoning). The list holds what the loop observes; an empty list is a
  wait that has not returned yet.
\<close>

fun wait_loop :: "nat \<Rightarrow> coordinator_state \<Rightarrow> (nat \<times> (coordinator_state \<times> bool) option) list \<Rightarrow> bool option" where
  "wait_loop timeout s obs =
     (if sd_shutdown s = Stopped then Some True
      else case obs of
        [] \<Rightarrow> None
      | (elapsed, woken) # rest \<Rightarrow>
          if saturating_sub timeout elapsed = 0 then Some False
          else (case woken of
            None \<Rightarrow> Some False
          | Some (next_state, timed_out) \<Rightarrow>
              if timed_out \<and> sd_shutdown next_state \<noteq> Stopped then Some False
              else wait_loop timeout next_state rest))"

declare wait_loop.simps [simp del]

fun coordinator_wait ::
  "nat \<Rightarrow> coordinator \<Rightarrow> (nat \<times> (coordinator_state \<times> bool) option) list \<Rightarrow> bool option" where
  "coordinator_wait timeout Poisoned obs = Some False"
| "coordinator_wait timeout (Held_By_Nobody s) obs = wait_loop timeout s obs"

section \<open>Interleavings\<close>

text \<open>
  Threads admit work, drop the permits they hold, begin the shutdown and force it, in any order.
  \<open>tr_permits\<close> counts the permits held, \<open>tr_forced\<close> records a forced stop. The count of a process
  stays below the machine limit, because every permit occupies memory.
\<close>

record tracked =
  tr_coord :: coordinator
  tr_permits :: nat
  tr_forced :: bool

definition tracked_init :: tracked where
  "tracked_init = \<lparr>tr_coord = coordinator_default, tr_permits = 0, tr_forced = False\<rparr>"

inductive tracked_step :: "tracked \<Rightarrow> tracked \<Rightarrow> bool" where
  step_admit: "admit (tr_coord t) = (c, ok) \<Longrightarrow> Suc (tr_permits t) < word_limit \<Longrightarrow>
     tracked_step t (t\<lparr>tr_coord := c, tr_permits := tr_permits t + (if ok then 1 else 0)\<rparr>)"
| step_drop: "0 < tr_permits t \<Longrightarrow>
     tracked_step t (t\<lparr>tr_coord := drop_permit (tr_coord t), tr_permits := tr_permits t - 1\<rparr>)"
| step_begin: "tracked_step t (t\<lparr>tr_coord := begin_shutdown (tr_coord t)\<rparr>)"
| step_force: "tracked_step t (t\<lparr>tr_coord := force_stop (tr_coord t), tr_forced := True\<rparr>)"

inductive tracked_steps :: "tracked \<Rightarrow> tracked \<Rightarrow> bool" where
  steps_refl: "tracked_steps t t"
| steps_step: "tracked_steps t u \<Longrightarrow> tracked_step u v \<Longrightarrow> tracked_steps t v"

definition tracked_inv :: "tracked \<Rightarrow> bool" where
  "tracked_inv t \<longleftrightarrow> (case tr_coord t of Poisoned \<Rightarrow> False | Held_By_Nobody s \<Rightarrow>
     sd_active s = tr_permits t \<and>
     (sd_shutdown s = Draining \<longrightarrow> 0 < sd_active s) \<and>
     (sd_shutdown s = Stopped \<longrightarrow> \<not> tr_forced t \<longrightarrow> sd_active s = 0) \<and>
     (tr_forced t \<longrightarrow> sd_shutdown s = Stopped))"

lemmas shutdown_defs = begin_shutdown_def begin_locked_def force_stop_def drop_permit_def drop_locked_def
  saturating_sub_def Let_def

lemma tracked_inv_init: "tracked_inv tracked_init"
  by (simp add: tracked_inv_def tracked_init_def coordinator_default_def)

lemma tracked_step_inv: "tracked_step t t' \<Longrightarrow> tracked_inv t \<Longrightarrow> tracked_inv t'"
proof (induction rule: tracked_step.induct)
  case (step_admit t c ok)
  then show ?case
    by (auto simp: tracked_inv_def saturating_add_def split: if_splits lock.splits)
next
  case (step_drop t)
  then show ?case by (cases "tr_coord t") (auto simp: tracked_inv_def shutdown_defs)
next
  case (step_begin t)
  then show ?case by (cases "tr_coord t") (auto simp: tracked_inv_def shutdown_defs)
next
  case (step_force t)
  then show ?case by (cases "tr_coord t") (auto simp: tracked_inv_def shutdown_defs)
qed

lemma tracked_steps_inv: "tracked_steps t u \<Longrightarrow> tracked_inv t \<Longrightarrow> tracked_inv u"
  by (induction rule: tracked_steps.induct) (auto intro: tracked_step_inv)

fun phase_rank :: "shutdown_state \<Rightarrow> nat" where
  "phase_rank Running = 0"
| "phase_rank Draining = 1"
| "phase_rank Stopped = 2"

lemma phase_rank_le: "phase_rank p \<le> 2"
  by (cases p) simp_all

lemma phase_mono:
  "phase_rank (shutdown_phase c) \<le> phase_rank (shutdown_phase (fst (admit c)))"
  "phase_rank (shutdown_phase c) \<le> phase_rank (shutdown_phase (drop_permit c))"
  "phase_rank (shutdown_phase c) \<le> phase_rank (shutdown_phase (begin_shutdown c))"
  "phase_rank (shutdown_phase c) \<le> phase_rank (shutdown_phase (force_stop c))"
  by (cases c; auto simp: shutdown_defs phase_rank_le)+

lemma tracked_steps_phase_mono:
  "tracked_steps t u \<Longrightarrow>
     phase_rank (shutdown_phase (tr_coord t)) \<le> phase_rank (shutdown_phase (tr_coord u))"
proof (induction rule: tracked_steps.induct)
  case (steps_step t u v)
  from steps_step.hyps(2)
  have "phase_rank (shutdown_phase (tr_coord u)) \<le> phase_rank (shutdown_phase (tr_coord v))"
    using phase_mono [of "tr_coord u"] by cases (auto dest: arg_cong [where f = fst])
  with steps_step.IH show ?case by simp
qed simp

lemma admit_running_iff: "snd (admit c) \<longleftrightarrow> shutdown_phase c = Running"
  by (cases c) auto

section \<open>The admission contract\<close>

text \<open>
  What the runtime relies on: work is admitted only while running, closing admission is permanent
  whatever the other operations do.
\<close>

locale admission_contract =
  fixes try_admit :: "'s \<Rightarrow> 's \<times> bool"
    and release :: "'s \<Rightarrow> 's"
    and close :: "'s \<Rightarrow> 's"
    and is_open :: "'s \<Rightarrow> bool"
  assumes admit_open: "snd (try_admit s) \<longleftrightarrow> is_open s"
    and close_closes: "\<not> is_open (close s)"
    and closed_admit: "\<not> is_open s \<Longrightarrow> \<not> is_open (fst (try_admit s))"
    and closed_release: "\<not> is_open s \<Longrightarrow> \<not> is_open (release s)"
    and closed_close: "\<not> is_open s \<Longrightarrow> \<not> is_open (close s)"
begin

lemma no_admission_after_close:
  assumes "\<forall>f \<in> set fs. f = (\<lambda>s. fst (try_admit s)) \<or> f = release \<or> f = close"
  shows "\<not> snd (try_admit (fold (\<lambda>f. f) fs (close s)))"
proof -
  have "\<not> is_open (fold (\<lambda>f. f) fs t)" if "\<not> is_open t" for t
    by (rule fold_invariant [where Q = "\<lambda>f. f \<in> set fs"])
      (use that assms closed_admit closed_release closed_close in auto)
  then show ?thesis using close_closes by (simp add: admit_open)
qed

end

interpretation coord: admission_contract admit drop_permit begin_shutdown "\<lambda>c. shutdown_phase c = Running"
proof (unfold_locales, goal_cases)
  case (1 s)
  show ?case by (rule admit_running_iff)
next
  case (2 s)
  show ?case by (cases s) (auto simp: shutdown_defs)
next
  case (3 s)
  then show ?case by (cases s) auto
next
  case (4 s)
  then show ?case by (cases s) (auto simp: shutdown_defs)
next
  case (5 s)
  then show ?case by (cases s) (auto simp: shutdown_defs)
qed

interpretation forced: admission_contract admit drop_permit force_stop "\<lambda>c. shutdown_phase c = Running"
proof (unfold_locales, goal_cases)
  case (1 s)
  show ?case by (rule admit_running_iff)
next
  case (2 s)
  show ?case by (cases s) (auto simp: shutdown_defs)
next
  case (3 s)
  then show ?case by (cases s) auto
next
  case (4 s)
  then show ?case by (cases s) (auto simp: shutdown_defs)
next
  case (5 s)
  then show ?case by (cases s) (auto simp: shutdown_defs)
qed

section \<open>Properties\<close>

text \<open>
  Under every interleaving of admissions, permit drops, shutdown and forced stop, the
  coordinator's count equals the number of permits held; unless the stop was forced it is stopped
  only when no work is left, and it is never draining without work.
\<close>

theorem coordinator_tracks_permits:
  assumes "tracked_steps tracked_init t"
  shows "\<exists>s. tr_coord t = Held_By_Nobody s \<and> sd_active s = tr_permits t \<and>
    (sd_shutdown s = Draining \<longrightarrow> 0 < tr_permits t) \<and>
    (sd_shutdown s = Stopped \<longrightarrow> \<not> tr_forced t \<longrightarrow> tr_permits t = 0)"
  using tracked_steps_inv [OF assms tracked_inv_init]
  by (cases "tr_coord t") (auto simp: tracked_inv_def)

theorem coordinator_tracks_permits_witness:
  "\<exists>s. tr_coord (tracked_init\<lparr>tr_coord := begin_shutdown (fst (admit coordinator_default)), tr_permits := 1\<rparr>) =
      Held_By_Nobody s \<and> sd_active s = 1 \<and> sd_shutdown s = Draining"
proof -
  let ?t = "tracked_init\<lparr>tr_coord := fst (admit coordinator_default), tr_permits := 1\<rparr>"
  let ?u = "tracked_init\<lparr>tr_coord := begin_shutdown (fst (admit coordinator_default)), tr_permits := 1\<rparr>"
  have "tracked_step tracked_init ?t"
    using step_admit [of tracked_init "fst (admit coordinator_default)" True]
    by (simp add: tracked_init_def coordinator_default_def word_limit_def)
  moreover have "tracked_step ?t ?u"
    using step_begin [of ?t] by (simp add: tracked_init_def)
  ultimately have "tracked_steps tracked_init ?u"
    by (blast intro: steps_refl steps_step)
  from coordinator_tracks_permits [OF this] show ?thesis
    by (auto simp: coordinator_default_def saturating_add_def word_limit_def shutdown_defs)
qed

text \<open>
  Shutdown is irreversible: once \<open>begin\<close> has run, no later admission succeeds, whatever
  admissions, permit drops and further calls of \<open>begin\<close> happen in between.
\<close>

theorem no_admission_after_begin:
  assumes "\<forall>f \<in> set fs. f = (\<lambda>c. fst (admit c)) \<or> f = drop_permit \<or> f = begin_shutdown"
  shows "\<not> snd (admit (fold (\<lambda>f. f) fs (begin_shutdown c)))"
  using assms by (rule coord.no_admission_after_close)

theorem no_admission_after_begin_witness:
  "\<not> snd (admit (fold (\<lambda>f. f) [drop_permit, begin_shutdown] (begin_shutdown coordinator_default)))"
  by (rule no_admission_after_begin) simp

text \<open>
  The bounded wait answers \<open>True\<close> only when the coordinator was observed stopped, and it answers
  \<open>False\<close> as soon as the timeout has elapsed or a timed-out wake-up finds work left.
\<close>

theorem wait_true_only_when_stopped:
  "coordinator_wait timeout c obs = Some True \<Longrightarrow>
     shutdown_phase c = Stopped \<or> (\<exists>e s timed_out. (e, Some (s, timed_out)) \<in> set obs \<and>
       e < timeout \<and> sd_shutdown s = Stopped)"
proof (cases c)
  case (Held_By_Nobody s)
  have "sd_shutdown s = Stopped \<or> (\<exists>e s timed_out. (e, Some (s, timed_out)) \<in> set obs \<and>
      e < timeout \<and> sd_shutdown s = Stopped)"
    if "wait_loop timeout s obs = Some True"
    using that
  proof (induction obs arbitrary: s)
    case Nil
    then show ?case by (simp add: wait_loop.simps [of timeout s "[]"] split: if_splits)
  next
    case (Cons x obs)
    show ?case
    proof (cases "sd_shutdown s = Stopped")
      case False
      obtain e w where x: "x = (e, w)" by (cases x)
      have step: "wait_loop timeout s (x # obs) = (if saturating_sub timeout e = 0 then Some False
          else case w of None \<Rightarrow> Some False | Some (next_state, timed_out) \<Rightarrow>
            if timed_out \<and> sd_shutdown next_state \<noteq> Stopped then Some False
            else wait_loop timeout next_state obs)"
        unfolding x using False by (subst wait_loop.simps) simp
      then obtain s' b where w: "w = Some (s', b)" "e < timeout"
        and rest: "wait_loop timeout s' obs = Some True"
        using Cons.prems by (cases w) (auto simp: saturating_sub_def split: if_splits)
      from Cons.IH [OF rest] x w show ?thesis by auto
    qed simp
  qed
  moreover assume "coordinator_wait timeout c obs = Some True"
  ultimately show ?thesis using Held_By_Nobody by simp
qed simp

theorem wait_true_only_when_stopped_witness:
  "shutdown_phase coordinator_default = Stopped \<or>
     (\<exists>e s timed_out. (e, Some (s, timed_out)) \<in>
        set [(3, Some (\<lparr>sd_shutdown = Stopped, sd_active = 0\<rparr>, False))] \<and>
        e < (10::nat) \<and> sd_shutdown s = Stopped)"
  by (rule wait_true_only_when_stopped [of 10 coordinator_default])
    (simp add: coordinator_default_def wait_loop.simps saturating_sub_def)

end
