(* ===== verification/Registry.thy ===== *)
theory Registry
  imports Prelude "HOL-Library.AList"
begin

text \<open>
  The keyed registries of the server (\<^verbatim>\<open>HashMap\<close> and \<^verbatim>\<open>BTreeMap\<close>): insertion, removal and lookup as
  association lists with distinct keys, so that they can be counted, and the contract that their
  clients use.
\<close>

type_synonym ('k, 'v) registry = "('k \<times> 'v) list"

definition reg_insert :: "'k \<Rightarrow> 'v \<Rightarrow> ('k, 'v) registry \<Rightarrow> ('k, 'v) registry" where
  "reg_insert k v r = AList.update k v r"

definition reg_remove :: "'k \<Rightarrow> ('k, 'v) registry \<Rightarrow> ('k, 'v) registry" where
  "reg_remove k r = AList.delete k r"

definition reg_get :: "('k, 'v) registry \<Rightarrow> 'k \<Rightarrow> 'v option" where
  "reg_get r k = map_of r k"

definition reg_contains :: "('k, 'v) registry \<Rightarrow> 'k \<Rightarrow> bool" where
  "reg_contains r k \<longleftrightarrow> reg_get r k \<noteq> None"

definition reg_wf :: "('k, 'v) registry \<Rightarrow> bool" where
  "reg_wf r \<longleftrightarrow> distinct (map fst r)"

definition reg_count :: "('v \<Rightarrow> bool) \<Rightarrow> ('k, 'v) registry \<Rightarrow> nat" where
  "reg_count p r = length (filter (\<lambda>kv. p (snd kv)) r)"

locale keyed_registry =
  fixes ins :: "'k \<Rightarrow> 'v \<Rightarrow> 'r \<Rightarrow> 'r"
    and rm :: "'k \<Rightarrow> 'r \<Rightarrow> 'r"
    and get :: "'r \<Rightarrow> 'k \<Rightarrow> 'v option"
    and emp :: "'r"
    and wf :: "'r \<Rightarrow> bool"
  assumes get_ins: "get (ins k v r) k' = (if k' = k then Some v else get r k')"
    and get_rm: "get (rm k r) k' = (if k' = k then None else get r k')"
    and get_emp: "get emp k = None"
    and wf_emp: "wf emp"
    and wf_ins: "wf r \<Longrightarrow> wf (ins k v r)"
    and wf_rm: "wf r \<Longrightarrow> wf (rm k r)"
begin

lemma get_ins_rm: "get (rm k (ins k v r)) k' = (if k' = k then None else get r k')"
  by (simp add: get_ins get_rm)

lemma ins_overwrites: "get (ins k v (ins k v' r)) = get (ins k v r)"
  by (auto simp: get_ins fun_eq_iff)

lemma dom_ins: "{k'. get (ins k v r) k' \<noteq> None} = insert k {k'. get r k' \<noteq> None}"
  by (auto simp: get_ins)

lemma dom_rm: "{k'. get (rm k r) k' \<noteq> None} = {k'. get r k' \<noteq> None} - {k}"
  by (auto simp: get_rm)

end

interpretation reg: keyed_registry reg_insert reg_remove reg_get "[]" reg_wf
  by unfold_locales
    (simp_all add: reg_insert_def reg_remove_def reg_get_def reg_wf_def update_conv' delete_conv'
      distinct_update distinct_delete)

lemmas reg_simps [simp] = reg.get_ins reg.get_rm reg.get_emp reg.wf_emp reg.wf_ins reg.wf_rm

lemma reg_contains_simps [simp]:
  "reg_contains (reg_insert k v r) k' \<longleftrightarrow> k' = k \<or> reg_contains r k'"
  "reg_contains (reg_remove k r) k' \<longleftrightarrow> k' \<noteq> k \<and> reg_contains r k'"
  "\<not> reg_contains [] k'"
  by (auto simp: reg_contains_def)

lemma reg_get_Some_iff: "reg_wf r \<Longrightarrow> reg_get r k = Some v \<longleftrightarrow> (k, v) \<in> set r"
  by (simp add: reg_get_def reg_wf_def)

lemma reg_count_pos: "0 < reg_count p r \<longleftrightarrow> (\<exists>kv \<in> set r. p (snd kv))"
  by (auto simp: reg_count_def filter_empty_conv)

lemma reg_count_le: "reg_count p r \<le> length r"
  by (simp add: reg_count_def)

lemma reg_insert_not_empty [simp]: "reg_insert k v r \<noteq> []"
  by (cases r) (auto simp: reg_insert_def)

end
