(* ===== verification/Health.thy ===== *)
theory Health
  imports Registry Batch
begin

text \<open>
  The health registry of \<^verbatim>\<open>crates/impossible-server-core/src/health.rs\<close> and the diagnostic report of
  \<^verbatim>\<open>doctor.rs\<close>: process lifecycle, opaque model states and the readiness snapshot, behind one lock
  whose poisoning degrades health.
\<close>

section \<open>Data\<close>

datatype lifecycle_state = LC_Starting | LC_Ready | LC_Draining | LC_Stopped

datatype model_failure_reason =
  MF_Missing | MF_Invalid | MF_SemanticVerificationPending | MF_RuntimeInitializationFailed

datatype model_state = MS_Unloaded | MS_Loading | MS_Ready | MS_Failed model_failure_reason

fun model_state_of_verification :: "model_verification_status \<Rightarrow> model_state" where
  "model_state_of_verification Missing = MS_Failed MF_Missing"
| "model_state_of_verification Invalid = MS_Failed MF_Invalid"
| "model_state_of_verification IntegrityVerified = MS_Failed MF_SemanticVerificationPending"
| "model_state_of_verification Loadable = MS_Loading"

datatype readiness_reason =
  RR_Starting | RR_NoModelsConfigured | RR_NoReadyModels | RR_Draining | RR_Stopped
| RR_HealthStateUnavailable

fun readiness_reason_code :: "readiness_reason \<Rightarrow> rstr" where
  "readiness_reason_code RR_Starting = lit ''starting''"
| "readiness_reason_code RR_NoModelsConfigured = lit ''no_models_configured''"
| "readiness_reason_code RR_NoReadyModels = lit ''no_ready_models''"
| "readiness_reason_code RR_Draining = lit ''draining''"
| "readiness_reason_code RR_Stopped = lit ''stopped''"
| "readiness_reason_code RR_HealthStateUnavailable = lit ''health_state_unavailable''"

record readiness =
  rd_state :: lifecycle_state
  rd_reason_code :: "readiness_reason option"

definition is_ready :: "readiness \<Rightarrow> bool" where
  "is_ready r \<longleftrightarrow> rd_state r = LC_Ready \<and> rd_reason_code r = None"

record health_state =
  hs_live :: bool
  hs_lifecycle :: lifecycle_state
  hs_reason :: "readiness_reason option"
  hs_models :: "(nat, model_state) registry"

type_synonym health = "health_state lock"

section \<open>Operations\<close>

definition health_default :: health where
  "health_default = Held_By_Nobody \<lparr>hs_live = True, hs_lifecycle = LC_Starting,
     hs_reason = Some RR_Starting, hs_models = []\<rparr>"

fun is_live :: "health \<Rightarrow> bool" where
  "is_live (Held_By_Nobody s) = hs_live s"
| "is_live Poisoned = False"

definition set_model :: "nat \<Rightarrow> model_state \<Rightarrow> health \<Rightarrow> health" where
  "set_model key model h = lock_update (\<lambda>s. s\<lparr>hs_models := reg_insert key model (hs_models s)\<rparr>) h"

fun remove_model :: "nat \<Rightarrow> health \<Rightarrow> health \<times> bool" where
  "remove_model key Poisoned = (Poisoned, False)"
| "remove_model key (Held_By_Nobody s) =
     (Held_By_Nobody (s\<lparr>hs_models := reg_remove key (hs_models s)\<rparr>), reg_contains (hs_models s) key)"

definition clear_models :: "health \<Rightarrow> health" where
  "clear_models h = lock_update (\<lambda>s. s\<lparr>hs_models := []\<rparr>) h"

definition set_model_verification :: "nat \<Rightarrow> model_verification_status \<Rightarrow> health \<Rightarrow> health" where
  "set_model_verification key status h = set_model key (model_state_of_verification status) h"

fun health_transition ::
  "lifecycle_state \<Rightarrow> readiness_reason option \<Rightarrow> health \<Rightarrow> health \<times> bool" where
  "health_transition next_state reason Poisoned = (Poisoned, False)"
| "health_transition next_state reason (Held_By_Nobody s) =
     (if hs_lifecycle s = LC_Stopped then (Held_By_Nobody s, next_state = LC_Stopped)
      else if hs_lifecycle s = LC_Draining \<and> (next_state = LC_Starting \<or> next_state = LC_Ready)
      then (Held_By_Nobody s, False)
      else let s1 = s\<lparr>hs_lifecycle := next_state, hs_reason := reason\<rparr>;
               s2 = (if next_state = LC_Stopped then s1\<lparr>hs_live := False\<rparr> else s1)
           in (Held_By_Nobody s2, True))"

definition or_else :: "'a option \<Rightarrow> 'a \<Rightarrow> 'a option" where
  "or_else opt x = (case opt of None \<Rightarrow> Some x | Some y \<Rightarrow> Some y)"

definition ready_count :: "health_state \<Rightarrow> nat" where
  "ready_count s = reg_count (\<lambda>m. m = MS_Ready) (hs_models s)"

fun health_readiness :: "health \<Rightarrow> readiness" where
  "health_readiness Poisoned =
     \<lparr>rd_state = LC_Draining, rd_reason_code = Some RR_HealthStateUnavailable\<rparr>"
| "health_readiness (Held_By_Nobody s) =
     \<lparr>rd_state = hs_lifecycle s,
      rd_reason_code =
        (case hs_lifecycle s of
           LC_Ready \<Rightarrow> if hs_models s = [] then Some RR_NoModelsConfigured
                       else if ready_count s = 0 then Some RR_NoReadyModels
                       else hs_reason s
         | LC_Starting \<Rightarrow> or_else (hs_reason s) RR_Starting
         | LC_Draining \<Rightarrow> or_else (hs_reason s) RR_Draining
         | LC_Stopped \<Rightarrow> or_else (hs_reason s) RR_Stopped)\<rparr>"

fun model_counts :: "health \<Rightarrow> nat \<times> nat" where
  "model_counts Poisoned = (0, 0)"
| "model_counts (Held_By_Nobody s) = (ready_count s, length (hs_models s))"

record doctor_report =
  dr_version :: rstr
  dr_lifecycle :: lifecycle_state
  dr_reason_code :: "readiness_reason option"
  dr_model_count :: nat
  dr_ready_model_count :: nat

definition doctor_from_readiness :: "rstr \<Rightarrow> readiness \<Rightarrow> nat \<Rightarrow> nat \<Rightarrow> doctor_report" where
  "doctor_from_readiness version r ready_models total_models =
     \<lparr>dr_version = version, dr_lifecycle = rd_state r, dr_reason_code = rd_reason_code r,
      dr_model_count = total_models, dr_ready_model_count = ready_models\<rparr>"

section \<open>Runs\<close>

text \<open>Every operation that writes the registry, as the other components call them.\<close>

datatype health_op =
  Op_Set nat model_state | Op_Remove nat | Op_Clear | Op_Verify nat model_verification_status
| Op_Transition lifecycle_state "readiness_reason option"

fun health_apply :: "health_op \<Rightarrow> health \<Rightarrow> health" where
  "health_apply (Op_Set k m) h = set_model k m h"
| "health_apply (Op_Remove k) h = fst (remove_model k h)"
| "health_apply Op_Clear h = clear_models h"
| "health_apply (Op_Verify k v) h = set_model_verification k v h"
| "health_apply (Op_Transition n r) h = fst (health_transition n r h)"

definition health_wf :: "health \<Rightarrow> bool" where
  "health_wf h \<longleftrightarrow> (case h of Poisoned \<Rightarrow> True | Held_By_Nobody s \<Rightarrow>
     reg_wf (hs_models s) \<and> (hs_live s \<longleftrightarrow> hs_lifecycle s \<noteq> LC_Stopped))"

definition health_stopped :: "health \<Rightarrow> bool" where
  "health_stopped h \<longleftrightarrow> (case h of Poisoned \<Rightarrow> False | Held_By_Nobody s \<Rightarrow> hs_lifecycle s = LC_Stopped)"

lemmas health_defs = set_model_def clear_models_def set_model_verification_def Let_def

lemma health_wf_default: "health_wf health_default"
  by (simp add: health_wf_def health_default_def)

lemma health_apply_wf: "health_wf h \<Longrightarrow> health_wf (health_apply oper h)"
  by (cases oper; cases h) (auto simp: health_wf_def health_defs)

lemma health_apply_stopped: "health_stopped h \<Longrightarrow> health_stopped (health_apply oper h)"
  by (cases oper; cases h) (auto simp: health_stopped_def health_defs)

lemma health_run_wf: "health_wf h \<Longrightarrow> health_wf (fold health_apply ops h)"
  by (induction ops arbitrary: h) (simp_all add: health_apply_wf)

lemma health_run_stopped: "health_stopped h \<Longrightarrow> health_stopped (fold health_apply ops h)"
  by (induction ops arbitrary: h) (simp_all add: health_apply_stopped)

lemma stopped_not_ready: "health_stopped h \<Longrightarrow> \<not> is_ready (health_readiness h)"
  by (cases h) (auto simp: health_stopped_def is_ready_def)

section \<open>Properties\<close>

text \<open>
  The readiness probe succeeds exactly when the registry is readable, the process is in its
  ready state without a standing reason, and at least one registered model is ready.
\<close>

theorem ready_iff_serving:
  "is_ready (health_readiness h) \<longleftrightarrow>
     (\<exists>s. h = Held_By_Nobody s \<and> hs_lifecycle s = LC_Ready \<and> hs_reason s = None \<and>
        (\<exists>k. (k, MS_Ready) \<in> set (hs_models s)))"
proof (cases h)
  case (Held_By_Nobody s)
  have "0 < ready_count s \<longleftrightarrow> (\<exists>k. (k, MS_Ready) \<in> set (hs_models s))"
    by (force simp: ready_count_def reg_count_pos)
  then show ?thesis
    using Held_By_Nobody by (cases "hs_lifecycle s") (auto simp: is_ready_def or_else_def split: option.splits)
qed (simp add: is_ready_def)

text \<open>
  \<open>Stopped\<close> is terminal: after the process has stopped, no sequence of registry operations makes
  it live or ready again.
\<close>

theorem stopped_is_terminal:
  assumes "health_wf h"
  shows "let h' = fold health_apply ops (fst (health_transition LC_Stopped reason h))
    in \<not> is_live h' \<and> \<not> is_ready (health_readiness h')"
proof (cases h)
  case Poisoned
  have "fold health_apply ops Poisoned = Poisoned"
  proof (induction ops)
    case (Cons oper ops)
    have "health_apply oper Poisoned = Poisoned" by (cases oper) (simp_all add: health_defs)
    with Cons show ?case by simp
  qed simp
  then show ?thesis using Poisoned by (simp add: is_ready_def)
next
  case (Held_By_Nobody s)
  let ?h = "fst (health_transition LC_Stopped reason h)"
  let ?r = "fold health_apply ops ?h"
  have "health_stopped ?h" and "health_wf ?h"
    using assms Held_By_Nobody health_apply_wf [OF assms, of "Op_Transition LC_Stopped reason"]
    by (auto simp: health_stopped_def Let_def)
  then have *: "health_stopped ?r" "health_wf ?r"
    by (simp_all add: health_run_stopped health_run_wf)
  then have "\<not> is_live ?r"
    by (cases ?r) (auto simp: health_wf_def health_stopped_def)
  with * show ?thesis by (simp add: Let_def stopped_not_ready)
qed

theorem stopped_is_terminal_witness:
  "let h' = fold health_apply [Op_Set 1 MS_Ready, Op_Transition LC_Ready None]
      (fst (health_transition LC_Stopped None health_default))
    in \<not> is_live h' \<and> \<not> is_ready (health_readiness h')"
  by (rule stopped_is_terminal [OF health_wf_default])

text \<open>
  Verified artifacts alone never make a model ready: from a registry whose ready count is known,
  recording a verification status can only lower the ready count, and the aggregate counts stay
  consistent.
\<close>

theorem verification_never_promotes:
  assumes "health_wf h"
  shows "fst (model_counts (set_model_verification k v h)) \<le> fst (model_counts h) \<and>
    fst (model_counts h) \<le> snd (model_counts h)"
proof (cases h)
  case (Held_By_Nobody s)
  have "model_state_of_verification v \<noteq> MS_Ready" by (cases v) simp_all
  then have "reg_count (\<lambda>m. m = MS_Ready) (AList.update k (model_state_of_verification v) r) \<le>
      reg_count (\<lambda>m. m = MS_Ready) r" for r
    by (induction r) (auto simp: reg_count_def)
  then show ?thesis
    using Held_By_Nobody
    by (simp add: health_defs ready_count_def reg_insert_def reg_count_le)
qed (simp add: health_defs)

theorem verification_never_promotes_witness:
  "fst (model_counts (set_model_verification 1 Loadable (set_model 1 MS_Ready health_default))) \<le> 1"
proof -
  have "health_wf (set_model 1 MS_Ready health_default)"
    using health_apply_wf [OF health_wf_default, of "Op_Set 1 MS_Ready"] by simp
  from verification_never_promotes [OF this, of 1 Loadable] show ?thesis
    by (simp add: health_defs health_default_def ready_count_def reg_count_def reg_insert_def)
qed

end
