(* ===== verification/Text.thy ===== *)
theory Text
  imports Prelude
begin

text \<open>
  The text encodings of the standard library the program relies on: UTF-8 (\<^verbatim>\<open>str::as_bytes\<close>), decimal
  numerals as \<^verbatim>\<open>Display\<close> prints them and \<^verbatim>\<open>usize::from_str\<close> reads them, zero padding
  (\<^verbatim>\<open>{:06}\<close>), and lines. Each encoding comes with its round trip.
\<close>

type_synonym bytes = "8 word list"

section \<open>UTF-8\<close>

definition is_scalar :: "nat \<Rightarrow> bool" where
  "is_scalar c \<longleftrightarrow> c < 0x110000 \<and> \<not> (0xD800 \<le> c \<and> c < 0xE000)"

definition byte :: "nat \<Rightarrow> 8 word" where
  "byte n = of_nat n"

definition utf8_char :: "nat \<Rightarrow> bytes" where
  "utf8_char c =
     (if c < 0x80 then [byte c]
      else if c < 0x800 then [byte (0xC0 + c div 64), byte (0x80 + c mod 64)]
      else if c < 0x10000 then
        [byte (0xE0 + c div 4096), byte (0x80 + c div 64 mod 64), byte (0x80 + c mod 64)]
      else [byte (0xF0 + c div 262144), byte (0x80 + c div 4096 mod 64),
            byte (0x80 + c div 64 mod 64), byte (0x80 + c mod 64)])"

definition as_bytes :: "rstr \<Rightarrow> bytes" where
  "as_bytes s = concat (map utf8_char s)"

text \<open>The first scalar of an encoded string and the rest, by the lead byte.\<close>

fun utf8_next :: "bytes \<Rightarrow> (nat \<times> bytes) option" where
  "utf8_next [] = None"
| "utf8_next (b # bs) =
     (if unat b < 0xC0 then Some (unat b, bs)
      else if unat b < 0xE0 then
        (case bs of b1 # r \<Rightarrow> Some ((unat b - 0xC0) * 64 + (unat b1 - 0x80), r) | _ \<Rightarrow> None)
      else if unat b < 0xF0 then
        (case bs of b1 # b2 # r \<Rightarrow>
           Some ((unat b - 0xE0) * 4096 + (unat b1 - 0x80) * 64 + (unat b2 - 0x80), r) | _ \<Rightarrow> None)
      else
        (case bs of b1 # b2 # b3 # r \<Rightarrow>
           Some ((unat b - 0xF0) * 262144 + (unat b1 - 0x80) * 4096 + (unat b2 - 0x80) * 64
                 + (unat b3 - 0x80), r) | _ \<Rightarrow> None))"

lemma unat_byte [simp]: "n < 256 \<Longrightarrow> unat (byte n) = n"
  by (simp add: byte_def unat_of_nat)

lemma utf8_char_length: "length (utf8_char c) = utf8_len c"
  by (simp add: utf8_char_def utf8_len_def)

lemma as_bytes_length: "length (as_bytes s) = str_len s"
  by (induction s) (simp_all add: as_bytes_def str_len_def utf8_char_length)

lemma as_bytes_Nil [simp]: "as_bytes [] = []" "as_bytes s = [] \<longleftrightarrow> s = []"
proof -
  show "as_bytes [] = []" by (simp add: as_bytes_def)
  show "as_bytes s = [] \<longleftrightarrow> s = []"
    by (cases s) (auto simp: as_bytes_def utf8_char_def)
qed

lemma utf8_next_2:
  assumes "c < 0x800" "0x80 \<le> c"
  shows "utf8_next (utf8_char c @ r) = Some (c, r)"
proof -
  have "c div 64 < 32" using assms by (simp add: div_less_iff_less_mult)
  moreover have "0x80 + c mod 64 < 256" using mod_less_divisor [of 64 c] by linarith
  ultimately show ?thesis
    using assms by (simp add: utf8_char_def)
qed

lemma utf8_next_3:
  assumes "c < 0x10000" "0x800 \<le> c"
  shows "utf8_next (utf8_char c @ r) = Some (c, r)"
proof -
  have d: "c div 4096 < 16" using assms by (simp add: div_less_iff_less_mult)
  have m: "0x80 + c div 64 mod 64 < 256" "0x80 + c mod 64 < 256"
    using mod_less_divisor [of 64 c] mod_less_divisor [of 64 "c div 64"] by linarith+
  have split: "c div 4096 * 4096 + c div 64 mod 64 * 64 + c mod 64 = c"
  proof -
    have "c div 64 = (c div 64) div 64 * 64 + c div 64 mod 64" by simp
    moreover have "(c div 64) div 64 = c div 4096" by (simp add: div_mult2_eq [symmetric])
    moreover have "c = c div 64 * 64 + c mod 64" by simp
    ultimately show ?thesis by linarith
  qed
  show ?thesis
    using assms d m split by (simp add: utf8_char_def)
qed

lemma utf8_next_4:
  assumes "c < 0x110000" "0x10000 \<le> c"
  shows "utf8_next (utf8_char c @ r) = Some (c, r)"
proof -
  have d: "c div 262144 < 8" using assms by (simp add: div_less_iff_less_mult)
  have m: "0x80 + c div 4096 mod 64 < 256" "0x80 + c div 64 mod 64 < 256" "0x80 + c mod 64 < 256"
    using mod_less_divisor [of 64 c] mod_less_divisor [of 64 "c div 64"]
      mod_less_divisor [of 64 "c div 4096"] by linarith+
  have split: "c div 262144 * 262144 + c div 4096 mod 64 * 4096 + c div 64 mod 64 * 64 + c mod 64 = c"
  proof -
    have "c div 64 = (c div 64) div 64 * 64 + c div 64 mod 64" by simp
    moreover have "(c div 64) div 64 = c div 4096" by (simp add: div_mult2_eq [symmetric])
    moreover have "c div 4096 = (c div 4096) div 64 * 64 + c div 4096 mod 64" by simp
    moreover have "(c div 4096) div 64 = c div 262144" by (simp add: div_mult2_eq [symmetric])
    moreover have "c = c div 64 * 64 + c mod 64" by simp
    ultimately show ?thesis by linarith
  qed
  show ?thesis
    using assms d m split by (simp add: utf8_char_def)
qed

lemma utf8_next_char: "is_scalar c \<Longrightarrow> utf8_next (utf8_char c @ r) = Some (c, r)"
proof -
  assume c: "is_scalar c"
  consider "c < 0x80" | "c < 0x800" "0x80 \<le> c" | "c < 0x10000" "0x800 \<le> c"
    | "c < 0x110000" "0x10000 \<le> c"
    using c by (fastforce simp: is_scalar_def)
  then show ?thesis
  proof cases
    case 1
    then show ?thesis by (simp add: utf8_char_def)
  qed (rule utf8_next_2 utf8_next_3 utf8_next_4; assumption)+
qed

lemma as_bytes_Cons: "as_bytes (c # s) = utf8_char c @ as_bytes s"
  by (simp add: as_bytes_def)

text \<open>Distinct strings have distinct bytes.\<close>

lemma as_bytes_inj:
  assumes "list_all is_scalar s" and "list_all is_scalar t"
  shows "as_bytes s = as_bytes t \<longleftrightarrow> s = t"
  using assms
proof (induction s arbitrary: t)
  case Nil
  then show ?case by (metis as_bytes_Nil)
next
  case (Cons c s)
  show ?case
  proof (cases t)
    case Nil
    then show ?thesis by simp
  next
    case (Cons d t')
    have "utf8_next (as_bytes (c # s)) = Some (c, as_bytes s)"
      "utf8_next (as_bytes (d # t')) = Some (d, as_bytes t')"
      using Cons.prems Cons by (simp_all add: as_bytes_Cons utf8_next_char del: utf8_next.simps)
    then have "as_bytes (c # s) = as_bytes (d # t') \<Longrightarrow> c = d \<and> as_bytes s = as_bytes t'"
      by simp
    with Cons.IH [of t'] Cons.prems Cons show ?thesis
      by auto
  qed
qed

text \<open>\<^verbatim>\<open>String::from_utf8\<close>: decode by lead bytes and keep only canonical encodings of scalar values.\<close>

function utf8_decode :: "bytes \<Rightarrow> rstr" where
  "utf8_decode bs = (case utf8_next bs of None \<Rightarrow> [] | Some (c, r) \<Rightarrow> c # utf8_decode r)"
  by auto

lemma utf8_next_shorter: "utf8_next bs = Some (c, r) \<Longrightarrow> length r < length bs"
  by (cases bs) (auto split: if_splits list.splits)

termination utf8_decode
  by (relation "measure length") (auto dest: utf8_next_shorter)

declare utf8_decode.simps [simp del]

definition from_utf8 :: "bytes \<Rightarrow> rstr option" where
  "from_utf8 bs =
     (let s = utf8_decode bs in if list_all is_scalar s \<and> as_bytes s = bs then Some s else None)"

lemma utf8_decode_as_bytes: "list_all is_scalar s \<Longrightarrow> utf8_decode (as_bytes s) = s"
proof (induction s)
  case Nil
  show ?case by (simp add: utf8_decode.simps)
next
  case (Cons c s)
  then have "utf8_next (as_bytes (c # s)) = Some (c, as_bytes s)"
    by (simp add: as_bytes_Cons utf8_next_char del: utf8_next.simps)
  with Cons show ?case by (simp add: utf8_decode.simps [of "as_bytes (c # s)"] del: utf8_next.simps)
qed

lemma from_utf8_Some: "from_utf8 bs = Some s \<longleftrightarrow> list_all is_scalar s \<and> as_bytes s = bs"
  by (auto simp: from_utf8_def Let_def utf8_decode_as_bytes)

section \<open>Decimal numerals\<close>

text \<open>\<^verbatim>\<open>Display\<close> of an unsigned integer.\<close>

fun decimal :: "nat \<Rightarrow> rstr" where
  "decimal n = (if n < 10 then [48 + n] else decimal (n div 10) @ [48 + n mod 10])"

declare decimal.simps [simp del]

text \<open>\<^verbatim>\<open>{:06}\<close>: at least \<open>w\<close> characters, filled with zeros on the left.\<close>

definition zero_padded :: "nat \<Rightarrow> nat \<Rightarrow> rstr" where
  "zero_padded w n = replicate (w - length (decimal n)) 48 @ decimal n"

definition is_digit :: "nat \<Rightarrow> bool" where
  "is_digit c \<longleftrightarrow> 48 \<le> c \<and> c \<le> 57"

fun digits_value :: "nat \<Rightarrow> rstr \<Rightarrow> nat option" where
  "digits_value acc [] = Some acc"
| "digits_value acc (c # s) =
     (if is_digit c then
        (case checked_mul acc 10 of None \<Rightarrow> None
         | Some a \<Rightarrow> (case checked_add a (c - 48) of None \<Rightarrow> None | Some a' \<Rightarrow> digits_value a' s))
      else None)"

text \<open>\<^verbatim>\<open>str::parse::<usize>\<close> and \<^verbatim>\<open>str::parse::<u64>\<close>: a leading plus sign is allowed.\<close>

definition parse_unsigned :: "rstr \<Rightarrow> nat option" where
  "parse_unsigned s =
     (case s of [] \<Rightarrow> None
      | c # r \<Rightarrow> if r = [] \<and> (c = 43 \<or> c = 45) then None
                 else if c = 43 then digits_value 0 r else digits_value 0 s)"

lemma decimal_digits: "\<forall>c \<in> set (decimal n). is_digit c"
proof (induction n rule: decimal.induct)
  case (1 n)
  have "n mod 10 < 10" by simp
  then have "is_digit (48 + n mod 10)" by (simp add: is_digit_def del: pos_mod_bound)
  with 1 show ?case
    by (subst decimal.simps) (auto simp: is_digit_def)
qed

lemma decimal_nonempty [simp]: "decimal n \<noteq> []"
  by (subst decimal.simps) simp

lemma digits_value_append:
  "digits_value acc (s @ t) =
     (case digits_value acc s of None \<Rightarrow> None | Some a \<Rightarrow> digits_value a t)"
  by (induction s arbitrary: acc) (auto split: option.splits)

lemma digits_value_decimal: "n < word_limit \<Longrightarrow> digits_value 0 (decimal n) = Some n"
proof (induction n rule: decimal.induct)
  case (1 n)
  show ?case
  proof (cases "n < 10")
    case True
    with 1 show ?thesis
      by (subst decimal.simps)
        (simp add: is_digit_def checked_mul_def checked_add_def)
  next
    case False
    have "n mod 10 < 10" by simp
    moreover have "n div 10 * 10 + n mod 10 = n" by simp
    moreover have "n div 10 < word_limit" using 1 by (meson div_le_dividend le_less_trans)
    moreover have "n div 10 * 10 < word_limit" using 1 by linarith
    ultimately show ?thesis
      using 1 False
      by (subst decimal.simps)
        (simp add: digits_value_append is_digit_def checked_mul_def checked_add_def
          del: pos_mod_bound)
  qed
qed

text \<open>Printing and reading a 64-bit unsigned integer is the identity.\<close>

lemma parse_unsigned_decimal: "n < word_limit \<Longrightarrow> parse_unsigned (decimal n) = Some n"
proof -
  assume n: "n < word_limit"
  obtain c r where cr: "decimal n = c # r" by (cases "decimal n") simp_all
  then have "is_digit c" using decimal_digits [of n] by simp
  then have "c \<noteq> 43" "c \<noteq> 45" by (auto simp: is_digit_def)
  with cr digits_value_decimal [OF n] show ?thesis
    by (simp add: parse_unsigned_def)
qed

lemma digits_value_bound: "acc < word_limit \<Longrightarrow> digits_value acc s = Some n \<Longrightarrow> n < word_limit"
  by (induction acc s rule: digits_value.induct)
    (auto split: if_splits option.splits simp: checked_simps)

lemma parse_unsigned_bound: "parse_unsigned s = Some n \<Longrightarrow> n < word_limit"
  using digits_value_bound [of 0]
  by (simp add: parse_unsigned_def split: list.split_asm if_split_asm del: digits_value.simps)

lemma zero_padded_digits: "\<forall>c \<in> set (zero_padded w n). is_digit c"
  using decimal_digits [of n] by (auto simp: zero_padded_def is_digit_def)

section \<open>Lines\<close>

text \<open>Every line of a text whose lines all end in a line feed (\<^verbatim>\<open>str::lines\<close>).\<close>

fun lines_from :: "rstr \<Rightarrow> rstr \<Rightarrow> rstr list" where
  "lines_from acc [] = (if acc = [] then [] else [rev acc])"
| "lines_from acc (c # s) = (if c = 10 then rev acc # lines_from [] s else lines_from (c # acc) s)"

definition text_lines :: "rstr \<Rightarrow> rstr list" where
  "text_lines s = lines_from [] s"

lemma lines_from_line: "10 \<notin> set l \<Longrightarrow> lines_from acc (l @ 10 # r) = (rev acc @ l) # lines_from [] r"
  by (induction l arbitrary: acc) auto

lemma text_lines_concat:
  "\<forall>l \<in> set ls. 10 \<notin> set l \<Longrightarrow> text_lines (concat (map (\<lambda>l. l @ [10]) ls)) = ls"
  by (induction ls) (simp_all add: text_lines_def lines_from_line)

section \<open>Splitting\<close>

text \<open>\<^verbatim>\<open>str::split(c)\<close>: always at least one piece.\<close>

fun split_on :: "nat \<Rightarrow> rstr \<Rightarrow> rstr list" where
  "split_on d [] = [[]]"
| "split_on d (c # s) =
     (case split_on d s of [] \<Rightarrow> [] | p # ps \<Rightarrow> if c = d then [] # p # ps else (c # p) # ps)"

text \<open>\<^verbatim>\<open>split_once(c).map_or(s, |(name, _)| name)\<close>: what precedes the first separator.\<close>

definition before_first :: "nat \<Rightarrow> rstr \<Rightarrow> rstr" where
  "before_first d s = takeWhile (\<lambda>c. c \<noteq> d) s"

definition replace_char :: "nat \<Rightarrow> nat \<Rightarrow> rstr \<Rightarrow> rstr" where
  "replace_char a b s = map (\<lambda>c. if c = a then b else c) s"

lemma split_on_nonempty: "split_on d s \<noteq> []"
  by (induction s) (auto split: list.splits)

text \<open>Joining the pieces with the separator gives the string back, and no piece contains it.\<close>

fun join_with :: "nat \<Rightarrow> rstr list \<Rightarrow> rstr" where
  "join_with d [] = []"
| "join_with d [p] = p"
| "join_with d (p # q # ps) = p @ d # join_with d (q # ps)"

lemma join_split: "join_with d (split_on d s) = s"
proof (induction s)
  case Nil
  show ?case by simp
next
  case (Cons c s)
  obtain p ps where "split_on d s = p # ps" using split_on_nonempty [of d s] by (cases "split_on d s") auto
  with Cons show ?case by (cases ps) auto
qed

lemma split_on_pieces: "p \<in> set (split_on d s) \<Longrightarrow> d \<notin> set p"
proof (induction s arbitrary: p)
  case Nil
  then show ?case by simp
next
  case (Cons c s)
  obtain q qs where q: "split_on d s = q # qs"
    using split_on_nonempty [of d s] by (cases "split_on d s") auto
  then have "d \<notin> set q" "\<And>r. r \<in> set qs \<Longrightarrow> d \<notin> set r" using Cons.IH by auto
  with Cons.prems q show ?case by (auto split: if_splits)
qed


section \<open>URLs\<close>

text \<open>What the URL parser reports: the origin is a tuple, with its serialization, or opaque.\<close>

record url =
  url_scheme :: rstr
  url_host :: "rstr option"
  url_username :: rstr
  url_password :: "rstr option"
  url_path :: rstr
  url_query :: "rstr option"
  url_fragment :: "rstr option"
  url_origin :: "rstr option"

end
