(* ===== verification/Metrics.thy ===== *)
theory Metrics
  imports Text
begin

text \<open>
  The metrics registry (\<^verbatim>\<open>impossible-server-core/src/metrics.rs\<close>) and the structured request event
  (\<^verbatim>\<open>telemetry.rs\<close>). Counters are 64-bit: request counts wrap (release builds do not check overflow),
  durations and gauges saturate. Shown: the exposition has exactly the advertised number of labelled
  series whatever was observed, counters count, gauges equal the live guards, events are one line.
\<close>

section \<open>Data\<close>

datatype operation = Embed | ListModels | AdminModel | Health_Probe

datatype outcome = OC_Ok | OC_Invalid | OC_Overloaded | OC_Cancelled | OC_Failed

definition all_operations :: "operation list" where
  "all_operations = [Embed, ListModels, AdminModel, Health_Probe]"

definition all_outcomes :: "outcome list" where
  "all_outcomes = [OC_Ok, OC_Invalid, OC_Overloaded, OC_Cancelled, OC_Failed]"

fun operation_label :: "operation \<Rightarrow> string" where
  "operation_label Embed = ''embed''"
| "operation_label ListModels = ''list_models''"
| "operation_label AdminModel = ''admin_model''"
| "operation_label Health_Probe = ''health''"

fun outcome_label :: "outcome \<Rightarrow> string" where
  "outcome_label OC_Ok = ''ok''"
| "outcome_label OC_Invalid = ''invalid''"
| "outcome_label OC_Overloaded = ''overloaded''"
| "outcome_label OC_Cancelled = ''cancelled''"
| "outcome_label OC_Failed = ''failed''"

record metrics_inner =
  mi_requests :: "(operation \<times> outcome) \<rightharpoonup> nat"
  mi_durations_micros :: "operation \<rightharpoonup> nat"
  mi_queue_depth :: nat
  mi_active :: nat

type_synonym metrics = "metrics_inner lock"

definition metrics_default :: metrics where
  "metrics_default = Held_By_Nobody
     \<lparr>mi_requests = (\<lambda>_. None), mi_durations_micros = (\<lambda>_. None), mi_queue_depth = 0, mi_active = 0\<rparr>"

definition or_zero :: "nat option \<Rightarrow> nat" where
  "or_zero v = (case v of None \<Rightarrow> 0 | Some n \<Rightarrow> n)"

text \<open>\<^verbatim>\<open>u64::try_from(n).unwrap_or(u64::MAX)\<close>.\<close>

definition clamp_u64 :: "nat \<Rightarrow> nat" where
  "clamp_u64 n = (if n < word_limit then n else word_limit - 1)"

section \<open>Operations\<close>

definition observe :: "operation \<Rightarrow> outcome \<Rightarrow> nat \<Rightarrow> metrics \<Rightarrow> metrics" where
  "observe op oc elapsed_micros = lock_update (\<lambda>inner. inner
     \<lparr>mi_requests := (mi_requests inner)
        ((op, oc) \<mapsto> (or_zero (mi_requests inner (op, oc)) + 1) mod word_limit),
      mi_durations_micros := (mi_durations_micros inner)
        (op \<mapsto> saturating_add (or_zero (mi_durations_micros inner op)) (clamp_u64 elapsed_micros))\<rparr>)"

definition set_queue_depth :: "nat \<Rightarrow> metrics \<Rightarrow> metrics" where
  "set_queue_depth depth = lock_update (\<lambda>inner. inner\<lparr>mi_queue_depth := clamp_u64 depth\<rparr>)"

definition set_active :: "nat \<Rightarrow> metrics \<Rightarrow> metrics" where
  "set_active active = lock_update (\<lambda>inner. inner\<lparr>mi_active := clamp_u64 active\<rparr>)"

definition increment_active :: "metrics \<Rightarrow> metrics" where
  "increment_active = lock_update (\<lambda>inner. inner\<lparr>mi_active := saturating_add (mi_active inner) 1\<rparr>)"

definition decrement_active :: "metrics \<Rightarrow> metrics" where
  "decrement_active = lock_update (\<lambda>inner. inner\<lparr>mi_active := saturating_sub (mi_active inner) 1\<rparr>)"

definition increment_queue_depth :: "metrics \<Rightarrow> metrics" where
  "increment_queue_depth =
     lock_update (\<lambda>inner. inner\<lparr>mi_queue_depth := saturating_add (mi_queue_depth inner) 1\<rparr>)"

definition decrement_queue_depth :: "metrics \<Rightarrow> metrics" where
  "decrement_queue_depth =
     lock_update (\<lambda>inner. inner\<lparr>mi_queue_depth := saturating_sub (mi_queue_depth inner) 1\<rparr>)"

definition request_line :: "operation \<Rightarrow> outcome \<Rightarrow> nat \<Rightarrow> rstr" where
  "request_line op oc v =
     lit (''impossible_requests_total{operation=\"'' @ operation_label op @ ''\",outcome=\"''
          @ outcome_label oc @ ''\"} '') @ decimal v"

definition duration_line :: "operation \<Rightarrow> nat \<Rightarrow> rstr" where
  "duration_line op micros =
     lit (''impossible_operation_duration_seconds_total{operation=\"'' @ operation_label op @ ''\"} '')
     @ decimal (micros div 1000000) @ lit ''.'' @ zero_padded 6 (micros mod 1000000)"

definition render_lines :: "metrics_inner \<Rightarrow> rstr list" where
  "render_lines inner =
     [lit ''# HELP impossible_requests_total Completed requests.'',
      lit ''# TYPE impossible_requests_total counter'']
     @ concat (map (\<lambda>op. map (\<lambda>oc. request_line op oc (or_zero (mi_requests inner (op, oc))))
         all_outcomes) all_operations)
     @ [lit ''# HELP impossible_operation_duration_seconds_total Aggregate operation time.'',
        lit ''# TYPE impossible_operation_duration_seconds_total counter'']
     @ map (\<lambda>op. duration_line op (or_zero (mi_durations_micros inner op))) all_operations
     @ [lit ''# TYPE impossible_queue_depth gauge'',
        lit ''impossible_queue_depth '' @ decimal (mi_queue_depth inner),
        lit ''# TYPE impossible_active_requests gauge'',
        lit ''impossible_active_requests '' @ decimal (mi_active inner)]"

definition render :: "metrics \<Rightarrow> rstr" where
  "render m =
     (case lock_read m of None \<Rightarrow> lit ''# metrics unavailable'' @ [10]
      | Some inner \<Rightarrow> concat (map (\<lambda>l. l @ [10]) (render_lines inner)))"

definition maximum_labelled_series :: nat where
  "maximum_labelled_series = 24"

section \<open>Telemetry events\<close>

record request_event =
  ev_request_id :: nat
  ev_operation :: operation
  ev_outcome :: outcome
  ev_input_count :: nat
  ev_request_bytes :: nat
  ev_elapsed_micros :: nat

fun operation_debug :: "operation \<Rightarrow> string" where
  "operation_debug Embed = ''Embed''"
| "operation_debug ListModels = ''ListModels''"
| "operation_debug AdminModel = ''AdminModel''"
| "operation_debug Health_Probe = ''Health''"

fun outcome_debug :: "outcome \<Rightarrow> string" where
  "outcome_debug OC_Ok = ''Ok''"
| "outcome_debug OC_Invalid = ''Invalid''"
| "outcome_debug OC_Overloaded = ''Overloaded''"
| "outcome_debug OC_Cancelled = ''Cancelled''"
| "outcome_debug OC_Failed = ''Failed''"

definition to_logfmt :: "request_event \<Rightarrow> rstr" where
  "to_logfmt e =
     lit ''event=request_complete request_id='' @ decimal (ev_request_id e)
     @ lit '' operation='' @ lit (operation_debug (ev_operation e))
     @ lit '' outcome='' @ lit (outcome_debug (ev_outcome e))
     @ lit '' input_count='' @ decimal (ev_input_count e)
     @ lit '' request_bytes='' @ decimal (ev_request_bytes e)
     @ lit '' elapsed_us='' @ decimal (ev_elapsed_micros e)"

datatype diagnostic_class = DC_Configuration | DC_Runtime | DC_Model | DC_Storage

fun diagnostic_code :: "diagnostic_class \<Rightarrow> string" where
  "diagnostic_code DC_Configuration = ''configuration_error''"
| "diagnostic_code DC_Runtime = ''runtime_error''"
| "diagnostic_code DC_Model = ''model_error''"
| "diagnostic_code DC_Storage = ''storage_error''"

section \<open>The exposition\<close>

lemma decimal_plain: "c \<in> set (decimal n) \<Longrightarrow> 48 \<le> c \<and> c \<le> 57"
  using decimal_digits [of n] by (auto simp: is_digit_def)

lemma zero_padded_plain: "c \<in> set (zero_padded w n) \<Longrightarrow> 48 \<le> c \<and> c \<le> 57"
  using zero_padded_digits [of w n] by (auto simp: is_digit_def)

lemma decimal_no_newline [simp]: "10 \<notin> set (decimal n)" "123 \<notin> set (decimal n)"
  using decimal_plain [of 10 n] decimal_plain [of 123 n] by auto

lemma zero_padded_no_newline [simp]: "10 \<notin> set (zero_padded w n)"
  using zero_padded_plain [of 10 w n] by auto

lemma request_line_labelled [simp]: "123 \<in> set (request_line op oc v)"
  by (simp add: request_line_def lit_def)

lemma request_line_one_line [simp]: "10 \<notin> set (request_line op oc v)"
  by (cases op; cases oc) (simp_all add: request_line_def lit_def)

lemma duration_line_labelled [simp]: "123 \<in> set (duration_line op v)"
  by (simp add: duration_line_def lit_def)

lemma duration_line_one_line [simp]: "10 \<notin> set (duration_line op v)"
  by (cases op) (simp_all add: duration_line_def lit_def)

lemma render_lines_one_line: "\<forall>l \<in> set (render_lines inner). 10 \<notin> set l"
  by (simp add: render_lines_def all_operations_def all_outcomes_def) (simp add: lit_def)

lemma text_lines_render: "text_lines (render (Held_By_Nobody inner)) = render_lines inner"
  by (simp add: render_def text_lines_concat render_lines_one_line)

lemma labelled_count:
  "length (filter (\<lambda>l. 123 \<in> set l) (render_lines inner)) = maximum_labelled_series"
proof -
  have "filter (\<lambda>l. 123 \<in> set l) (render_lines inner) =
      concat (map (\<lambda>op. map (\<lambda>oc. request_line op oc (or_zero (mi_requests inner (op, oc))))
        all_outcomes) all_operations)
      @ map (\<lambda>op. duration_line op (or_zero (mi_durations_micros inner op))) all_operations"
    by (simp add: render_lines_def all_operations_def all_outcomes_def) (simp add: lit_def)
  then show ?thesis
    by (simp add: all_operations_def all_outcomes_def maximum_labelled_series_def)
qed

section \<open>Counting\<close>

text \<open>A history of observations, the oldest first.\<close>

definition observe_all :: "(operation \<times> outcome \<times> nat) list \<Rightarrow> metrics \<Rightarrow> metrics" where
  "observe_all obs m = fold (\<lambda>(op, oc, us). observe op oc us) obs m"

definition requests_of :: "metrics_inner \<Rightarrow> operation \<Rightarrow> outcome \<Rightarrow> nat" where
  "requests_of inner op oc = or_zero (mi_requests inner (op, oc))"

definition micros_of :: "metrics_inner \<Rightarrow> operation \<Rightarrow> nat" where
  "micros_of inner op = or_zero (mi_durations_micros inner op)"

lemma or_zero_simps [simp]: "or_zero None = 0" "or_zero (Some n) = n"
  by (simp_all add: or_zero_def)

lemma observe_all_counts:
  assumes "requests_of inner op oc < word_limit"
  shows "\<exists>inner'. observe_all obs (Held_By_Nobody inner) = Held_By_Nobody inner' \<and>
    requests_of inner' op oc =
      (requests_of inner op oc + length (filter (\<lambda>(o', c', _). o' = op \<and> c' = oc) obs)) mod word_limit"
  using assms
proof (induction obs arbitrary: inner)
  case Nil
  then show ?case by (simp add: observe_all_def)
next
  case (Cons x obs)
  obtain o' c' us where x: "x = (o', c', us)" by (metis prod_cases3)
  obtain next_inner where n: "observe o' c' us (Held_By_Nobody inner) = Held_By_Nobody next_inner"
    and r: "requests_of next_inner op oc =
      (if o' = op \<and> c' = oc then (requests_of inner op oc + 1) mod word_limit
       else requests_of inner op oc)"
    by (auto simp: observe_def requests_of_def)
  then have "requests_of next_inner op oc < word_limit"
    using Cons.prems by (simp add: word_limit_def)
  from Cons.IH [OF this] obtain inner' where
    "observe_all obs (Held_By_Nobody next_inner) = Held_By_Nobody inner'"
    "requests_of inner' op oc = (requests_of next_inner op oc
       + length (filter (\<lambda>(o', c', _). o' = op \<and> c' = oc) obs)) mod word_limit"
    by blast
  then show ?case
    using n r x by (auto simp: observe_all_def mod_simps)
qed

lemma saturating_clamp: "saturating_add a (clamp_u64 b) = min (word_limit - 1) (a + b)"
  by (auto simp: saturating_add_def clamp_u64_def min_def word_limit_def)

lemma observe_all_durations:
  assumes "micros_of inner op < word_limit"
  shows "\<exists>inner'. observe_all obs (Held_By_Nobody inner) = Held_By_Nobody inner' \<and>
    micros_of inner' op = min (word_limit - 1)
      (micros_of inner op + sum_list (map (\<lambda>(o', _, us). if o' = op then us else 0) obs))"
  using assms
proof (induction obs arbitrary: inner)
  case Nil
  then show ?case by (simp add: observe_all_def)
next
  case (Cons x obs)
  obtain o' c' us where x: "x = (o', c', us)" by (metis prod_cases3)
  obtain next_inner where n: "observe o' c' us (Held_By_Nobody inner) = Held_By_Nobody next_inner"
    and r: "micros_of next_inner op =
      (if o' = op then min (word_limit - 1) (micros_of inner op + us) else micros_of inner op)"
    by (simp add: observe_def micros_of_def saturating_clamp)
  then have "micros_of next_inner op < word_limit"
    using Cons.prems by (simp add: min.strict_coboundedI1)
  from Cons.IH [OF this] obtain inner' where
    "observe_all obs (Held_By_Nobody next_inner) = Held_By_Nobody inner'"
    "micros_of inner' op = min (word_limit - 1) (micros_of next_inner op
       + sum_list (map (\<lambda>(o', _, us). if o' = op then us else 0) obs))"
    by blast
  then show ?case
    using n r x by (auto simp: observe_all_def min_def)
qed

lemma request_line_rendered:
  "request_line op oc (requests_of inner op oc) \<in> set (render_lines inner)"
  by (cases op; cases oc) (simp_all add: render_lines_def all_operations_def all_outcomes_def requests_of_def)

lemma duration_line_rendered: "duration_line op (micros_of inner op) \<in> set (render_lines inner)"
  by (cases op) (simp_all add: render_lines_def all_operations_def all_outcomes_def micros_of_def)

section \<open>Properties\<close>

text \<open>
  The exposition is faithful and of bounded cardinality: whatever sequence of requests was
  observed since startup, it has exactly the advertised 24 labelled series, one of which carries the
  number of requests with that operation and outcome (modulo 2 to the 64) and one the total time of
  the operation, saturated at 64 bits.
\<close>

theorem exposition_counts_requests:
  "length (filter (\<lambda>l. 123 \<in> set l) (text_lines (render (observe_all obs metrics_default))))
     = maximum_labelled_series \<and>
   request_line op oc (length (filter (\<lambda>(o', c', _). o' = op \<and> c' = oc) obs) mod word_limit)
     \<in> set (text_lines (render (observe_all obs metrics_default))) \<and>
   duration_line op
     (min (word_limit - 1) (sum_list (map (\<lambda>(o', _, us). if o' = op then us else 0) obs)))
     \<in> set (text_lines (render (observe_all obs metrics_default)))"
proof -
  define inner :: metrics_inner where
    "inner = \<lparr>mi_requests = (\<lambda>_. None), mi_durations_micros = (\<lambda>_. None), mi_queue_depth = 0, mi_active = 0\<rparr>"
  have z: "requests_of inner op oc = 0" "micros_of inner op = 0"
    by (simp_all add: inner_def requests_of_def micros_of_def)
  obtain inner' where i: "observe_all obs metrics_default = Held_By_Nobody inner'"
    and r: "requests_of inner' op oc = length (filter (\<lambda>(o', c', _). o' = op \<and> c' = oc) obs) mod word_limit"
    using observe_all_counts [of inner op oc obs] z by (auto simp: metrics_default_def inner_def)
  have d: "micros_of inner' op =
      min (word_limit - 1) (sum_list (map (\<lambda>(o', _, us). if o' = op then us else 0) obs))"
    using observe_all_durations [of inner op obs] z i by (auto simp: metrics_default_def inner_def)
  show ?thesis
    unfolding i text_lines_render
    using labelled_count request_line_rendered [of op oc inner'] duration_line_rendered [of op inner']
    by (simp add: r d)
qed

text \<open>
  Telemetry events are single lines: no carriage return or line feed can appear in a rendered
  request event, so one event cannot be split or forged into two log records.
\<close>

theorem telemetry_event_is_one_line: "10 \<notin> set (to_logfmt e) \<and> 13 \<notin> set (to_logfmt e)"
proof -
  have "13 \<notin> set (decimal n)" for n using decimal_plain [of 13 n] by auto
  then show ?thesis
    by (cases "ev_operation e"; cases "ev_outcome e") (simp_all add: to_logfmt_def lit_def)
qed

end
