(* ===== verification/Security.thy ===== *)
theory Security
  imports Text
begin

unbundle bit_operations_syntax

text \<open>
  Credentials and browser origins (\<^verbatim>\<open>impossible-server-core/src/security.rs\<close>): bounded secrets, the
  comparison without early return, loading from the environment or a file handle whose metadata is
  read before and after, bearer headers, and the exact-match origin policy. The operating system
  enters as parameters: an environment and an \<^verbatim>\<open>open\<close> that yields what a handle's metadata and
  contents will read as. The Unix configuration is modelled; \<open>fm_reparse\<close> is False there.
\<close>

section \<open>Data\<close>

datatype credential_source = Environment rstr | File rstr

datatype credential_error = CE_Unavailable | CE_Invalid

datatype secret = Secret (secret_bytes: bytes)

definition max_credential_bytes :: nat where
  "max_credential_bytes = 16 * 1024"

record file_metadata =
  fm_is_file :: bool
  fm_is_symlink :: bool
  fm_reparse :: bool
  fm_len :: nat

text \<open>
  A handle as the reader observes it: the metadata at the first and at the second query, and the
  bytes between, each possibly an I/O error.
\<close>

record file_handle =
  fh_initial :: "file_metadata option"
  fh_stream :: "bytes option"
  fh_final :: "file_metadata option"

datatype open_error = Eloop | Other_Os_Error

section \<open>Operations\<close>

definition secret_new :: "bytes \<Rightarrow> credential_error + secret" where
  "secret_new value =
     (if value = [] \<or> max_credential_bytes < length value then Err CE_Invalid else Ok (Secret value))"

text \<open>\<^verbatim>\<open>slice.get(index).copied().unwrap_or_default()\<close>.\<close>

definition byte_or_zero :: "bytes \<Rightarrow> nat \<Rightarrow> 8 word" where
  "byte_or_zero bs i = (if i < length bs then bs ! i else 0)"

definition constant_time_eq :: "bytes \<Rightarrow> bytes \<Rightarrow> bool" where
  "constant_time_eq expected candidate =
     (let max_len = max (length expected) (length candidate);
          difference = fold
            (\<lambda>index d. d OR ucast (byte_or_zero expected index XOR byte_or_zero candidate index))
            [0..<max_len]
            (of_nat (length expected) XOR of_nat (length candidate) :: 64 word)
      in difference = 0)"

definition secret_verify :: "secret \<Rightarrow> bytes \<Rightarrow> bool" where
  "secret_verify s candidate = constant_time_eq (secret_bytes s) candidate"

definition secret_debug :: "secret \<Rightarrow> rstr" where
  "secret_debug _ = lit ''Secret([REDACTED])''"

definition is_safe_regular_file :: "file_metadata \<Rightarrow> bool" where
  "is_safe_regular_file m =
     (if \<not> fm_is_file m \<or> fm_is_symlink m then False else \<not> fm_reparse m)"

definition map_open_error :: "open_error \<Rightarrow> credential_error" where
  "map_open_error e = (if e = Eloop then CE_Invalid else CE_Unavailable)"

definition read_secret_handle :: "file_handle \<Rightarrow> credential_error + bytes" where
  "read_secret_handle file =
     and_then (ok_or CE_Unavailable (fh_initial file)) (\<lambda>initial.
     and_then (reject_if (\<not> is_safe_regular_file initial \<or> max_credential_bytes < fm_len initial)
                CE_Invalid) (\<lambda>_.
     and_then (ok_or CE_Unavailable (fh_stream file)) (\<lambda>stream.
     let data = take (max_credential_bytes + 1) stream in
     and_then (ok_or CE_Unavailable (fh_final file)) (\<lambda>final_metadata.
     and_then (reject_if (\<not> is_safe_regular_file final_metadata
                 \<or> max_credential_bytes < length data
                 \<or> fm_len final_metadata \<noteq> fm_len initial
                 \<or> fm_len final_metadata \<noteq> length data) CE_Invalid) (\<lambda>_.
     Ok data)))))"

definition read_secret_file ::
  "(rstr \<Rightarrow> open_error + file_handle) \<Rightarrow> rstr \<Rightarrow> credential_error + bytes" where
  "read_secret_file open_file path = and_then (map_err map_open_error (open_file path)) read_secret_handle"

text \<open>\<^verbatim>\<open>if bytes.last() == Some(&b) { bytes.pop(); }\<close>.\<close>

definition pop_if_last :: "8 word \<Rightarrow> bytes \<Rightarrow> bytes" where
  "pop_if_last b bs = (if bs \<noteq> [] \<and> last bs = b then butlast bs else bs)"

definition load_credential ::
  "(rstr \<Rightarrow> rstr option) \<Rightarrow> (rstr \<Rightarrow> open_error + file_handle) \<Rightarrow> credential_source \<Rightarrow>
   credential_error + secret" where
  "load_credential var_os open_file source =
     and_then (case source of
         Environment name \<Rightarrow> ok_or CE_Unavailable (map_option as_bytes (var_os name))
       | File path \<Rightarrow> read_secret_file open_file path) (\<lambda>data.
     let data = pop_if_last 13 (pop_if_last 10 data) in
     if data = [] \<or> max_credential_bytes < length data then Err CE_Invalid
     else Ok (Secret data))"

type_synonym origin_policy = "rstr list"

definition origin_allows :: "origin_policy \<Rightarrow> rstr option \<Rightarrow> bool" where
  "origin_allows allowed origin =
     (case origin of None \<Rightarrow> True
      | Some value \<Rightarrow> list_ex (\<lambda>a. constant_time_eq (as_bytes a) (as_bytes value)) allowed)"

definition response_origin :: "origin_policy \<Rightarrow> rstr option \<Rightarrow> rstr option" where
  "response_origin allowed origin =
     (case origin of None \<Rightarrow> None
      | Some value \<Rightarrow> if origin_allows allowed (Some value) then Some value else None)"

definition verify_bearer :: "rstr option \<Rightarrow> secret \<Rightarrow> bool" where
  "verify_bearer header s =
     (case header of None \<Rightarrow> False
      | Some value \<Rightarrow>
          (case strip_prefix (lit ''Bearer '') value of None \<Rightarrow> False
           | Some token \<Rightarrow> token \<noteq> [] \<and> secret_verify s (as_bytes token)))"

definition verify_distinct_credentials :: "secret \<Rightarrow> secret \<Rightarrow> credential_error + unit" where
  "verify_distinct_credentials public admin =
     (if secret_verify public (secret_bytes admin) then Err CE_Invalid else Ok ())"

section \<open>Comparison\<close>

lemma xor_eq_0: "(a :: 'a::len word) XOR b = 0 \<longleftrightarrow> a = b"
  by (auto simp: bit_eq_iff bit_simps)

lemma fold_or_eq_0:
  "fold (\<lambda>i d. d OR f i) idxs (a :: 64 word) = 0 \<longleftrightarrow> a = 0 \<and> (\<forall>i \<in> set idxs. f i = 0)"
  by (induction idxs arbitrary: a) (auto simp: or_eq_0_iff)

lemma ucast_byte_eq_0: "(ucast (b :: 8 word) :: 64 word) = 0 \<longleftrightarrow> b = 0"
proof -
  have "b = 0" if "(ucast b :: 64 word) = 0"
  proof -
    have "unat b < 2 ^ 8" using unsigned_less [of b] by simp
    then have "unat b < 2 ^ 64" by simp
    then have "unat (ucast b :: 64 word) = unat b"
      by (simp add: unsigned_ucast_eq take_bit_nat_eq_self del: power_numeral_even)
    with that show ?thesis by (simp add: unat_eq_zero)
  qed
  then show ?thesis by auto
qed

lemma of_nat_64_inj:
  "a < word_limit \<Longrightarrow> b < word_limit \<Longrightarrow> (of_nat a :: 64 word) = of_nat b \<longleftrightarrow> a = b"
proof -
  assume "a < word_limit" "b < word_limit"
  then have "unat (of_nat a :: 64 word) = a" "unat (of_nat b :: 64 word) = b"
    by (simp_all add: word_limit_def unat_of_nat)
  then show ?thesis by metis
qed

lemma constant_time_eq_iff:
  assumes "length expected < word_limit" and "length candidate < word_limit"
  shows "constant_time_eq expected candidate \<longleftrightarrow> expected = candidate"
proof -
  have "constant_time_eq expected candidate \<longleftrightarrow> length expected = length candidate \<and>
      (\<forall>i < max (length expected) (length candidate).
         byte_or_zero expected i = byte_or_zero candidate i)"
    using assms
    by (auto simp: constant_time_eq_def fold_or_eq_0 ucast_byte_eq_0 xor_eq_0 of_nat_64_inj)
  also have "\<dots> \<longleftrightarrow> expected = candidate"
    by (auto simp: byte_or_zero_def list_eq_iff_nth_eq)
  finally show ?thesis .
qed

section \<open>Authorization\<close>

text \<open>What evaluates a concrete string.\<close>

lemmas evaluation_simps = lit_def as_bytes_def utf8_char_def byte_def str_len_def utf8_len_def
  max_credential_bytes_def word_limit_def is_scalar_def

lemmas loading_simps = load_credential_def read_secret_file_def read_secret_handle_def Let_def
  pop_if_last_def is_safe_regular_file_def

lemma secret_new_Ok:
  "secret_new v = Inr s \<longleftrightarrow> s = Secret v \<and> v \<noteq> [] \<and> length v \<le> max_credential_bytes"
  by (auto simp: secret_new_def)

lemma max_credential_bytes_limit: "n \<le> max_credential_bytes \<Longrightarrow> n < word_limit"
  by (simp add: max_credential_bytes_def word_limit_def)

lemma secret_verify_iff:
  assumes "length (secret_bytes s) \<le> max_credential_bytes" and "length candidate < word_limit"
  shows "secret_verify s candidate \<longleftrightarrow> secret_bytes s = candidate"
  using assms by (simp add: secret_verify_def constant_time_eq_iff max_credential_bytes_limit)

lemma bearer_iff:
  assumes "length (secret_bytes s) \<le> max_credential_bytes" and "str_len value < word_limit"
  shows "verify_bearer (Some value) s \<longleftrightarrow>
    (\<exists>token. token \<noteq> [] \<and> value = lit ''Bearer '' @ token \<and> as_bytes token = secret_bytes s)"
proof (cases "strip_prefix (lit ''Bearer '') value")
  case None
  then have "value \<noteq> lit ''Bearer '' @ token" for token
    by (metis option.distinct(1) strip_prefix_Some)
  with None show ?thesis by (simp add: verify_bearer_def)
next
  case (Some token)
  then have v: "value = lit ''Bearer '' @ token" by (simp add: strip_prefix_Some)
  then have "length (as_bytes token) < word_limit"
    using assms by (simp add: as_bytes_length str_len_def)
  then have "verify_bearer (Some value) s \<longleftrightarrow> token \<noteq> [] \<and> as_bytes token = secret_bytes s"
    using Some assms by (auto simp: verify_bearer_def secret_verify_iff)
  then show ?thesis using v by auto
qed

lemma pop_if_last_length: "length (pop_if_last b bs) \<le> length bs"
  by (simp add: pop_if_last_def)

lemma load_credential_bounds:
  "load_credential var_os open_file src = Inr s \<Longrightarrow>
   secret_bytes s \<noteq> [] \<and> length (secret_bytes s) \<le> max_credential_bytes"
  by (auto simp: load_credential_def Let_def result_simps split: if_splits)

lemma read_secret_handle_Ok:
  assumes "read_secret_handle file = Inr data"
  obtains m1 m2 where "fh_initial file = Some m1" "fh_final file = Some m2"
    "fh_stream file = Some data" "is_safe_regular_file m1" "is_safe_regular_file m2"
    "fm_len m1 = length data" "fm_len m2 = length data" "length data \<le> max_credential_bytes"
proof -
  from assms obtain m1 m2 stream where ms: "fh_initial file = Some m1" "fh_final file = Some m2"
    "fh_stream file = Some stream" "is_safe_regular_file m1" "is_safe_regular_file m2"
    and data: "data = take (max_credential_bytes + 1) stream"
    and len: "length data \<le> max_credential_bytes" "fm_len m2 = fm_len m1" "fm_len m2 = length data"
    by (auto simp: read_secret_handle_def Let_def result_simps)
  have "stream = data" using data len(1) by (cases "length stream \<le> max_credential_bytes") auto
  with ms len that show thesis by metis
qed

text \<open>
  Bearer authorization is exact: for every credential the loader accepts and every header value
  shorter than the address space, the constant-time comparison lets a request through exactly when
  the header is the word Bearer, one space and the credential's bytes.
\<close>

theorem bearer_authorizes_exactly_the_credential:
  assumes "load_credential var_os open_file src = Inr s" and "str_len value < word_limit"
  shows "verify_bearer (Some value) s \<longleftrightarrow>
    (\<exists>token. value = lit ''Bearer '' @ token \<and> as_bytes token = secret_bytes s)"
proof -
  have "secret_bytes s \<noteq> []" "length (secret_bytes s) \<le> max_credential_bytes"
    using load_credential_bounds [OF assms(1)] by simp_all
  with bearer_iff [OF _ assms(2)] show ?thesis by (metis as_bytes_Nil(1))
qed

theorem bearer_authorizes_exactly_the_credential_witness:
  "verify_bearer (Some (lit ''Bearer key'')) (Secret (as_bytes (lit ''key''))) \<longleftrightarrow>
    (\<exists>token. lit ''Bearer key'' = lit ''Bearer '' @ token \<and>
       as_bytes token = secret_bytes (Secret (as_bytes (lit ''key''))))"
  by (rule bearer_authorizes_exactly_the_credential
        [where var_os = "\<lambda>_. Some (lit ''key'')" and open_file = "\<lambda>_. Inl Eloop"
          and src = "Environment (lit ''KEY'')"];
      simp add: loading_simps evaluation_simps)

text \<open>
  Role separation: when startup finds the public and the administrative credential distinct, no
  Authorization header is accepted for both roles.
\<close>

theorem distinct_credentials_separate_roles:
  assumes "load_credential var_os open_file public_src = Inr public"
    and "load_credential var_os open_file admin_src = Inr admin"
    and "verify_distinct_credentials public admin = Inr ()"
    and "str_len value < word_limit"
  shows "\<not> (verify_bearer (Some value) public \<and> verify_bearer (Some value) admin)"
proof -
  have bounds: "length (secret_bytes public) \<le> max_credential_bytes"
    "length (secret_bytes admin) \<le> max_credential_bytes"
    using load_credential_bounds [OF assms(1)] load_credential_bounds [OF assms(2)] by simp_all
  then have "secret_bytes public \<noteq> secret_bytes admin"
    using assms(3)
    by (simp add: verify_distinct_credentials_def secret_verify_iff max_credential_bytes_limit
        split: if_splits)
  then show ?thesis
    using bearer_iff [OF bounds(1) assms(4)] bearer_iff [OF bounds(2) assms(4)] by auto
qed

definition two_keys :: "rstr \<Rightarrow> rstr option" where
  "two_keys name = (if name = lit ''PUBLIC'' then Some (lit ''one'') else Some (lit ''two''))"

theorem distinct_credentials_separate_roles_witness:
  "\<not> (verify_bearer (Some (lit ''Bearer one'')) (Secret (as_bytes (lit ''one''))) \<and>
      verify_bearer (Some (lit ''Bearer one'')) (Secret (as_bytes (lit ''two''))))"
  by (rule distinct_credentials_separate_roles
        [where var_os = two_keys and open_file = "\<lambda>_. Inl Eloop"
          and public_src = "Environment (lit ''PUBLIC'')" and admin_src = "Environment (lit ''ADMIN'')"];
      simp add: two_keys_def loading_simps evaluation_simps verify_distinct_credentials_def
        secret_verify_def constant_time_eq_def byte_or_zero_def upt_rec)

text \<open>
  Origins: for Unicode origins shorter than the address space the policy answers a browser
  request exactly with the origin it sent when that origin is configured, and with nothing otherwise;
  only requests without an Origin header pass unconditionally.
\<close>

theorem response_origin_is_exact_match:
  assumes "\<forall>a \<in> set (value # allowed). list_all is_scalar a \<and> str_len a < word_limit"
  shows "response_origin allowed (Some value) = (if value \<in> set allowed then Some value else None) \<and>
    (origin_allows allowed (Some value) \<longleftrightarrow> value \<in> set allowed) \<and>
    response_origin allowed None = None"
proof -
  have "constant_time_eq (as_bytes a) (as_bytes value) \<longleftrightarrow> a = value" if "a \<in> set allowed" for a
    using assms that by (simp add: constant_time_eq_iff as_bytes_length as_bytes_inj)
  then have "origin_allows allowed (Some value) \<longleftrightarrow> value \<in> set allowed"
    by (auto simp: origin_allows_def list_ex_iff)
  then show ?thesis by (simp add: response_origin_def)
qed

theorem response_origin_is_exact_match_witness:
  "response_origin [lit ''https://a.example''] (Some (lit ''https://b.example''))
     = (if lit ''https://b.example'' \<in> set [lit ''https://a.example'']
        then Some (lit ''https://b.example'') else None) \<and>
   (origin_allows [lit ''https://a.example''] (Some (lit ''https://b.example''))
     \<longleftrightarrow> lit ''https://b.example'' \<in> set [lit ''https://a.example'']) \<and>
   response_origin [lit ''https://a.example''] None = None"
  by (rule response_origin_is_exact_match) (simp add: evaluation_simps)

text \<open>
  A credential file is accepted only when the handle was a plain file of the same length before
  and after the read and the whole contents were read within the limit; the secret is then the
  contents less one trailing line feed and one carriage return.
\<close>

theorem credential_file_read_is_stable:
  assumes "load_credential var_os open_file (File path) = Inr s"
  shows "\<exists>file m1 m2 data. open_file path = Inr file \<and>
    fh_initial file = Some m1 \<and> fh_final file = Some m2 \<and> fh_stream file = Some data \<and>
    is_safe_regular_file m1 \<and> is_safe_regular_file m2 \<and>
    fm_len m1 = length data \<and> fm_len m2 = length data \<and> length data \<le> max_credential_bytes \<and>
    secret_bytes s \<noteq> [] \<and>
    (\<exists>tail \<in> {[], [10], [13], [13, 10]}. data = secret_bytes s @ tail)"
proof -
  from assms obtain fh data where f: "open_file path = Inr fh"
    and r: "read_secret_handle fh = Inr data"
    and s: "secret_bytes s = pop_if_last 13 (pop_if_last 10 data)" "secret_bytes s \<noteq> []"
    by (auto simp: load_credential_def read_secret_file_def Let_def result_simps split: if_splits)
  have pop: "bs = pop_if_last b bs @ [b] \<or> bs = pop_if_last b bs" for b bs
    by (metis append_butlast_last_id pop_if_last_def)
  have "\<exists>tail \<in> {[], [10], [13], [13, 10]}. data = secret_bytes s @ tail"
  proof -
    have "data = secret_bytes s @ [13, 10] \<or> data = secret_bytes s @ [10] \<or>
        data = secret_bytes s @ [13] \<or> data = secret_bytes s @ []"
      using pop [of data 10] pop [of "pop_if_last 10 data" 13] s(1)
      by (metis append_Cons append_Nil append_Nil2 append_assoc)
    then show ?thesis by blast
  qed
  with r f s(2) show ?thesis
    by (elim read_secret_handle_Ok) blast
qed

definition demo_metadata :: file_metadata where
  "demo_metadata = \<lparr>fm_is_file = True, fm_is_symlink = False, fm_reparse = False, fm_len = 4\<rparr>"

definition demo_handle :: file_handle where
  "demo_handle = \<lparr>fh_initial = Some demo_metadata, fh_stream = Some (as_bytes (lit ''key'') @ [10]),
     fh_final = Some demo_metadata\<rparr>"

theorem credential_file_read_is_stable_witness:
  "\<exists>file m1 m2 data. (\<lambda>_. Inr demo_handle :: open_error + file_handle) (lit ''p'') = Inr file \<and>
    fh_initial file = Some m1 \<and> fh_final file = Some m2 \<and> fh_stream file = Some data \<and>
    is_safe_regular_file m1 \<and> is_safe_regular_file m2 \<and>
    fm_len m1 = length data \<and> fm_len m2 = length data \<and> length data \<le> max_credential_bytes \<and>
    secret_bytes (Secret (as_bytes (lit ''key''))) \<noteq> [] \<and>
    (\<exists>tail \<in> {[], [10], [13], [13, 10]}. data = secret_bytes (Secret (as_bytes (lit ''key''))) @ tail)"
proof (rule credential_file_read_is_stable)
  show "load_credential (\<lambda>_. None) (\<lambda>_. Inr demo_handle) (File (lit ''p'')) =
      Inr (Secret (as_bytes (lit ''key'')))"
    by (simp add: demo_handle_def demo_metadata_def loading_simps evaluation_simps)
qed

end
