(* ===== verification/Config.thy ===== *)
theory Config
  imports Security
begin

text \<open>
  The typed configuration (\<^verbatim>\<open>impossible-server-core/src/config.rs\<close>): the merged record, patches from
  TOML, environment and command line, their application in key order, validation, and the loader with
  its precedence. The TOML parser, the URL parser and the socket address parser are parameters; so is
  the file system, as in theory Security. Durations are milliseconds.
\<close>

section \<open>Data\<close>

datatype startup_policy = BestEffort | Strict

record limits =
  lim_max_body_bytes :: nat
  lim_max_input_bytes :: nat
  lim_max_request_bytes :: nat
  lim_max_items :: nat
  lim_max_tokens :: nat
  lim_max_queue_depth :: nat
  lim_max_batch_items :: nat
  lim_max_batch_tokens :: nat
  lim_max_concurrency :: nat
  lim_request_timeout :: nat
  lim_shutdown_timeout :: nat

definition limits_default :: limits where
  "limits_default =
     \<lparr>lim_max_body_bytes = 2 * 1024 * 1024,
      lim_max_input_bytes = 256 * 1024,
      lim_max_request_bytes = 1024 * 1024,
      lim_max_items = 128,
      lim_max_tokens = 32768,
      lim_max_queue_depth = 256,
      lim_max_batch_items = 128,
      lim_max_batch_tokens = 32768,
      lim_max_concurrency = 4,
      lim_request_timeout = 30000,
      lim_shutdown_timeout = 20000\<rparr>"

text \<open>
  \<^verbatim>\<open>SocketAddr\<close>: four octets or eight segments (with flow label and scope), and a port.
\<close>

datatype ip_addr = V4 nat nat nat nat | V6 "nat list"

record socket_addr =
  sa_ip :: ip_addr
  sa_flowinfo :: nat
  sa_scope_id :: nat
  sa_port :: nat

fun is_loopback :: "ip_addr \<Rightarrow> bool" where
  "is_loopback (V4 a b c d) = (a = 127)"
| "is_loopback (V6 segments) = (segments = [0, 0, 0, 0, 0, 0, 0, 1])"

definition socket_addr_new :: "ip_addr \<Rightarrow> nat \<Rightarrow> socket_addr" where
  "socket_addr_new ip port = \<lparr>sa_ip = ip, sa_flowinfo = 0, sa_scope_id = 0, sa_port = port\<rparr>"

record server_config =
  sc_http_bind :: socket_addr
  sc_grpc_bind :: socket_addr
  sc_allow_insecure_remote :: bool
  sc_auth :: "credential_source option"
  sc_admin_auth :: "credential_source option"
  sc_admin_api_enabled :: bool
  sc_allowed_origins :: "rstr list"
  sc_model_directories :: "rstr list"
  sc_cache_directory :: rstr
  sc_preload_models :: "rstr list"
  sc_offline :: bool
  sc_startup_policy :: startup_policy
  sc_limits :: limits

definition server_config_default :: server_config where
  "server_config_default =
     \<lparr>sc_http_bind = socket_addr_new (V6 [0, 0, 0, 0, 0, 0, 0, 1]) 8080,
      sc_grpc_bind = socket_addr_new (V6 [0, 0, 0, 0, 0, 0, 0, 1]) 50051,
      sc_allow_insecure_remote = False,
      sc_auth = None,
      sc_admin_auth = None,
      sc_admin_api_enabled = True,
      sc_allowed_origins = [],
      sc_model_directories = [],
      sc_cache_directory = lit ''.impossible-embedding-cache'',
      sc_preload_models = [],
      sc_offline = False,
      sc_startup_policy = BestEffort,
      sc_limits = limits_default\<rparr>"

datatype config_key =
    HttpBind | GrpcBind | AllowInsecureRemote | AuthEnv | AuthTokenPresent | AuthFile
  | AdminAuthEnv | AdminAuthTokenPresent | AdminAuthFile | AdminApiEnabled | AllowedOrigins
  | ModelDirectories | CacheDirectory | PreloadModels | Offline | StartupPolicy
  | MaxBodyBytes | MaxInputBytes | MaxRequestBytes | MaxItems | MaxTokens | MaxQueueDepth
  | MaxBatchItems | MaxBatchTokens | MaxConcurrency | RequestTimeout | ShutdownTimeout
  | Toml_Key | Path_Key

text \<open>The derived order of the keys, in which a \<^verbatim>\<open>BTreeMap\<close> iterates.\<close>

definition all_keys :: "config_key list" where
  "all_keys =
     [HttpBind, GrpcBind, AllowInsecureRemote, AuthEnv, AuthTokenPresent, AuthFile,
      AdminAuthEnv, AdminAuthTokenPresent, AdminAuthFile, AdminApiEnabled, AllowedOrigins,
      ModelDirectories, CacheDirectory, PreloadModels, Offline, StartupPolicy,
      MaxBodyBytes, MaxInputBytes, MaxRequestBytes, MaxItems, MaxTokens, MaxQueueDepth,
      MaxBatchItems, MaxBatchTokens, MaxConcurrency, RequestTimeout, ShutdownTimeout,
      Toml_Key, Path_Key]"

fun config_key_as_str :: "config_key \<Rightarrow> string" where
  "config_key_as_str HttpBind = ''http_bind''"
| "config_key_as_str GrpcBind = ''grpc_bind''"
| "config_key_as_str AllowInsecureRemote = ''allow_insecure_remote''"
| "config_key_as_str AuthEnv = ''auth_env''"
| "config_key_as_str AuthTokenPresent = ''auth_token_present''"
| "config_key_as_str AuthFile = ''auth_file''"
| "config_key_as_str AdminAuthEnv = ''admin_auth_env''"
| "config_key_as_str AdminAuthTokenPresent = ''admin_auth_token_present''"
| "config_key_as_str AdminAuthFile = ''admin_auth_file''"
| "config_key_as_str AdminApiEnabled = ''admin_api_enabled''"
| "config_key_as_str AllowedOrigins = ''allowed_origins''"
| "config_key_as_str ModelDirectories = ''model_directories''"
| "config_key_as_str CacheDirectory = ''cache_directory''"
| "config_key_as_str PreloadModels = ''preload_models''"
| "config_key_as_str Offline = ''offline''"
| "config_key_as_str StartupPolicy = ''startup_policy''"
| "config_key_as_str MaxBodyBytes = ''limits.max_body_bytes''"
| "config_key_as_str MaxInputBytes = ''limits.max_input_bytes''"
| "config_key_as_str MaxRequestBytes = ''limits.max_request_bytes''"
| "config_key_as_str MaxItems = ''limits.max_items''"
| "config_key_as_str MaxTokens = ''limits.max_tokens''"
| "config_key_as_str MaxQueueDepth = ''limits.max_queue_depth''"
| "config_key_as_str MaxBatchItems = ''limits.max_batch_items''"
| "config_key_as_str MaxBatchTokens = ''limits.max_batch_tokens''"
| "config_key_as_str MaxConcurrency = ''limits.max_concurrency''"
| "config_key_as_str RequestTimeout = ''limits.request_timeout_ms''"
| "config_key_as_str ShutdownTimeout = ''limits.shutdown_timeout_ms''"
| "config_key_as_str Toml_Key = ''toml''"
| "config_key_as_str Path_Key = ''path''"

datatype config_source = CS_Toml | CS_Environment | CS_CommandLine | CS_Validation

datatype config_error =
    UnknownKey config_source
  | InvalidValue config_key string
  | MissingValue config_key
  | UnexpectedArgument
  | ConfigFileUnavailable
  | UnsafeRemoteBind
  | InvalidAdminCredentialPolicy

fun config_source_as_str :: "config_source \<Rightarrow> string" where
  "config_source_as_str CS_Toml = ''TOML''"
| "config_source_as_str CS_Environment = ''environment''"
| "config_source_as_str CS_CommandLine = ''command line''"
| "config_source_as_str CS_Validation = ''validation''"

fun config_error_display :: "config_error \<Rightarrow> string" where
  "config_error_display (UnknownKey source) =
     ''unknown configuration key in '' @ config_source_as_str source"
| "config_error_display (InvalidValue key reason) =
     ''invalid value for '' @ config_key_as_str key @ '': '' @ reason"
| "config_error_display (MissingValue key) = ''missing value for '' @ config_key_as_str key"
| "config_error_display UnexpectedArgument = ''unexpected positional argument''"
| "config_error_display ConfigFileUnavailable = ''configuration file is unavailable''"
| "config_error_display UnsafeRemoteBind =
     ''non-loopback binding requires authentication or an explicit insecure override''"
| "config_error_display InvalidAdminCredentialPolicy =
     ''administrative APIs require a separate credential source''"

record config_diagnostic =
  cd_code :: string
  cd_source :: config_source
  cd_key :: "config_key option"
  cd_reason :: "string option"

fun config_error_diagnostic :: "config_error \<Rightarrow> config_diagnostic" where
  "config_error_diagnostic (UnknownKey source) =
     \<lparr>cd_code = ''config_unknown_key'', cd_source = source, cd_key = None, cd_reason = None\<rparr>"
| "config_error_diagnostic (InvalidValue key reason) =
     \<lparr>cd_code = ''config_invalid_value'', cd_source = CS_Validation, cd_key = Some key,
      cd_reason = Some reason\<rparr>"
| "config_error_diagnostic (MissingValue key) =
     \<lparr>cd_code = ''config_missing_value'', cd_source = CS_CommandLine, cd_key = Some key,
      cd_reason = None\<rparr>"
| "config_error_diagnostic UnexpectedArgument =
     \<lparr>cd_code = ''config_unexpected_argument'', cd_source = CS_CommandLine, cd_key = None,
      cd_reason = None\<rparr>"
| "config_error_diagnostic ConfigFileUnavailable =
     \<lparr>cd_code = ''config_file_unavailable'', cd_source = CS_Toml, cd_key = None, cd_reason = None\<rparr>"
| "config_error_diagnostic UnsafeRemoteBind =
     \<lparr>cd_code = ''config_unsafe_remote_bind'', cd_source = CS_Validation, cd_key = Some HttpBind,
      cd_reason = None\<rparr>"
| "config_error_diagnostic InvalidAdminCredentialPolicy =
     \<lparr>cd_code = ''config_invalid_admin_credential_policy'', cd_source = CS_Validation,
      cd_key = Some AdminAuthEnv, cd_reason = None\<rparr>"

section \<open>Values\<close>

datatype patch_value = Scalar rstr | List_Value "rstr list"

type_synonym patch = "config_key \<rightharpoonup> patch_value"

definition patch_set :: "config_key \<Rightarrow> patch_value \<Rightarrow> patch \<Rightarrow> config_error + patch" where
  "patch_set key value patch =
     (if patch key \<noteq> None then Err (InvalidValue key ''duplicate key in one configuration source'')
      else Ok (patch(key \<mapsto> value)))"

definition parse_bool :: "rstr \<Rightarrow> bool option" where
  "parse_bool value =
     (if value = lit ''true'' \<or> value = lit ''1'' then Some True
      else if value = lit ''false'' \<or> value = lit ''0'' then Some False
      else None)"

definition parse_usize :: "rstr \<Rightarrow> config_key \<Rightarrow> config_error + nat" where
  "parse_usize value key = ok_or (InvalidValue key ''expected positive integer'') (parse_unsigned value)"

definition parse_duration :: "rstr \<Rightarrow> config_key \<Rightarrow> config_error + nat" where
  "parse_duration value key = ok_or (InvalidValue key ''expected milliseconds'') (parse_unsigned value)"

definition env_name_char :: "nat \<Rightarrow> bool" where
  "env_name_char c \<longleftrightarrow> c = 95 \<or> (65 \<le> c \<and> c \<le> 90) \<or> (48 \<le> c \<and> c \<le> 57)"

definition validate_env_name :: "rstr \<Rightarrow> config_key \<Rightarrow> config_error + rstr" where
  "validate_env_name value key =
     (if value = [] \<or> \<not> list_all env_name_char value
      then Err (InvalidValue key ''expected an uppercase environment variable name'')
      else Ok value)"

definition list_value :: "patch_value \<Rightarrow> config_key \<Rightarrow> config_error + rstr list" where
  "list_value value key =
     (let values = (case value of Scalar v \<Rightarrow> map trim (split_on 44 v) | List_Value vs \<Rightarrow> vs)
      in if list_ex (\<lambda>v. v = []) values
         then Err (InvalidValue key ''list entries must not be empty'') else Ok values)"

definition scalar_value :: "patch_value \<Rightarrow> config_key \<Rightarrow> config_error + rstr" where
  "scalar_value value key =
     (case value of Scalar v \<Rightarrow> Ok v
      | List_Value _ \<Rightarrow> Err (InvalidValue key ''expected scalar value''))"

definition bool_value :: "patch_value \<Rightarrow> config_key \<Rightarrow> config_error + bool" where
  "bool_value value key =
     and_then (scalar_value value key) (\<lambda>v. ok_or (InvalidValue key ''expected boolean'') (parse_bool v))"

definition usize_value :: "patch_value \<Rightarrow> config_key \<Rightarrow> config_error + nat" where
  "usize_value value key = and_then (scalar_value value key) (\<lambda>v. parse_usize v key)"

definition duration_value :: "patch_value \<Rightarrow> config_key \<Rightarrow> config_error + nat" where
  "duration_value value key = and_then (scalar_value value key) (\<lambda>v. parse_duration v key)"

definition env_value :: "patch_value \<Rightarrow> config_key \<Rightarrow> config_error + credential_source" where
  "env_value value key =
     and_then (scalar_value value key) (\<lambda>v.
     and_then (validate_env_name v key) (\<lambda>name. Ok (Environment name)))"

definition startup_value :: "patch_value \<Rightarrow> config_key \<Rightarrow> config_error + startup_policy" where
  "startup_value value key =
     and_then (scalar_value value key) (\<lambda>v.
     if v = lit ''best_effort'' then Ok BestEffort
     else if v = lit ''strict'' then Ok Strict
     else Err (InvalidValue key ''expected best_effort or strict''))"

text \<open>\<^verbatim>\<open>target.limits.field = value\<close>.\<close>

abbreviation set_limit ::
  "server_config \<Rightarrow> config_error + nat \<Rightarrow> (nat \<Rightarrow> limits \<Rightarrow> limits) \<Rightarrow> config_error + server_config" where
  "set_limit target r upd \<equiv>
     and_then r (\<lambda>n. Ok (target\<lparr>sc_limits := upd n (sc_limits target)\<rparr>))"

fun apply_value ::
  "(rstr \<Rightarrow> socket_addr option) \<Rightarrow> server_config \<Rightarrow> config_key \<Rightarrow> patch_value \<Rightarrow>
   config_error + server_config" where
  "apply_value addr target HttpBind value =
     and_then (scalar_value value HttpBind) (\<lambda>v.
     and_then (ok_or (InvalidValue HttpBind ''expected socket address'') (addr v)) (\<lambda>a.
     Ok (target\<lparr>sc_http_bind := a\<rparr>)))"
| "apply_value addr target GrpcBind value =
     and_then (scalar_value value GrpcBind) (\<lambda>v.
     and_then (ok_or (InvalidValue GrpcBind ''expected socket address'') (addr v)) (\<lambda>a.
     Ok (target\<lparr>sc_grpc_bind := a\<rparr>)))"
| "apply_value addr target AllowInsecureRemote value =
     and_then (bool_value value AllowInsecureRemote) (\<lambda>b.
     Ok (target\<lparr>sc_allow_insecure_remote := b\<rparr>))"
| "apply_value addr target AuthEnv value =
     and_then (env_value value AuthEnv) (\<lambda>c. Ok (target\<lparr>sc_auth := Some c\<rparr>))"
| "apply_value addr target AuthTokenPresent value =
     and_then (scalar_value value AuthTokenPresent) (\<lambda>v.
     Ok (target\<lparr>sc_auth := Some (Environment v)\<rparr>))"
| "apply_value addr target AuthFile value =
     and_then (scalar_value value AuthFile) (\<lambda>v. Ok (target\<lparr>sc_auth := Some (File v)\<rparr>))"
| "apply_value addr target AdminAuthEnv value =
     and_then (env_value value AdminAuthEnv) (\<lambda>c. Ok (target\<lparr>sc_admin_auth := Some c\<rparr>))"
| "apply_value addr target AdminAuthTokenPresent value =
     and_then (scalar_value value AdminAuthTokenPresent) (\<lambda>v.
     Ok (target\<lparr>sc_admin_auth := Some (Environment v)\<rparr>))"
| "apply_value addr target AdminAuthFile value =
     and_then (scalar_value value AdminAuthFile) (\<lambda>v. Ok (target\<lparr>sc_admin_auth := Some (File v)\<rparr>))"
| "apply_value addr target AdminApiEnabled value =
     and_then (bool_value value AdminApiEnabled) (\<lambda>b. Ok (target\<lparr>sc_admin_api_enabled := b\<rparr>))"
| "apply_value addr target AllowedOrigins value =
     and_then (list_value value AllowedOrigins) (\<lambda>vs. Ok (target\<lparr>sc_allowed_origins := vs\<rparr>))"
| "apply_value addr target ModelDirectories value =
     and_then (list_value value ModelDirectories) (\<lambda>vs. Ok (target\<lparr>sc_model_directories := vs\<rparr>))"
| "apply_value addr target CacheDirectory value =
     and_then (scalar_value value CacheDirectory) (\<lambda>v. Ok (target\<lparr>sc_cache_directory := v\<rparr>))"
| "apply_value addr target PreloadModels value =
     and_then (list_value value PreloadModels) (\<lambda>vs. Ok (target\<lparr>sc_preload_models := vs\<rparr>))"
| "apply_value addr target Offline value =
     and_then (bool_value value Offline) (\<lambda>b. Ok (target\<lparr>sc_offline := b\<rparr>))"
| "apply_value addr target StartupPolicy value =
     and_then (startup_value value StartupPolicy) (\<lambda>p. Ok (target\<lparr>sc_startup_policy := p\<rparr>))"
| "apply_value addr target MaxBodyBytes value =
     set_limit target (usize_value value MaxBodyBytes) (\<lambda>n l. l\<lparr>lim_max_body_bytes := n\<rparr>)"
| "apply_value addr target MaxInputBytes value =
     set_limit target (usize_value value MaxInputBytes) (\<lambda>n l. l\<lparr>lim_max_input_bytes := n\<rparr>)"
| "apply_value addr target MaxRequestBytes value =
     set_limit target (usize_value value MaxRequestBytes) (\<lambda>n l. l\<lparr>lim_max_request_bytes := n\<rparr>)"
| "apply_value addr target MaxItems value =
     set_limit target (usize_value value MaxItems) (\<lambda>n l. l\<lparr>lim_max_items := n\<rparr>)"
| "apply_value addr target MaxTokens value =
     set_limit target (usize_value value MaxTokens) (\<lambda>n l. l\<lparr>lim_max_tokens := n\<rparr>)"
| "apply_value addr target MaxQueueDepth value =
     set_limit target (usize_value value MaxQueueDepth) (\<lambda>n l. l\<lparr>lim_max_queue_depth := n\<rparr>)"
| "apply_value addr target MaxBatchItems value =
     set_limit target (usize_value value MaxBatchItems) (\<lambda>n l. l\<lparr>lim_max_batch_items := n\<rparr>)"
| "apply_value addr target MaxBatchTokens value =
     set_limit target (usize_value value MaxBatchTokens) (\<lambda>n l. l\<lparr>lim_max_batch_tokens := n\<rparr>)"
| "apply_value addr target MaxConcurrency value =
     set_limit target (usize_value value MaxConcurrency) (\<lambda>n l. l\<lparr>lim_max_concurrency := n\<rparr>)"
| "apply_value addr target RequestTimeout value =
     set_limit target (duration_value value RequestTimeout) (\<lambda>n l. l\<lparr>lim_request_timeout := n\<rparr>)"
| "apply_value addr target ShutdownTimeout value =
     set_limit target (duration_value value ShutdownTimeout) (\<lambda>n l. l\<lparr>lim_shutdown_timeout := n\<rparr>)"
| "apply_value addr target Toml_Key value =
     Err (InvalidValue Toml_Key ''field is not directly configurable'')"
| "apply_value addr target Path_Key value =
     Err (InvalidValue Path_Key ''field is not directly configurable'')"

section \<open>Patches\<close>

definition credential_alternatives :: "config_key list list" where
  "credential_alternatives =
     [[AuthEnv, AuthFile, AuthTokenPresent], [AdminAuthEnv, AdminAuthFile, AdminAuthTokenPresent]]"

definition patch_conflict :: "patch \<Rightarrow> config_key list \<Rightarrow> bool" where
  "patch_conflict patch alternatives \<longleftrightarrow> 1 < length (filter (\<lambda>k. patch k \<noteq> None) alternatives)"

fun apply_keys ::
  "(rstr \<Rightarrow> socket_addr option) \<Rightarrow> patch \<Rightarrow> config_key list \<Rightarrow> server_config \<Rightarrow>
   config_error + server_config" where
  "apply_keys addr patch [] target = Ok target"
| "apply_keys addr patch (k # ks) target =
     (case patch k of None \<Rightarrow> apply_keys addr patch ks target
      | Some value \<Rightarrow> and_then (apply_value addr target k value) (apply_keys addr patch ks))"

definition patch_apply ::
  "(rstr \<Rightarrow> socket_addr option) \<Rightarrow> patch \<Rightarrow> server_config \<Rightarrow> config_error + server_config" where
  "patch_apply addr patch target =
     (case find (patch_conflict patch) credential_alternatives of
        Some alternatives \<Rightarrow>
          Err (InvalidValue (hd alternatives) ''configure exactly one credential source'')
      | None \<Rightarrow> apply_keys addr patch all_keys target)"

definition key_table :: "(string \<times> config_key) list" where
  "key_table =
     [(''http_bind'', HttpBind), (''grpc_bind'', GrpcBind),
      (''allow_insecure_remote'', AllowInsecureRemote),
      (''auth_env'', AuthEnv), (''auth_token_present'', AuthTokenPresent), (''auth_file'', AuthFile),
      (''admin_auth_env'', AdminAuthEnv), (''admin_auth_token_present'', AdminAuthTokenPresent),
      (''admin_auth_file'', AdminAuthFile), (''admin_api_enabled'', AdminApiEnabled),
      (''allowed_origins'', AllowedOrigins), (''model_directories'', ModelDirectories),
      (''cache_directory'', CacheDirectory), (''preload_models'', PreloadModels),
      (''offline'', Offline), (''startup_policy'', StartupPolicy),
      (''limits.max_body_bytes'', MaxBodyBytes), (''limits.max_input_bytes'', MaxInputBytes),
      (''limits.max_request_bytes'', MaxRequestBytes), (''limits.max_items'', MaxItems),
      (''limits.max_tokens'', MaxTokens), (''limits.max_queue_depth'', MaxQueueDepth),
      (''limits.max_batch_items'', MaxBatchItems), (''limits.max_batch_tokens'', MaxBatchTokens),
      (''limits.max_concurrency'', MaxConcurrency),
      (''limits.request_timeout_ms'', RequestTimeout),
      (''limits.shutdown_timeout_ms'', ShutdownTimeout)]"

definition lookup_name :: "(string \<times> 'a) list \<Rightarrow> rstr \<Rightarrow> 'a option" where
  "lookup_name table name = map_of (map (\<lambda>(s, k). (lit s, k)) table) name"

definition parse_key :: "rstr \<Rightarrow> config_key option" where
  "parse_key key = lookup_name key_table key"

datatype toml_value =
    TV_String rstr | TV_Integer int | TV_Boolean bool | TV_Array "toml_value list"
  | TV_Table "(rstr \<times> toml_value) list" | TV_Other

definition decimal_int :: "int \<Rightarrow> rstr" where
  "decimal_int i = (if i < 0 then 45 # decimal (nat (- i)) else decimal (nat i))"

fun toml_as_str :: "toml_value \<Rightarrow> rstr option" where
  "toml_as_str (TV_String v) = Some v"
| "toml_as_str _ = None"

definition toml_patch_value :: "config_key \<Rightarrow> toml_value \<Rightarrow> config_error + patch_value" where
  "toml_patch_value key value =
     (case value of
        TV_String v \<Rightarrow> Ok (Scalar v)
      | TV_Integer i \<Rightarrow> Ok (Scalar (decimal_int i))
      | TV_Boolean b \<Rightarrow> Ok (Scalar (if b then lit ''true'' else lit ''false''))
      | TV_Array vs \<Rightarrow>
          and_then (collect_results
            (\<lambda>v. ok_or (InvalidValue key ''expected an array of strings'') (toml_as_str v)) vs)
          (\<lambda>strs. Ok (List_Value strs))
      | _ \<Rightarrow> Err (InvalidValue key ''unsupported TOML value type''))"

definition insert_toml_value :: "patch \<Rightarrow> config_key \<Rightarrow> toml_value \<Rightarrow> config_error + patch" where
  "insert_toml_value patch key value =
     and_then (toml_patch_value key value) (\<lambda>v. patch_set key v patch)"

fun insert_toml_entries ::
  "(rstr \<Rightarrow> rstr) \<Rightarrow> (rstr \<times> toml_value) list \<Rightarrow> patch \<Rightarrow> config_error + patch" where
  "insert_toml_entries name [] patch = Ok patch"
| "insert_toml_entries name ((k, v) # rest) patch =
     and_then (ok_or (UnknownKey CS_Toml) (parse_key (name k))) (\<lambda>key.
     and_then (insert_toml_value patch key v) (insert_toml_entries name rest))"

fun insert_toml_table :: "(rstr \<times> toml_value) list \<Rightarrow> patch \<Rightarrow> config_error + patch" where
  "insert_toml_table [] patch = Ok patch"
| "insert_toml_table ((k, v) # rest) patch =
     (if k = lit ''limits'' then
        (case v of TV_Table entries \<Rightarrow>
           and_then (insert_toml_entries (\<lambda>l. lit ''limits.'' @ l) entries patch)
             (insert_toml_table rest)
         | _ \<Rightarrow> Err (InvalidValue Toml_Key ''expected table''))
      else and_then (insert_toml_entries (\<lambda>l. l) [(k, v)] patch) (insert_toml_table rest))"

definition parse_toml ::
  "(rstr \<Rightarrow> (rstr \<times> toml_value) list option) \<Rightarrow> rstr \<Rightarrow> config_error + patch" where
  "parse_toml toml input =
     and_then (ok_or (InvalidValue Toml_Key ''invalid TOML document'') (toml input)) (\<lambda>table.
     insert_toml_table table Map.empty)"

definition environment_table :: "(string \<times> config_key) list" where
  "environment_table =
     [(''HTTP_BIND'', HttpBind), (''GRPC_BIND'', GrpcBind),
      (''ALLOW_INSECURE_REMOTE'', AllowInsecureRemote),
      (''AUTH_ENV'', AuthEnv), (''AUTH_TOKEN'', AuthTokenPresent), (''AUTH_FILE'', AuthFile),
      (''ADMIN_AUTH_ENV'', AdminAuthEnv), (''ADMIN_AUTH_TOKEN'', AdminAuthTokenPresent),
      (''ADMIN_AUTH_FILE'', AdminAuthFile), (''ADMIN_API_ENABLED'', AdminApiEnabled),
      (''ALLOWED_ORIGINS'', AllowedOrigins), (''MODEL_DIRECTORIES'', ModelDirectories),
      (''CACHE_DIRECTORY'', CacheDirectory), (''PRELOAD_MODELS'', PreloadModels),
      (''OFFLINE'', Offline), (''STARTUP_POLICY'', StartupPolicy),
      (''MAX_BODY_BYTES'', MaxBodyBytes), (''MAX_INPUT_BYTES'', MaxInputBytes),
      (''MAX_REQUEST_BYTES'', MaxRequestBytes), (''MAX_ITEMS'', MaxItems),
      (''MAX_TOKENS'', MaxTokens), (''MAX_QUEUE_DEPTH'', MaxQueueDepth),
      (''MAX_BATCH_ITEMS'', MaxBatchItems), (''MAX_BATCH_TOKENS'', MaxBatchTokens),
      (''MAX_CONCURRENCY'', MaxConcurrency),
      (''REQUEST_TIMEOUT_MS'', RequestTimeout),
      (''SHUTDOWN_TIMEOUT_MS'', ShutdownTimeout)]"

fun parse_environment_from :: "(rstr \<times> rstr) list \<Rightarrow> patch \<Rightarrow> config_error + patch" where
  "parse_environment_from [] patch = Ok patch"
| "parse_environment_from ((key, value) # rest) patch =
     (case strip_prefix (lit ''IMPOSSIBLE_'') key of
        None \<Rightarrow> parse_environment_from rest patch
      | Some suffix \<Rightarrow>
          (case lookup_name environment_table suffix of
             None \<Rightarrow> Err (UnknownKey CS_Environment)
           | Some normalized \<Rightarrow>
               if normalized = AuthTokenPresent \<or> normalized = AdminAuthTokenPresent then
                 if value = [] then Err (InvalidValue normalized ''credential must not be empty'')
                 else and_then (patch_set normalized (Scalar key) patch) (parse_environment_from rest)
               else and_then (patch_set normalized (Scalar value) patch) (parse_environment_from rest)))"

definition parse_environment :: "(rstr \<times> rstr) list \<Rightarrow> config_error + patch" where
  "parse_environment environment = parse_environment_from environment Map.empty"

definition credential_like_option :: "rstr \<Rightarrow> bool" where
  "credential_like_option opt \<longleftrightarrow>
     opt = lit ''auth'' \<or> str_contains opt (lit ''token'') \<or> str_contains opt (lit ''secret'')
     \<or> str_contains opt (lit ''password'') \<or> str_contains opt (lit ''credential'')
     \<or> str_contains opt (lit ''api_key'')"

definition cli_limit_names :: "(string \<times> string) list" where
  "cli_limit_names =
     [(''max_body_bytes'', ''limits.max_body_bytes''), (''max_input_bytes'', ''limits.max_input_bytes''),
      (''max_request_bytes'', ''limits.max_request_bytes''), (''max_items'', ''limits.max_items''),
      (''max_tokens'', ''limits.max_tokens''), (''max_queue_depth'', ''limits.max_queue_depth''),
      (''max_batch_items'', ''limits.max_batch_items''),
      (''max_batch_tokens'', ''limits.max_batch_tokens''),
      (''max_concurrency'', ''limits.max_concurrency''),
      (''request_timeout_ms'', ''limits.request_timeout_ms''),
      (''shutdown_timeout_ms'', ''limits.shutdown_timeout_ms'')]"

text \<open>One command-line option name up to its key: the credential check, then the two name tables.\<close>

definition cli_key :: "rstr \<Rightarrow> config_error + config_key" where
  "cli_key opt =
     (let normalized = replace_char 45 95 (before_first 61 opt) in
      if credential_like_option normalized then Err (UnknownKey CS_CommandLine)
      else ok_or (UnknownKey CS_CommandLine)
        (parse_key (case lookup_name cli_limit_names normalized of
           Some name \<Rightarrow> lit name | None \<Rightarrow> normalized)))"

fun parse_cli_from :: "rstr list \<Rightarrow> patch \<Rightarrow> config_error + patch" where
  "parse_cli_from [] patch = Ok patch"
| "parse_cli_from (argument # args) patch =
     (case strip_prefix (lit ''--'') argument of
        None \<Rightarrow> Err UnexpectedArgument
      | Some opt \<Rightarrow>
          and_then (cli_key opt) (\<lambda>key.
          if 61 \<in> set opt then Err (InvalidValue key ''inline option values are not supported'')
          else if key = AllowInsecureRemote \<or> key = Offline then
            and_then (patch_set key (Scalar (lit ''true'')) patch) (parse_cli_from args)
          else (case args of [] \<Rightarrow> Err (MissingValue key)
            | value # rest \<Rightarrow>
                and_then (patch_set key (Scalar value) patch) (parse_cli_from rest))))"

definition parse_cli :: "rstr list \<Rightarrow> config_error + patch" where
  "parse_cli arguments = parse_cli_from arguments Map.empty"

section \<open>Validation\<close>

definition valid_origin :: "(rstr \<Rightarrow> url option) \<Rightarrow> rstr \<Rightarrow> bool" where
  "valid_origin parse_url origin =
     (if origin = [] \<or> 42 \<in> set origin then False
      else (case parse_url origin of None \<Rightarrow> False
        | Some u \<Rightarrow>
            if url_scheme u \<notin> {lit ''http'', lit ''https''} \<or> url_host u = None
               \<or> url_username u \<noteq> [] \<or> url_password u \<noteq> None \<or> url_path u \<noteq> lit ''/''
               \<or> url_query u \<noteq> None \<or> url_fragment u \<noteq> None
            then False
            else (case url_origin u of None \<Rightarrow> False | Some serialized \<Rightarrow> serialized = origin)))"

definition bound_table :: "limits \<Rightarrow> (config_key \<times> nat \<times> nat) list" where
  "bound_table l =
     [(MaxBodyBytes, lim_max_body_bytes l, 64 * 1024 * 1024),
      (MaxInputBytes, lim_max_input_bytes l, 64 * 1024 * 1024),
      (MaxRequestBytes, lim_max_request_bytes l, 64 * 1024 * 1024),
      (MaxItems, lim_max_items l, 4096),
      (MaxTokens, lim_max_tokens l, 1000000),
      (MaxQueueDepth, lim_max_queue_depth l, 100000),
      (MaxBatchItems, lim_max_batch_items l, 4096),
      (MaxBatchTokens, lim_max_batch_tokens l, 10000000),
      (MaxConcurrency, lim_max_concurrency l, 1024)]"

definition validate_bounds :: "limits \<Rightarrow> config_error + unit" where
  "validate_bounds l =
     (case find (\<lambda>(key, value, bound). \<not> (1 \<le> value \<and> value \<le> bound)) (bound_table l) of
        Some (key, _, _) \<Rightarrow> Err (InvalidValue key ''outside supported bounds'')
      | None \<Rightarrow>
     (case find (\<lambda>(key, value). value < 10 \<or> 600000 < value)
         [(RequestTimeout, lim_request_timeout l), (ShutdownTimeout, lim_shutdown_timeout l)] of
        Some (key, _) \<Rightarrow> Err (InvalidValue key ''outside supported bounds'')
      | None \<Rightarrow>
     if lim_max_batch_items l < lim_max_items l
     then Err (InvalidValue MaxBatchItems ''must be at least limits.max_items'')
     else if lim_max_request_bytes l < lim_max_input_bytes l
     then Err (InvalidValue MaxRequestBytes ''must be at least limits.max_input_bytes'')
     else if lim_max_body_bytes l < lim_max_request_bytes l
     then Err (InvalidValue MaxRequestBytes ''must not exceed limits.max_body_bytes'')
     else if lim_max_batch_tokens l < lim_max_tokens l
     then Err (InvalidValue MaxBatchTokens ''must be at least limits.max_tokens'')
     else Ok ()))"

text \<open>The scan of the preloads with the set of names already seen.\<close>

fun preload_rejected :: "rstr set \<Rightarrow> rstr list \<Rightarrow> bool" where
  "preload_rejected seen [] = False"
| "preload_rejected seen (model # rest) =
     (trim model = [] \<or> 512 < str_len model \<or> list_ex is_control model \<or> model \<in> seen
      \<or> preload_rejected (insert model seen) rest)"

definition remotely_exposed :: "server_config \<Rightarrow> bool" where
  "remotely_exposed c \<longleftrightarrow>
     \<not> is_loopback (sa_ip (sc_http_bind c)) \<or> \<not> is_loopback (sa_ip (sc_grpc_bind c))"

definition validate :: "(rstr \<Rightarrow> url option) \<Rightarrow> server_config \<Rightarrow> config_error + unit" where
  "validate parse_url c =
     and_then (reject_if (remotely_exposed c \<and> sc_auth c = None \<and> \<not> sc_allow_insecure_remote c)
       UnsafeRemoteBind) (\<lambda>_.
     and_then (reject_if ((sc_admin_auth c \<noteq> None \<and> sc_admin_auth c = sc_auth c)
         \<or> (remotely_exposed c \<and> sc_admin_api_enabled c \<and> sc_admin_auth c = None))
       InvalidAdminCredentialPolicy) (\<lambda>_.
     and_then (reject_if (sc_http_bind c = sc_grpc_bind c)
       (InvalidValue GrpcBind ''HTTP and gRPC listeners must use distinct addresses'')) (\<lambda>_.
     and_then (reject_if (sc_cache_directory c = [])
       (InvalidValue CacheDirectory ''cache directory must not be empty'')) (\<lambda>_.
     and_then (reject_if (preload_rejected {} (sc_preload_models c))
       (InvalidValue PreloadModels ''preload models must be unique, bounded, non-empty identifiers'')) (\<lambda>_.
     and_then (validate_bounds (sc_limits c)) (\<lambda>_.
     reject_if (list_ex (\<lambda>o'. \<not> valid_origin parse_url o') (sc_allowed_origins c))
       (InvalidValue AllowedOrigins
          ''origins must be exact HTTP(S) origins without wildcards'')))))))"

section \<open>Loading\<close>

definition max_config_file_bytes :: nat where
  "max_config_file_bytes = 256 * 1024"

definition read_config_file ::
  "(rstr \<Rightarrow> open_error + file_handle) \<Rightarrow> rstr \<Rightarrow> config_error + rstr" where
  "read_config_file open_file path =
     and_then (map_err (\<lambda>_. ConfigFileUnavailable) (open_file path)) (\<lambda>file.
     and_then (ok_or ConfigFileUnavailable (fh_initial file)) (\<lambda>initial.
     and_then (reject_if (\<not> is_safe_regular_file initial \<or> max_config_file_bytes < fm_len initial)
                ConfigFileUnavailable) (\<lambda>_.
     and_then (ok_or ConfigFileUnavailable (fh_stream file)) (\<lambda>stream.
     let data = take (max_config_file_bytes + 1) stream in
     and_then (ok_or ConfigFileUnavailable (fh_final file)) (\<lambda>final_metadata.
     and_then (reject_if (\<not> is_safe_regular_file final_metadata
                 \<or> max_config_file_bytes < length data
                 \<or> fm_len final_metadata \<noteq> fm_len initial
                 \<or> fm_len final_metadata \<noteq> length data) ConfigFileUnavailable) (\<lambda>_.
     ok_or ConfigFileUnavailable (from_utf8 data)))))))"

text \<open>The parsers of other crates and of the standard library, and the file system.\<close>

record config_env =
  ce_addr :: "rstr \<Rightarrow> socket_addr option"
  ce_url :: "rstr \<Rightarrow> url option"
  ce_toml :: "rstr \<Rightarrow> (rstr \<times> toml_value) list option"
  ce_open :: "rstr \<Rightarrow> open_error + file_handle"

definition load_toml :: "config_env \<Rightarrow> rstr option \<Rightarrow> config_error + patch" where
  "load_toml env toml_path =
     (case toml_path of None \<Rightarrow> Ok Map.empty
      | Some path \<Rightarrow> and_then (read_config_file (ce_open env) path) (parse_toml (ce_toml env)))"

definition load ::
  "config_env \<Rightarrow> rstr option \<Rightarrow> (rstr \<times> rstr) list \<Rightarrow> rstr list \<Rightarrow> config_error + server_config" where
  "load env toml_path environment cli =
     and_then (load_toml env toml_path) (\<lambda>t.
     and_then (patch_apply (ce_addr env) t server_config_default) (\<lambda>c1.
     and_then (parse_environment environment) (\<lambda>e.
     and_then (patch_apply (ce_addr env) e c1) (\<lambda>c2.
     and_then (parse_cli cli) (\<lambda>a.
     and_then (patch_apply (ce_addr env) a c2) (\<lambda>c3.
     and_then (validate (ce_url env) c3) (\<lambda>_. Ok c3)))))))"

section \<open>Fields\<close>

text \<open>
  The field a key configures, named by its first key, and its value in a configuration: what
  precedence between the sources is about.
\<close>

fun field_of :: "config_key \<Rightarrow> config_key" where
  "field_of AuthTokenPresent = AuthEnv"
| "field_of AuthFile = AuthEnv"
| "field_of AdminAuthTokenPresent = AdminAuthEnv"
| "field_of AdminAuthFile = AdminAuthEnv"
| "field_of k = k"

datatype field_value =
    FV_Addr socket_addr | FV_Bool bool | FV_Credential "credential_source option"
  | FV_List "rstr list" | FV_Path rstr | FV_Policy startup_policy | FV_Number nat | FV_None

fun field_at :: "config_key \<Rightarrow> server_config \<Rightarrow> field_value" where
  "field_at HttpBind c = FV_Addr (sc_http_bind c)"
| "field_at GrpcBind c = FV_Addr (sc_grpc_bind c)"
| "field_at AllowInsecureRemote c = FV_Bool (sc_allow_insecure_remote c)"
| "field_at AuthEnv c = FV_Credential (sc_auth c)"
| "field_at AdminAuthEnv c = FV_Credential (sc_admin_auth c)"
| "field_at AdminApiEnabled c = FV_Bool (sc_admin_api_enabled c)"
| "field_at AllowedOrigins c = FV_List (sc_allowed_origins c)"
| "field_at ModelDirectories c = FV_List (sc_model_directories c)"
| "field_at CacheDirectory c = FV_Path (sc_cache_directory c)"
| "field_at PreloadModels c = FV_List (sc_preload_models c)"
| "field_at Offline c = FV_Bool (sc_offline c)"
| "field_at StartupPolicy c = FV_Policy (sc_startup_policy c)"
| "field_at MaxBodyBytes c = FV_Number (lim_max_body_bytes (sc_limits c))"
| "field_at MaxInputBytes c = FV_Number (lim_max_input_bytes (sc_limits c))"
| "field_at MaxRequestBytes c = FV_Number (lim_max_request_bytes (sc_limits c))"
| "field_at MaxItems c = FV_Number (lim_max_items (sc_limits c))"
| "field_at MaxTokens c = FV_Number (lim_max_tokens (sc_limits c))"
| "field_at MaxQueueDepth c = FV_Number (lim_max_queue_depth (sc_limits c))"
| "field_at MaxBatchItems c = FV_Number (lim_max_batch_items (sc_limits c))"
| "field_at MaxBatchTokens c = FV_Number (lim_max_batch_tokens (sc_limits c))"
| "field_at MaxConcurrency c = FV_Number (lim_max_concurrency (sc_limits c))"
| "field_at RequestTimeout c = FV_Number (lim_request_timeout (sc_limits c))"
| "field_at ShutdownTimeout c = FV_Number (lim_shutdown_timeout (sc_limits c))"
| "field_at _ c = FV_None"

definition read_field :: "config_key \<Rightarrow> server_config \<Rightarrow> field_value" where
  "read_field k c = field_at (field_of k) c"

lemma read_field_cong: "field_of k = field_of k' \<Longrightarrow> read_field k c = read_field k' c"
  by (simp add: read_field_def)

text \<open>Applying one value writes exactly its field, with a value that depends on nothing else.\<close>

lemma apply_value_frame:
  assumes "apply_value addr c k v = Inr c'" and "field_of f \<noteq> field_of k"
  shows "read_field f c' = read_field f c"
proof -
  have "field_at g c' = field_at g c" if "g \<noteq> field_of k" for g
    using assms(1) that
    by (cases k; clarsimp simp: result_simps; cases g; simp)
  with assms(2) show ?thesis by (simp add: read_field_def)
qed

lemma apply_value_writes:
  assumes "apply_value addr c k v = Inr c'"
  shows "\<exists>d'. apply_value addr d k v = Inr d' \<and> read_field k d' = read_field k c'"
  using assms by (cases k) (auto simp: result_simps read_field_def)

text \<open>A patch whose keys name different fields.\<close>

definition sets_field :: "patch \<Rightarrow> config_key \<Rightarrow> bool" where
  "sets_field p k \<longleftrightarrow> (\<exists>k'. p k' \<noteq> None \<and> field_of k' = field_of k)"

definition one_key_per_field :: "patch \<Rightarrow> bool" where
  "one_key_per_field p \<longleftrightarrow>
     (\<forall>k k'. p k \<noteq> None \<longrightarrow> p k' \<noteq> None \<longrightarrow> field_of k = field_of k' \<longrightarrow> k = k')"

lemma apply_keys_frame:
  assumes "apply_keys addr p ks c = Inr c'"
    and "\<And>k. k \<in> set ks \<Longrightarrow> p k \<noteq> None \<Longrightarrow> field_of k \<noteq> field_of f"
  shows "read_field f c' = read_field f c"
  using assms
proof (induction ks arbitrary: c)
  case Nil
  then show ?case by simp
next
  case (Cons k ks)
  show ?case
  proof (cases "p k")
    case None
    with Cons show ?thesis by simp
  next
    case (Some v)
    with Cons.prems(1) obtain c1 where c1: "apply_value addr c k v = Inr c1"
      and r: "apply_keys addr p ks c1 = Inr c'" by (auto simp: result_simps)
    have "read_field f c1 = read_field f c"
      using apply_value_frame [OF c1] Cons.prems(2) [of k] Some by (metis list.set_intros(1) option.distinct(1))
    with Cons.IH [OF r] Cons.prems(2) show ?thesis by simp
  qed
qed

lemma apply_keys_writes:
  assumes "apply_keys addr p ks c = Inr c'" and "k \<in> set ks" and "p k = Some v"
    and "distinct ks" and "one_key_per_field p"
  shows "\<exists>d'. apply_value addr d k v = Inr d' \<and> read_field k c' = read_field k d'"
  using assms
proof (induction ks arbitrary: c)
  case Nil
  then show ?case by simp
next
  case (Cons j ks)
  show ?case
  proof (cases "j = k")
    case True
    with Cons.prems obtain c1 where c1: "apply_value addr c k v = Inr c1"
      and r: "apply_keys addr p ks c1 = Inr c'" by (auto simp: result_simps)
    have "read_field k c' = read_field k c1"
    proof (rule apply_keys_frame [OF r])
      fix i assume "i \<in> set ks" "p i \<noteq> None"
      moreover have "i \<noteq> k" using Cons.prems(4) True \<open>i \<in> set ks\<close> by auto
      ultimately show "field_of i \<noteq> field_of k"
        using Cons.prems(3,5) by (metis one_key_per_field_def option.distinct(1))
    qed
    with apply_value_writes [OF c1, of d] show ?thesis by metis
  next
    case False
    have "\<exists>c1. apply_keys addr p ks c1 = Inr c'"
      using Cons.prems(1) by (cases "p j") (auto simp: result_simps)
    with Cons False show ?thesis by auto
  qed
qed

lemma all_keys_complete [simp]: "k \<in> set all_keys" "distinct all_keys"
  by (cases k; simp add: all_keys_def) (simp add: all_keys_def)

lemma patch_apply_Ok:
  assumes "patch_apply addr p c = Inr c'"
  shows "one_key_per_field p" and "apply_keys addr p all_keys c = Inr c'"
proof -
  have n: "find (patch_conflict p) credential_alternatives = None"
    using assms by (simp add: patch_apply_def split: option.splits)
  then show "apply_keys addr p all_keys c = Inr c'"
    using assms by (simp add: patch_apply_def)
  have "\<not> patch_conflict p [AuthEnv, AuthFile, AuthTokenPresent]"
    "\<not> patch_conflict p [AdminAuthEnv, AdminAuthFile, AdminAuthTokenPresent]"
    using n by (auto simp: credential_alternatives_def split: if_splits)
  then have group: "k = k'" if "p k \<noteq> None" "p k' \<noteq> None"
    "set [k, k'] \<subseteq> {AuthEnv, AuthFile, AuthTokenPresent} \<or>
     set [k, k'] \<subseteq> {AdminAuthEnv, AdminAuthFile, AdminAuthTokenPresent}" for k k'
    using that by (auto simp: patch_conflict_def split: if_splits)
  have "k = k' \<or> set [k, k'] \<subseteq> {AuthEnv, AuthFile, AuthTokenPresent} \<or>
      set [k, k'] \<subseteq> {AdminAuthEnv, AdminAuthFile, AdminAuthTokenPresent}"
    if "field_of k = field_of k'" for k k'
    using that by (cases k; cases k') simp_all
  with group show "one_key_per_field p" unfolding one_key_per_field_def by blast
qed

text \<open>The value of a field after a patch: the patch's, when it sets the field, else the old one.\<close>

definition value_from :: "(rstr \<Rightarrow> socket_addr option) \<Rightarrow> patch \<Rightarrow> config_key \<Rightarrow> server_config \<Rightarrow> bool" where
  "value_from addr p k c \<longleftrightarrow>
     (\<exists>k' v d. p k' = Some v \<and> field_of k' = field_of k \<and>
        apply_value addr server_config_default k' v = Inr d \<and> read_field k c = read_field k d)"

lemma patch_apply_field:
  assumes "patch_apply addr p c = Inr c'"
  shows "sets_field p k \<Longrightarrow> value_from addr p k c'"
    and "\<not> sets_field p k \<Longrightarrow> read_field k c' = read_field k c"
proof -
  note ok = patch_apply_Ok [OF assms]
  show "value_from addr p k c'" if "sets_field p k"
  proof -
    from that obtain k' v where k: "p k' = Some v" "field_of k' = field_of k"
      by (auto simp: sets_field_def)
    from apply_keys_writes [OF ok(2) _ k(1) _ ok(1), of server_config_default]
    obtain d where "apply_value addr server_config_default k' v = Inr d"
      "read_field k' c' = read_field k' d" by auto
    with k show ?thesis by (auto simp: value_from_def read_field_def)
  qed
  show "read_field k c' = read_field k c" if "\<not> sets_field p k"
  proof (rule apply_keys_frame [OF ok(2)])
    show "field_of j \<noteq> field_of k" if "p j \<noteq> None" for j
      using that \<open>\<not> sets_field p k\<close> unfolding sets_field_def by blast
  qed
qed

lemma value_from_cong: "read_field k c = read_field k c' \<Longrightarrow> value_from addr p k c = value_from addr p k c'"
  by (simp add: value_from_def)

lemma load_Ok:
  assumes "load env toml_path environment cli = Inr c"
  obtains t e a c1 c2 where "load_toml env toml_path = Inr t"
    "parse_environment environment = Inr e" "parse_cli cli = Inr a"
    "patch_apply (ce_addr env) t server_config_default = Inr c1"
    "patch_apply (ce_addr env) e c1 = Inr c2" "patch_apply (ce_addr env) a c2 = Inr c"
    "validate (ce_url env) c = Inr ()"
  using assms by (auto simp: load_def result_simps)

section \<open>What validation accepts\<close>

definition limits_in_bounds :: "limits \<Rightarrow> bool" where
  "limits_in_bounds l \<longleftrightarrow>
     1 \<le> lim_max_items l \<and> lim_max_items l \<le> lim_max_batch_items l \<and> lim_max_batch_items l \<le> 4096 \<and>
     1 \<le> lim_max_input_bytes l \<and> lim_max_input_bytes l \<le> lim_max_request_bytes l \<and>
     lim_max_request_bytes l \<le> lim_max_body_bytes l \<and> lim_max_body_bytes l \<le> 67108864 \<and>
     1 \<le> lim_max_tokens l \<and> lim_max_tokens l \<le> 1000000 \<and>
     lim_max_tokens l \<le> lim_max_batch_tokens l \<and> lim_max_batch_tokens l \<le> 10000000 \<and>
     1 \<le> lim_max_queue_depth l \<and> lim_max_queue_depth l \<le> 100000 \<and>
     1 \<le> lim_max_concurrency l \<and> lim_max_concurrency l \<le> 1024 \<and>
     10 \<le> lim_request_timeout l \<and> lim_request_timeout l \<le> 600000 \<and>
     10 \<le> lim_shutdown_timeout l \<and> lim_shutdown_timeout l \<le> 600000"

lemma validate_bounds_Ok: "validate_bounds l = Inr () \<longleftrightarrow> limits_in_bounds l"
proof -
  define bad where "bad = find (\<lambda>(key, value, bound). \<not> (1 \<le> value \<and> value \<le> bound)) (bound_table l)"
  define late where "late = find (\<lambda>(key, value). value < 10 \<or> 600000 < value)
    [(RequestTimeout, lim_request_timeout l), (ShutdownTimeout, lim_shutdown_timeout l)]"
  have e1: "validate_bounds l = Inr () \<longleftrightarrow> bad = None \<and> late = None \<and>
      lim_max_items l \<le> lim_max_batch_items l \<and> lim_max_input_bytes l \<le> lim_max_request_bytes l \<and>
      lim_max_request_bytes l \<le> lim_max_body_bytes l \<and> lim_max_tokens l \<le> lim_max_batch_tokens l"
    unfolding validate_bounds_def bad_def [symmetric] late_def [symmetric]
    by (auto split: option.split)
  have e2: "late = None \<longleftrightarrow> 10 \<le> lim_request_timeout l \<and> lim_request_timeout l \<le> 600000 \<and>
      10 \<le> lim_shutdown_timeout l \<and> lim_shutdown_timeout l \<le> 600000"
    unfolding late_def by auto
  have e3: "bad = None \<longleftrightarrow> (\<forall>(key, value, bound) \<in> set (bound_table l). 1 \<le> value \<and> value \<le> bound)"
    unfolding bad_def find_None_iff by fastforce
  have size: "64 * 1024 * 1024 = (67108864 :: nat)" by simp
  have all: "(\<forall>(key, value, bound) \<in> set (bound_table l). 1 \<le> value \<and> value \<le> bound) \<longleftrightarrow>
      (1 \<le> lim_max_body_bytes l \<and> lim_max_body_bytes l \<le> 67108864) \<and>
      (1 \<le> lim_max_input_bytes l \<and> lim_max_input_bytes l \<le> 67108864) \<and>
      (1 \<le> lim_max_request_bytes l \<and> lim_max_request_bytes l \<le> 67108864) \<and>
      (1 \<le> lim_max_items l \<and> lim_max_items l \<le> 4096) \<and>
      (1 \<le> lim_max_tokens l \<and> lim_max_tokens l \<le> 1000000) \<and>
      (1 \<le> lim_max_queue_depth l \<and> lim_max_queue_depth l \<le> 100000) \<and>
      (1 \<le> lim_max_batch_items l \<and> lim_max_batch_items l \<le> 4096) \<and>
      (1 \<le> lim_max_batch_tokens l \<and> lim_max_batch_tokens l \<le> 10000000) \<and>
      (1 \<le> lim_max_concurrency l \<and> lim_max_concurrency l \<le> 1024)"
    unfolding bound_table_def list.set ball_simps prod.case size by (simp only: simp_thms)
  show ?thesis
    unfolding e1 e2 e3 all limits_in_bounds_def by (meson order_trans)
qed

lemma preload_rejected_iff:
  "\<not> preload_rejected seen ms \<longleftrightarrow>
     distinct ms \<and> set ms \<inter> seen = {} \<and>
     (\<forall>m \<in> set ms. trim m \<noteq> [] \<and> str_len m \<le> 512 \<and> (\<forall>c \<in> set m. \<not> is_control c))"
  by (induction seen ms rule: preload_rejected.induct) (auto simp: list_ex_iff not_less)

lemma validate_Ok:
  "validate parse_url c = Inr () \<longleftrightarrow>
     (remotely_exposed c \<longrightarrow> sc_auth c \<noteq> None \<or> sc_allow_insecure_remote c) \<and>
     (sc_admin_auth c \<noteq> None \<longrightarrow> sc_admin_auth c \<noteq> sc_auth c) \<and>
     (remotely_exposed c \<and> sc_admin_api_enabled c \<longrightarrow> sc_admin_auth c \<noteq> None) \<and>
     sc_http_bind c \<noteq> sc_grpc_bind c \<and> sc_cache_directory c \<noteq> [] \<and>
     \<not> preload_rejected {} (sc_preload_models c) \<and> limits_in_bounds (sc_limits c) \<and>
     (\<forall>o' \<in> set (sc_allowed_origins c). valid_origin parse_url o')"
proof -
  have "validate parse_url c = Inr () \<longleftrightarrow>
     \<not> (remotely_exposed c \<and> sc_auth c = None \<and> \<not> sc_allow_insecure_remote c) \<and>
     \<not> ((sc_admin_auth c \<noteq> None \<and> sc_admin_auth c = sc_auth c)
         \<or> (remotely_exposed c \<and> sc_admin_api_enabled c \<and> sc_admin_auth c = None)) \<and>
     sc_http_bind c \<noteq> sc_grpc_bind c \<and> sc_cache_directory c \<noteq> [] \<and>
     \<not> preload_rejected {} (sc_preload_models c) \<and> validate_bounds (sc_limits c) = Inr () \<and>
     (\<forall>o' \<in> set (sc_allowed_origins c). valid_origin parse_url o')"
    by (simp add: validate_def result_simps list_ex_iff)
  then show ?thesis
    unfolding validate_bounds_Ok by argo
qed

lemma valid_origin_no_wildcard: "valid_origin parse_url o' \<Longrightarrow> o' \<noteq> [] \<and> 42 \<notin> set o'"
  by (simp add: valid_origin_def split: if_splits)

section \<open>What the command line accepts\<close>

lemma lookup_name_lit:
  "lookup_name table (lit s) = map_of table s"
  by (induction table) (auto simp: lookup_name_def)

lemma lookup_name_Some: "lookup_name table name = Some k \<Longrightarrow> \<exists>s. name = lit s \<and> (s, k) \<in> set table"
  unfolding lookup_name_def by (drule map_of_SomeD) auto

lemma parse_key_as_str: "k \<noteq> Toml_Key \<Longrightarrow> k \<noteq> Path_Key \<Longrightarrow> parse_key (lit (config_key_as_str k)) = Some k"
  by (cases k) (simp_all add: parse_key_def lookup_name_lit key_table_def)

lemma parse_key_Some: "parse_key name = Some k \<Longrightarrow> name = lit (config_key_as_str k)"
  by (auto simp: parse_key_def key_table_def dest!: lookup_name_Some)

lemma token_keys_are_credential_like:
  "str_contains (lit (config_key_as_str AuthTokenPresent)) (lit ''token'')"
  "str_contains (lit (config_key_as_str AdminAuthTokenPresent)) (lit ''token'')"
  "str_contains (lit ''max_tokens'') (lit ''token'')"
  "str_contains (lit ''max_batch_tokens'') (lit ''token'')"
  by (simp_all add: lit_def)

lemma cli_key_cases:
  assumes "cli_key opt = Inr k"
  shows "k \<notin> {AuthTokenPresent, AdminAuthTokenPresent}"
proof -
  define n where "n = replace_char 45 95 (before_first 61 opt)"
  from assms have nc: "\<not> credential_like_option n"
    and pk: "parse_key (case lookup_name cli_limit_names n of Some name \<Rightarrow> lit name | None \<Rightarrow> n) = Some k"
    unfolding cli_key_def n_def [symmetric] by (simp_all add: Let_def result_simps split: if_splits)
  show ?thesis
  proof (cases "lookup_name cli_limit_names n")
    case None
    with pk have "n = lit (config_key_as_str k)" by (auto dest: parse_key_Some)
    with nc token_keys_are_credential_like show ?thesis by (auto simp: credential_like_option_def)
  next
    case (Some name)
    then have "name \<in> snd ` set cli_limit_names" by (force dest: lookup_name_Some)
    moreover have "lit name = lit (config_key_as_str k)" using pk Some by (auto dest: parse_key_Some)
    ultimately show ?thesis by (auto simp: cli_limit_names_def)
  qed
qed

lemma patch_set_Ok: "patch_set k v p = Inr p' \<longleftrightarrow> p k = None \<and> p' = p(k \<mapsto> v)"
  by (auto simp: patch_set_def)

lemma parse_cli_from_keys:
  assumes "parse_cli_from args p = Inr p'" and "k \<in> {AuthTokenPresent, AdminAuthTokenPresent}"
  shows "p' k = p k"
  using assms
proof (induction args p rule: parse_cli_from.induct)
  case (1 patch)
  then show ?case by simp
next
  case (2 argument args patch)
  from "2.prems"(1) obtain opt key where o': "strip_prefix (lit ''--'') argument = Some opt"
    and key: "cli_key opt = Inr key" "\<not> 61 \<in> set opt"
    by (auto simp: result_simps split: option.splits if_splits)
  have nk: "key \<noteq> k" using cli_key_cases [OF key(1)] "2.prems"(2) by auto
  show ?case
  proof (cases "key = AllowInsecureRemote \<or> key = Offline")
    case True
    then obtain q where q: "patch_set key (Scalar (lit ''true'')) patch = Inr q"
      and r: "parse_cli_from args q = Inr p'"
      using "2.prems"(1) o' key by (auto simp: result_simps)
    have "p' k = q k" using "2.IH"(1) [OF o' key(2) True r "2.prems"(2)] by simp
    with q nk show ?thesis by (auto simp: patch_set_Ok)
  next
    case False
    then obtain value' rest where a: "args = value' # rest"
      using "2.prems"(1) o' key by (auto simp: result_simps split: list.splits)
    with False obtain q where q: "patch_set key (Scalar value') patch = Inr q"
      and r: "parse_cli_from rest q = Inr p'"
      using "2.prems"(1) o' key by (auto simp: result_simps)
    have "p' k = q k" using "2.IH"(2) [OF o' key(2) False a r "2.prems"(2)] by simp
    with q nk show ?thesis by (auto simp: patch_set_Ok)
  qed
qed

section \<open>Properties\<close>

text \<open>A concrete environment for the witnesses: an address parser that knows two names.\<close>

definition demo_addr :: "rstr \<Rightarrow> socket_addr option" where
  "demo_addr v = (if v = lit ''0.0.0.0:9000'' then Some (socket_addr_new (V4 0 0 0 0) 9000) else None)"

definition demo_env :: config_env where
  "demo_env = \<lparr>ce_addr = demo_addr, ce_url = (\<lambda>_. None), ce_toml = (\<lambda>_. None),
     ce_open = (\<lambda>_. Inl Other_Os_Error)\<rparr>"

text \<open>
  Environment and arguments of a protected remote listener, and the same with the timeout in both
  sources.
\<close>

definition demo_environment :: "(rstr \<times> rstr) list" where
  "demo_environment =
     [(lit ''HOME'', lit ''/root''),
      (lit ''IMPOSSIBLE_AUTH_TOKEN'', lit ''k1''),
      (lit ''IMPOSSIBLE_ADMIN_AUTH_FILE'', lit ''/run/admin''),
      (lit ''IMPOSSIBLE_REQUEST_TIMEOUT_MS'', lit ''5000'')]"

definition demo_arguments :: "rstr list" where
  "demo_arguments =
     [lit ''--http-bind'', lit ''0.0.0.0:9000'', lit ''--request-timeout-ms'', lit ''7000'']"

definition demo_config :: server_config where
  "demo_config = server_config_default
     \<lparr>sc_http_bind := socket_addr_new (V4 0 0 0 0) 9000,
      sc_auth := Some (Environment (lit ''IMPOSSIBLE_AUTH_TOKEN'')),
      sc_admin_auth := Some (File (lit ''/run/admin'')),
      sc_limits := limits_default\<lparr>lim_request_timeout := 7000\<rparr>\<rparr>"

lemma demo_limits: "limits_in_bounds (limits_default\<lparr>lim_request_timeout := 7000\<rparr>)"
  by (simp add: limits_in_bounds_def limits_default_def)

lemma demo_environment_patch: "parse_environment demo_environment = Inr
    [AuthTokenPresent \<mapsto> Scalar (lit ''IMPOSSIBLE_AUTH_TOKEN''),
     AdminAuthFile \<mapsto> Scalar (lit ''/run/admin''), RequestTimeout \<mapsto> Scalar (lit ''5000'')]"
  by (simp add: parse_environment_def demo_environment_def lookup_name_def environment_table_def
      patch_set_def lit_def)

lemma demo_arguments_patch: "parse_cli demo_arguments = Inr
    [HttpBind \<mapsto> Scalar (lit ''0.0.0.0:9000''), RequestTimeout \<mapsto> Scalar (lit ''7000'')]"
  by (simp add: parse_cli_def demo_arguments_def cli_key_def credential_like_option_def before_first_def
      replace_char_def lookup_name_def cli_limit_names_def parse_key_def key_table_def Let_def
      patch_set_def lit_def)

lemmas apply_simps = patch_apply_def credential_alternatives_def patch_conflict_def all_keys_def
  scalar_value_def bool_value_def usize_value_def duration_value_def env_value_def startup_value_def
  parse_duration_def parse_usize_def

lemma demo_numbers:
  "parse_unsigned (lit ''5000'') = Some 5000" "parse_unsigned (lit ''7000'') = Some 7000"
  by (simp_all add: parse_unsigned_def lit_def is_digit_def checked_mul_def checked_add_def word_limit_def)

lemma demo_loads: "load demo_env None demo_environment demo_arguments = Inr demo_config"
proof -
  have "patch_apply demo_addr Map.empty server_config_default = Inr server_config_default"
    by (simp add: apply_simps)
  moreover have "validate (\<lambda>_. None) demo_config = Inr ()"
    using demo_limits
    by (simp add: validate_Ok demo_config_def server_config_default_def socket_addr_new_def)
  ultimately show ?thesis
    by (simp add: load_def load_toml_def demo_env_def demo_environment_patch demo_arguments_patch)
      (simp add: apply_simps demo_numbers demo_addr_def demo_config_def server_config_default_def)
qed

text \<open>
  C8. Every configuration the loader accepts is safe: an unauthenticated listener beyond loopback
  needs the explicit override, a remotely reachable administrative API always has its own credential
  source, that source differs from the public one, the listeners are distinct, no origin is a
  wildcard, preload names are unique and printable, and every limit is within its bounds and
  consistent with the others.
\<close>

theorem loaded_configuration_is_safe:
  assumes "load env toml_path environment cli = Inr c"
  shows "(remotely_exposed c \<longrightarrow> sc_auth c \<noteq> None \<or> sc_allow_insecure_remote c) \<and>
    (remotely_exposed c \<and> sc_admin_api_enabled c \<longrightarrow> sc_admin_auth c \<noteq> None) \<and>
    (sc_admin_auth c \<noteq> None \<longrightarrow> sc_admin_auth c \<noteq> sc_auth c) \<and>
    sc_http_bind c \<noteq> sc_grpc_bind c \<and>
    (\<forall>o' \<in> set (sc_allowed_origins c). o' \<noteq> [] \<and> 42 \<notin> set o') \<and>
    distinct (sc_preload_models c) \<and>
    (\<forall>m \<in> set (sc_preload_models c). trim m \<noteq> [] \<and> str_len m \<le> 512 \<and> (\<forall>ch \<in> set m. \<not> is_control ch)) \<and>
    limits_in_bounds (sc_limits c)"
proof -
  from assms have "validate (ce_url env) c = Inr ()" by (elim load_Ok)
  then show ?thesis
    using valid_origin_no_wildcard unfolding validate_Ok preload_rejected_iff by blast
qed

theorem loaded_configuration_is_safe_witness:
  "remotely_exposed demo_config \<and>
    sc_auth demo_config \<noteq> None \<and>
    sc_admin_auth demo_config \<noteq> None \<and> sc_admin_auth demo_config \<noteq> sc_auth demo_config \<and>
    sc_http_bind demo_config \<noteq> sc_grpc_bind demo_config \<and>
    limits_in_bounds (sc_limits demo_config)"
proof -
  have "remotely_exposed demo_config" "sc_admin_auth demo_config \<noteq> None" "\<not> sc_allow_insecure_remote demo_config"
    by (simp_all add: demo_config_def server_config_default_def socket_addr_new_def remotely_exposed_def)
  then show ?thesis using loaded_configuration_is_safe [OF demo_loads] by blast
qed

text \<open>
  C40. Precedence is command line, then environment, then file, then default, field by field: the
  value of every field of a loaded configuration is the one the first of these sources that sets the
  field gives it, whichever of its alternative keys it uses, and the default when none sets it.
\<close>

theorem load_precedence:
  assumes "load env toml_path environment cli = Inr c"
  shows "\<exists>t e a. load_toml env toml_path = Inr t \<and> parse_environment environment = Inr e \<and>
    parse_cli cli = Inr a \<and>
    (if sets_field a k then value_from (ce_addr env) a k c
     else if sets_field e k then value_from (ce_addr env) e k c
     else if sets_field t k then value_from (ce_addr env) t k c
     else read_field k c = read_field k server_config_default)"
proof -
  from assms obtain t e a c1 c2 where parsed: "load_toml env toml_path = Inr t"
    "parse_environment environment = Inr e" "parse_cli cli = Inr a"
    and p: "patch_apply (ce_addr env) t server_config_default = Inr c1"
      "patch_apply (ce_addr env) e c1 = Inr c2" "patch_apply (ce_addr env) a c2 = Inr c"
    by (elim load_Ok)
  show ?thesis
    using parsed patch_apply_field [OF p(1), of k] patch_apply_field [OF p(2), of k]
      patch_apply_field [OF p(3), of k]
    by (auto simp: value_from_def)
qed

theorem load_precedence_witness:
  "\<exists>t e a. load_toml demo_env None = Inr t \<and> parse_environment demo_environment = Inr e \<and>
    parse_cli demo_arguments = Inr a \<and>
    (if sets_field a RequestTimeout then value_from (ce_addr demo_env) a RequestTimeout demo_config
     else if sets_field e RequestTimeout then value_from (ce_addr demo_env) e RequestTimeout demo_config
     else if sets_field t RequestTimeout then value_from (ce_addr demo_env) t RequestTimeout demo_config
     else read_field RequestTimeout demo_config = read_field RequestTimeout server_config_default)"
  by (rule load_precedence [OF demo_loads])

text \<open>
  No secret on the command line: no argument list makes the parser record an inline credential,
  so the keys for a token given by value are never set from it.
\<close>

theorem command_line_sets_no_token:
  assumes "parse_cli arguments = Inr p"
  shows "p AuthTokenPresent = None \<and> p AdminAuthTokenPresent = None"
  using parse_cli_from_keys [of arguments Map.empty p] assms by (simp add: parse_cli_def)

theorem command_line_sets_no_token_witness:
  "[HttpBind \<mapsto> Scalar (lit ''0.0.0.0:9000''), RequestTimeout \<mapsto> Scalar (lit ''7000'')] AuthTokenPresent = None \<and>
   [HttpBind \<mapsto> Scalar (lit ''0.0.0.0:9000''), RequestTimeout \<mapsto> Scalar (lit ''7000'')] AdminAuthTokenPresent = None"
  by (rule command_line_sets_no_token [OF demo_arguments_patch])

text \<open>
  The token limits cannot be given on the command line although the parser has names for them:
  any option whose normalized name contains the word token is refused as a credential, so the options
  for the request and the batch token limit fail whatever follows.
\<close>

theorem command_line_token_limits_unreachable:
  "parse_cli (lit ''--max-tokens'' # rest) = Inl (UnknownKey CS_CommandLine) \<and>
   parse_cli (lit ''--max-batch-tokens'' # rest) = Inl (UnknownKey CS_CommandLine)"
proof -
  have "cli_key (lit ''max-tokens'') = Inl (UnknownKey CS_CommandLine)"
    "cli_key (lit ''max-batch-tokens'') = Inl (UnknownKey CS_CommandLine)"
    by (simp_all add: cli_key_def before_first_def replace_char_def credential_like_option_def lit_def)
  moreover have "strip_prefix (lit ''--'') (lit ''--max-tokens'') = Some (lit ''max-tokens'')"
    "strip_prefix (lit ''--'') (lit ''--max-batch-tokens'') = Some (lit ''max-batch-tokens'')"
    by (simp_all add: lit_def)
  ultimately show ?thesis by (simp add: parse_cli_def)
qed

end
