(* ===== verification/Scheduler.thy ===== *)
theory Scheduler
  imports Cancel_Tokens Config "HOL-Library.Multiset" "HOL-Library.Sublist"
begin

text \<open>
  The per-model scheduler of \<^verbatim>\<open>impossible-server/src/runtime.rs\<close>: the batch policy, requests, the scan
  that combines compatible requests into one native batch, the round that empties the pending deque,
  and the scheduler task as a step relation over its channel, its deque and its stop signal.

  Everything another task may change while the scheduler runs (cancellation flags, the clock, the
  accepting flag, free space in the native queue) is read from a history of moments; each read takes
  the next moment, so a theorem about all histories is a theorem about all interleavings.
\<close>

section \<open>Policy\<close>

record batch_policy =
  pol_queue_depth :: nat
  pol_max_items :: nat
  pol_max_input_bytes :: nat
  pol_max_request_bytes :: nat
  pol_max_tokens :: nat
  pol_max_batch_items :: nat
  pol_max_batch_tokens :: nat
  pol_max_batch_wait :: nat
  pol_blocking_concurrency :: nat
  pol_request_timeout :: nat

datatype lifecycle_error =
    InvalidPolicy | InitializationFailed | ShuttingDown | LE_NotFound | AlreadyLoaded | InUse
  | LoadFailed | InstallFailed | DeleteFailed

fun lifecycle_error_display :: "lifecycle_error \<Rightarrow> string" where
  "lifecycle_error_display InvalidPolicy = ''runtime policy is invalid''"
| "lifecycle_error_display InitializationFailed = ''runtime initialization failed''"
| "lifecycle_error_display ShuttingDown = ''the service is shutting down''"
| "lifecycle_error_display LE_NotFound = ''the model is not registered''"
| "lifecycle_error_display AlreadyLoaded = ''the model is already loaded''"
| "lifecycle_error_display InUse = ''the model is in use''"
| "lifecycle_error_display LoadFailed = ''model loading failed''"
| "lifecycle_error_display InstallFailed = ''model installation failed''"
| "lifecycle_error_display DeleteFailed = ''model deletion failed''"

definition policy_default :: batch_policy where
  "policy_default =
     \<lparr>pol_queue_depth = 256, pol_max_items = 128, pol_max_input_bytes = 256 * 1024,
      pol_max_request_bytes = 1024 * 1024, pol_max_tokens = 32768, pol_max_batch_items = 128,
      pol_max_batch_tokens = 32768, pol_max_batch_wait = 4, pol_blocking_concurrency = 4,
      pol_request_timeout = 30000\<rparr>"

definition policy_validate :: "batch_policy \<Rightarrow> lifecycle_error + batch_policy" where
  "policy_validate p =
     (if pol_queue_depth p = 0
         \<or> pol_max_items p = 0
         \<or> pol_max_input_bytes p = 0
         \<or> pol_max_request_bytes p = 0
         \<or> pol_max_tokens p = 0
         \<or> pol_max_batch_items p = 0
         \<or> pol_max_batch_tokens p = 0
         \<or> pol_blocking_concurrency p = 0
         \<or> pol_request_timeout p = 0
         \<or> pol_max_batch_items p < pol_max_items p
         \<or> pol_max_request_bytes p < pol_max_input_bytes p
         \<or> pol_max_batch_tokens p < pol_max_tokens p
      then Err InvalidPolicy else Ok p)"

definition policy_from_limits :: "limits \<Rightarrow> nat \<Rightarrow> batch_policy" where
  "policy_from_limits l max_batch_wait =
     \<lparr>pol_queue_depth = lim_max_queue_depth l,
      pol_max_items = lim_max_items l,
      pol_max_input_bytes = lim_max_input_bytes l,
      pol_max_request_bytes = lim_max_request_bytes l,
      pol_max_tokens = lim_max_tokens l,
      pol_max_batch_items = lim_max_batch_items l,
      pol_max_batch_tokens = lim_max_batch_tokens l,
      pol_max_batch_wait = max_batch_wait,
      pol_blocking_concurrency = lim_max_concurrency l,
      pol_request_timeout = lim_request_timeout l\<rparr>"

section \<open>Requests\<close>

record runtime_contract =
  rc_identity :: resolved_identity
  rc_native_dimensions :: nat

text \<open>The oneshot sender of a request is the number of its channel.\<close>

record request =
  rq_sequence :: nat
  rq_inputs :: "rstr list"
  rq_cost :: batch_cost
  rq_contract :: runtime_contract
  rq_options :: embed_options
  rq_control :: control
  rq_response :: nat

type_synonym response = "nat \<times> (engine_failure + embedding_output)"

record moment =
  mo_world :: "heap \<times> nat"
  mo_accepting :: bool
  mo_pool_free :: bool

type_synonym history = "nat \<Rightarrow> moment"

definition active_at :: "history \<Rightarrow> nat \<Rightarrow> request \<Rightarrow> engine_failure + unit" where
  "active_at H t r = check_control (mo_world (H t)) (rq_control r)"

text \<open>\<^verbatim>\<open>fail_requests\<close>: a cancelled or late request hears that instead of the given code.\<close>

fun fail_requests :: "history \<Rightarrow> nat \<Rightarrow> request list \<Rightarrow> error_code \<Rightarrow> response list" where
  "fail_requests H t [] code = []"
| "fail_requests H t (r # rs) code =
     (rq_response r,
      Err (case active_at H t r of Inl e \<Rightarrow> e | Inr _ \<Rightarrow> failure code)) # fail_requests H (Suc t) rs code"

section \<open>Combining requests\<close>

text \<open>
  The scan of \<^verbatim>\<open>run_scheduler\<close>: \<open>n\<close> candidates are popped from the front; a compatible one joins the
  batch, any other goes to the back.
\<close>

definition joins :: "batch_policy \<Rightarrow> embed_options \<Rightarrow> nat \<Rightarrow> nat \<Rightarrow> request \<Rightarrow> bool" where
  "joins p key items max_sequence_length candidate =
     (case checked_add items (length (rq_inputs candidate)) of
        None \<Rightarrow> False
      | Some combined_items \<Rightarrow>
          rq_options candidate = key
          \<and> combined_items \<le> pol_max_batch_items p
          \<and> (case checked_mul combined_items
                 (max max_sequence_length (cost_max_sequence_length (rq_cost candidate))) of
               None \<Rightarrow> False
             | Some work \<Rightarrow> work \<le> pol_max_batch_tokens p))"

fun scan_candidates ::
  "batch_policy \<Rightarrow> embed_options \<Rightarrow> nat \<Rightarrow> request list \<Rightarrow> nat \<Rightarrow> nat \<Rightarrow> request list \<Rightarrow>
   request list \<times> request list" where
  "scan_candidates p key 0 requests items m pending = (requests, pending)"
| "scan_candidates p key (Suc n) requests items m [] = (requests, [])"
| "scan_candidates p key (Suc n) requests items m (candidate # pending) =
     (if joins p key items m candidate
      then scan_candidates p key n (requests @ [candidate]) (items + length (rq_inputs candidate))
             (max m (cost_max_sequence_length (rq_cost candidate))) pending
      else scan_candidates p key n requests items m (pending @ [candidate]))"

definition form_batch :: "batch_policy \<Rightarrow> request \<Rightarrow> request list \<Rightarrow> request list \<times> request list" where
  "form_batch p first pending =
     scan_candidates p (rq_options first) (length pending) [first] (length (rq_inputs first))
       (cost_max_sequence_length (rq_cost first)) pending"

text \<open>The reference: one pass over the pending requests, in order.\<close>

fun pick :: "batch_policy \<Rightarrow> embed_options \<Rightarrow> nat \<Rightarrow> nat \<Rightarrow> request list \<Rightarrow> request list \<times> request list" where
  "pick p key items m [] = ([], [])"
| "pick p key items m (c # cs) =
     (if joins p key items m c
      then (let (taken, left) = pick p key (items + length (rq_inputs c))
                  (max m (cost_max_sequence_length (rq_cost c))) cs in (c # taken, left))
      else (let (taken, left) = pick p key items m cs in (taken, c # left)))"

lemma scan_candidates_pick:
  "scan_candidates p key (length cs) requests items m (cs @ rotated) =
     (requests @ fst (pick p key items m cs), rotated @ snd (pick p key items m cs))"
proof (induction cs arbitrary: requests items m rotated)
  case Nil
  show ?case by simp
next
  case (Cons c cs)
  show ?case
    using Cons.IH [of "requests @ [c]" "items + length (rq_inputs c)"
        "max m (cost_max_sequence_length (rq_cost c))" rotated]
      Cons.IH [of requests items m "rotated @ [c]"]
    by (simp add: case_prod_beta Let_def)
qed

lemma form_batch_pick:
  "form_batch p first pending =
     (first # fst (pick p (rq_options first) (length (rq_inputs first))
                     (cost_max_sequence_length (rq_cost first)) pending),
      snd (pick p (rq_options first) (length (rq_inputs first))
             (cost_max_sequence_length (rq_cost first)) pending))"
  using scan_candidates_pick [of p "rq_options first" pending "[first]" _ _ "[]"]
  by (simp add: form_batch_def)

lemma pick_mset: "mset (fst (pick p key items m cs)) + mset (snd (pick p key items m cs)) = mset cs"
  by (induction cs arbitrary: items m) (simp_all add: case_prod_beta Let_def)

lemma form_batch_mset:
  "form_batch p first pending = (batch, left) \<Longrightarrow> mset batch + mset left = add_mset first (mset pending)"
  using pick_mset by (auto simp: form_batch_pick)

lemma form_batch_shorter:
  assumes "form_batch p first pending = (batch, left)"
  shows "length left \<le> length pending" and "batch \<noteq> []"
proof -
  have "size (mset batch + mset left) = Suc (length pending)"
    using form_batch_mset [OF assms] by simp
  moreover show "batch \<noteq> []" using assms by (auto simp: form_batch_pick)
  ultimately show "length left \<le> length pending" by (cases batch) auto
qed

section \<open>One round\<close>

text \<open>
  The inner \<^verbatim>\<open>while\<close>: pop the oldest, refuse it when its control is no longer active, else form its
  batch and offer it to the native queue (\<^verbatim>\<open>dispatch_batch\<close>). Result: the responses sent and the batches
  the queue took, in order.
\<close>

definition dispatch_batch ::
  "history \<Rightarrow> nat \<Rightarrow> request list \<Rightarrow> response list \<times> request list list" where
  "dispatch_batch H t requests =
     (if mo_pool_free (H t) then ([], [requests]) else (fail_requests H t requests QueueFull, []))"

function drain_pending ::
  "batch_policy \<Rightarrow> history \<Rightarrow> nat \<Rightarrow> request list \<Rightarrow> response list \<times> request list list" where
  "drain_pending p H t [] = ([], [])"
| "drain_pending p H t (first # pending) =
     (case active_at H t first of
        Inl e \<Rightarrow>
          (let (responses, batches) = drain_pending p H (Suc t) pending
           in ((rq_response first, Err e) # responses, batches))
      | Inr _ \<Rightarrow>
          (let (requests, left) = form_batch p first pending;
               (sent, taken) = dispatch_batch H (Suc t) requests;
               (responses, batches) = drain_pending p H (Suc (Suc t) + length requests) left
           in (sent @ responses, taken @ batches)))"
  by pat_completeness auto

termination drain_pending
  by (relation "measure (\<lambda>(p, H, t, pending). length pending)")
    (auto dest!: sym [of "(_, _)" "form_batch _ _ _"] form_batch_shorter(1))

declare drain_pending.simps [simp del]

section \<open>Bounds of a batch\<close>

definition batch_items :: "request list \<Rightarrow> nat" where
  "batch_items rs = sum_list (map (\<lambda>r. length (rq_inputs r)) rs)"

definition batch_width :: "request list \<Rightarrow> nat" where
  "batch_width rs = foldr (\<lambda>r. max (cost_max_sequence_length (rq_cost r))) rs 0"

definition within_policy :: "batch_policy \<Rightarrow> request list \<Rightarrow> bool" where
  "within_policy p rs \<longleftrightarrow>
     batch_items rs \<le> pol_max_batch_items p \<and>
     batch_items rs * batch_width rs \<le> pol_max_batch_tokens p"

definition compatible :: "request list \<Rightarrow> bool" where
  "compatible rs \<longleftrightarrow> (\<forall>r \<in> set rs. rq_options r = rq_options (hd rs))"

lemma batch_items_simps [simp]:
  "batch_items [] = 0" "batch_items (r # rs) = length (rq_inputs r) + batch_items rs"
  by (simp_all add: batch_items_def)

lemma batch_width_simps [simp]:
  "batch_width [] = 0"
  "batch_width (r # rs) = max (cost_max_sequence_length (rq_cost r)) (batch_width rs)"
  by (simp_all add: batch_width_def)

lemma joins_bounds:
  "joins p key items m c \<Longrightarrow>
     rq_options c = key \<and> items + length (rq_inputs c) \<le> pol_max_batch_items p \<and>
     (items + length (rq_inputs c)) * max m (cost_max_sequence_length (rq_cost c)) \<le> pol_max_batch_tokens p"
  by (auto simp: joins_def checked_simps split: option.splits)

lemma pick_bounds:
  assumes "items \<le> pol_max_batch_items p" and "items * m \<le> pol_max_batch_tokens p"
  shows "items + batch_items (fst (pick p key items m cs)) \<le> pol_max_batch_items p \<and>
    (items + batch_items (fst (pick p key items m cs))) * max m (batch_width (fst (pick p key items m cs)))
      \<le> pol_max_batch_tokens p"
  using assms
proof (induction cs arbitrary: items m)
  case Nil
  then show ?case by simp
next
  case (Cons c cs)
  show ?case
  proof (cases "joins p key items m c")
    case True
    with Cons.IH [of "items + length (rq_inputs c)" "max m (cost_max_sequence_length (rq_cost c))"]
      joins_bounds [OF True]
    show ?thesis by (simp add: case_prod_beta Let_def add.assoc max.assoc)
  next
    case False
    with Cons show ?thesis by (simp add: case_prod_beta Let_def)
  qed
qed

lemma pick_options: "r \<in> set (fst (pick p key items m cs)) \<Longrightarrow> rq_options r = key"
  by (induction cs arbitrary: items m)
    (auto simp: case_prod_beta Let_def dest: joins_bounds split: if_splits)

lemma pick_subseq: "subseq (fst (pick p key items m cs)) cs" "subseq (snd (pick p key items m cs)) cs"
  by (induction cs arbitrary: items m) (auto simp: case_prod_beta Let_def)

lemma form_batch_within:
  assumes "form_batch p first pending = (batch, left)" and "within_policy p [first]"
  shows "within_policy p batch" and "compatible batch" and "hd batch = first"
proof -
  let ?t = "fst (pick p (rq_options first) (length (rq_inputs first))
                  (cost_max_sequence_length (rq_cost first)) pending)"
  have b: "batch = first # ?t" using assms(1) by (simp add: form_batch_pick)
  have "length (rq_inputs first) \<le> pol_max_batch_items p"
    "length (rq_inputs first) * cost_max_sequence_length (rq_cost first) \<le> pol_max_batch_tokens p"
    using assms(2) by (simp_all add: within_policy_def)
  from pick_bounds [OF this, of "rq_options first" pending]
  show "within_policy p batch" by (simp add: within_policy_def b)
  show "compatible batch" using pick_options by (auto simp: compatible_def b)
  show "hd batch = first" by (simp add: b)
qed

lemma sorted_subseq: "subseq xs ys \<Longrightarrow> sorted ys \<Longrightarrow> sorted (xs :: 'a::linorder list)"
proof (induction rule: list_emb.induct)
  case (list_emb_Cons2 x y xs ys)
  then show ?case by (auto dest: subseq_order.order_trans list_emb_set)
qed simp_all

lemma form_batch_sorted:
  assumes "form_batch p first pending = (batch, left)" and "sorted (map rq_sequence (first # pending))"
  shows "sorted (map rq_sequence batch)" and "sorted (map rq_sequence left)"
    and "set batch \<union> set left \<subseteq> set (first # pending)"
proof -
  let ?pick = "pick p (rq_options first) (length (rq_inputs first))
                  (cost_max_sequence_length (rq_cost first)) pending"
  have b: "batch = first # fst ?pick" "left = snd ?pick" using assms(1) by (simp_all add: form_batch_pick)
  have "subseq (map rq_sequence batch) (map rq_sequence (first # pending))"
    unfolding b by (intro subseq_map subseq_Cons2 pick_subseq)
  then show "sorted (map rq_sequence batch)"
    using assms(2) by (rule sorted_subseq)
  have "subseq (map rq_sequence left) (map rq_sequence pending)"
    unfolding b by (intro subseq_map pick_subseq)
  then show "sorted (map rq_sequence left)"
    using assms(2) by (metis list.simps(9) sorted_simps(2) sorted_subseq)
  have "set_mset (mset batch + mset left) = set (first # pending)"
    using form_batch_mset [OF assms(1)] by simp
  then show "set batch \<union> set left \<subseteq> set (first # pending)" by auto
qed

section \<open>What a round does\<close>

lemma fail_requests_channels: "map fst (fail_requests H t rs code) = map rq_response rs"
  by (induction rs arbitrary: t) simp_all

lemma fail_requests_mset:
  "image_mset fst (mset (fail_requests H t rs code)) = image_mset rq_response (mset rs)"
  using fail_requests_channels [of H t rs code] by (metis mset_map)

lemma dispatch_batch_channels:
  "dispatch_batch H t rs = (sent, taken) \<Longrightarrow>
     mset (map fst sent) + mset (map rq_response (concat taken)) = mset (map rq_response rs)"
  by (auto simp: dispatch_batch_def fail_requests_mset split: if_splits)

text \<open>Every request is either answered or in exactly one dispatched batch.\<close>

lemma drain_pending_channels:
  "drain_pending p H t pending = (responses, batches) \<Longrightarrow>
     mset (map fst responses) + mset (map rq_response (concat batches)) = mset (map rq_response pending)"
proof (induction p H t pending arbitrary: responses batches rule: drain_pending.induct)
  case (1 p H t)
  then show ?case by (simp add: drain_pending.simps)
next
  case (2 p H t first pending)
  show ?case
  proof (cases "active_at H t first")
    case (Inl e)
    obtain r b where d: "drain_pending p H (Suc t) pending = (r, b)" by fastforce
    from "2.IH"(1) [OF Inl d] "2.prems" Inl d show ?thesis
      by (auto simp: drain_pending.simps)
  next
    case (Inr u)
    obtain batch left where f: "form_batch p first pending = (batch, left)" by fastforce
    obtain sent taken where s: "dispatch_batch H (Suc t) batch = (sent, taken)" by fastforce
    obtain r b where d: "drain_pending p H (Suc (Suc t) + length batch) left = (r, b)" by fastforce
    have "mset (map fst r) + mset (map rq_response (concat b)) = mset (map rq_response left)"
      using "2.IH"(2) [OF Inr f [symmetric] refl s [symmetric] refl d] by simp
    moreover have "mset (map rq_response batch) + mset (map rq_response left) =
        mset (map rq_response (first # pending))"
      using arg_cong [OF form_batch_mset [OF f], of "image_mset rq_response"] by simp
    ultimately show ?thesis
      using dispatch_batch_channels [OF s] "2.prems" Inr f s d
      by (auto simp: drain_pending.simps) (metis (no_types, lifting) add.assoc add.left_commute)
  qed
qed

text \<open>Each batch obeys the policy, shares its options and keeps arrival order, oldest batch first.\<close>

lemma drain_pending_batches:
  "drain_pending p H t pending = (responses, batches) \<Longrightarrow>
   \<forall>r \<in> set pending. within_policy p [r] \<Longrightarrow>
   \<forall>b \<in> set batches. b \<noteq> [] \<and> within_policy p b \<and> compatible b"
proof (induction p H t pending arbitrary: responses batches rule: drain_pending.induct)
  case (1 p H t)
  then show ?case by (simp add: drain_pending.simps)
next
  case (2 p H t first pending)
  show ?case
  proof (cases "active_at H t first")
    case (Inl e)
    obtain r b where d: "drain_pending p H (Suc t) pending = (r, b)" by fastforce
    from "2.IH"(1) [OF Inl d] "2.prems" Inl d show ?thesis
      by (auto simp: drain_pending.simps)
  next
    case (Inr u)
    obtain batch left where f: "form_batch p first pending = (batch, left)" by fastforce
    obtain sent taken where s: "dispatch_batch H (Suc t) batch = (sent, taken)" by fastforce
    obtain r b where d: "drain_pending p H (Suc (Suc t) + length batch) left = (r, b)" by fastforce
    have "set left \<subseteq> set (first # pending)"
      using arg_cong [OF form_batch_mset [OF f], of set_mset] by auto
    then have "\<forall>b' \<in> set b. b' \<noteq> [] \<and> within_policy p b' \<and> compatible b'"
      using "2.IH"(2) [OF Inr f [symmetric] refl s [symmetric] refl d] "2.prems"(2) by blast
    moreover have "within_policy p batch" "compatible batch" "batch \<noteq> []"
      using form_batch_within [OF f] form_batch_shorter [OF f] "2.prems"(2) by simp_all
    ultimately show ?thesis
      using "2.prems"(1) Inr f s d
      by (auto simp: drain_pending.simps dispatch_batch_def split: if_splits)
  qed
qed

lemma drain_pending_members:
  assumes "drain_pending p H t pending = (responses, batches)" and "b \<in> set batches" and "r \<in> set b"
  shows "r \<in> set pending"
  using assms
proof (induction p H t pending arbitrary: responses batches rule: drain_pending.induct)
  case (1 p H t)
  then show ?case by (simp add: drain_pending.simps)
next
  case (2 p H t first pending)
  show ?case
  proof (cases "active_at H t first")
    case (Inl e)
    obtain rs bs where d: "drain_pending p H (Suc t) pending = (rs, bs)" by fastforce
    from "2.IH"(1) [OF Inl d] "2.prems" Inl d show ?thesis by (auto simp: drain_pending.simps)
  next
    case (Inr u)
    obtain batch left where f: "form_batch p first pending = (batch, left)" by fastforce
    obtain sent taken where s: "dispatch_batch H (Suc t) batch = (sent, taken)" by fastforce
    obtain rs bs where d: "drain_pending p H (Suc (Suc t) + length batch) left = (rs, bs)" by fastforce
    have m: "set batch \<union> set left = set (first # pending)"
      using arg_cong [OF form_batch_mset [OF f], of set_mset] by auto
    have "b \<in> set taken \<or> b \<in> set bs"
      using "2.prems"(1,2) Inr f s d by (auto simp: drain_pending.simps)
    then show ?thesis
    proof
      assume "b \<in> set taken"
      then have "b = batch" using s by (auto simp: dispatch_batch_def split: if_splits)
      then show ?thesis using m "2.prems"(3) by auto
    next
      assume "b \<in> set bs"
      then have "r \<in> set left"
        using "2.IH"(2) [OF Inr f [symmetric] refl s [symmetric] refl d] "2.prems"(3) by blast
      then show ?thesis using m by auto
    qed
  qed
qed

lemma drain_pending_order:
  "drain_pending p H t pending = (responses, batches) \<Longrightarrow> sorted (map rq_sequence pending) \<Longrightarrow>
   \<forall>r \<in> set pending. within_policy p [r] \<Longrightarrow>
   (\<forall>b \<in> set batches. sorted (map rq_sequence b)) \<and> sorted (map (\<lambda>b. rq_sequence (hd b)) batches)"
proof (induction p H t pending arbitrary: responses batches rule: drain_pending.induct)
  case (1 p H t)
  then show ?case by (simp add: drain_pending.simps)
next
  case (2 p H t first pending)
  show ?case
  proof (cases "active_at H t first")
    case (Inl e)
    obtain r b where d: "drain_pending p H (Suc t) pending = (r, b)" by fastforce
    from "2.IH"(1) [OF Inl d] "2.prems" Inl d show ?thesis by (auto simp: drain_pending.simps)
  next
    case (Inr u)
    obtain batch left where f: "form_batch p first pending = (batch, left)" by fastforce
    obtain sent taken where s: "dispatch_batch H (Suc t) batch = (sent, taken)" by fastforce
    obtain r b where d: "drain_pending p H (Suc (Suc t) + length batch) left = (r, b)" by fastforce
    note fs = form_batch_sorted [OF f "2.prems"(2)]
    have "hd batch = first" using form_batch_within [OF f] "2.prems"(3) by simp
    have left: "set left \<subseteq> set (first # pending)" using fs(3) by simp
    then have ih: "(\<forall>b' \<in> set b. sorted (map rq_sequence b')) \<and> sorted (map (\<lambda>b. rq_sequence (hd b)) b)"
      using "2.IH"(2) [OF Inr f [symmetric] refl s [symmetric] refl d fs(2)] "2.prems"(3) by blast
    have low: "rq_sequence first \<le> rq_sequence (hd b')" if "b' \<in> set b" for b'
    proof -
      have "b' \<noteq> []" using drain_pending_batches [OF d] left "2.prems"(3) that by blast
      then have "hd b' \<in> set left" using drain_pending_members [OF d that] by simp
      then show ?thesis using left "2.prems"(2) by auto
    qed
    have taken: "taken = [] \<or> taken = [batch]" using s by (auto simp: dispatch_batch_def split: if_splits)
    have "batches = taken @ b"
      using "2.prems"(1) Inr f s d by (simp add: drain_pending.simps)
    with taken ih low fs(1) \<open>hd batch = first\<close> show ?thesis by auto
  qed
qed

section \<open>The scheduler task\<close>

datatype sched_phase = Top | Await_First | Gather | Dispatch | Closing | Failing | Done

text \<open>
  The channel buffer, the deque, the stop signal, what was sent and what came out. \<open>sd_sent\<close> is every
  request the channel ever took; \<open>sd_clock\<close> is the position in the history.
\<close>

record sched =
  sd_phase :: sched_phase
  sd_channel :: "request list"
  sd_closed :: bool
  sd_senders_gone :: bool
  sd_stop :: bool
  sd_pending :: "request list"
  sd_sent :: "request list"
  sd_responses :: "response list"
  sd_batches :: "request list list"
  sd_clock :: nat

definition sched_init :: sched where
  "sched_init = \<lparr>sd_phase = Top, sd_channel = [], sd_closed = False, sd_senders_gone = False,
     sd_stop = False, sd_pending = [], sd_sent = [], sd_responses = [], sd_batches = [], sd_clock = 0\<rparr>"

definition push_pending :: "sched \<Rightarrow> request \<Rightarrow> request list \<Rightarrow> sched_phase \<Rightarrow> sched" where
  "push_pending s r rest phase =
     s\<lparr>sd_channel := rest, sd_pending := sd_pending s @ [r], sd_phase := phase\<rparr>"

text \<open>One round: sort by sequence, drain, then leave the loop or start over.\<close>

definition run_round :: "batch_policy \<Rightarrow> history \<Rightarrow> sched \<Rightarrow> sched" where
  "run_round p H s =
     (let (responses, batches) = drain_pending p H (sd_clock s) (sort_key rq_sequence (sd_pending s));
          t = sd_clock s + 3 * length (sd_pending s)
      in s\<lparr>sd_pending := [], sd_responses := sd_responses s @ responses,
           sd_batches := sd_batches s @ batches, sd_clock := Suc t,
           sd_phase := (if \<not> mo_accepting (H t) \<and> sd_channel s = [] then Closing else Top)\<rparr>)"

text \<open>What other tasks do: send while the channel is open and has room, stop, drop the last sender.\<close>

inductive env_step :: "batch_policy \<Rightarrow> sched \<Rightarrow> sched \<Rightarrow> bool" for p :: batch_policy where
  env_send: "\<not> sd_closed s \<Longrightarrow> \<not> sd_senders_gone s \<Longrightarrow> length (sd_channel s) < pol_queue_depth p \<Longrightarrow>
     within_policy p [r] \<Longrightarrow>
     env_step p s (s\<lparr>sd_channel := sd_channel s @ [r], sd_sent := sd_sent s @ [r]\<rparr>)"
| env_stop: "env_step p s (s\<lparr>sd_stop := True\<rparr>)"
| env_gone: "env_step p s (s\<lparr>sd_senders_gone := True\<rparr>)"

inductive own_step :: "batch_policy \<Rightarrow> history \<Rightarrow> sched \<Rightarrow> sched \<Rightarrow> bool"
  for p :: batch_policy and H :: history where
  top_stop: "sd_phase s = Top \<Longrightarrow> sd_stop s \<Longrightarrow> own_step p H s (s\<lparr>sd_phase := Closing\<rparr>)"
| top_go: "sd_phase s = Top \<Longrightarrow> \<not> sd_stop s \<Longrightarrow>
     own_step p H s (s\<lparr>sd_phase := (if sd_pending s = [] then Await_First else Gather)\<rparr>)"
| first_stop: "sd_phase s = Await_First \<Longrightarrow> sd_stop s \<Longrightarrow> own_step p H s (s\<lparr>sd_phase := Closing\<rparr>)"
| first_recv: "sd_phase s = Await_First \<Longrightarrow> \<not> sd_stop s \<Longrightarrow> sd_channel s = r # rest \<Longrightarrow>
     own_step p H s (push_pending s r rest Gather)"
| first_closed: "sd_phase s = Await_First \<Longrightarrow> \<not> sd_stop s \<Longrightarrow> sd_channel s = [] \<Longrightarrow> sd_senders_gone s \<Longrightarrow>
     own_step p H s (s\<lparr>sd_phase := Closing\<rparr>)"
| gather_stop: "sd_phase s = Gather \<Longrightarrow> sd_stop s \<Longrightarrow> own_step p H s (s\<lparr>sd_phase := Closing\<rparr>)"
| gather_timer: "sd_phase s = Gather \<Longrightarrow> \<not> sd_stop s \<Longrightarrow> own_step p H s (s\<lparr>sd_phase := Dispatch\<rparr>)"
| gather_recv: "sd_phase s = Gather \<Longrightarrow> \<not> sd_stop s \<Longrightarrow> sd_channel s = r # rest \<Longrightarrow>
     own_step p H s (push_pending s r rest
       (if pol_queue_depth p \<le> Suc (length (sd_pending s)) then Dispatch else Gather))"
| gather_closed: "sd_phase s = Gather \<Longrightarrow> \<not> sd_stop s \<Longrightarrow> sd_channel s = [] \<Longrightarrow> sd_senders_gone s \<Longrightarrow>
     own_step p H s (s\<lparr>sd_phase := Dispatch\<rparr>)"
| dispatch_stop: "sd_phase s = Dispatch \<Longrightarrow> sd_stop s \<Longrightarrow> own_step p H s (s\<lparr>sd_phase := Top\<rparr>)"
| dispatch_run: "sd_phase s = Dispatch \<Longrightarrow> \<not> sd_stop s \<Longrightarrow> own_step p H s (run_round p H s)"
| close: "sd_phase s = Closing \<Longrightarrow>
     own_step p H s (s\<lparr>sd_closed := True, sd_pending := [],
       sd_responses := sd_responses s @ fail_requests H (sd_clock s) (sd_pending s) ModelUnavailable,
       sd_clock := sd_clock s + length (sd_pending s), sd_phase := Failing\<rparr>)"
| fail_one: "sd_phase s = Failing \<Longrightarrow> sd_channel s = r # rest \<Longrightarrow>
     own_step p H s (s\<lparr>sd_channel := rest,
       sd_responses := sd_responses s @ fail_requests H (sd_clock s) [r] ModelUnavailable,
       sd_clock := Suc (sd_clock s)\<rparr>)"
| finished: "sd_phase s = Failing \<Longrightarrow> sd_channel s = [] \<Longrightarrow> own_step p H s (s\<lparr>sd_phase := Done\<rparr>)"

inductive sched_reachable :: "batch_policy \<Rightarrow> history \<Rightarrow> sched \<Rightarrow> bool"
  for p :: batch_policy and H :: history where
  sched_start: "sched_reachable p H sched_init"
| sched_env: "sched_reachable p H s \<Longrightarrow> env_step p s s' \<Longrightarrow> sched_reachable p H s'"
| sched_own: "sched_reachable p H s \<Longrightarrow> own_step p H s s' \<Longrightarrow> sched_reachable p H s'"

inductive_cases env_stepE: "env_step p s s'"
inductive_cases own_stepE: "own_step p H s s'"

section \<open>Conservation\<close>

text \<open>Where the requests are, by their response channels.\<close>

definition waiting :: "sched \<Rightarrow> nat multiset" where
  "waiting s = mset (map rq_response (sd_channel s)) + mset (map rq_response (sd_pending s))"

definition settled :: "sched \<Rightarrow> nat multiset" where
  "settled s = mset (map rq_response (concat (sd_batches s))) + mset (map fst (sd_responses s))"

definition sched_inv :: "batch_policy \<Rightarrow> sched \<Rightarrow> bool" where
  "sched_inv p s \<longleftrightarrow>
     waiting s + settled s = mset (map rq_response (sd_sent s)) \<and>
     (\<forall>r \<in> set (sd_channel s) \<union> set (sd_pending s). within_policy p [r]) \<and>
     (\<forall>b \<in> set (sd_batches s). b \<noteq> [] \<and> within_policy p b \<and> compatible b) \<and>
     (sd_phase s = Failing \<or> sd_phase s = Done \<longrightarrow> sd_pending s = [] \<and> sd_closed s) \<and>
     (sd_phase s = Done \<longrightarrow> sd_channel s = [])"

lemma run_round_conserves:
  "waiting (run_round p H s) + settled (run_round p H s) = waiting s + settled s"
proof -
  obtain r b where d: "drain_pending p H (sd_clock s) (sort_key rq_sequence (sd_pending s)) = (r, b)"
    by fastforce
  have "image_mset fst (mset r) + image_mset rq_response (mset (concat b)) =
      image_mset rq_response (mset (sd_pending s))"
    using drain_pending_channels [OF d] by simp
  then show ?thesis
    by (simp add: run_round_def waiting_def settled_def d Let_def ac_simps)
qed

lemma run_round_batches:
  assumes "\<forall>r \<in> set (sd_pending s). within_policy p [r]"
    and "\<forall>b \<in> set (sd_batches s). b \<noteq> [] \<and> within_policy p b \<and> compatible b"
  shows "\<forall>b \<in> set (sd_batches (run_round p H s)). b \<noteq> [] \<and> within_policy p b \<and> compatible b"
proof -
  obtain r b where d: "drain_pending p H (sd_clock s) (sort_key rq_sequence (sd_pending s)) = (r, b)"
    by fastforce
  from drain_pending_batches [OF d] assms show ?thesis
    by (auto simp: run_round_def d Let_def)
qed

lemma sched_inv_env: "sched_inv p s \<Longrightarrow> env_step p s s' \<Longrightarrow> sched_inv p s'"
  by (erule env_stepE) (auto simp: sched_inv_def waiting_def settled_def)

lemma sched_inv_round: "sched_inv p s \<Longrightarrow> sd_phase s = Dispatch \<Longrightarrow> sched_inv p (run_round p H s)"
proof -
  assume inv: "sched_inv p s" and phase: "sd_phase s = Dispatch"
  have "sd_channel (run_round p H s) = sd_channel s" "sd_pending (run_round p H s) = []"
    "sd_sent (run_round p H s) = sd_sent s" "sd_phase (run_round p H s) \<in> {Closing, Top}"
    by (simp_all add: run_round_def case_prod_beta Let_def)
  then show ?thesis
    using inv run_round_conserves [of p H s] run_round_batches [of s p H]
    unfolding sched_inv_def by auto
qed

text \<open>A step that only moves the phase, to one before the channel is closed, keeps the invariant.\<close>

lemma sched_inv_phase:
  "sched_inv p s \<Longrightarrow> ph \<noteq> Failing \<Longrightarrow> ph \<noteq> Done \<Longrightarrow> sched_inv p (s\<lparr>sd_phase := ph\<rparr>)"
  by (simp add: sched_inv_def waiting_def settled_def)

lemma sched_inv_push:
  assumes "sched_inv p s" and "sd_channel s = r # rest" and "ph \<noteq> Failing" and "ph \<noteq> Done"
  shows "sched_inv p (push_pending s r rest ph)"
proof -
  have "waiting (push_pending s r rest ph) = waiting s"
    using assms(2) by (simp add: waiting_def push_pending_def)
  with assms show ?thesis
    by (simp add: sched_inv_def settled_def) (auto simp: push_pending_def)
qed

lemma sched_inv_close:
  assumes "sched_inv p s"
  shows "sched_inv p (s\<lparr>sd_closed := True, sd_pending := [],
    sd_responses := sd_responses s @ fail_requests H t (sd_pending s) code,
    sd_clock := t', sd_phase := Failing\<rparr>)"
  using assms by (simp add: sched_inv_def waiting_def settled_def fail_requests_mset ac_simps)

lemma sched_inv_fail_one:
  assumes "sched_inv p s" and "sd_phase s = Failing" and "sd_channel s = r # rest"
  shows "sched_inv p (s\<lparr>sd_channel := rest,
    sd_responses := sd_responses s @ [(rq_response r, res)], sd_clock := t'\<rparr>)"
  using assms by (auto simp: sched_inv_def waiting_def settled_def)

lemma sched_inv_own: "sched_inv p s \<Longrightarrow> own_step p H s s' \<Longrightarrow> sched_inv p s'"
proof (erule own_stepE, goal_cases)
  case 14
  then show ?case by (auto simp: sched_inv_def waiting_def settled_def)
qed (simp_all add: sched_inv_phase sched_inv_push sched_inv_round sched_inv_close sched_inv_fail_one)

lemma sched_reachable_inv: "sched_reachable p H s \<Longrightarrow> sched_inv p s"
proof (induction rule: sched_reachable.induct)
  case sched_start
  show ?case by (simp add: sched_inv_def sched_init_def waiting_def settled_def)
qed (blast intro: sched_inv_env sched_inv_own)+

section \<open>Stopping\<close>

fun sched_rank :: "sched_phase \<Rightarrow> nat" where
  "sched_rank Dispatch = 4"
| "sched_rank Top = 3"
| "sched_rank Await_First = 3"
| "sched_rank Gather = 3"
| "sched_rank Closing = 2"
| "sched_rank Failing = 1"
| "sched_rank Done = 0"

definition stop_order :: "(sched \<times> sched) set" where
  "stop_order = measures [\<lambda>s. sched_rank (sd_phase s), \<lambda>s. length (sd_channel s)]"

lemma wf_stop_order: "wf stop_order"
  by (simp add: stop_order_def)

lemma own_step_decreases: "own_step p H s s' \<Longrightarrow> sd_stop s \<Longrightarrow> (s', s) \<in> stop_order \<and> sd_stop s'"
  by (erule own_stepE) (simp_all add: stop_order_def)

lemma own_step_enabled: "sd_stop s \<Longrightarrow> sd_phase s \<noteq> Done \<Longrightarrow> \<exists>s'. own_step p H s s'"
proof (cases "sd_phase s")
  case Failing
  then show ?thesis by (cases "sd_channel s") (blast intro: own_step.intros)+
qed (blast intro: own_step.intros)+

lemma env_step_rank: "env_step p s s' \<Longrightarrow> sd_phase s' = sd_phase s \<and> (sd_stop s \<longrightarrow> sd_stop s')"
  by (erule env_stepE) simp_all

section \<open>Properties\<close>

text \<open>A request of one input, and the run that stops while it is still in the channel.\<close>

definition demo_identity :: resolved_identity where
  "demo_identity = \<lparr>canonical_id = lit ''m'', revision = lit ''r'', runtime_name = lit ''onnx'',
     artifact_fingerprint = lit ''a'', semantic_fingerprint = lit ''s''\<rparr>"

definition demo_request :: "nat \<Rightarrow> request" where
  "demo_request n = \<lparr>rq_sequence = n, rq_inputs = [lit ''text''],
     rq_cost = \<lparr>cost_items = 1, cost_tokens = 3, cost_max_sequence_length = 3\<rparr>,
     rq_contract = \<lparr>rc_identity = demo_identity, rc_native_dimensions = 1\<rparr>,
     rq_options = default_options, rq_control = control_new (Single 0) None, rq_response = n\<rparr>"

definition demo_moment :: moment where
  "demo_moment = \<lparr>mo_world = (\<lparr>cells = [signal_default], woken = []\<rparr>, 0), mo_accepting = True,
     mo_pool_free = True\<rparr>"

definition demo_stopped :: sched where
  "demo_stopped = sched_init\<lparr>sd_phase := Done, sd_closed := True, sd_stop := True,
     sd_sent := [demo_request 7], sd_responses := [(7, Err (failure ModelUnavailable))], sd_clock := 1\<rparr>"

lemma demo_request_within: "within_policy policy_default [demo_request n]"
  by (simp add: within_policy_def demo_request_def policy_default_def)

lemma demo_active: "active_at (\<lambda>_. demo_moment) t (demo_request n) = Ok ()"
  by (simp add: active_at_def check_control_def demo_moment_def demo_request_def control_new_def
      flagged_def cell_at_def signal_default_def)

lemma demo_sent:
  "sched_reachable policy_default H (sched_init\<lparr>sd_channel := [demo_request 7], sd_sent := [demo_request 7]\<rparr>)"
proof -
  have "0 < pol_queue_depth policy_default" by (simp add: policy_default_def)
  then have "env_step policy_default sched_init
      (sched_init\<lparr>sd_channel := sd_channel sched_init @ [demo_request 7],
        sd_sent := sd_sent sched_init @ [demo_request 7]\<rparr>)"
    by (intro env_send demo_request_within) (simp_all add: sched_init_def)
  from sched_env [OF sched_start this] show ?thesis by (simp add: sched_init_def)
qed

lemma demo_stopped_reachable: "sched_reachable policy_default (\<lambda>_. demo_moment) demo_stopped"
proof -
  let ?R = "sched_reachable policy_default (\<lambda>_. demo_moment)"
  have "?R (sched_init\<lparr>sd_channel := [demo_request 7], sd_sent := [demo_request 7]\<rparr>)"
    by (rule demo_sent)
  from sched_env [OF this env_stop]
  have "?R (sched_init\<lparr>sd_channel := [demo_request 7], sd_sent := [demo_request 7], sd_stop := True\<rparr>)"
    by simp
  from sched_own [OF this top_stop]
  have "?R (sched_init\<lparr>sd_channel := [demo_request 7], sd_sent := [demo_request 7], sd_stop := True,
      sd_phase := Closing\<rparr>)" by (simp add: sched_init_def)
  from sched_own [OF this close]
  have "?R (sched_init\<lparr>sd_channel := [demo_request 7], sd_sent := [demo_request 7], sd_stop := True,
      sd_closed := True, sd_phase := Failing\<rparr>)" by (simp add: sched_init_def)
  from sched_own [OF this fail_one]
  have "?R (sched_init\<lparr>sd_sent := [demo_request 7], sd_stop := True, sd_closed := True,
      sd_phase := Failing, sd_responses := [(7, Err (failure ModelUnavailable))], sd_clock := 1\<rparr>)"
    by (simp add: sched_init_def demo_active) (simp add: demo_request_def)
  from sched_own [OF this finished] show ?thesis
    by (simp add: sched_init_def demo_stopped_def)
qed



text \<open>
  C3. Native batches obey the policy: whatever requests arrive and however they interleave with
  cancellation and shutdown, every batch handed to the native queue is non-empty, has at most the
  permitted number of inputs, at most the permitted number of padded token cells, and carries one
  set of options.
\<close>

theorem dispatched_batches_within_policy:
  assumes "sched_reachable p H s" and "b \<in> set (sd_batches s)"
  shows "b \<noteq> [] \<and> batch_items b \<le> pol_max_batch_items p \<and>
    batch_items b * batch_width b \<le> pol_max_batch_tokens p \<and>
    (\<forall>r \<in> set b. rq_options r = rq_options (hd b))"
proof -
  have "b \<noteq> [] \<and> within_policy p b \<and> compatible b"
    using sched_reachable_inv [OF assms(1)] assms(2) unfolding sched_inv_def by blast
  then show ?thesis unfolding within_policy_def compatible_def by blast
qed

definition demo_dispatched :: sched where
  "demo_dispatched = run_round policy_default (\<lambda>_. demo_moment)
     (push_pending (sched_init\<lparr>sd_channel := [demo_request 7], sd_sent := [demo_request 7],
        sd_phase := Await_First\<rparr>) (demo_request 7) [] Dispatch)"

lemma demo_dispatched_reachable: "sched_reachable policy_default (\<lambda>_. demo_moment) demo_dispatched"
proof -
  let ?R = "sched_reachable policy_default (\<lambda>_. demo_moment)"
  let ?s = "sched_init\<lparr>sd_channel := [demo_request 7], sd_sent := [demo_request 7]\<rparr>"
  have "?R ?s"
    by (rule demo_sent)
  from sched_own [OF this top_go] have "?R (?s\<lparr>sd_phase := Await_First\<rparr>)" by (simp add: sched_init_def)
  from sched_own [OF this first_recv [where r = "demo_request 7" and rest = "[]"]]
  have "?R (push_pending (?s\<lparr>sd_phase := Await_First\<rparr>) (demo_request 7) [] Gather)"
    by (simp add: sched_init_def)
  from sched_own [OF this gather_timer]
  have "?R (push_pending (?s\<lparr>sd_phase := Await_First\<rparr>) (demo_request 7) [] Dispatch)"
    by (simp add: sched_init_def push_pending_def)
  from sched_own [OF this dispatch_run] show ?thesis
    by (simp add: sched_init_def demo_dispatched_def push_pending_def)
qed

lemma demo_dispatched_batches: "sd_batches demo_dispatched = [[demo_request 7]]"
  by (simp add: demo_dispatched_def run_round_def push_pending_def sched_init_def drain_pending.simps
      demo_active form_batch_pick dispatch_batch_def demo_moment_def [symmetric])
    (simp add: demo_moment_def)

theorem dispatched_batches_within_policy_witness:
  "[demo_request 7] \<noteq> [] \<and> batch_items [demo_request 7] \<le> pol_max_batch_items policy_default \<and>
    batch_items [demo_request 7] * batch_width [demo_request 7] \<le> pol_max_batch_tokens policy_default \<and>
    list_all (\<lambda>r. rq_options r = rq_options (hd [demo_request 7])) [demo_request 7]"
  unfolding list_all_iff
  by (rule dispatched_batches_within_policy [OF demo_dispatched_reachable])
    (simp add: demo_dispatched_batches)

text \<open>
  A round is fair: after the sort by sequence number every pending request is answered or
  dispatched in this very round, every batch keeps arrival order, and the batches start with ever
  younger requests, so no compatibility key is served ahead of an older request of another.
\<close>

theorem round_serves_oldest_first:
  assumes "\<forall>r \<in> set pending. within_policy p [r]"
    and "drain_pending p H t (sort_key rq_sequence pending) = (responses, batches)"
  shows "mset (map fst responses) + mset (map rq_response (concat batches)) = mset (map rq_response pending) \<and>
    (\<forall>b \<in> set batches. sorted (map rq_sequence b)) \<and>
    sorted (map (\<lambda>b. rq_sequence (hd b)) batches)"
  using drain_pending_channels [OF assms(2)] drain_pending_order [OF assms(2)] assms(1) by simp

theorem round_serves_oldest_first_witness:
  "mset (map fst ([] :: response list)) + mset (map rq_response (concat [[demo_request 2, demo_request 5]]))
     = mset (map rq_response [demo_request 5, demo_request 2]) \<and>
   list_all (\<lambda>b. sorted (map rq_sequence b)) [[demo_request 2, demo_request 5]] \<and>
   sorted (map (\<lambda>b. rq_sequence (hd b)) [[demo_request 2, demo_request 5]])"
  unfolding list_all_iff
proof (rule round_serves_oldest_first [where p = policy_default and H = "\<lambda>_. demo_moment" and t = 0])
  show "\<forall>r \<in> set [demo_request 5, demo_request 2]. within_policy policy_default [r]"
    by (simp add: demo_request_within)
  have "sort_key rq_sequence [demo_request 5, demo_request 2] = [demo_request 2, demo_request 5]"
    by (simp add: demo_request_def)
  moreover have "joins policy_default (rq_options (demo_request 2)) (length (rq_inputs (demo_request 2)))
      (cost_max_sequence_length (rq_cost (demo_request 2))) (demo_request 5)"
    by (simp add: joins_def demo_request_def checked_add_def checked_mul_def word_limit_def policy_default_def)
  ultimately show "drain_pending policy_default (\<lambda>_. demo_moment) 0
      (sort_key rq_sequence [demo_request 5, demo_request 2]) = ([], [[demo_request 2, demo_request 5]])"
    by (simp add: drain_pending.simps demo_active form_batch_pick dispatch_batch_def)
      (simp add: demo_moment_def)
qed



text \<open>
  The rotating scan of the deque is an order-preserving partition: combining with at most as many
  pops as there are candidates gives the batch and the rest that one pass over the pending requests
  gives, the rest in its old order.
\<close>

theorem form_batch_is_one_pass:
  "form_batch p first pending =
     (let (taken, left) = pick p (rq_options first) (length (rq_inputs first))
            (cost_max_sequence_length (rq_cost first)) pending
      in (first # taken, left)) \<and>
   subseq (snd (form_batch p first pending)) pending"
  by (simp add: form_batch_pick case_prod_beta pick_subseq)

text \<open>
  A configuration that passed validation always yields a valid scheduler policy, whatever the
  batching delay: the runtime never refuses limits the configuration accepted.
\<close>

theorem validated_limits_give_valid_policy:
  assumes "validate parse_url c = Inr ()"
  shows "policy_validate (policy_from_limits (sc_limits c) wait) = Inr (policy_from_limits (sc_limits c) wait)"
proof -
  have "limits_in_bounds (sc_limits c)" using assms by (simp add: validate_Ok)
  then show ?thesis
    by (simp add: policy_validate_def policy_from_limits_def limits_in_bounds_def)
qed

theorem validated_limits_give_valid_policy_witness:
  "policy_validate (policy_from_limits (sc_limits server_config_default) 4)
     = Inr (policy_from_limits (sc_limits server_config_default) 4)"
proof (rule validated_limits_give_valid_policy [where parse_url = "\<lambda>_. None"])
  show "validate (\<lambda>_. None) server_config_default = Inr ()"
    unfolding validate_Ok
    by (simp add: server_config_default_def socket_addr_new_def remotely_exposed_def limits_in_bounds_def
        limits_default_def)
qed

end
