(* ===== verification/Execution.thy ===== *)
theory Execution
  imports Scheduler
begin

text \<open>
  Native execution in \<^verbatim>\<open>impossible-server/src/runtime.rs\<close>: the engine interface with its conservative
  default cost, the preflight job, the wait for a response under control, the execution of a batch and
  the publication of its results. The engine is a parameter; a panic in it is \<open>None\<close>. Reads of flags
  and controls take successive moments of a history, as in theory Scheduler.
\<close>

section \<open>The engine interface\<close>

record engine =
  en_contract :: "rstr \<Rightarrow> (engine_failure + runtime_contract) option"
  en_preflight :: "rstr \<Rightarrow> rstr list \<Rightarrow> embed_options \<Rightarrow> (engine_failure + batch_cost) option"
  en_embed :: "rstr \<Rightarrow> rstr list \<Rightarrow> control \<Rightarrow> embed_options \<Rightarrow> (engine_failure + embedding_output) option"

text \<open>The default method \<^verbatim>\<open>RuntimeEngine::preflight\<close>: bytes plus two per input.\<close>

fun preflight_scan :: "nat \<Rightarrow> nat \<Rightarrow> rstr list \<Rightarrow> engine_failure + nat \<times> nat" where
  "preflight_scan tokens max_sequence_length [] = Ok (tokens, max_sequence_length)"
| "preflight_scan tokens max_sequence_length (input # inputs) =
     and_then (ok_or (failure InvalidRequest) (checked_add (str_len input) 2)) (\<lambda>n.
     let length' = max n 1 in
     and_then (ok_or (failure InvalidRequest) (checked_add tokens length')) (\<lambda>tokens'.
     preflight_scan tokens' (max max_sequence_length length') inputs))"

definition default_preflight :: "rstr list \<Rightarrow> engine_failure + batch_cost" where
  "default_preflight inputs =
     and_then (preflight_scan 0 0 inputs) (\<lambda>(tokens, max_sequence_length).
     cost_new (length inputs) tokens max_sequence_length)"

definition identity_is_complete :: "resolved_identity \<Rightarrow> bool" where
  "identity_is_complete i =
     list_all (\<lambda>v. trim v \<noteq> [])
       [canonical_id i, revision i, runtime_name i, artifact_fingerprint i, semantic_fingerprint i]"

definition runtime_contract_new :: "resolved_identity \<Rightarrow> nat \<Rightarrow> engine_failure + runtime_contract" where
  "runtime_contract_new identity native_dimensions =
     (if native_dimensions = 0 \<or> \<not> identity_is_complete identity then Err (failure Internal)
      else Ok \<lparr>rc_identity = identity, rc_native_dimensions = native_dimensions\<rparr>)"

fun validate_raw_from :: "nat \<Rightarrow> rstr list \<Rightarrow> nat \<Rightarrow> nat \<Rightarrow> engine_failure + unit" where
  "validate_raw_from sum_all [] max_input_bytes max_request_bytes = Ok ()"
| "validate_raw_from sum_all (input # inputs) max_input_bytes max_request_bytes =
     (if max_input_bytes < str_len input then Err (failure InvalidRequest)
      else and_then (ok_or (failure InvalidRequest) (checked_add sum_all (str_len input))) (\<lambda>sum_all'.
        if max_request_bytes < sum_all' then Err (failure InvalidRequest)
        else validate_raw_from sum_all' inputs max_input_bytes max_request_bytes))"

definition validate_raw_inputs :: "rstr list \<Rightarrow> nat \<Rightarrow> nat \<Rightarrow> engine_failure + unit" where
  "validate_raw_inputs inputs max_input_bytes max_request_bytes =
     validate_raw_from 0 inputs max_input_bytes max_request_bytes"

definition validate_runtime_contract :: "rstr \<Rightarrow> runtime_contract \<Rightarrow> engine_failure + unit" where
  "validate_runtime_contract requested contract =
     reject_if (rc_native_dimensions contract = 0
         \<or> canonical_id (rc_identity contract) \<noteq> requested
         \<or> \<not> identity_is_complete (rc_identity contract))
       (failure InferenceFailed)"

section \<open>Preflight\<close>

record preflight_plan =
  pp_sequence :: nat
  pp_inputs :: "rstr list"
  pp_options :: embed_options
  pp_control :: control
  pp_model :: rstr
  pp_max_tokens :: nat
  pp_max_batch_tokens :: nat

record preflight_success =
  ps_sequence :: nat
  ps_inputs :: "rstr list"
  ps_cost :: batch_cost
  ps_contract :: runtime_contract

text \<open>\<^verbatim>\<open>catch_unwind\<close> around a call, its panic turned into the stable failure.\<close>

definition caught :: "(engine_failure + 'a) option \<Rightarrow> engine_failure + 'a" where
  "caught r = (case r of None \<Rightarrow> Err (failure InferenceFailed) | Some x \<Rightarrow> x)"

text \<open>The job \<^verbatim>\<open>execute_preflight\<close> queues; the two reads of the control see two worlds.\<close>

definition preflight_job ::
  "engine \<Rightarrow> preflight_plan \<Rightarrow> heap \<times> nat \<Rightarrow> heap \<times> nat \<Rightarrow> engine_failure + preflight_success" where
  "preflight_job en plan before after =
     and_then (check_control before (pp_control plan)) (\<lambda>_.
     and_then (caught (en_contract en (pp_model plan))) (\<lambda>contract.
     and_then (validate_runtime_contract (pp_model plan) contract) (\<lambda>_.
     and_then (batch_new (pp_inputs plan)) (\<lambda>batch.
     and_then (caught (en_preflight en (pp_model plan) batch (pp_options plan))) (\<lambda>cost.
     and_then (check_control after (pp_control plan)) (\<lambda>_.
     if cost_items cost \<noteq> length (pp_inputs plan) \<or> pp_max_tokens plan < cost_tokens cost
     then Err (failure InvalidRequest)
     else and_then (padded_tokens cost) (\<lambda>padded.
       if pp_max_batch_tokens plan < padded then Err (failure InvalidRequest)
       else Ok \<lparr>ps_sequence = pp_sequence plan, ps_inputs = pp_inputs plan, ps_cost = cost,
                ps_contract = contract\<rparr>)))))))"

section \<open>Waiting under control\<close>

text \<open>
  One turn of the loop of \<^verbatim>\<open>await_controlled\<close>: the value of the stop signal and the control at the top,
  then the first ready branch of the biased select. \<open>at_force\<close> and \<open>at_world\<close> are what the branch reads
  again when it runs.
\<close>

datatype 'a branch =
    Force_Changed bool
  | Cancel_Event
  | Timer_Event
  | Response_Event "(engine_failure + 'a) option"

record 'a turn =
  tn_force :: bool
  tn_world :: "heap \<times> nat"
  tn_branch :: "'a branch"
  at_force :: bool
  at_world :: "heap \<times> nat"

text \<open>\<^verbatim>\<open>ensure_active().and_then(|()| Err(code))\<close>.\<close>

definition ended_by :: "heap \<times> nat \<Rightarrow> control \<Rightarrow> error_code \<Rightarrow> engine_failure + 'a" where
  "ended_by w c code = and_then (check_control w c) (\<lambda>_. Err (failure code))"

fun await_controlled :: "control \<Rightarrow> 'a turn list \<Rightarrow> (engine_failure + 'a) option" where
  "await_controlled c [] = None"
| "await_controlled c (tn # turns) =
     (if tn_force tn then Some (Err (failure ModelUnavailable))
      else (case check_control (tn_world tn) c of
        Inl e \<Rightarrow> Some (Err e)
      | Inr _ \<Rightarrow>
        (case tn_branch tn of
           Force_Changed sender_gone \<Rightarrow>
             if sender_gone \<or> at_force tn then Some (Err (failure ModelUnavailable))
             else await_controlled c turns
         | Cancel_Event \<Rightarrow>
             if at_force tn then Some (Err (failure ModelUnavailable))
             else Some (ended_by (at_world tn) c Cancelled)
         | Timer_Event \<Rightarrow> Some (ended_by (at_world tn) c DeadlineExceeded)
         | Response_Event response \<Rightarrow>
             (case check_control (at_world tn) c of
                Inl e \<Rightarrow> Some (Err e)
              | Inr _ \<Rightarrow> Some (case response of None \<Rightarrow> Err (failure ModelUnavailable) | Some r \<Rightarrow> r)))))"

section \<open>Executing a batch\<close>

text \<open>The first loop of \<^verbatim>\<open>execute_batch\<close>: two reads per request.\<close>

fun select_active :: "history \<Rightarrow> nat \<Rightarrow> request list \<Rightarrow> response list \<times> request list" where
  "select_active H t [] = ([], [])"
| "select_active H t (r # rs) =
     (let (refused, active) = select_active H (t + 2) rs in
      if \<not> mo_accepting (H t) then ((rq_response r, Err (failure ModelUnavailable)) # refused, active)
      else (case active_at H (Suc t) r of
          Inl e \<Rightarrow> ((rq_response r, Err e) # refused, active)
        | Inr _ \<Rightarrow> (refused, r # active)))"

definition expected_dimensions :: "request \<Rightarrow> nat" where
  "expected_dimensions r =
     (case opt_dimensions (rq_options r) of None \<Rightarrow> rc_native_dimensions (rq_contract r) | Some d \<Rightarrow> d)"

text \<open>\<^verbatim>\<open>slice.get(a..b)\<close>.\<close>

definition slice :: "nat \<Rightarrow> nat \<Rightarrow> 'a list \<Rightarrow> 'a list option" where
  "slice a b xs = (if a \<le> b \<and> b \<le> length xs then Some (take (b - a) (drop a xs)) else None)"

fun valid_from :: "embedding_output \<Rightarrow> nat \<Rightarrow> nat \<Rightarrow> (request \<times> nat) list \<Rightarrow> bool" where
  "valid_from output sum_all offset [] = (offset = sum_all)"
| "valid_from output sum_all offset ((r, n) # rest) =
     (if rc_identity (rq_contract r) \<noteq> out_model output then False
      else (case checked_add offset n of None \<Rightarrow> False | Some upper \<Rightarrow>
        (case slice offset upper (out_vectors output) of None \<Rightarrow> False | Some vectors \<Rightarrow>
        (case slice offset upper (usage_input_tokens (out_usage output)) of None \<Rightarrow> False | Some input_tokens \<Rightarrow>
        (case checked_sum_from 0 input_tokens of None \<Rightarrow> False | Some actual_tokens \<Rightarrow>
           if actual_tokens \<noteq> cost_tokens (rq_cost r) then False
           else if list_ex (\<lambda>v. length v \<noteq> expected_dimensions r \<or> \<not> list_all f32_is_finite v) vectors
           then False
           else valid_from output sum_all upper rest)))))"

definition valid_engine_output :: "embedding_output \<Rightarrow> request list \<Rightarrow> nat list \<Rightarrow> bool" where
  "valid_engine_output output requests sizes =
     (case checked_sum_from 0 sizes of None \<Rightarrow> False
      | Some sum_all \<Rightarrow>
          if length (out_vectors output) \<noteq> sum_all
             \<or> length (usage_input_tokens (out_usage output)) \<noteq> sum_all
             \<or> \<not> identity_is_complete (out_model output)
          then False
          else valid_from output sum_all 0 (zip requests sizes))"

text \<open>One response of \<^verbatim>\<open>publish_results\<close>, from the vectors and token counts of this request.\<close>

definition publish_one ::
  "history \<Rightarrow> nat \<Rightarrow> request \<Rightarrow> f32 list list \<Rightarrow> nat list \<Rightarrow> resolved_identity \<Rightarrow>
   engine_failure + embedding_output" where
  "publish_one H t r vectors tokens model =
     (if \<not> mo_accepting (H t) then Err (failure ModelUnavailable)
      else and_then (active_at H (Suc t) r) (\<lambda>_.
        and_then (map_err (\<lambda>_. failure InferenceFailed) (usage_new tokens)) (\<lambda>usage.
        Ok \<lparr>out_vectors = vectors, out_model = model, out_usage = usage\<rparr>)))"

fun publish_results ::
  "history \<Rightarrow> nat \<Rightarrow> (request \<times> nat) list \<Rightarrow> f32 list list \<Rightarrow> nat list \<Rightarrow> resolved_identity \<Rightarrow>
   response list" where
  "publish_results H t [] vectors tokens model = []"
| "publish_results H t ((r, n) # rest) vectors tokens model =
     (rq_response r, publish_one H t r (take n vectors) (take n tokens) model)
     # publish_results H (t + 2) rest (drop n vectors) (drop n tokens) model"

definition input_sizes :: "request list \<Rightarrow> nat list" where
  "input_sizes rs = map (\<lambda>r. length (rq_inputs r)) rs"

definition batch_inputs :: "request list \<Rightarrow> rstr list" where
  "batch_inputs rs = concat (map rq_inputs rs)"

text \<open>The native call and what follows it; the call lasts \<open>d\<close> moments.\<close>

definition run_native ::
  "engine \<Rightarrow> rstr \<Rightarrow> history \<Rightarrow> nat \<Rightarrow> nat \<Rightarrow> request list \<Rightarrow> response list" where
  "run_native en model_id H t d requests =
     (case batch_new (batch_inputs requests) of
        Inl _ \<Rightarrow> fail_requests H t requests InvalidRequest
      | Inr batch \<Rightarrow>
     (case requested_model_new model_id of
        Inl _ \<Rightarrow> fail_requests H t requests ModelUnavailable
      | Inr model \<Rightarrow>
     (case en_embed en model batch (control_composite (map rq_control requests))
             (rq_options (hd requests)) of
        None \<Rightarrow> fail_requests H (t + d) requests InferenceFailed
      | Some (Inl e) \<Rightarrow> fail_requests H (t + d) requests (failure_code e)
      | Some (Inr output) \<Rightarrow>
          if valid_engine_output output requests (input_sizes requests)
          then publish_results H (t + d) (zip requests (input_sizes requests)) (out_vectors output)
                 (usage_input_tokens (out_usage output)) (out_model output)
          else fail_requests H (t + d) requests InferenceFailed)))"

definition execute_batch ::
  "engine \<Rightarrow> rstr \<Rightarrow> history \<Rightarrow> nat \<Rightarrow> nat \<Rightarrow> request list \<Rightarrow> response list" where
  "execute_batch en model_id H t d requests =
     (let (refused, active) = select_active H t requests in
      if active = [] then refused
      else refused @ run_native en model_id H (t + 2 * length requests) d active)"

section \<open>Exactly one answer\<close>

text \<open>
  The contract of everything that consumes requests: each response channel it is given hears once,
  and no other channel hears at all.
\<close>

locale responder =
  fixes respond :: "request list \<Rightarrow> response list"
  assumes answers_all: "mset (map fst (respond rs)) = mset (map rq_response rs)"
begin

lemma answered_once:
  assumes "distinct (map rq_response rs)" and "r \<in> set rs"
  shows "\<exists>!res. (rq_response r, res) \<in> set (respond rs)"
proof -
  have d: "distinct (map fst (respond rs))"
    using answers_all [of rs] assms(1) by (metis mset_eq_imp_distinct_iff)
  have "rq_response r \<in> set (map fst (respond rs))"
    using arg_cong [OF answers_all [of rs], of set_mset] assms(2) by simp
  then obtain res where res: "(rq_response r, res) \<in> set (respond rs)" by auto
  moreover have "res' = res" if "(rq_response r, res') \<in> set (respond rs)" for res'
    using d res that by (metis eq_key_imp_eq_value)
  ultimately show ?thesis by blast
qed

lemma answers_only_given:
  assumes "(ch, res) \<in> set (respond rs)"
  shows "ch \<in> set (map rq_response rs)"
  using arg_cong [OF answers_all [of rs], of set_mset] assms by force

end

lemma select_active_channels:
  "select_active H t rs = (refused, active) \<Longrightarrow>
     mset (map fst refused) + mset (map rq_response active) = mset (map rq_response rs)"
  by (induction rs arbitrary: t refused active)
    (auto simp: Let_def split: prod.splits if_splits sum.splits)

lemma publish_results_channels:
  "map fst (publish_results H t rsz vectors tokens model) = map (\<lambda>(r, _). rq_response r) rsz"
  by (induction H t rsz vectors tokens model rule: publish_results.induct) simp_all

lemma publish_all_channels:
  "map fst (publish_results H t (zip rs (input_sizes rs)) vectors tokens model) = map rq_response rs"
proof -
  have "map (\<lambda>(r, _). rq_response r) (zip rs (input_sizes rs)) = map rq_response (map fst (zip rs (input_sizes rs)))"
    by (simp add: case_prod_beta)
  then show ?thesis by (simp add: publish_results_channels input_sizes_def)
qed

lemma run_native_channels: "map fst (run_native en model_id H t d rs) = map rq_response rs"
  by (auto simp: run_native_def fail_requests_channels publish_all_channels split: sum.split option.split)

lemma execute_batch_channels:
  "mset (map fst (execute_batch en model_id H t d rs)) = mset (map rq_response rs)"
proof -
  obtain refused active where s: "select_active H t rs = (refused, active)" by fastforce
  have "image_mset fst (mset (run_native en model_id H (t + 2 * length rs) d active)) =
      image_mset rq_response (mset active)"
    by (metis mset_map run_native_channels)
  then show ?thesis
    using select_active_channels [OF s] by (auto simp: execute_batch_def s)
qed

interpretation failing: responder "\<lambda>rs. fail_requests H t rs code" for H t code
  by unfold_locales (simp only: fail_requests_channels)

interpretation executing: responder "\<lambda>rs. execute_batch en model_id H t d rs" for en model_id H t d
  by unfold_locales (rule execute_batch_channels)

section \<open>What a valid output is\<close>

text \<open>The output positions before the \<open>i\<close>-th request.\<close>

definition offset_of :: "(request \<times> nat) list \<Rightarrow> nat \<Rightarrow> nat" where
  "offset_of rsz i = sum_list (map snd (take i rsz))"

lemma offset_of_simps [simp]:
  "offset_of rsz 0 = 0" "offset_of ((r, n) # rsz) (Suc i) = n + offset_of rsz i"
  by (simp_all add: offset_of_def)

definition fits :: "embedding_output \<Rightarrow> nat \<Rightarrow> request \<Rightarrow> nat \<Rightarrow> bool" where
  "fits output a r n \<longleftrightarrow>
     rc_identity (rq_contract r) = out_model output \<and>
     a + n \<le> length (out_vectors output) \<and> a + n \<le> length (usage_input_tokens (out_usage output)) \<and>
     sum_list (take n (drop a (usage_input_tokens (out_usage output)))) = cost_tokens (rq_cost r) \<and>
     (\<forall>v \<in> set (take n (drop a (out_vectors output))).
        length v = expected_dimensions r \<and> list_all f32_is_finite v)"

lemma valid_from_step:
  assumes "valid_from output all a ((r, n) # rest)"
  shows "fits output a r n" and "valid_from output all (a + n) rest"
proof -
  from assms obtain vs ts where
    "rc_identity (rq_contract r) = out_model output"
    and add: "checked_add a n = Some (a + n)"
    and vs: "slice a (a + n) (out_vectors output) = Some vs"
    and ts: "slice a (a + n) (usage_input_tokens (out_usage output)) = Some ts"
    and "checked_sum_from 0 ts = Some (cost_tokens (rq_cost r))"
    and "\<not> list_ex (\<lambda>v. length v \<noteq> expected_dimensions r \<or> \<not> list_all f32_is_finite v) vs"
    and rest: "valid_from output all (a + n) rest"
    by (auto simp: checked_add_Some split: if_splits option.splits)
  then show "fits output a r n"
    by (auto simp: fits_def slice_def checked_simps list_ex_iff split: if_splits)
  show "valid_from output all (a + n) rest" by (rule rest)
qed

lemma valid_from_fits:
  assumes "valid_from output all a rsz" and "i < length rsz" and "rsz ! i = (r, n)"
  shows "fits output (a + offset_of rsz i) r n"
  using assms
proof (induction rsz arbitrary: a i)
  case Nil
  then show ?case by simp
next
  case (Cons x rsz)
  obtain r0 n0 where x: "x = (r0, n0)" by fastforce
  note step = valid_from_step [OF Cons.prems(1) [unfolded x]]
  show ?case
  proof (cases i)
    case 0
    with step(1) Cons.prems(3) x show ?thesis by simp
  next
    case (Suc j)
    with Cons.IH [OF step(2), of j] Cons.prems(2,3) x show ?thesis by (simp add: add.assoc)
  qed
qed

lemma publish_results_nth:
  assumes "i < length rsz" and "rsz ! i = (r, n)"
  shows "publish_results H t rsz vs ts m ! i =
    (rq_response r, publish_one H (t + 2 * i) r (take n (drop (offset_of rsz i) vs))
       (take n (drop (offset_of rsz i) ts)) m)"
  using assms
proof (induction rsz arbitrary: t i vs ts)
  case Nil
  then show ?case by simp
next
  case (Cons x rsz)
  obtain r0 n0 where x: "x = (r0, n0)" by fastforce
  show ?case
  proof (cases i)
    case 0
    with Cons.prems x show ?thesis by simp
  next
    case (Suc j)
    with Cons.IH [of j "t + 2" "drop n0 vs" "drop n0 ts"] Cons.prems x show ?thesis
      by (simp add: add.commute)
  qed
qed

lemma publish_results_length [simp]: "length (publish_results H t rsz vs ts m) = length rsz"
  by (induction H t rsz vs ts m rule: publish_results.induct) simp_all

lemma publish_one_Ok:
  "publish_one H t r vs ts m = Inr out \<Longrightarrow>
     mo_accepting (H t) \<and> active_at H (Suc t) r = Inr () \<and> out_vectors out = vs \<and> out_model out = m \<and>
     wf_usage (out_usage out) \<and> usage_input_tokens (out_usage out) = ts \<and>
     usage_total_tokens (out_usage out) = sum_list ts"
  by (auto simp: publish_one_def result_simps usage_new_Ok wf_usage_def split: if_splits)

lemma fail_requests_never_Ok: "(ch, Inr out) \<notin> set (fail_requests H t rs code)"
  by (induction rs arbitrary: t) auto

lemma select_active_refuses: "(ch, Inr out) \<notin> set (fst (select_active H t rs))"
  by (induction rs arbitrary: t) (auto simp: case_prod_beta Let_def split: sum.splits)

lemma select_active_subset: "set (snd (select_active H t rs)) \<subseteq> set rs"
  by (induction rs arbitrary: t) (auto simp: case_prod_beta Let_def split: sum.splits)

text \<open>Where an \<^verbatim>\<open>Ok\<close> response of a batch comes from.\<close>

lemma execute_batch_Ok:
  assumes "(ch, Inr out) \<in> set (execute_batch en model_id H t d rs)"
  obtains active produced i r where
    "active = snd (select_active H t rs)" "i < length active" "r = active ! i" "ch = rq_response r"
    "en_embed en model_id (batch_inputs active) (control_composite (map rq_control active))
       (rq_options (hd active)) = Some (Inr produced)"
    "valid_engine_output produced active (input_sizes active)"
    "publish_one H (t + 2 * length rs + d + 2 * i) r
       (take (length (rq_inputs r)) (drop (offset_of (zip active (input_sizes active)) i) (out_vectors produced)))
       (take (length (rq_inputs r))
         (drop (offset_of (zip active (input_sizes active)) i) (usage_input_tokens (out_usage produced))))
       (out_model produced) = Inr out"
proof -
  define active where "active = snd (select_active H t rs)"
  have "(ch, Inr out) \<in> set (run_native en model_id H (t + 2 * length rs) d active)"
    using assms select_active_refuses [of ch out H t rs]
    by (auto simp: execute_batch_def active_def case_prod_beta Let_def split: if_splits)
  then obtain produced where
    e: "en_embed en model_id (batch_inputs active) (control_composite (map rq_control active))
       (rq_options (hd active)) = Some (Inr produced)"
    and v: "valid_engine_output produced active (input_sizes active)"
    and mem: "(ch, Inr out) \<in> set (publish_results H (t + 2 * length rs + d)
       (zip active (input_sizes active)) (out_vectors produced) (usage_input_tokens (out_usage produced))
       (out_model produced))"
    by (auto simp: run_native_def fail_requests_never_Ok batch_new_def requested_model_new_def
        split: sum.splits option.splits if_splits)
  from mem obtain i where i: "i < length active"
    and nth: "publish_results H (t + 2 * length rs + d)
       (zip active (input_sizes active)) (out_vectors produced) (usage_input_tokens (out_usage produced))
       (out_model produced) ! i = (ch, Inr out)"
    by (auto simp: in_set_conv_nth input_sizes_def)
  have z: "zip active (input_sizes active) ! i = (active ! i, length (rq_inputs (active ! i)))"
    using i by (simp add: input_sizes_def)
  from publish_results_nth [OF _ z] i nth
  have "ch = rq_response (active ! i)"
    "publish_one H (t + 2 * length rs + d + 2 * i) (active ! i)
       (take (length (rq_inputs (active ! i))) (drop (offset_of (zip active (input_sizes active)) i) (out_vectors produced)))
       (take (length (rq_inputs (active ! i)))
         (drop (offset_of (zip active (input_sizes active)) i) (usage_input_tokens (out_usage produced))))
       (out_model produced) = Inr out"
    by (simp_all add: input_sizes_def)
  with e v i that [OF active_def i refl] show thesis by blast
qed

lemma execute_batch_Ok_publish:
  assumes "(ch, Inr out) \<in> set (execute_batch en model_id H t d rs)"
  obtains i r vs ts m where "r \<in> set rs" "ch = rq_response r"
    "publish_one H (t + 2 * length rs + d + 2 * i) r vs ts m = Inr out"
proof (rule execute_batch_Ok [OF assms], goal_cases)
  case (1 active produced i r)
  have "active ! i \<in> set (snd (select_active H t rs))" unfolding 1(2) [symmetric] by (rule nth_mem) (rule 1(3))
  then have "r \<in> set rs" unfolding 1(4) by (rule subsetD [OF select_active_subset])
  from this 1(5,8) show thesis by (rule 1(1))
qed

text \<open>A request's slice of the native batch is its own texts.\<close>

lemma batch_inputs_slice:
  assumes "i < length rs"
  shows "take (length (rq_inputs (rs ! i))) (drop (offset_of (zip rs (input_sizes rs)) i) (batch_inputs rs))
    = rq_inputs (rs ! i)"
  using assms
proof (induction rs arbitrary: i)
  case Nil
  then show ?case by simp
next
  case (Cons r rs)
  then show ?case by (cases i) (simp_all add: input_sizes_def batch_inputs_def)
qed

lemma valid_output_fits:
  assumes "valid_engine_output output rs (input_sizes rs)" and "i < length rs"
  shows "fits output (offset_of (zip rs (input_sizes rs)) i) (rs ! i) (length (rq_inputs (rs ! i)))"
proof -
  from assms(1) obtain all where "valid_from output all 0 (zip rs (input_sizes rs))"
    by (auto simp: valid_engine_output_def split: option.splits if_splits)
  from valid_from_fits [OF this, of i] assms(2) show ?thesis
    by (simp add: input_sizes_def)
qed

section \<open>Monotone histories\<close>

text \<open>Cancellation flags stay set, the clock does not go back, a model that stopped accepting stays so.\<close>

definition monotone_history :: "history \<Rightarrow> bool" where
  "monotone_history H \<longleftrightarrow> (\<forall>s t. s \<le> t \<longrightarrow>
     world_progress (mo_world (H s)) (mo_world (H t)) \<and> (mo_accepting (H t) \<longrightarrow> mo_accepting (H s)))"

lemma active_earlier:
  assumes "monotone_history H" and "s \<le> t" and "active_at H t r = Inr ()"
  shows "active_at H s r = Inr ()"
proof -
  have "world_progress (mo_world (H s)) (mo_world (H t))"
    using assms(1,2) by (simp add: monotone_history_def)
  then show ?thesis using gate.active_before assms(3) by (auto simp: active_at_def)
qed

section \<open>Input validation\<close>

lemma validate_raw_from_Ok:
  "tot \<le> max_request \<Longrightarrow> max_request < word_limit \<Longrightarrow>
   validate_raw_from tot inputs max_input max_request = Inr () \<longleftrightarrow>
     (\<forall>s \<in> set inputs. str_len s \<le> max_input) \<and> tot + sum_list (map str_len inputs) \<le> max_request"
proof (induction inputs arbitrary: tot)
  case Nil
  then show ?case by simp
next
  case (Cons s inputs)
  then show ?case
    by (cases "tot + str_len s \<le> max_request") (auto simp: result_simps checked_simps add.assoc)
qed

lemma preflight_scan_Ok:
  "preflight_scan tk m inputs = Inr (tk', m') \<Longrightarrow>
     tk' = tk + sum_list (map (\<lambda>s. str_len s + 2) inputs) \<and>
     m' = fold (\<lambda>s. max (str_len s + 2)) inputs m"
proof (induction inputs arbitrary: tk m)
  case Nil
  then show ?case by simp
next
  case (Cons s inputs)
  then have "preflight_scan (tk + (str_len s + 2)) (max m (str_len s + 2)) inputs = Inr (tk', m')"
    by (auto simp: result_simps checked_simps Let_def)
  from Cons.IH [OF this] show ?case by (simp add: max.commute add.assoc)
qed

section \<open>Properties\<close>

definition demo_engine :: engine where
  "demo_engine = \<lparr>en_contract = (\<lambda>_. Some (Ok \<lparr>rc_identity = demo_identity, rc_native_dimensions = 1\<rparr>)),
     en_preflight = (\<lambda>_ batch _. Some (Ok \<lparr>cost_items = length batch, cost_tokens = 3 * length batch,
        cost_max_sequence_length = 3\<rparr>)),
     en_embed = (\<lambda>_ batch _ _. Some (Ok \<lparr>out_vectors = map (\<lambda>_. [0]) batch, out_model = demo_identity,
        out_usage = \<lparr>usage_input_tokens = map (\<lambda>_. 3) batch, usage_total_tokens = 3 * length batch\<rparr>\<rparr>))\<rparr>"

definition demo_output :: embedding_output where
  "demo_output = \<lparr>out_vectors = [[0]], out_model = demo_identity,
     out_usage = \<lparr>usage_input_tokens = [3], usage_total_tokens = 3\<rparr>\<rparr>"

lemma demo_identity_complete: "identity_is_complete demo_identity"
  by (simp add: identity_is_complete_def demo_identity_def lit_def trim_def is_whitespace_def)

lemma demo_valid:
  "valid_engine_output \<lparr>out_vectors = [[0], [0]], out_model = demo_identity,
     out_usage = \<lparr>usage_input_tokens = [3, 3], usage_total_tokens = 6\<rparr>\<rparr>
     [demo_request 4, demo_request 9] (input_sizes [demo_request 4, demo_request 9])"
  by (simp add: valid_engine_output_def input_sizes_def checked_add_def word_limit_def
      demo_identity_complete slice_def)
    (simp add: demo_request_def slice_def checked_add_def word_limit_def expected_dimensions_def
      default_options_def f32_is_finite_def)

lemma demo_accepting: "mo_accepting demo_moment"
  by (simp add: demo_moment_def)

lemma demo_usage: "usage_new [3] = Inr \<lparr>usage_input_tokens = [3], usage_total_tokens = 3\<rparr>"
  by (simp add: usage_new_def checked_add_def word_limit_def)

lemma demo_execute:
  "execute_batch demo_engine (lit ''m'') (\<lambda>_. demo_moment) 0 5 [demo_request 4, demo_request 9]
     = [(4, Inr demo_output), (9, Inr demo_output)]"
proof -
  have m: "requested_model_new (lit ''m'') = Inr (lit ''m'')"
    by (simp add: requested_model_new_def trim_def is_whitespace_def lit_def)
  have b: "batch_new (batch_inputs [demo_request 4, demo_request 9]) = Inr [lit ''text'', lit ''text'']"
    by (simp add: batch_new_def batch_inputs_def demo_request_def)
  have e: "en_embed demo_engine mo [lit ''text'', lit ''text''] c opts = Some (Inr
      \<lparr>out_vectors = [[0], [0]], out_model = demo_identity,
       out_usage = \<lparr>usage_input_tokens = [3, 3], usage_total_tokens = 6\<rparr>\<rparr>)" for mo c opts
    by (simp add: demo_engine_def)
  have f: "length (rq_inputs (demo_request n)) = 1" "rq_response (demo_request n) = n" for n
    by (simp_all add: demo_request_def)
  show ?thesis
    by (simp add: execute_batch_def demo_active demo_accepting run_native_def m b e demo_valid)
      (simp add: input_sizes_def f publish_one_def demo_accepting demo_active demo_usage demo_output_def)
qed



text \<open>
  C4. A published result is the caller's own: it comes from a native call whose batch held the
  caller's texts at the same positions as the published vectors, names the model identity captured at
  admission, has one finite vector of the requested width per text, and counts exactly the tokens the
  preflight measured.
\<close>

theorem published_result_is_own_slice:
  assumes "(ch, Inr out) \<in> set (execute_batch en model_id H t d rs)"
  shows "\<exists>batch native a control opts r. r \<in> set rs \<and> rq_response r = ch \<and>
    en_embed en model_id batch control opts = Some (Inr native) \<and>
    take (length (rq_inputs r)) (drop a batch) = rq_inputs r \<and>
    out_vectors out = take (length (rq_inputs r)) (drop a (out_vectors native)) \<and>
    length (out_vectors out) = length (rq_inputs r) \<and>
    (\<forall>v \<in> set (out_vectors out). length v = expected_dimensions r \<and> list_all f32_is_finite v) \<and>
    out_model out = rc_identity (rq_contract r) \<and>
    usage_total_tokens (out_usage out) = cost_tokens (rq_cost r) \<and> wf_usage (out_usage out)"
proof -
  from assms obtain active native i r where
    active: "active = snd (select_active H t rs)" and i: "i < length active" and r: "r = active ! i"
    and ch: "ch = rq_response r"
    and e: "en_embed en model_id (batch_inputs active) (control_composite (map rq_control active))
       (rq_options (hd active)) = Some (Inr native)"
    and v: "valid_engine_output native active (input_sizes active)"
    and p: "publish_one H (t + 2 * length rs + d + 2 * i) r
       (take (length (rq_inputs r)) (drop (offset_of (zip active (input_sizes active)) i) (out_vectors native)))
       (take (length (rq_inputs r))
         (drop (offset_of (zip active (input_sizes active)) i) (usage_input_tokens (out_usage native))))
       (out_model native) = Inr out"
    by (rule execute_batch_Ok)
  have f: "fits native (offset_of (zip active (input_sizes active)) i) r (length (rq_inputs r))"
    using valid_output_fits [OF v i] r by simp
  have "r \<in> set rs" using select_active_subset [of H t rs] i r active by (metis nth_mem subsetD)
  moreover have "take (length (rq_inputs r))
      (drop (offset_of (zip active (input_sizes active)) i) (batch_inputs active)) = rq_inputs r"
    using batch_inputs_slice [OF i] r by simp
  moreover have "length (out_vectors out) = length (rq_inputs r)"
    using publish_one_Ok [OF p] f by (auto simp: fits_def min_def)
  ultimately show ?thesis
    using ch e publish_one_Ok [OF p] f unfolding fits_def
    by (intro exI conjI; (assumption | simp))
qed

theorem published_result_is_own_slice_witness:
  "\<exists>batch native a control opts r. r \<in> set [demo_request 4, demo_request 9] \<and> rq_response r = 9 \<and>
    en_embed demo_engine (lit ''m'') batch control opts = Some (Inr native) \<and>
    take (length (rq_inputs r)) (drop a batch) = rq_inputs r \<and>
    out_vectors demo_output = take (length (rq_inputs r)) (drop a (out_vectors native)) \<and>
    length (out_vectors demo_output) = length (rq_inputs r) \<and>
    (\<forall>v \<in> set (out_vectors demo_output). length v = expected_dimensions r \<and> list_all f32_is_finite v) \<and>
    out_model demo_output = rc_identity (rq_contract r) \<and>
    usage_total_tokens (out_usage demo_output) = cost_tokens (rq_cost r) \<and> wf_usage (out_usage demo_output)"
  by (rule published_result_is_own_slice [where H = "\<lambda>_. demo_moment" and t = 0 and d = 5])
    (simp add: demo_execute)

text \<open>
  No late publication: a result is published only for a request whose control was still active,
  and for a model that still accepted work, when the native call returned; a request cancelled, past
  its deadline or unloaded by then gets an error instead.
\<close>

theorem published_only_while_active:
  assumes "monotone_history H" and "(ch, Inr out) \<in> set (execute_batch en model_id H t d rs)"
  shows "\<exists>r \<in> set rs. rq_response r = ch \<and>
    active_at H (t + 2 * length rs + d) r = Inr () \<and> mo_accepting (H (t + 2 * length rs + d))"
proof -
  from assms(2) obtain i r vs ts m where r: "r \<in> set rs" "ch = rq_response r"
    and p: "publish_one H (t + 2 * length rs + d + 2 * i) r vs ts m = Inr out"
    by (rule execute_batch_Ok_publish)
  have "active_at H (t + 2 * length rs + d) r = Inr ()"
    using active_earlier [OF assms(1), of "t + 2 * length rs + d" "Suc (t + 2 * length rs + d + 2 * i)" r]
      publish_one_Ok [OF p] by simp
  moreover have "mo_accepting (H (t + 2 * length rs + d))"
    using assms(1) publish_one_Ok [OF p] unfolding monotone_history_def
    by (metis le_add1)
  ultimately show ?thesis using r by blast
qed

lemma demo_monotone: "monotone_history (\<lambda>_. demo_moment)"
  by (simp add: monotone_history_def gate.progress_refl)

theorem published_only_while_active_witness:
  "\<exists>r \<in> set [demo_request 4, demo_request 9]. rq_response r = 9 \<and>
    active_at (\<lambda>_. demo_moment) (0 + 2 * length [demo_request 4, demo_request 9] + 5) r = Inr () \<and>
    mo_accepting ((\<lambda>_. demo_moment) (0 + 2 * length [demo_request 4, demo_request 9] + 5))"
  by (rule published_only_while_active [OF demo_monotone, where en = demo_engine and model_id = "lit ''m''"
        and out = demo_output]) (simp add: demo_execute)

text \<open>
  A caller's wait ends with a success only when the response arrived with one, the control was
  active both before the wait and when the response was read, and no forced stop had been signalled;
  every failure it makes up itself is one of unavailable, cancelled and deadline exceeded.
\<close>

theorem await_controlled_outcomes:
  "(await_controlled c turns = Some (Inr v) \<longrightarrow>
     (\<exists>tn \<in> set turns. tn_branch tn = Response_Event (Some (Inr v)) \<and> \<not> tn_force tn \<and>
        check_control (tn_world tn) c = Inr () \<and> check_control (at_world tn) c = Inr ())) \<and>
   (await_controlled c turns = Some (Inl e) \<longrightarrow>
     failure_code e \<in> {ModelUnavailable, Cancelled, DeadlineExceeded} \<or>
     (\<exists>tn \<in> set turns. tn_branch tn = Response_Event (Some (Inl e))))"
proof (induction c turns rule: await_controlled.induct)
  case (1 c)
  then show ?case by simp
next
  case (2 c tn turns)
  show ?case
  proof (cases "tn_force tn")
    case True
    then show ?thesis by auto
  next
    case f: False
    show ?thesis
    proof (cases "check_control (tn_world tn) c")
      case (Inl x)
      with f gate.refused_code [OF Inl] show ?thesis by auto
    next
      case (Inr u)
      then show ?thesis
        using f "2.IH" gate.refused_code [of "at_world tn" c]
        by (auto simp: ended_by_def result_simps split: branch.split sum.split option.split)
    qed
  qed
qed

theorem await_controlled_outcomes_witness:
  "\<exists>tn \<in> set [\<lparr>tn_force = False, tn_world = mo_world demo_moment,
       tn_branch = Response_Event (Some (Inr (5 :: nat))), at_force = False, at_world = mo_world demo_moment\<rparr>].
     tn_branch tn = Response_Event (Some (Inr 5)) \<and> \<not> tn_force tn \<and>
     check_control (tn_world tn) (rq_control (demo_request 0)) = Inr () \<and>
     check_control (at_world tn) (rq_control (demo_request 0)) = Inr ()"
proof -
  let ?turns = "[\<lparr>tn_force = False, tn_world = mo_world demo_moment,
       tn_branch = Response_Event (Some (Inr (5 :: nat))), at_force = False, at_world = mo_world demo_moment\<rparr>]"
  have "check_control (mo_world demo_moment) (rq_control (demo_request 0)) = Inr ()"
    using demo_active [of 0 0] by (simp add: active_at_def)
  then have "await_controlled (rq_control (demo_request 0)) ?turns = Some (Inr 5)" by simp
  with await_controlled_outcomes [of "rq_control (demo_request 0)" ?turns 5] show ?thesis by blast
qed

text \<open>
  What passes preflight fits the scheduler: under a validated policy a request that passed the
  admission checks and the preflight job has complete identity of the requested model, one cost item
  per text, and alone respects the batch limits, which is what the scheduler assumes of the requests
  it combines.
\<close>

theorem preflight_admits_within_policy:
  assumes "policy_validate p = Inr p" and "length (pp_inputs plan) \<le> pol_max_items p"
    and "pp_max_batch_tokens plan = pol_max_batch_tokens p"
    and "preflight_job en plan before after = Inr s"
    and "rq_inputs r = ps_inputs s" and "rq_cost r = ps_cost s"
  shows "within_policy p [r] \<and> cost_items (rq_cost r) = length (rq_inputs r) \<and>
    cost_tokens (rq_cost r) \<le> pp_max_tokens plan \<and>
    canonical_id (rc_identity (ps_contract s)) = pp_model plan \<and>
    identity_is_complete (rc_identity (ps_contract s)) \<and> 0 < rc_native_dimensions (ps_contract s)"
proof -
  have "pol_max_items p \<le> pol_max_batch_items p"
    using assms(1) by (auto simp: policy_validate_def not_less split: if_splits)
  with assms(2-) show ?thesis
    by (auto simp: preflight_job_def within_policy_def result_simps padded_tokens_Ok
        validate_runtime_contract_def not_less mult.commute split: if_splits)
qed

definition demo_plan :: preflight_plan where
  "demo_plan = \<lparr>pp_sequence = 4, pp_inputs = [lit ''text''], pp_options = default_options,
     pp_control = control_new (Single 0) None, pp_model = lit ''m'', pp_max_tokens = 32768,
     pp_max_batch_tokens = 32768\<rparr>"

lemma demo_preflight:
  "preflight_job demo_engine demo_plan (mo_world demo_moment) (mo_world demo_moment) =
     Inr \<lparr>ps_sequence = 4, ps_inputs = rq_inputs (demo_request 4), ps_cost = rq_cost (demo_request 4),
          ps_contract = rq_contract (demo_request 4)\<rparr>"
proof -
  have "check_control (mo_world demo_moment) (pp_control demo_plan) = Inr ()"
    using demo_active [of 0 0] by (simp add: active_at_def demo_plan_def demo_request_def)
  then show ?thesis
    by (simp add: preflight_job_def caught_def demo_engine_def validate_runtime_contract_def
        demo_identity_complete)
      (simp add: demo_plan_def batch_new_def demo_identity_def padded_tokens_def checked_mul_def
        word_limit_def demo_request_def)
qed

theorem preflight_admits_within_policy_witness:
  "within_policy policy_default [demo_request 4] \<and>
    cost_items (rq_cost (demo_request 4)) = length (rq_inputs (demo_request 4)) \<and>
    cost_tokens (rq_cost (demo_request 4)) \<le> pp_max_tokens demo_plan \<and>
    canonical_id (rc_identity (rq_contract (demo_request 4))) = pp_model demo_plan \<and>
    identity_is_complete (rc_identity (rq_contract (demo_request 4))) \<and>
    0 < rc_native_dimensions (rq_contract (demo_request 4))"
  using preflight_admits_within_policy [where p = policy_default and r = "demo_request 4",
      OF _ _ _ demo_preflight]
  by (simp add: policy_validate_def policy_default_def demo_plan_def)

text \<open>
  The raw size check accepts exactly the requests whose every text is within the per-text limit
  and whose texts together are within the request limit, in UTF-8 bytes; overflow cannot slip through.
\<close>

theorem validate_raw_inputs_exact:
  assumes "max_request < word_limit"
  shows "validate_raw_inputs inputs max_input max_request = Inr () \<longleftrightarrow>
    (\<forall>s \<in> set inputs. length (as_bytes s) \<le> max_input) \<and>
    length (concat (map as_bytes inputs)) \<le> max_request"
  using validate_raw_from_Ok [of 0 max_request inputs max_input] assms
  by (simp add: validate_raw_inputs_def as_bytes_length length_concat comp_def)

theorem validate_raw_inputs_exact_witness:
  "validate_raw_inputs [lit ''ab'', lit ''c''] 2 3 = Inr () \<longleftrightarrow>
    (\<forall>s \<in> set [lit ''ab'', lit ''c'']. length (as_bytes s) \<le> 2) \<and>
    length (concat (map as_bytes [lit ''ab'', lit ''c''])) \<le> 3"
  by (rule validate_raw_inputs_exact) (simp add: word_limit_def)

end
