(* ===== verification/Runtime.thy ===== *)
theory Runtime
  imports Execution Shutdown Health Metrics
begin

text \<open>
  The application runtime of \<^verbatim>\<open>impossible-server/src/runtime.rs\<close>: model slots with their lease and queue
  counters, registration, loading through a reservation, leases, admission of an embedding request,
  unload, delete, installation control and shutdown. Each definition is one critical section or one
  RAII release; theory Lifecycle interleaves them. Slots are shared objects, so the registry maps a
  name to a position in a list of slots that outlive their registration. Atomic counters wrap at 64
  bits.
\<close>

section \<open>State\<close>

record model_slot =
  sl_key :: nat
  sl_leases :: nat
  sl_accepting :: bool
  sl_cancellation :: token
  sl_queued :: nat

text \<open>\<^verbatim>\<open>InstallCommitGate\<close> of \<^verbatim>\<open>impossible-models/src/install.rs\<close>: one atomic byte with three values.\<close>

datatype commit_gate = Commit_Open | Commit_Cancelled | Commit_Crossed

datatype commit_decision = CancelledBeforeCommit | AlreadyCommitted

record install_control =
  ic_cancelled :: bool
  ic_commit :: commit_gate

record runtime =
  rt_policy :: batch_policy
  rt_slots :: "model_slot list"
  rt_models :: "(rstr, nat) registry lock"
  rt_loading :: "(rstr, nat) registry lock"
  rt_installs :: "(nat, install_control) registry lock"
  rt_health :: health
  rt_shutdown :: coordinator
  rt_heap :: heap
  rt_next_key :: nat
  rt_next_request :: nat
  rt_draining :: bool
  rt_admin :: "unit lock"
  rt_schedulers :: "(nat, unit) registry lock"
  rt_retired :: "nat list lock"
  rt_force_stop :: bool
  rt_metrics :: metrics
  rt_active :: nat
  rt_admitted :: nat
  rt_queued :: nat
  rt_flight :: "nat option option lock"

definition runtime_new :: "batch_policy \<Rightarrow> lifecycle_error + runtime" where
  "runtime_new policy =
     and_then (policy_validate policy) (\<lambda>p.
     Ok \<lparr>rt_policy = p, rt_slots = [], rt_models = Held_By_Nobody [], rt_loading = Held_By_Nobody [],
         rt_installs = Held_By_Nobody [],
         rt_health = fst (health_transition LC_Ready None health_default),
         rt_shutdown = coordinator_default, rt_heap = \<lparr>cells = [], woken = []\<rparr>,
         rt_next_key = 1, rt_next_request = 0, rt_draining = False, rt_admin = Held_By_Nobody (),
         rt_schedulers = Held_By_Nobody [], rt_retired = Held_By_Nobody [], rt_force_stop = False,
         rt_metrics = metrics_default, rt_active = 0, rt_admitted = 0, rt_queued = 0,
         rt_flight = Held_By_Nobody None\<rparr>)"

text \<open>\<^verbatim>\<open>fetch_add(1)\<close> and \<^verbatim>\<open>fetch_sub(1)\<close>.\<close>

definition fetch_inc :: "nat \<Rightarrow> nat" where
  "fetch_inc n = (n + 1) mod word_limit"

definition fetch_dec :: "nat \<Rightarrow> nat" where
  "fetch_dec n = (n + (word_limit - 1)) mod word_limit"

abbreviation locked :: "'a lock \<Rightarrow> bool" where
  "locked l \<equiv> lock_read l = None"

definition upd_slot :: "nat \<Rightarrow> (model_slot \<Rightarrow> model_slot) \<Rightarrow> runtime \<Rightarrow> runtime" where
  "upd_slot i f rt =
     (if i < length (rt_slots rt) then rt\<lparr>rt_slots := (rt_slots rt)[i := f (rt_slots rt ! i)]\<rparr> else rt)"

section \<open>Work permits, leases and queue permits\<close>

definition admit_work_locked :: "runtime \<Rightarrow> runtime \<times> bool" where
  "admit_work_locked rt =
     (case admit (rt_shutdown rt) of
        (c, False) \<Rightarrow> (rt\<lparr>rt_shutdown := c\<rparr>, False)
      | (c, True) \<Rightarrow> (rt\<lparr>rt_shutdown := c, rt_admitted := fetch_inc (rt_admitted rt)\<rparr>, True))"

definition admit_work :: "runtime \<Rightarrow> runtime \<times> bool" where
  "admit_work rt =
     (if locked (rt_admin rt) then (rt, False)
      else if rt_draining rt then (rt, False)
      else admit_work_locked rt)"

definition drop_work_permit :: "runtime \<Rightarrow> runtime" where
  "drop_work_permit rt =
     rt\<lparr>rt_admitted := fetch_dec (rt_admitted rt), rt_shutdown := drop_permit (rt_shutdown rt)\<rparr>"

definition lease :: "rstr \<Rightarrow> runtime \<Rightarrow> runtime \<times> (lifecycle_error + nat)" where
  "lease model_id rt =
     (case lock_read (rt_models rt) of None \<Rightarrow> (rt, Err LE_NotFound)
      | Some models \<Rightarrow>
     (case reg_get models model_id of None \<Rightarrow> (rt, Err LE_NotFound)
      | Some i \<Rightarrow>
          if \<not> sl_accepting (rt_slots rt ! i) then (rt, Err LE_NotFound)
          else (upd_slot i (\<lambda>s. s\<lparr>sl_leases := fetch_inc (sl_leases s)\<rparr>) rt, Ok i)))"

definition clone_lease :: "nat \<Rightarrow> runtime \<Rightarrow> runtime" where
  "clone_lease i = upd_slot i (\<lambda>s. s\<lparr>sl_leases := fetch_inc (sl_leases s)\<rparr>)"

definition drop_lease :: "nat \<Rightarrow> runtime \<Rightarrow> runtime" where
  "drop_lease i = upd_slot i (\<lambda>s. s\<lparr>sl_leases := fetch_dec (sl_leases s)\<rparr>)"

definition gauge_increment :: "runtime \<Rightarrow> runtime" where
  "gauge_increment rt =
     rt\<lparr>rt_queued := fetch_inc (rt_queued rt), rt_metrics := increment_queue_depth (rt_metrics rt)\<rparr>"

definition gauge_drop :: "runtime \<Rightarrow> runtime" where
  "gauge_drop rt =
     rt\<lparr>rt_queued := fetch_dec (rt_queued rt), rt_metrics := decrement_queue_depth (rt_metrics rt)\<rparr>"

definition queue_acquire :: "nat \<Rightarrow> runtime \<Rightarrow> runtime \<times> bool" where
  "queue_acquire i rt =
     (if sl_queued (rt_slots rt ! i) < pol_queue_depth (rt_policy rt)
      then (gauge_increment (upd_slot i (\<lambda>s. s\<lparr>sl_queued := sl_queued s + 1\<rparr>) rt), True)
      else (rt, False))"

definition queue_drop :: "nat \<Rightarrow> runtime \<Rightarrow> runtime" where
  "queue_drop i rt = gauge_drop (upd_slot i (\<lambda>s. s\<lparr>sl_queued := fetch_dec (sl_queued s)\<rparr>) rt)"

section \<open>Registration\<close>

text \<open>A fresh slot with its own cancellation token, accepting, and no lease.\<close>

definition new_slot :: "nat \<Rightarrow> runtime \<Rightarrow> runtime \<times> nat" where
  "new_slot key rt =
     (let (h, t) = token_default (rt_heap rt) in
      (rt\<lparr>rt_heap := h, rt_slots := rt_slots rt @
           [\<lparr>sl_key = key, sl_leases = 0, sl_accepting = True, sl_cancellation = t, sl_queued = 0\<rparr>]\<rparr>,
       length (rt_slots rt)))"

text \<open>
  The publication block shared by both registrations: scheduler, registry entry, ready health.
\<close>

definition publish_slot :: "rstr \<Rightarrow> nat \<Rightarrow> runtime \<Rightarrow> runtime" where
  "publish_slot model_id key rt =
     (let (rt1, i) = new_slot key rt in
      rt1\<lparr>rt_schedulers := lock_update (reg_insert key ()) (rt_schedulers rt1),
          rt_models := lock_update (reg_insert model_id i) (rt_models rt1),
          rt_health := set_model key MS_Ready (rt_health rt1)\<rparr>)"

text \<open>
  \<open>executor\<close>: a Tokio runtime is current; \<open>task_alive\<close>: the spawned scheduler has not finished. The
  second read of \<^verbatim>\<open>draining\<close> is under the same admin lock as the first, which every writer takes.
\<close>

definition register_engine ::
  "bool \<Rightarrow> bool \<Rightarrow> rstr \<Rightarrow> runtime \<Rightarrow> runtime \<times> (lifecycle_error + unit)" where
  "register_engine executor task_alive model_id rt =
     (if trim model_id = [] then (rt, Err LoadFailed)
      else if \<not> executor then (rt, Err LoadFailed)
      else if locked (rt_admin rt) then (rt, Err LoadFailed)
      else if rt_draining rt then (rt, Err ShuttingDown)
      else (case lock_read (rt_models rt) of None \<Rightarrow> (rt, Err LoadFailed)
        | Some models \<Rightarrow>
      (case lock_read (rt_loading rt) of None \<Rightarrow> (rt, Err LoadFailed)
        | Some loading \<Rightarrow>
      if reg_contains models model_id \<or> reg_contains loading model_id then (rt, Err AlreadyLoaded)
      else let key = rt_next_key rt; rt1 = rt\<lparr>rt_next_key := fetch_inc key\<rparr> in
      if \<not> task_alive then (rt1, Err LoadFailed)
      else if locked (rt_schedulers rt) then (rt1, Err LoadFailed)
      else (publish_slot model_id key rt1, Ok ()))))"

text \<open>\<^verbatim>\<open>LoadReservation::drop\<close> while armed.\<close>

definition reservation_drop :: "rstr \<Rightarrow> nat \<Rightarrow> runtime \<Rightarrow> runtime" where
  "reservation_drop model_id key rt =
     (if locked (rt_admin rt) then rt
      else rt\<lparr>rt_loading := lock_update (\<lambda>loading.
                 if reg_get loading model_id = Some key then reg_remove model_id loading else loading)
               (rt_loading rt),
              rt_health := fst (remove_model key (rt_health rt))\<rparr>)"

text \<open>
  The first half of \<^verbatim>\<open>load_with\<close>: admission and the reservation; on an early return the armed
  reservation and the permit are released, in that order.
\<close>

definition load_reserve ::
  "bool \<Rightarrow> rstr \<Rightarrow> runtime \<Rightarrow> runtime \<times> (lifecycle_error + nat)" where
  "load_reserve executor model_id rt =
     (if \<not> executor then (rt, Err LoadFailed)
      else (case admit_work rt of
        (rt1, False) \<Rightarrow> (rt1, Err ShuttingDown)
      | (rt1, True) \<Rightarrow>
          let key = rt_next_key rt1; rt2 = rt1\<lparr>rt_next_key := fetch_inc key\<rparr>;
              abandon = (\<lambda>e. (drop_work_permit (reservation_drop model_id key rt2), Err e)) in
          if locked (rt_admin rt2) then abandon LoadFailed
          else if rt_draining rt2 then abandon ShuttingDown
          else (case lock_read (rt_models rt2) of None \<Rightarrow> abandon LoadFailed
            | Some models \<Rightarrow>
          (case lock_read (rt_loading rt2) of None \<Rightarrow> abandon LoadFailed
            | Some loading \<Rightarrow>
          if reg_contains models model_id \<or> reg_contains loading model_id then abandon AlreadyLoaded
          else (rt2\<lparr>rt_loading := Held_By_Nobody (reg_insert model_id key loading),
                    rt_health := set_model key MS_Loading (rt_health rt2)\<rparr>, Ok key)))))"

text \<open>\<^verbatim>\<open>register_reserved_engine\<close>: publication of a loaded engine by the owner of its reservation.\<close>

definition register_reserved ::
  "bool \<Rightarrow> bool \<Rightarrow> rstr \<Rightarrow> nat \<Rightarrow> runtime \<Rightarrow> runtime \<times> (lifecycle_error + unit)" where
  "register_reserved started task_alive model_id key rt =
     (if \<not> started \<or> \<not> task_alive then (rt, Err LoadFailed)
      else if locked (rt_admin rt) then (rt, Err LoadFailed)
      else if rt_draining rt then (rt, Err ShuttingDown)
      else (case lock_read (rt_models rt) of None \<Rightarrow> (rt, Err LoadFailed)
        | Some models \<Rightarrow>
      if reg_contains models model_id then (rt, Err AlreadyLoaded)
      else (case lock_read (rt_loading rt) of None \<Rightarrow> (rt, Err LoadFailed)
        | Some loading \<Rightarrow>
      if reg_get loading model_id \<noteq> Some key then (rt, Err LoadFailed)
      else if locked (rt_schedulers rt) then (rt, Err LoadFailed)
      else let rt1 = publish_slot model_id key rt in
        (rt1\<lparr>rt_loading := Held_By_Nobody (reg_remove model_id loading)\<rparr>, Ok ()))))"

section \<open>Unload and delete\<close>

definition unload :: "rstr \<Rightarrow> runtime \<Rightarrow> runtime \<times> (lifecycle_error + unit)" where
  "unload model_id rt =
     (if locked (rt_admin rt) then (rt, Err LE_NotFound)
      else if rt_draining rt then (rt, Err ShuttingDown)
      else (case lock_read (rt_models rt) of None \<Rightarrow> (rt, Err LE_NotFound)
        | Some models \<Rightarrow>
      (case reg_get models model_id of None \<Rightarrow> (rt, Err LE_NotFound)
        | Some i \<Rightarrow>
      if sl_leases (rt_slots rt ! i) \<noteq> 0 then (rt, Err InUse)
      else let rt1 = upd_slot i (\<lambda>s. s\<lparr>sl_accepting := False\<rparr>) rt;
               key = sl_key (rt_slots rt ! i);
               rt2 = rt1\<lparr>rt_models := Held_By_Nobody (reg_remove model_id models)\<rparr>;
               rt3 = (case lock_read (rt_schedulers rt2) of
                   Some schedulers \<Rightarrow>
                     if reg_contains schedulers key
                     then rt2\<lparr>rt_schedulers := Held_By_Nobody (reg_remove key schedulers),
                              rt_retired := lock_update (\<lambda>retired. retired @ [key]) (rt_retired rt2)\<rparr>
                     else rt2
                 | None \<Rightarrow> rt2)
           in (rt3\<lparr>rt_health := fst (remove_model key (rt_health rt3))\<rparr>, Ok ()))))"

text \<open>\<^verbatim>\<open>delete\<close>, up to the call of the model store, whose answer is \<open>store_answer\<close>.\<close>

definition delete_model ::
  "rstr \<Rightarrow> rstr \<Rightarrow> unit + bool \<Rightarrow> runtime \<Rightarrow> lifecycle_error + bool" where
  "delete_model model_id manifest_id store_answer rt =
     (if model_id \<noteq> manifest_id then Err DeleteFailed
      else if locked (rt_admin rt) then Err DeleteFailed
      else if rt_draining rt then Err ShuttingDown
      else (case lock_read (rt_models rt) of None \<Rightarrow> Err DeleteFailed
        | Some models \<Rightarrow>
      if reg_contains models model_id then Err InUse
      else (case lock_read (rt_loading rt) of None \<Rightarrow> Err DeleteFailed
        | Some loading \<Rightarrow>
      if reg_contains loading model_id then Err InUse
      else map_err (\<lambda>_. DeleteFailed) store_answer)))"

section \<open>Installation control\<close>

definition request_cancel :: "commit_gate \<Rightarrow> commit_gate \<times> commit_decision" where
  "request_cancel g =
     (case g of Commit_Open \<Rightarrow> (Commit_Cancelled, CancelledBeforeCommit)
      | Commit_Cancelled \<Rightarrow> (Commit_Cancelled, CancelledBeforeCommit)
      | Commit_Crossed \<Rightarrow> (Commit_Crossed, AlreadyCommitted))"

definition begin_commit :: "commit_gate \<Rightarrow> commit_gate \<times> bool" where
  "begin_commit g = (case g of Commit_Open \<Rightarrow> (Commit_Crossed, True) | _ \<Rightarrow> (g, False))"

definition cancel_before_commit :: "install_control \<Rightarrow> install_control \<times> commit_decision" where
  "cancel_before_commit c =
     (case request_cancel (ic_commit c) of (g, decision) \<Rightarrow>
        (c\<lparr>ic_commit := g,
           ic_cancelled := (if decision = CancelledBeforeCommit then True else ic_cancelled c)\<rparr>,
         decision))"

definition begin_install :: "runtime \<Rightarrow> runtime \<times> (lifecycle_error + nat)" where
  "begin_install rt =
     (if locked (rt_admin rt) then (rt, Err InstallFailed)
      else if rt_draining rt then (rt, Err ShuttingDown)
      else (case admit_work_locked rt of
        (rt1, False) \<Rightarrow> (rt1, Err ShuttingDown)
      | (rt1, True) \<Rightarrow>
          let operation = rt_next_key rt1; rt2 = rt1\<lparr>rt_next_key := fetch_inc operation\<rparr> in
          (case lock_read (rt_installs rt2) of
             None \<Rightarrow> (drop_work_permit rt2, Err InstallFailed)
           | Some installs \<Rightarrow>
               (rt2\<lparr>rt_installs := Held_By_Nobody
                  (reg_insert operation \<lparr>ic_cancelled = False, ic_commit = Commit_Open\<rparr> installs)\<rparr>,
                Ok operation))))"

definition registration_drop :: "nat \<Rightarrow> runtime \<Rightarrow> runtime" where
  "registration_drop operation rt =
     rt\<lparr>rt_installs := lock_update (reg_remove operation) (rt_installs rt)\<rparr>"

text \<open>
  \<^verbatim>\<open>receive_install_result\<close>: a result that is ready wins over a forced stop; a forced stop waits for the
  result when the commit was crossed. \<open>None\<close> for a result is a dropped sender.
\<close>

definition receive_install_result ::
  "(lifecycle_error + 'a) option option \<Rightarrow> install_control \<Rightarrow> (lifecycle_error + 'a) option \<Rightarrow>
   install_control \<times> (lifecycle_error + 'a)" where
  "receive_install_result ready control final =
     (case ready of
        Some r \<Rightarrow> (control, case r of None \<Rightarrow> Err InstallFailed | Some x \<Rightarrow> x)
      | None \<Rightarrow>
          (case cancel_before_commit control of
             (c, CancelledBeforeCommit) \<Rightarrow> (c, Err ShuttingDown)
           | (c, AlreadyCommitted) \<Rightarrow> (c, case final of None \<Rightarrow> Err InstallFailed | Some x \<Rightarrow> x)))"

section \<open>Admission of an embedding request\<close>

record embed_ticket =
  tk_slot :: nat
  tk_lease :: nat
  tk_plan :: preflight_plan

definition effective_deadline :: "nat option \<Rightarrow> nat \<Rightarrow> nat" where
  "effective_deadline deadline server_deadline =
     (case deadline of None \<Rightarrow> server_deadline | Some caller \<Rightarrow> min caller server_deadline)"

text \<open>
  \<^verbatim>\<open>embed_inner\<close> up to the preflight: every early return releases what was acquired. \<open>slot\<close> is the slot
  looked up first, \<open>leased\<close> the one the lease finally counts on.
\<close>

definition embed_admit ::
  "nat \<Rightarrow> rstr \<Rightarrow> rstr list \<Rightarrow> embed_options \<Rightarrow> token \<Rightarrow> nat option \<Rightarrow> runtime \<Rightarrow>
   runtime \<times> (engine_failure + embed_ticket)" where
  "embed_admit now model_id inputs options cancellation deadline rt =
     (case admit_work rt of
        (rt1, False) \<Rightarrow> (rt1, Err (failure ModelUnavailable))
      | (rt1, True) \<Rightarrow>
          let p = rt_policy rt; server_deadline = now + pol_request_timeout p * 1000000;
              leave = (\<lambda>e. (drop_work_permit rt1, Err e)) in
          if inputs = [] \<or> pol_max_items p < length inputs then leave (failure InvalidRequest)
          else (case validate_raw_inputs inputs (pol_max_input_bytes p) (pol_max_request_bytes p) of
            Inl e \<Rightarrow> leave e
          | Inr _ \<Rightarrow>
          (case lock_read (rt_models rt1) of None \<Rightarrow> leave (failure Internal)
            | Some models \<Rightarrow>
          (case reg_get models model_id of None \<Rightarrow> leave (failure ModelUnavailable)
            | Some slot \<Rightarrow>
          if \<not> sl_accepting (rt_slots rt1 ! slot) then leave (failure ModelUnavailable)
          else (case lease model_id rt1 of
            (rt2, Inl _) \<Rightarrow> (drop_work_permit rt2, Err (failure ModelUnavailable))
          | (rt2, Inr leased) \<Rightarrow>
          let (h1, abandonment) = token_default (rt_heap rt2);
              (h2, combined) = token_any now h1
                [cancellation, abandonment, sl_cancellation (rt_slots rt2 ! slot)];
              control = control_new combined (Some (effective_deadline deadline server_deadline));
              rt3 = rt2\<lparr>rt_heap := h2\<rparr> in
          (case ensure_active h2 now control of
            Inl e \<Rightarrow> (drop_work_permit (drop_lease leased rt3), Err e)
          | Inr _ \<Rightarrow>
          (case queue_acquire slot rt3 of
            (rt4, False) \<Rightarrow> (drop_work_permit (drop_lease leased rt4), Err (failure QueueFull))
          | (rt4, True) \<Rightarrow>
          let sequence = rt_next_request rt4; rt5 = rt4\<lparr>rt_next_request := fetch_inc sequence\<rparr> in
          (case requested_model_new model_id of
            Inl e \<Rightarrow> (drop_work_permit (drop_lease leased (queue_drop slot rt5)), Err e)
          | Inr model \<Rightarrow>
              (rt5, Ok \<lparr>tk_slot = slot, tk_lease = leased,
                 tk_plan = \<lparr>pp_sequence = sequence, pp_inputs = inputs, pp_options = options,
                   pp_control = control, pp_model = model, pp_max_tokens = pol_max_tokens p,
                   pp_max_batch_tokens = pol_max_batch_tokens p\<rparr>\<rparr>)))))))))"

text \<open>The outcome class \<^verbatim>\<open>embed\<close> records.\<close>

definition embed_outcome :: "engine_failure + 'a \<Rightarrow> outcome" where
  "embed_outcome result =
     (case result of Inr _ \<Rightarrow> OC_Ok
      | Inl e \<Rightarrow> (case failure_code e of
            InvalidRequest \<Rightarrow> OC_Invalid
          | QueueFull \<Rightarrow> OC_Overloaded
          | Cancelled \<Rightarrow> OC_Cancelled
          | DeadlineExceeded \<Rightarrow> OC_Cancelled
          | _ \<Rightarrow> OC_Failed))"

section \<open>Shutdown\<close>

definition tighten :: "nat option \<Rightarrow> nat option \<Rightarrow> nat option" where
  "tighten current requested =
     (case (current, requested) of
        (None, Some r) \<Rightarrow> Some r
      | (Some c, Some r) \<Rightarrow> Some (min c r)
      | (c, None) \<Rightarrow> c)"

text \<open>
  The locked part of \<^verbatim>\<open>shutdown\<close>: \<open>None\<close> means the caller waits for the flight, with whether the runtime
  was already drained when this call started the flight; \<open>Some False\<close> is an immediate answer.
\<close>

definition shutdown_request ::
  "bool \<Rightarrow> nat option \<Rightarrow> runtime \<Rightarrow> runtime \<times> bool option \<times> bool" where
  "shutdown_request executor requested rt =
     (if \<not> executor then (rt, Some False, False)
      else if locked (rt_admin rt) then (rt, Some False, False)
      else (case lock_read (rt_flight rt) of None \<Rightarrow> (rt, Some False, False)
        | Some (Some current) \<Rightarrow>
            (rt\<lparr>rt_flight := Held_By_Nobody (Some (tighten current requested))\<rparr>, None, False)
        | Some None \<Rightarrow>
            let rt1 = rt\<lparr>rt_draining := True,
                  rt_health := fst (health_transition LC_Draining (Some RR_Draining) (rt_health rt)),
                  rt_shutdown := begin_shutdown (rt_shutdown rt)\<rparr> in
            (rt1\<lparr>rt_flight := Held_By_Nobody (Some requested)\<rparr>, None, rt_admitted rt1 = 0)))"

definition stop_slot :: "nat \<Rightarrow> nat \<Rightarrow> runtime \<Rightarrow> runtime" where
  "stop_slot now i rt =
     (let rt1 = upd_slot i (\<lambda>s. s\<lparr>sl_accepting := False\<rparr>) rt in
      rt1\<lparr>rt_heap := token_cancel now (rt_heap rt1) (sl_cancellation (rt_slots rt1 ! i))\<rparr>)"

definition cancel_installs :: "runtime \<Rightarrow> runtime" where
  "cancel_installs rt =
     rt\<lparr>rt_installs := lock_update (map (\<lambda>(k, c). (k, fst (cancel_before_commit c)))) (rt_installs rt)\<rparr>"

text \<open>\<^verbatim>\<open>finish_shutdown\<close> after the drain wait returned \<open>was_drained\<close>.\<close>

definition finish_shutdown :: "nat \<Rightarrow> bool \<Rightarrow> runtime \<Rightarrow> runtime" where
  "finish_shutdown now was_drained rt =
     (let rt1 = (if was_drained then rt else (cancel_installs rt)\<lparr>rt_force_stop := True\<rparr>);
          rt2 = (case lock_read (rt_models rt1) of None \<Rightarrow> rt1
                 | Some models \<Rightarrow> fold (\<lambda>(_, i). stop_slot now i) models rt1);
          rt3 = rt2\<lparr>rt_shutdown := force_stop (rt_shutdown rt2),
                    rt_schedulers := lock_update (\<lambda>_. []) (rt_schedulers rt2),
                    rt_retired := lock_update (\<lambda>_. []) (rt_retired rt2)\<rparr>;
          rt4 = (if locked (rt_admin rt3) then rt3
                 else rt3\<lparr>rt_models := lock_update (\<lambda>_. []) (rt_models rt3),
                          rt_loading := lock_update (\<lambda>_. []) (rt_loading rt3)\<rparr>)
      in rt4\<lparr>rt_health :=
           fst (health_transition LC_Stopped (Some RR_Stopped) (clear_models (rt_health rt4)))\<rparr>)"

text \<open>
  \<^verbatim>\<open>wait_for_drain\<close>: each turn reads the deadline, the clock and the admitted count, then one of the
  events of its select. An empty list is a wait that has not returned yet.
\<close>

datatype drain_event = Deadline_Changed bool | Drain_Timer | Drain_Notified

fun wait_for_drain :: "(nat option \<times> nat \<times> nat \<times> drain_event) list \<Rightarrow> bool option" where
  "wait_for_drain [] = None"
| "wait_for_drain ((deadline, now, admitted, ev) # turns) =
     (if (case deadline of None \<Rightarrow> False | Some at \<Rightarrow> at \<le> now) then Some False
      else if admitted = 0 then Some True
      else (case ev of
          Deadline_Changed sender_gone \<Rightarrow> if sender_gone then Some False else wait_for_drain turns
        | Drain_Timer \<Rightarrow> if deadline = None then wait_for_drain turns else Some False
        | Drain_Notified \<Rightarrow> wait_for_drain turns))"

end
