(* ===== verification/Lifecycle.thy ===== *)
theory Lifecycle
  imports Runtime
begin

text \<open>
  The operations of theory Runtime interleaved: a step relation over the runtime and the capabilities
  its callers hold (work permits, leases, queue permits, load reservations), the invariants that tie
  the atomic counters to these capabilities, and what unload, shutdown and admission guarantee.
\<close>

section \<open>Counters\<close>

text \<open>What the capabilities are counted in: per slot the leases and queue permits, and two totals.\<close>

definition meter :: "runtime \<Rightarrow> (nat \<times> nat) list \<times> nat \<times> nat" where
  "meter rt = (map (\<lambda>s. (sl_leases s, sl_queued s)) (rt_slots rt), rt_queued rt, rt_admitted rt)"

lemma fetch_inc_mod: "fetch_inc (n mod word_limit) = Suc n mod word_limit"
  by (simp add: fetch_inc_def mod_Suc_eq)

lemma fetch_dec_mod: "0 < n \<Longrightarrow> fetch_dec (n mod word_limit) = (n - 1) mod word_limit"
proof -
  assume "0 < n"
  then obtain k where n: "n = Suc k" by (cases n) auto
  have "fetch_dec (n mod word_limit) = (n + (word_limit - 1)) mod word_limit"
    by (simp add: fetch_dec_def mod_add_left_eq)
  also have "n + (word_limit - 1) = k + word_limit" using n by (simp add: word_limit_def)
  finally show ?thesis using n by simp
qed

lemma fetch_dec_inc: "n < word_limit \<Longrightarrow> fetch_dec (fetch_inc n) = n"
  using fetch_dec_mod [of "Suc n"] by (simp add: fetch_inc_def)

lemma upd_slot_simps [simp]:
  "rt_models (upd_slot i f rt) = rt_models rt" "rt_loading (upd_slot i f rt) = rt_loading rt"
  "rt_draining (upd_slot i f rt) = rt_draining rt" "rt_policy (upd_slot i f rt) = rt_policy rt"
  "rt_queued (upd_slot i f rt) = rt_queued rt" "rt_admitted (upd_slot i f rt) = rt_admitted rt"
  "length (rt_slots (upd_slot i f rt)) = length (rt_slots rt)" "rt_heap (upd_slot i f rt) = rt_heap rt"
  "rt_admin (upd_slot i f rt) = rt_admin rt" "rt_health (upd_slot i f rt) = rt_health rt"
  "rt_shutdown (upd_slot i f rt) = rt_shutdown rt" "rt_schedulers (upd_slot i f rt) = rt_schedulers rt"
  by (simp_all add: upd_slot_def)

lemma upd_slot_slots: "rt_slots (upd_slot i f rt) = (rt_slots rt)[i := f (rt_slots rt ! i)]"
  by (simp add: upd_slot_def list_update_beyond not_less)

lemma meter_upd_slot:
  "(\<And>s. sl_leases (f s) = sl_leases s \<and> sl_queued (f s) = sl_queued s) \<Longrightarrow> meter (upd_slot i f rt) = meter rt"
  by (cases "i < length (rt_slots rt)")
    (simp_all add: meter_def upd_slot_slots map_update list_update_beyond not_less,
      metis (mono_tags, lifting) list_update_id nth_map)

lemma meter_publish_slot:
  "meter (publish_slot m k rt) =
     (fst (meter rt) @ [(0, 0)], snd (meter rt))"
  by (simp add: publish_slot_def new_slot_def token_default_def meter_def)

lemma meter_stop_slot [simp]: "meter (stop_slot now i rt) = meter rt"
proof -
  have "meter (stop_slot now i rt) = meter (upd_slot i (\<lambda>s. s\<lparr>sl_accepting := False\<rparr>) rt)"
    by (simp add: stop_slot_def meter_def Let_def)
  then show ?thesis by (simp add: meter_upd_slot)
qed

lemma meter_stop_slots: "meter (fold (\<lambda>(_, i). stop_slot now i) ms rt) = meter rt"
  by (induction ms arbitrary: rt) auto

lemma meter_finish_shutdown: "meter (finish_shutdown now d rt) = meter rt"
proof -
  have [simp]: "meter (cancel_installs rt) = meter rt" by (simp add: meter_def cancel_installs_def)
  have [simp]: "meter (rt'\<lparr>rt_force_stop := b\<rparr>) = meter rt'" for rt' b by (simp add: meter_def)
  define rt1 where "rt1 = (if d then rt else (cancel_installs rt)\<lparr>rt_force_stop := True\<rparr>)"
  define rt2 where "rt2 = (case lock_read (rt_models rt1) of None \<Rightarrow> rt1
      | Some models \<Rightarrow> fold (\<lambda>(_, i). stop_slot now i) models rt1)"
  have "meter rt2 = meter rt"
    by (simp add: rt2_def rt1_def meter_stop_slots split: option.split)
  moreover have "meter (finish_shutdown now d rt) = meter rt2"
    by (simp add: finish_shutdown_def rt1_def [symmetric] rt2_def [symmetric] Let_def meter_def)
  ultimately show ?thesis by simp
qed

lemma meter_unload: "unload m rt = (rt', r) \<Longrightarrow> meter rt' = meter rt"
proof -
  have [simp]: "meter (upd_slot i (\<lambda>s. s\<lparr>sl_accepting := False\<rparr>) rt) = meter rt" for i
    by (simp add: meter_upd_slot)
  have a: "meter (rt0\<lparr>rt_health := h\<rparr>) = meter rt0" "meter (rt0\<lparr>rt_models := ms\<rparr>) = meter rt0"
    "meter (rt0\<lparr>rt_models := ms, rt_schedulers := sc, rt_retired := rr\<rparr>) = meter rt0" for rt0 h ms sc rr
    by (simp_all add: meter_def)
  show "unload m rt = (rt', r) \<Longrightarrow> meter rt' = meter rt"
    unfolding unload_def Let_def
    by (auto simp only: a prod.inject split: if_split_asm option.split_asm) (simp_all add: a)
qed

lemma meter_register:
  assumes "register_engine e a m rt = (rt', r)"
  shows "meter rt' = meter rt \<or> meter rt' = (fst (meter rt) @ [(0, 0)], snd (meter rt))"
proof -
  have k: "meter (rt\<lparr>rt_next_key := n\<rparr>) = meter rt" for n by (simp add: meter_def)
  show ?thesis
    using assms unfolding register_engine_def Let_def
    by (auto simp: k meter_publish_slot split: if_split_asm option.split_asm)
qed

lemma meter_register_reserved:
  assumes "register_reserved s a m key rt = (rt', r)"
  shows "meter rt' = (if r = Inr () then (fst (meter rt) @ [(0, 0)], snd (meter rt)) else meter rt)"
proof -
  have l: "meter (rt0\<lparr>rt_loading := x\<rparr>) = meter rt0" for rt0 x by (simp add: meter_def)
  show ?thesis
    using assms unfolding register_reserved_def Let_def
    by (auto simp: l meter_publish_slot split: if_split_asm option.split_asm)
qed

lemma meter_shutdown_request: "shutdown_request e q rt = (rt', x) \<Longrightarrow> meter rt' = meter rt"
  by (auto simp: shutdown_request_def Let_def meter_def split: if_split_asm option.split_asm)

lemma meter_reservation_drop [simp]: "meter (reservation_drop m k rt) = meter rt"
  by (simp add: reservation_drop_def meter_def)

lemma meter_registration_drop [simp]: "meter (registration_drop k rt) = meter rt"
  by (simp add: registration_drop_def meter_def)

lemma meter_drop_work: "meter (drop_work_permit rt) =
    (fst (meter rt), fst (snd (meter rt)), fetch_dec (snd (snd (meter rt))))"
  by (simp add: meter_def drop_work_permit_def)

lemma meter_admit:
  "admit_work_locked rt = (rt', ok) \<Longrightarrow> meter rt' = (fst (meter rt), fst (snd (meter rt)),
     if ok then fetch_inc (snd (snd (meter rt))) else snd (snd (meter rt)))"
  by (auto simp: admit_work_locked_def meter_def split: prod.split_asm bool.split_asm)

lemma meter_admit_work:
  "admit_work rt = (rt', ok) \<Longrightarrow> meter rt' = (fst (meter rt), fst (snd (meter rt)),
     if ok then fetch_inc (snd (snd (meter rt))) else snd (snd (meter rt)))"
  by (auto simp: admit_work_def meter_admit split: if_split_asm)

lemma meter_load_reserve:
  assumes "load_reserve e m rt = (rt', r)" and "rt_admitted rt < word_limit"
  shows "meter rt' = (fst (meter rt), fst (snd (meter rt)),
     if is_ok r then fetch_inc (snd (snd (meter rt))) else snd (snd (meter rt)))"
proof -
  obtain rt1 ok where a: "admit_work rt = (rt1, ok)" by fastforce
  have n: "meter (rt0\<lparr>rt_next_key := k\<rparr>) = meter rt0"
    "meter (rt0\<lparr>rt_loading := x, rt_health := h\<rparr>) = meter rt0" for rt0 k x h by (simp_all add: meter_def)
  have "fetch_dec (fetch_inc (snd (snd (meter rt)))) = snd (snd (meter rt))"
    using assms(2) by (simp add: fetch_dec_inc meter_def)
  then show ?thesis
    using assms(1) meter_admit_work [OF a] unfolding load_reserve_def a Let_def
    by (auto simp: n meter_drop_work split: if_split_asm option.split_asm bool.split_asm)
qed

lemma meter_begin_install:
  assumes "begin_install rt = (rt', r)" and "rt_admitted rt < word_limit"
  shows "meter rt' = (fst (meter rt), fst (snd (meter rt)),
     if is_ok r then fetch_inc (snd (snd (meter rt))) else snd (snd (meter rt)))"
proof -
  obtain rt1 ok where a: "admit_work_locked rt = (rt1, ok)" by fastforce
  have n: "meter (rt0\<lparr>rt_next_key := k\<rparr>) = meter rt0"
    "meter (rt0\<lparr>rt_next_key := k, rt_installs := x\<rparr>) = meter rt0" for rt0 k x by (simp_all add: meter_def)
  have "fetch_dec (fetch_inc (snd (snd (meter rt)))) = snd (snd (meter rt))"
    using assms(2) by (simp add: fetch_dec_inc meter_def)
  then show ?thesis
    using assms(1) meter_admit [OF a] unfolding begin_install_def a Let_def
    by (auto simp: n meter_drop_work split: if_split_asm option.split_asm bool.split_asm)
qed

lemma meter_lease:
  "lease m rt = (rt', r) \<Longrightarrow>
     (case r of Inl _ \<Rightarrow> rt' = rt | Inr i \<Rightarrow> rt' = clone_lease i rt)"
  by (auto simp: lease_def clone_lease_def split: option.split_asm if_split_asm)

section \<open>Steps\<close>

text \<open>The runtime and the live capabilities; a load in progress owns its reservation and a work permit.\<close>

record life =
  lf_rt :: runtime
  lf_work :: nat
  lf_leases :: "nat list"
  lf_queue :: "nat list"
  lf_loads :: "(rstr \<times> nat) list"

definition life_init :: "runtime \<Rightarrow> life" where
  "life_init rt = \<lparr>lf_rt = rt, lf_work = 0, lf_leases = [], lf_queue = [], lf_loads = []\<rparr>"

inductive life_step :: "life \<Rightarrow> life \<Rightarrow> bool" where
  do_admit: "admit_work (lf_rt g) = (rt, ok) \<Longrightarrow>
     life_step g (g\<lparr>lf_rt := rt, lf_work := lf_work g + (if ok then 1 else 0)\<rparr>)"
| do_drop_work: "0 < lf_work g \<Longrightarrow>
     life_step g (g\<lparr>lf_rt := drop_work_permit (lf_rt g), lf_work := lf_work g - 1\<rparr>)"
| do_register: "register_engine e a m (lf_rt g) = (rt, r) \<Longrightarrow> life_step g (g\<lparr>lf_rt := rt\<rparr>)"
| do_reserve: "load_reserve e m (lf_rt g) = (rt, Inr key) \<Longrightarrow>
     life_step g (g\<lparr>lf_rt := rt, lf_work := Suc (lf_work g), lf_loads := (m, key) # lf_loads g\<rparr>)"
| do_reserve_fail: "load_reserve e m (lf_rt g) = (rt, Inl err) \<Longrightarrow> life_step g (g\<lparr>lf_rt := rt\<rparr>)"
| do_publish: "(m, key) \<in> set (lf_loads g) \<Longrightarrow> 0 < lf_work g \<Longrightarrow>
     register_reserved s a m key (lf_rt g) = (rt, Inr ()) \<Longrightarrow>
     life_step g (g\<lparr>lf_rt := drop_work_permit rt, lf_work := lf_work g - 1,
       lf_loads := remove1 (m, key) (lf_loads g)\<rparr>)"
| do_abandon: "(m, key) \<in> set (lf_loads g) \<Longrightarrow> 0 < lf_work g \<Longrightarrow>
     life_step g (g\<lparr>lf_rt := drop_work_permit (reservation_drop m key (lf_rt g)),
       lf_work := lf_work g - 1, lf_loads := remove1 (m, key) (lf_loads g)\<rparr>)"
| do_lease: "lease m (lf_rt g) = (rt, Inr i) \<Longrightarrow>
     life_step g (g\<lparr>lf_rt := rt, lf_leases := i # lf_leases g\<rparr>)"
| do_clone_lease: "i \<in> set (lf_leases g) \<Longrightarrow>
     life_step g (g\<lparr>lf_rt := clone_lease i (lf_rt g), lf_leases := i # lf_leases g\<rparr>)"
| do_drop_lease: "i \<in> set (lf_leases g) \<Longrightarrow>
     life_step g (g\<lparr>lf_rt := drop_lease i (lf_rt g), lf_leases := remove1 i (lf_leases g)\<rparr>)"
| do_queue: "i < length (rt_slots (lf_rt g)) \<Longrightarrow> queue_acquire i (lf_rt g) = (rt, True) \<Longrightarrow>
     life_step g (g\<lparr>lf_rt := rt, lf_queue := i # lf_queue g\<rparr>)"
| do_drop_queue: "i \<in> set (lf_queue g) \<Longrightarrow>
     life_step g (g\<lparr>lf_rt := queue_drop i (lf_rt g), lf_queue := remove1 i (lf_queue g)\<rparr>)"
| do_unload: "unload m (lf_rt g) = (rt, r) \<Longrightarrow> life_step g (g\<lparr>lf_rt := rt\<rparr>)"
| do_install: "begin_install (lf_rt g) = (rt, r) \<Longrightarrow>
     life_step g (g\<lparr>lf_rt := rt, lf_work := lf_work g + (if is_ok r then 1 else 0)\<rparr>)"
| do_install_end: "0 < lf_work g \<Longrightarrow>
     life_step g (g\<lparr>lf_rt := drop_work_permit (registration_drop operation (lf_rt g)),
       lf_work := lf_work g - 1\<rparr>)"
| do_shutdown: "shutdown_request e q (lf_rt g) = (rt, answer) \<Longrightarrow> life_step g (g\<lparr>lf_rt := rt\<rparr>)"
| do_finish: "life_step g (g\<lparr>lf_rt := finish_shutdown now d (lf_rt g)\<rparr>)"

inductive life_reachable :: "batch_policy \<Rightarrow> life \<Rightarrow> bool" for p :: batch_policy where
  life_start: "runtime_new p = Inr rt \<Longrightarrow> life_reachable p (life_init rt)"
| life_next: "life_reachable p g \<Longrightarrow> life_step g g' \<Longrightarrow> life_reachable p g'"

inductive_cases life_stepE: "life_step g g'"

section \<open>The counters count\<close>

definition counts :: "life \<Rightarrow> bool" where
  "counts g \<longleftrightarrow>
     fst (meter (lf_rt g)) = map (\<lambda>i. (count_list (lf_leases g) i mod word_limit,
         count_list (lf_queue g) i mod word_limit)) [0..<length (rt_slots (lf_rt g))] \<and>
     rt_queued (lf_rt g) = length (lf_queue g) mod word_limit \<and>
     rt_admitted (lf_rt g) = lf_work g mod word_limit \<and>
     set (lf_leases g) \<union> set (lf_queue g) \<subseteq> {..<length (rt_slots (lf_rt g))}"

text \<open>The same, slot by slot.\<close>

lemma counts_alt:
  "counts g \<longleftrightarrow>
     (\<forall>i < length (rt_slots (lf_rt g)).
        sl_leases (rt_slots (lf_rt g) ! i) = count_list (lf_leases g) i mod word_limit \<and>
        sl_queued (rt_slots (lf_rt g) ! i) = count_list (lf_queue g) i mod word_limit) \<and>
     rt_queued (lf_rt g) = length (lf_queue g) mod word_limit \<and>
     rt_admitted (lf_rt g) = lf_work g mod word_limit \<and>
     set (lf_leases g) \<union> set (lf_queue g) \<subseteq> {..<length (rt_slots (lf_rt g))}"
proof -
  have map_eq: "map h xs = map f [0..<length xs] \<longleftrightarrow> (\<forall>i < length xs. h (xs ! i) = f i)" for h f and xs :: "model_slot list"
    unfolding list_eq_iff_nth_eq by simp
  show ?thesis
    unfolding counts_def meter_def fst_conv map_eq prod.inject ..
qed

lemma length_meter: "length (fst (meter rt)) = length (rt_slots rt)"
  by (simp add: meter_def)

text \<open>A step that leaves the meter alone, or appends an empty slot, and moves no lease or queue permit.\<close>

lemma counts_meter:
  assumes "counts g" and "lf_leases g' = lf_leases g" and "lf_queue g' = lf_queue g"
    and "meter (lf_rt g') = (fst (meter (lf_rt g)) @ extra, fst (snd (meter (lf_rt g))), lf_work g' mod word_limit)"
    and "extra = [] \<or> extra = [(0, 0)]"
  shows "counts g'"
proof -
  let ?n = "length (rt_slots (lf_rt g))"
  have n: "length (rt_slots (lf_rt g')) = ?n + length extra"
    using assms(4) length_meter [of "lf_rt g'"] by (simp add: length_meter)
  have fresh: "count_list (lf_leases g) ?n = 0" "count_list (lf_queue g) ?n = 0"
    using assms(1) by (auto simp: counts_def count_list_0_iff)
  have "fst (meter (lf_rt g')) = map (\<lambda>i. (count_list (lf_leases g') i mod word_limit,
         count_list (lf_queue g') i mod word_limit)) [0..<length (rt_slots (lf_rt g'))]"
    using assms fresh n by (auto simp: counts_def)
  moreover have "rt_queued (lf_rt g') = rt_queued (lf_rt g)" "rt_admitted (lf_rt g') = lf_work g' mod word_limit"
    using assms(4) by (simp_all add: meter_def)
  ultimately show ?thesis
    using assms(1-3) n by (auto simp: counts_def)
qed

lemma counts_upd_lease:
  assumes "counts g" and "i < length (rt_slots (lf_rt g))"
    and "\<And>n. n = count_list (lf_leases g) i \<Longrightarrow> f (n mod word_limit) = count_list ls i mod word_limit"
    and "\<And>j. j \<noteq> i \<Longrightarrow> count_list ls j = count_list (lf_leases g) j"
    and "set ls \<subseteq> {..<length (rt_slots (lf_rt g))}"
  shows "counts (g\<lparr>lf_rt := upd_slot i (\<lambda>s. s\<lparr>sl_leases := f (sl_leases s)\<rparr>) (lf_rt g), lf_leases := ls\<rparr>)"
  using assms by (auto simp: counts_alt upd_slot_slots nth_list_update)

lemma counts_upd_queue:
  assumes "counts g" and "i < length (rt_slots (lf_rt g))"
    and "\<And>n. n = count_list (lf_queue g) i \<Longrightarrow> f (n mod word_limit) = count_list qs i mod word_limit"
    and "\<And>j. j \<noteq> i \<Longrightarrow> count_list qs j = count_list (lf_queue g) j"
    and "set qs \<subseteq> {..<length (rt_slots (lf_rt g))}" and "q = length qs mod word_limit"
  shows "counts (g\<lparr>lf_rt := (upd_slot i (\<lambda>s. s\<lparr>sl_queued := f (sl_queued s)\<rparr>) (lf_rt g))
    \<lparr>rt_queued := q, rt_metrics := m\<rparr>, lf_queue := qs\<rparr>)"
  using assms by (auto simp: counts_alt upd_slot_slots nth_list_update)

lemma count_list_remove1: "count_list (remove1 x xs) y = count_list xs y - (if x = y then 1 else 0)"
proof (induction xs)
  case (Cons a xs)
  then show ?case by (cases "a = x") (auto simp: count_list_0_iff Suc_diff_le count_notin)
qed simp

text \<open>The work permits, from the meter of an operation that admits or releases one.\<close>

lemma meter_counts: "counts g \<Longrightarrow> snd (snd (meter (lf_rt g))) = lf_work g mod word_limit"
  by (simp add: counts_def meter_def)

lemma counts_admitted: "counts g \<Longrightarrow> rt_admitted (lf_rt g) < word_limit"
  by (simp add: counts_def word_limit_def)

lemma counts_same:
  assumes "counts g" and "meter rt = meter (lf_rt g)"
  shows "counts (g\<lparr>lf_rt := rt\<rparr>)"
  by (rule counts_meter [OF assms(1), where extra = "[]"])
    (use assms meter_counts [OF assms(1)] in \<open>simp_all add: prod_eq_iff\<close>)

lemma counts_work:
  assumes "counts g" and "meter rt = (fst (meter (lf_rt g)) @ extra, fst (snd (meter (lf_rt g))), w mod word_limit)"
    and "extra = [] \<or> extra = [(0, 0)]"
  shows "counts (g\<lparr>lf_rt := rt, lf_work := w\<rparr>)" and "counts (g\<lparr>lf_rt := rt, lf_work := w, lf_loads := ls\<rparr>)"
  by (rule counts_meter [OF assms(1)]; use assms in simp)+

lemma counts_lease_step:
  assumes "counts g"
  shows "i < length (rt_slots (lf_rt g)) \<Longrightarrow>
      counts (g\<lparr>lf_rt := clone_lease i (lf_rt g), lf_leases := i # lf_leases g\<rparr>)"
    and "i \<in> set (lf_leases g) \<Longrightarrow>
      counts (g\<lparr>lf_rt := drop_lease i (lf_rt g), lf_leases := remove1 i (lf_leases g)\<rparr>)"
proof -
  have sub: "set (lf_leases g) \<subseteq> {..<length (rt_slots (lf_rt g))}"
    using assms by (simp add: counts_def)
  show "counts (g\<lparr>lf_rt := clone_lease i (lf_rt g), lf_leases := i # lf_leases g\<rparr>)"
    if "i < length (rt_slots (lf_rt g))"
    unfolding clone_lease_def
    by (rule counts_upd_lease [OF assms that]) (use sub that in \<open>auto simp: fetch_inc_mod\<close>)
  show "counts (g\<lparr>lf_rt := drop_lease i (lf_rt g), lf_leases := remove1 i (lf_leases g)\<rparr>)"
    if i: "i \<in> set (lf_leases g)"
  proof -
    have "0 < count_list (lf_leases g) i" using i by (metis count_list_0_iff gr0I)
    moreover have "i < length (rt_slots (lf_rt g))" using i sub by auto
    ultimately show ?thesis
      unfolding drop_lease_def
      by (intro counts_upd_lease [OF assms])
        (use sub in \<open>auto simp: fetch_dec_mod count_list_remove1 dest: subsetD [OF set_remove1_subset]\<close>)
  qed
qed

lemma counts_queue_step:
  assumes "counts g"
  shows "i < length (rt_slots (lf_rt g)) \<Longrightarrow> queue_acquire i (lf_rt g) = (rt, True) \<Longrightarrow>
      pol_queue_depth (rt_policy (lf_rt g)) < word_limit \<Longrightarrow>
      counts (g\<lparr>lf_rt := rt, lf_queue := i # lf_queue g\<rparr>)"
    and "i \<in> set (lf_queue g) \<Longrightarrow>
      counts (g\<lparr>lf_rt := queue_drop i (lf_rt g), lf_queue := remove1 i (lf_queue g)\<rparr>)"
proof -
  have sub: "set (lf_queue g) \<subseteq> {..<length (rt_slots (lf_rt g))}"
    and q: "rt_queued (lf_rt g) = length (lf_queue g) mod word_limit"
    using assms by (simp_all add: counts_def)
  show "counts (g\<lparr>lf_rt := rt, lf_queue := i # lf_queue g\<rparr>)"
    if i: "i < length (rt_slots (lf_rt g))" and a: "queue_acquire i (lf_rt g) = (rt, True)"
      and d: "pol_queue_depth (rt_policy (lf_rt g)) < word_limit"
  proof -
    have room: "sl_queued (rt_slots (lf_rt g) ! i) < word_limit - 1"
      and rt: "rt = gauge_increment (upd_slot i (\<lambda>s. s\<lparr>sl_queued := sl_queued s + 1\<rparr>) (lf_rt g))"
      using a d by (auto simp: queue_acquire_def split: if_split_asm)
    have "sl_queued (rt_slots (lf_rt g) ! i) = count_list (lf_queue g) i mod word_limit"
      using assms i by (simp add: counts_alt)
    then have inc: "count_list (lf_queue g) i mod word_limit + 1 = Suc (count_list (lf_queue g) i) mod word_limit"
      using room by (simp add: mod_Suc)
    show ?thesis
      unfolding rt gauge_increment_def
      by (rule counts_upd_queue [OF assms i]) (use sub i inc q in \<open>auto simp: fetch_inc_mod\<close>)
  qed
  show "counts (g\<lparr>lf_rt := queue_drop i (lf_rt g), lf_queue := remove1 i (lf_queue g)\<rparr>)"
    if i: "i \<in> set (lf_queue g)"
  proof -
    have "0 < count_list (lf_queue g) i" using i by (metis count_list_0_iff gr0I)
    moreover have "0 < length (lf_queue g)" using i by (cases "lf_queue g") auto
    moreover have "i < length (rt_slots (lf_rt g))" using i sub by auto
    ultimately show ?thesis
      unfolding queue_drop_def gauge_drop_def
      by (intro counts_upd_queue [OF assms])
        (use sub i q in \<open>auto simp: fetch_dec_mod count_list_remove1 length_remove1
            dest: subsetD [OF set_remove1_subset]\<close>)
  qed
qed

section \<open>Names\<close>

text \<open>
  A name is never both registered and loading, and every registered name points to a slot; a poisoned
  lock leaves nothing to say.
\<close>

definition names_ok :: "runtime \<Rightarrow> bool" where
  "names_ok rt \<longleftrightarrow> (\<forall>models loading. rt_models rt = Held_By_Nobody models \<longrightarrow>
     (\<forall>m i. reg_get models m = Some i \<longrightarrow> i < length (rt_slots rt)) \<and>
     (rt_loading rt = Held_By_Nobody loading \<longrightarrow> (\<forall>m. \<not> (reg_contains models m \<and> reg_contains loading m))))"

lemma lock_read_Some: "lock_read l = Some x \<longleftrightarrow> l = Held_By_Nobody x"
  by (cases l) simp_all

lemma names_ok_cong:
  "names_ok rt \<Longrightarrow> rt_models rt' = rt_models rt \<Longrightarrow> rt_loading rt' = rt_loading rt \<Longrightarrow>
   length (rt_slots rt) \<le> length (rt_slots rt') \<Longrightarrow> names_ok rt'"
  unfolding names_ok_def by (metis order_less_le_trans)

lemma publish_slot_simps [simp]:
  "rt_models (publish_slot m k rt) = lock_update (reg_insert m (length (rt_slots rt))) (rt_models rt)"
  "rt_loading (publish_slot m k rt) = rt_loading rt"
  "length (rt_slots (publish_slot m k rt)) = Suc (length (rt_slots rt))"
  "rt_draining (publish_slot m k rt) = rt_draining rt" "rt_policy (publish_slot m k rt) = rt_policy rt"
  by (simp_all add: publish_slot_def new_slot_def token_default_def)

lemma names_publish:
  assumes "names_ok rt" and "rt_models rt = Held_By_Nobody models"
    and "rt_loading rt' = Held_By_Nobody loading'" and "\<not> reg_contains loading' m"
    and "\<And>k. reg_contains loading' k \<Longrightarrow> \<not> reg_contains models k"
    and "rt_models rt' = Held_By_Nobody (reg_insert m (length (rt_slots rt)) models)"
    and "length (rt_slots rt') = Suc (length (rt_slots rt))"
  shows "names_ok rt'"
  using assms unfolding names_ok_def by (auto simp: less_Suc_eq)

lemma names_register:
  assumes "names_ok rt" and "register_engine e a m rt = (rt', r)"
  shows "names_ok rt'"
proof (cases "r = Inr ()")
  case False
  with assms have "rt_models rt' = rt_models rt \<and> rt_loading rt' = rt_loading rt \<and> rt_slots rt' = rt_slots rt"
    by (auto simp: register_engine_def Let_def split: if_split_asm option.split_asm)
  with assms(1) show ?thesis by (metis names_ok_cong order_refl)
next
  case True
  with assms(2) obtain models loading where ml: "rt_models rt = Held_By_Nobody models"
    "rt_loading rt = Held_By_Nobody loading" "\<not> reg_contains models m" "\<not> reg_contains loading m"
    and rt': "rt' = publish_slot m (rt_next_key rt) (rt\<lparr>rt_next_key := fetch_inc (rt_next_key rt)\<rparr>)"
    by (auto simp: register_engine_def Let_def lock_read_Some split: if_split_asm option.split_asm)
  show ?thesis
    by (rule names_publish [OF assms(1) ml(1), where loading' = loading])
      (use assms(1) ml rt' in \<open>auto simp: names_ok_def\<close>)
qed

lemma names_register_reserved:
  assumes "names_ok rt" and "register_reserved s a m key rt = (rt', Inr ())"
  shows "names_ok rt'"
proof -
  from assms(2) obtain models loading where ml: "rt_models rt = Held_By_Nobody models"
    "rt_loading rt = Held_By_Nobody loading"
    and rt': "rt' = (publish_slot m key rt)\<lparr>rt_loading := Held_By_Nobody (reg_remove m loading)\<rparr>"
    by (auto simp: register_reserved_def Let_def lock_read_Some split: if_split_asm option.split_asm)
  show ?thesis
    by (rule names_publish [OF assms(1) ml(1), where loading' = "reg_remove m loading"])
      (use assms(1) ml rt' in \<open>auto simp: names_ok_def\<close>)
qed

lemma names_unload:
  assumes "names_ok rt" and "unload m rt = (rt', r)"
  shows "names_ok rt'"
proof (cases "r = Inr ()")
  case False
  with assms(2) have "rt' = rt"
    by (auto simp: unload_def Let_def split: if_split_asm option.split_asm)
  with assms(1) show ?thesis by simp
next
  case True
  with assms(2) obtain models where m: "rt_models rt = Held_By_Nobody models"
    and "rt_models rt' = Held_By_Nobody (reg_remove m models)" "rt_loading rt' = rt_loading rt"
      "length (rt_slots rt') = length (rt_slots rt)"
    by (auto simp: unload_def Let_def lock_read_Some split: if_split_asm option.split_asm)
  with assms(1) show ?thesis by (auto simp: names_ok_def split: if_split_asm)
qed

lemma admit_work_frame:
  "admit_work rt = (rt', ok) \<Longrightarrow> rt_models rt' = rt_models rt \<and> rt_loading rt' = rt_loading rt \<and>
     rt_slots rt' = rt_slots rt \<and> rt_draining rt' = rt_draining rt \<and> rt_policy rt' = rt_policy rt \<and>
     rt_heap rt' = rt_heap rt"
  by (auto simp: admit_work_def admit_work_locked_def split: if_split_asm prod.split_asm bool.split_asm)

lemma names_reservation_drop: "names_ok rt \<Longrightarrow> names_ok (reservation_drop m k rt)"
  by (cases "rt_loading rt") (auto simp: names_ok_def reservation_drop_def split: if_split_asm)

lemma names_drop_work: "names_ok rt \<Longrightarrow> names_ok (drop_work_permit rt)"
  by (erule names_ok_cong) (simp_all add: drop_work_permit_def)

lemma names_load_reserve:
  assumes "names_ok rt" and "load_reserve e m rt = (rt', r)"
  shows "names_ok rt'"
proof -
  obtain rt1 ok where a: "admit_work rt = (rt1, ok)" by fastforce
  define rt2 where "rt2 = rt1\<lparr>rt_next_key := fetch_inc (rt_next_key rt1)\<rparr>"
  have n: "names_ok rt1" "names_ok rt2"
    using names_ok_cong [OF assms(1), of rt1] names_ok_cong [OF assms(1), of rt2] admit_work_frame [OF a]
    by (simp_all add: rt2_def)
  then have ab: "names_ok (drop_work_permit (reservation_drop m k rt2))" for k
    by (intro names_drop_work names_reservation_drop)
  have ok: "names_ok (rt2\<lparr>rt_loading := Held_By_Nobody (reg_insert m k loading), rt_health := h\<rparr>)"
    if "rt_models rt2 = Held_By_Nobody models" "rt_loading rt2 = Held_By_Nobody loading"
      "\<not> reg_contains models m" for models loading k h
    using n(2) that by (auto simp: names_ok_def)
  show ?thesis
    using assms n(1) ab [unfolded rt2_def] ok [unfolded rt2_def] unfolding load_reserve_def a Let_def
    by (auto simp: lock_read_Some split: if_split_asm option.split_asm bool.split_asm)
qed

lemma stop_slot_frame:
  "rt_models (stop_slot now i rt) = rt_models rt" "rt_loading (stop_slot now i rt) = rt_loading rt"
  "length (rt_slots (stop_slot now i rt)) = length (rt_slots rt)"
  "rt_draining (stop_slot now i rt) = rt_draining rt" "rt_policy (stop_slot now i rt) = rt_policy rt"
  "rt_admin (stop_slot now i rt) = rt_admin rt" "rt_shutdown (stop_slot now i rt) = rt_shutdown rt"
  "rt_health (stop_slot now i rt) = rt_health rt" "rt_force_stop (stop_slot now i rt) = rt_force_stop rt"
  by (simp_all add: stop_slot_def Let_def) (simp_all add: upd_slot_def)

lemma stop_slots_frame:
  "rt_models (fold (\<lambda>(_, i). stop_slot now i) ms rt) = rt_models rt"
  "rt_loading (fold (\<lambda>(_, i). stop_slot now i) ms rt) = rt_loading rt"
  "length (rt_slots (fold (\<lambda>(_, i). stop_slot now i) ms rt)) = length (rt_slots rt)"
  "rt_draining (fold (\<lambda>(_, i). stop_slot now i) ms rt) = rt_draining rt"
  "rt_policy (fold (\<lambda>(_, i). stop_slot now i) ms rt) = rt_policy rt"
  "rt_admin (fold (\<lambda>(_, i). stop_slot now i) ms rt) = rt_admin rt"
  "rt_shutdown (fold (\<lambda>(_, i). stop_slot now i) ms rt) = rt_shutdown rt"
  "rt_health (fold (\<lambda>(_, i). stop_slot now i) ms rt) = rt_health rt"
  "rt_force_stop (fold (\<lambda>(_, i). stop_slot now i) ms rt) = rt_force_stop rt"
  by (induction ms arbitrary: rt) (auto simp: stop_slot_frame)

lemma finish_shutdown_frame:
  "rt_draining (finish_shutdown now d rt) = rt_draining rt"
  "rt_policy (finish_shutdown now d rt) = rt_policy rt"
  "length (rt_slots (finish_shutdown now d rt)) = length (rt_slots rt)"
  by (simp_all add: finish_shutdown_def Let_def stop_slots_frame cancel_installs_def split: option.split)

lemma names_finish_shutdown: "names_ok rt \<Longrightarrow> names_ok (finish_shutdown now d rt)"
proof -
  assume n: "names_ok rt"
  have "rt_models (finish_shutdown now d rt) = rt_models rt \<and> rt_loading (finish_shutdown now d rt) = rt_loading rt \<or>
    rt_models (finish_shutdown now d rt) \<in> {Poisoned, Held_By_Nobody []}"
    by (cases "rt_models rt")
      (auto simp: finish_shutdown_def Let_def stop_slots_frame cancel_installs_def split: option.split)
  then show ?thesis
    using names_ok_cong [OF n, of "finish_shutdown now d rt"] finish_shutdown_frame(3) [of now d rt]
    by (auto simp: names_ok_def)
qed

section \<open>The invariant\<close>

definition life_inv :: "batch_policy \<Rightarrow> life \<Rightarrow> bool" where
  "life_inv p g \<longleftrightarrow> rt_policy (lf_rt g) = p \<and> counts g \<and> names_ok (lf_rt g) \<and>
     (\<forall>i. count_list (lf_queue g) i \<le> pol_queue_depth p)"

lemma policy_frame:
  "register_engine e a m rt = (rt', r) \<Longrightarrow> rt_policy rt' = rt_policy rt"
  "load_reserve e m rt = (rt', k) \<Longrightarrow> rt_policy rt' = rt_policy rt"
  "register_reserved s a m key rt = (rt', r) \<Longrightarrow> rt_policy rt' = rt_policy rt"
  "lease m rt = (rt', j) \<Longrightarrow> rt_policy rt' = rt_policy rt"
  "queue_acquire i rt = (rt', ok) \<Longrightarrow> rt_policy rt' = rt_policy rt"
  "unload m rt = (rt', r) \<Longrightarrow> rt_policy rt' = rt_policy rt"
  "shutdown_request e q rt = (rt', x) \<Longrightarrow> rt_policy rt' = rt_policy rt"
  "begin_install rt = (rt', k) \<Longrightarrow> rt_policy rt' = rt_policy rt"
  subgoal by (auto simp: register_engine_def Let_def split: if_split_asm option.split_asm)
  subgoal by (cases "admit_work rt")
    (auto dest: admit_work_frame simp: load_reserve_def Let_def drop_work_permit_def reservation_drop_def
      split: if_split_asm option.split_asm bool.split_asm)
  subgoal by (auto simp: register_reserved_def Let_def split: if_split_asm option.split_asm)
  subgoal by (auto simp: lease_def split: if_split_asm option.split_asm)
  subgoal by (auto simp: queue_acquire_def gauge_increment_def split: if_split_asm)
  subgoal by (auto simp: unload_def Let_def split: if_split_asm option.split_asm)
  subgoal by (auto simp: shutdown_request_def Let_def split: if_split_asm option.split_asm)
  subgoal by (auto simp: begin_install_def admit_work_locked_def drop_work_permit_def Let_def
      split: if_split_asm option.split_asm prod.split_asm bool.split_asm)
  done

lemma names_frame:
  "names_ok rt \<Longrightarrow> lease m rt = (rt', j) \<Longrightarrow> names_ok rt'"
  "names_ok rt \<Longrightarrow> names_ok (clone_lease i rt)" "names_ok rt \<Longrightarrow> names_ok (drop_lease i rt)"
  "names_ok rt \<Longrightarrow> queue_acquire i rt = (rt', ok) \<Longrightarrow> names_ok rt'" "names_ok rt \<Longrightarrow> names_ok (queue_drop i rt)"
  "names_ok rt \<Longrightarrow> shutdown_request e q rt = (rt', x) \<Longrightarrow> names_ok rt'"
  "names_ok rt \<Longrightarrow> begin_install rt = (rt', k) \<Longrightarrow> names_ok rt'"
  "names_ok rt \<Longrightarrow> names_ok (registration_drop o' rt)"
  "names_ok rt \<Longrightarrow> admit_work rt = (rt', ok) \<Longrightarrow> names_ok rt'"
  subgoal by (erule names_ok_cong) (auto simp: lease_def split: if_split_asm option.split_asm)
  subgoal by (erule names_ok_cong) (simp_all add: clone_lease_def)
  subgoal by (erule names_ok_cong) (simp_all add: drop_lease_def)
  subgoal by (erule names_ok_cong) (auto simp: queue_acquire_def gauge_increment_def split: if_split_asm)
  subgoal by (erule names_ok_cong) (simp_all add: queue_drop_def gauge_drop_def)
  subgoal by (erule names_ok_cong) (auto simp: shutdown_request_def Let_def split: if_split_asm option.split_asm)
  subgoal by (erule names_ok_cong) (auto simp: begin_install_def admit_work_locked_def drop_work_permit_def
      Let_def split: if_split_asm option.split_asm prod.split_asm bool.split_asm)
  subgoal by (erule names_ok_cong) (simp_all add: registration_drop_def)
  subgoal by (erule names_ok_cong) (auto dest: admit_work_frame)
  done

lemma counts_step:
  assumes "life_inv p g" and "pol_queue_depth p < word_limit" and "life_step g g'"
  shows "counts g'"
proof -
  have c: "counts g" and names: "names_ok (lf_rt g)" and pol: "rt_policy (lf_rt g) = p"
    using assms(1) by (simp_all add: life_inv_def)
  note adm = counts_admitted [OF c] and mc = meter_counts [OF c]
  from assms(3) show ?thesis
  proof cases
    case (do_admit rt ok)
    show ?thesis unfolding do_admit(1)
      by (rule counts_work(1) [OF c, where extra = "[]"])
        (use meter_admit_work [OF do_admit(2)] mc in \<open>simp_all add: fetch_inc_mod\<close>)
  next
    case do_drop_work
    show ?thesis unfolding do_drop_work(1)
      by (rule counts_work(1) [OF c, where extra = "[]"])
        (use do_drop_work mc in \<open>simp_all add: meter_drop_work fetch_dec_mod\<close>)
  next
    case (do_register e a m rt r)
    from meter_register [OF do_register(2)] show ?thesis unfolding do_register(1)
    proof
      assume "meter rt = meter (lf_rt g)"
      then show "counts (g\<lparr>lf_rt := rt\<rparr>)" by (rule counts_same [OF c])
    next
      assume m: "meter rt = (fst (meter (lf_rt g)) @ [(0, 0)], snd (meter (lf_rt g)))"
      show "counts (g\<lparr>lf_rt := rt\<rparr>)"
        by (rule counts_meter [OF c, where extra = "[(0, 0)]"]) (use m mc in \<open>simp_all add: prod_eq_iff\<close>)
    qed
  next
    case (do_reserve e m rt key)
    show ?thesis unfolding do_reserve(1)
      by (rule counts_work(2) [OF c, where extra = "[]"])
        (use meter_load_reserve [OF do_reserve(2) adm] mc in \<open>simp_all add: fetch_inc_mod\<close>)
  next
    case (do_reserve_fail e m rt err)
    show ?thesis unfolding do_reserve_fail(1)
      by (rule counts_same [OF c]) (use meter_load_reserve [OF do_reserve_fail(2) adm] in simp)
  next
    case (do_publish m key s a rt)
    show ?thesis unfolding do_publish(1)
      by (rule counts_work(2) [OF c, where extra = "[(0, 0)]"])
        (use do_publish meter_register_reserved [OF do_publish(4)] mc
          in \<open>simp_all add: meter_drop_work fetch_dec_mod\<close>)
  next
    case (do_abandon m key)
    show ?thesis unfolding do_abandon(1)
      by (rule counts_work(2) [OF c, where extra = "[]"])
        (use do_abandon mc in \<open>simp_all add: meter_drop_work fetch_dec_mod\<close>)
  next
    case (do_lease m rt i)
    have "rt = clone_lease i (lf_rt g)" using meter_lease [OF do_lease(2)] by simp
    moreover have "i < length (rt_slots (lf_rt g))"
      using do_lease(2) names by (auto simp: lease_def names_ok_def lock_read_Some split: option.split_asm if_split_asm)
    ultimately show ?thesis unfolding do_lease(1) using counts_lease_step(1) [OF c] by simp
  next
    case (do_clone_lease i)
    then show ?thesis using counts_lease_step(1) [OF c, of i] c by (auto simp: counts_def)
  next
    case (do_drop_lease i)
    then show ?thesis using counts_lease_step(2) [OF c, of i] by simp
  next
    case (do_queue i rt)
    then show ?thesis using counts_queue_step(1) [OF c, of i rt] pol assms(2) by simp
  next
    case (do_drop_queue i)
    then show ?thesis using counts_queue_step(2) [OF c, of i] by simp
  next
    case (do_unload m rt r)
    show ?thesis unfolding do_unload(1) by (rule counts_same [OF c meter_unload [OF do_unload(2)]])
  next
    case (do_install rt r)
    show ?thesis unfolding do_install(1)
      by (rule counts_work(1) [OF c, where extra = "[]"])
        (use meter_begin_install [OF do_install(2) adm] mc in \<open>simp_all add: fetch_inc_mod\<close>)
  next
    case (do_install_end operation)
    show ?thesis unfolding do_install_end(1)
      by (rule counts_work(1) [OF c, where extra = "[]"])
        (use do_install_end mc in \<open>simp_all add: meter_drop_work fetch_dec_mod\<close>)
  next
    case (do_shutdown e q rt answer)
    show ?thesis unfolding do_shutdown(1) by (rule counts_same [OF c meter_shutdown_request [OF do_shutdown(2)]])
  next
    case (do_finish now d)
    show ?thesis unfolding do_finish(1) by (rule counts_same [OF c meter_finish_shutdown])
  qed
qed

lemma names_step: "names_ok (lf_rt g) \<Longrightarrow> life_step g g' \<Longrightarrow> names_ok (lf_rt g')"
  by (erule life_stepE)
    (auto intro: names_frame names_register names_register_reserved names_unload names_load_reserve
      names_drop_work names_reservation_drop names_finish_shutdown)

lemma policy_step: "life_step g g' \<Longrightarrow> rt_policy (lf_rt g') = rt_policy (lf_rt g)"
  by (erule life_stepE)
    (auto dest: policy_frame admit_work_frame simp: finish_shutdown_frame drop_work_permit_def
      reservation_drop_def clone_lease_def drop_lease_def queue_drop_def gauge_drop_def registration_drop_def)

lemma queue_step:
  assumes "life_inv p g" and "pol_queue_depth p < word_limit" and "life_step g g'"
  shows "count_list (lf_queue g') i \<le> pol_queue_depth p"
proof -
  have bound: "count_list (lf_queue g) j \<le> pol_queue_depth p" for j
    using assms(1) by (simp add: life_inv_def)
  have acquire: "Suc (count_list (lf_queue g) j) \<le> pol_queue_depth p"
    if "j < length (rt_slots (lf_rt g))" "queue_acquire j (lf_rt g) = (rt, True)" for j rt
  proof -
    have "sl_queued (rt_slots (lf_rt g) ! j) = count_list (lf_queue g) j mod word_limit"
      using assms(1) that(1) by (simp add: life_inv_def counts_alt)
    then have "sl_queued (rt_slots (lf_rt g) ! j) = count_list (lf_queue g) j"
      using bound [of j] assms(2) by simp
    then show ?thesis
      using that(2) assms(1) by (auto simp: queue_acquire_def life_inv_def split: if_split_asm)
  qed
  from assms(3) show ?thesis
  proof cases
    case (do_queue j rt)
    then show ?thesis using acquire [of j rt] bound [of i] by auto
  next
    case (do_drop_queue j)
    then show ?thesis using bound [of i] by (simp add: count_list_remove1)
  qed (use bound [of i] in simp_all)
qed

lemma life_inv_step:
  "life_inv p g \<Longrightarrow> pol_queue_depth p < word_limit \<Longrightarrow> life_step g g' \<Longrightarrow> life_inv p g'"
  unfolding life_inv_def [of p g']
  by (intro conjI allI) (auto intro: counts_step queue_step names_step simp: policy_step, auto simp: life_inv_def intro: names_step)

lemma life_inv_init: "runtime_new p = Inr rt \<Longrightarrow> life_inv p (life_init rt)"
  by (auto simp: runtime_new_def policy_validate_def life_inv_def life_init_def counts_def meter_def names_ok_def
      split: if_split_asm)

lemma life_reachable_inv: "life_reachable p g \<Longrightarrow> pol_queue_depth p < word_limit \<Longrightarrow> life_inv p g"
  by (induction rule: life_reachable.induct) (blast intro: life_inv_init life_inv_step)+


section \<open>What the counters promise\<close>

text \<open>A run for the witnesses: one model is registered, leased, and has one queued request.\<close>

definition demo_runtime :: runtime where
  "demo_runtime = (case runtime_new policy_default of Inr rt \<Rightarrow> rt | Inl _ \<Rightarrow> undefined)"

definition demo_loaded :: runtime where
  "demo_loaded = fst (register_engine True True [109] demo_runtime)"

definition demo_leased :: life where
  "demo_leased = (life_init demo_loaded)\<lparr>lf_rt := clone_lease 0 demo_loaded, lf_leases := [0]\<rparr>"

definition demo_queued :: life where
  "demo_queued = demo_leased\<lparr>lf_rt := fst (queue_acquire 0 (lf_rt demo_leased)), lf_queue := [0]\<rparr>"

lemma demo_runtime_new: "runtime_new policy_default = Inr demo_runtime"
  by (simp add: demo_runtime_def runtime_new_def policy_validate_def policy_default_def)

lemma demo_runtime_fields [simp]:
  "rt_policy demo_runtime = policy_default" "rt_slots demo_runtime = []"
  "rt_models demo_runtime = Held_By_Nobody []" "rt_loading demo_runtime = Held_By_Nobody []"
  "rt_draining demo_runtime = False" "rt_admin demo_runtime = Held_By_Nobody ()"
  "rt_schedulers demo_runtime = Held_By_Nobody []" "rt_next_key demo_runtime = 1"
  "rt_heap demo_runtime = \<lparr>cells = [], woken = []\<rparr>" "rt_admitted demo_runtime = 0"
  "rt_shutdown demo_runtime = coordinator_default" "rt_flight demo_runtime = Held_By_Nobody None"
  "rt_queued demo_runtime = 0"
  by (simp_all add: demo_runtime_def runtime_new_def policy_validate_def policy_default_def)

lemma demo_register: "register_engine True True [109] demo_runtime = (demo_loaded, Inr ())"
  by (simp add: demo_loaded_def register_engine_def trim_def is_whitespace_def Let_def)

lemma demo_loaded_reachable: "life_reachable policy_default (life_init demo_loaded)"
  using life_next [OF life_start [OF demo_runtime_new] do_register [of True True "[109]" "life_init demo_runtime"]]
    demo_register by (simp add: life_init_def)

lemma demo_loaded_fields [simp]:
  "rt_models demo_loaded = Held_By_Nobody [([109], 0)]"
  "rt_loading demo_loaded = Held_By_Nobody []" "rt_admin demo_loaded = Held_By_Nobody ()"
  "rt_draining demo_loaded = False" "rt_policy demo_loaded = policy_default"
  "rt_schedulers demo_loaded = Held_By_Nobody [(1, ())]"
  "rt_queued demo_loaded = 0" "rt_admitted demo_loaded = 0" "length (rt_slots demo_loaded) = 1"
  "sl_leases (rt_slots demo_loaded ! 0) = 0" "sl_queued (rt_slots demo_loaded ! 0) = 0"
  "sl_accepting (rt_slots demo_loaded ! 0)" "sl_key (rt_slots demo_loaded ! 0) = 1"
  "rt_shutdown demo_loaded = coordinator_default" "rt_flight demo_loaded = Held_By_Nobody None"
  by (simp_all add: demo_loaded_def register_engine_def trim_def is_whitespace_def Let_def publish_slot_def new_slot_def
      token_default_def reg_insert_def)

lemma demo_queued_reachable: "life_reachable policy_default demo_queued"
proof -
  have "life_step (life_init demo_loaded) demo_leased"
    using do_lease [of "[109]" "life_init demo_loaded" "clone_lease 0 demo_loaded" 0]
    by (simp add: demo_leased_def life_init_def lease_def clone_lease_def reg_get_def)
  moreover have "life_step demo_leased demo_queued"
    using do_queue [of 0 demo_leased "fst (queue_acquire 0 (lf_rt demo_leased))"]
    by (simp add: demo_leased_def demo_queued_def queue_acquire_def clone_lease_def upd_slot_def policy_default_def
        life_init_def)
  ultimately show ?thesis by (blast intro: life_next demo_loaded_reachable)
qed

lemma demo_queued_length: "length (rt_slots (lf_rt demo_queued)) = 1"
  by (simp add: demo_queued_def demo_leased_def queue_acquire_def clone_lease_def gauge_increment_def
      del: length_greater_0_conv)

text \<open>
  C5. In every state the runtime can reach, however requests, loads, unloads and shutdown interleave, the
  atomic counters are the number of capabilities callers hold (the lease and work counters modulo 2 to
  the 64), and no slot ever has more queued requests than the configured queue depth.
\<close>

theorem counters_count_capabilities:
  assumes "life_reachable p g" and "pol_queue_depth p < word_limit" and "i < length (rt_slots (lf_rt g))"
  shows "count_list (lf_queue g) i \<le> pol_queue_depth p \<and>
    sl_queued (rt_slots (lf_rt g) ! i) = count_list (lf_queue g) i \<and>
    sl_leases (rt_slots (lf_rt g) ! i) = count_list (lf_leases g) i mod word_limit \<and>
    rt_admitted (lf_rt g) = lf_work g mod word_limit"
proof -
  have inv: "life_inv p g" by (rule life_reachable_inv [OF assms(1,2)])
  then have "count_list (lf_queue g) i \<le> pol_queue_depth p" and "counts g" by (simp_all add: life_inv_def)
  then show ?thesis using assms(2,3) by (simp add: counts_alt)
qed

theorem counters_count_capabilities_witness:
  "count_list (lf_queue demo_queued) 0 \<le> pol_queue_depth policy_default \<and>
    sl_queued (rt_slots (lf_rt demo_queued) ! 0) = count_list (lf_queue demo_queued) 0 \<and>
    sl_leases (rt_slots (lf_rt demo_queued) ! 0) = count_list (lf_leases demo_queued) 0 mod word_limit \<and>
    rt_admitted (lf_rt demo_queued) = lf_work demo_queued mod word_limit"
  by (rule counters_count_capabilities [OF demo_queued_reachable])
    (simp_all add: policy_default_def word_limit_def demo_queued_length)

section \<open>Unload\<close>

text \<open>
  C6. A model is only unloaded when nobody holds a lease on it: a successful unload finds a registered
  slot none of the live leases names, the slot stops accepting, its name is gone, and no later lookup
  leases it under that name.
\<close>

theorem unload_spares_leased_models:
  assumes "life_reachable p g" and "pol_queue_depth p < word_limit" and "length (lf_leases g) < word_limit"
    and "unload m (lf_rt g) = (rt', Inr ())"
  shows "\<exists>models i. rt_models (lf_rt g) = Held_By_Nobody models \<and> reg_get models m = Some i \<and>
    i < length (rt_slots (lf_rt g)) \<and> i \<notin> set (lf_leases g) \<and> \<not> sl_accepting (rt_slots rt' ! i) \<and>
    rt_models rt' = Held_By_Nobody (reg_remove m models) \<and> lease m rt' = (rt', Inl LE_NotFound)"
proof -
  have inv: "life_inv p g" by (rule life_reachable_inv [OF assms(1,2)])
  from assms(4) obtain models i where m: "rt_models (lf_rt g) = Held_By_Nobody models" "reg_get models m = Some i"
    "sl_leases (rt_slots (lf_rt g) ! i) = 0" "rt_models rt' = Held_By_Nobody (reg_remove m models)"
    "rt_slots rt' = rt_slots (upd_slot i (\<lambda>s. s\<lparr>sl_accepting := False\<rparr>) (lf_rt g))"
    by (auto simp: unload_def Let_def lock_read_Some split: if_split_asm option.split_asm)
  have i: "i < length (rt_slots (lf_rt g))"
    using inv m by (simp add: life_inv_def names_ok_def)
  have "count_list (lf_leases g) i mod word_limit = 0"
    using inv i m(3) by (simp add: life_inv_def counts_alt)
  moreover have "count_list (lf_leases g) i < word_limit"
    using assms(3) count_le_length [of "lf_leases g" i] by simp
  ultimately have "i \<notin> set (lf_leases g)" by (simp add: count_list_0_iff)
  moreover have "\<not> sl_accepting (rt_slots rt' ! i)" using m(5) i by (simp add: upd_slot_slots)
  moreover have "lease m rt' = (rt', Inl LE_NotFound)" using m(4) by (simp add: lease_def)
  ultimately show ?thesis using m i by blast
qed

theorem unload_spares_leased_models_witness:
  "\<exists>models i. rt_models demo_loaded = Held_By_Nobody models \<and> reg_get models [109] = Some i \<and>
    i < length (rt_slots demo_loaded) \<and> i \<notin> set [] \<and>
    \<not> sl_accepting (rt_slots (fst (unload [109] demo_loaded)) ! i) \<and>
    rt_models (fst (unload [109] demo_loaded)) = Held_By_Nobody (reg_remove [109] models) \<and>
    lease [109] (fst (unload [109] demo_loaded)) = (fst (unload [109] demo_loaded), Inl LE_NotFound)"
proof -
  have "unload [109] demo_loaded = (fst (unload [109] demo_loaded), Inr ())"
    by (simp add: unload_def Let_def reg_get_def)
  then show ?thesis
    using unload_spares_leased_models [OF demo_loaded_reachable, of "[109]" "fst (unload [109] demo_loaded)"]
    by (simp add: life_init_def policy_default_def word_limit_def)
qed


section \<open>Draining\<close>

lemma draining_admits_nothing: "rt_draining rt \<Longrightarrow> admit_work rt = (rt, False)"
  by (simp add: admit_work_def)

lemma draining_frame:
  "register_engine e a m rt = (rt', r) \<Longrightarrow> rt_draining rt' = rt_draining rt"
  "load_reserve e m rt = (rt', k) \<Longrightarrow> rt_draining rt' = rt_draining rt"
  "register_reserved s a m key rt = (rt', r) \<Longrightarrow> rt_draining rt' = rt_draining rt"
  "lease m rt = (rt', j) \<Longrightarrow> rt_draining rt' = rt_draining rt"
  "queue_acquire i rt = (rt', ok) \<Longrightarrow> rt_draining rt' = rt_draining rt"
  "unload m rt = (rt', r) \<Longrightarrow> rt_draining rt' = rt_draining rt"
  "begin_install rt = (rt', k) \<Longrightarrow> rt_draining rt' = rt_draining rt"
  "shutdown_request e q rt = (rt', x) \<Longrightarrow> rt_draining rt \<Longrightarrow> rt_draining rt'"
  subgoal by (auto simp: register_engine_def Let_def split: if_split_asm option.split_asm)
  subgoal by (cases "admit_work rt")
    (auto dest: admit_work_frame simp: load_reserve_def Let_def drop_work_permit_def reservation_drop_def
      split: if_split_asm option.split_asm bool.split_asm)
  subgoal by (auto simp: register_reserved_def Let_def split: if_split_asm option.split_asm)
  subgoal by (auto simp: lease_def split: if_split_asm option.split_asm)
  subgoal by (auto simp: queue_acquire_def gauge_increment_def split: if_split_asm)
  subgoal by (auto simp: unload_def Let_def split: if_split_asm option.split_asm)
  subgoal by (auto simp: begin_install_def admit_work_locked_def drop_work_permit_def Let_def
      split: if_split_asm option.split_asm prod.split_asm bool.split_asm)
  subgoal by (auto simp: shutdown_request_def Let_def split: if_split_asm option.split_asm)
  done

lemma draining_step: "life_step g g' \<Longrightarrow> rt_draining (lf_rt g) \<Longrightarrow> rt_draining (lf_rt g')"
  by (erule life_stepE)
    (auto dest: draining_frame admit_work_frame simp: finish_shutdown_frame drop_work_permit_def
      reservation_drop_def clone_lease_def drop_lease_def queue_drop_def gauge_drop_def registration_drop_def)

text \<open>
  C7. Shutdown is final: once the runtime drains it drains for ever, whatever steps follow, and from
  then on work admission, embedding requests, registration, loading, publication of a load in flight,
  unloading and installation all fail and leave the runtime exactly as it was.
\<close>

theorem draining_is_final:
  assumes "rt_draining (lf_rt g)" and "life_step\<^sup>*\<^sup>* g g'"
  shows "rt_draining (lf_rt g') \<and>
    admit_work (lf_rt g') = (lf_rt g', False) \<and>
    embed_admit now m inputs options cancellation deadline (lf_rt g') = (lf_rt g', Inl (failure ModelUnavailable)) \<and>
    (\<exists>err. register_engine e a m (lf_rt g') = (lf_rt g', Inl err)) \<and>
    (\<exists>err. load_reserve e m (lf_rt g') = (lf_rt g', Inl err)) \<and>
    (\<exists>err. register_reserved started a m key (lf_rt g') = (lf_rt g', Inl err)) \<and>
    (\<exists>err. unload m (lf_rt g') = (lf_rt g', Inl err)) \<and>
    (\<exists>err. begin_install (lf_rt g') = (lf_rt g', Inl err))"
proof -
  from assms(2,1) have d: "rt_draining (lf_rt g')"
    by (induction rule: rtranclp_induct) (auto intro: draining_step)
  then show ?thesis
    by (simp add: admit_work_def embed_admit_def register_engine_def load_reserve_def register_reserved_def
        unload_def begin_install_def)
qed

theorem draining_is_final_witness:
  "let rt = finish_shutdown 0 False (fst (shutdown_request True None demo_loaded)) in
   rt_draining rt \<and> admit_work rt = (rt, False) \<and>
    embed_admit 0 [109] [[97]] default_options (Single 0) None rt = (rt, Inl (failure ModelUnavailable)) \<and>
    (\<exists>err. register_engine True True [109] rt = (rt, Inl err)) \<and>
    (\<exists>err. load_reserve True [109] rt = (rt, Inl err)) \<and>
    (\<exists>err. register_reserved True True [109] 1 rt = (rt, Inl err)) \<and>
    (\<exists>err. unload [109] rt = (rt, Inl err)) \<and>
    (\<exists>err. begin_install rt = (rt, Inl err))"
proof -
  let ?g = "life_init (fst (shutdown_request True None demo_loaded))"
  have "life_step\<^sup>*\<^sup>* ?g (?g\<lparr>lf_rt := finish_shutdown 0 False (lf_rt ?g)\<rparr>)"
    by (rule r_into_rtranclp, rule do_finish)
  moreover have "rt_draining (lf_rt ?g)"
    by (simp add: life_init_def shutdown_request_def Let_def)
  ultimately show ?thesis
    using draining_is_final [of ?g "?g\<lparr>lf_rt := finish_shutdown 0 False (lf_rt ?g)\<rparr>"]
    by (simp add: life_init_def Let_def)
qed

text \<open>Stopping slots closes every slot of the list and opens none.\<close>

lemma stop_slot_accepting:
  "j < length (rt_slots rt) \<Longrightarrow> sl_accepting (rt_slots (stop_slot now i rt) ! j) \<longleftrightarrow>
     j \<noteq> i \<and> sl_accepting (rt_slots rt ! j)"
  by (cases "i = j") (simp_all add: stop_slot_def Let_def upd_slot_slots)

lemma stop_slots_accepting:
  "j < length (rt_slots rt) \<Longrightarrow>
   sl_accepting (rt_slots (fold (\<lambda>(_, i). stop_slot now i) ms rt) ! j) \<longleftrightarrow>
     j \<notin> snd ` set ms \<and> sl_accepting (rt_slots rt ! j)"
proof (induction ms arbitrary: rt)
  case (Cons e ms)
  then show ?case by (cases e) (auto simp: stop_slot_frame stop_slot_accepting)
qed simp

lemma stop_slots_more_frame:
  "rt_installs (fold (\<lambda>(_, i). stop_slot now i) ms rt) = rt_installs rt"
  "rt_schedulers (fold (\<lambda>(_, i). stop_slot now i) ms rt) = rt_schedulers rt"
  by (induction ms arbitrary: rt) (auto simp: stop_slot_def Let_def upd_slot_def)

text \<open>
  The forced or drained end of shutdown quiesces the runtime whatever was in flight: no model is
  registered or loading, no scheduler is left, health is stopped and counts no model, the admission
  coordinator is stopped, exactly the registered slots have been closed, and without a drain every
  installation that had not crossed its commit point is cancelled.
\<close>

theorem finish_shutdown_quiesces:
  assumes "rt_admin rt = Held_By_Nobody ()" and "rt_models rt = Held_By_Nobody models"
    and "rt_loading rt = Held_By_Nobody loading" and "rt_installs rt = Held_By_Nobody installs"
    and "rt_schedulers rt = Held_By_Nobody schedulers" and "rt_health rt = Held_By_Nobody h"
    and "rt_shutdown rt = Held_By_Nobody c" and "rt' = finish_shutdown now was_drained rt"
  shows "rt_models rt' = Held_By_Nobody [] \<and> rt_loading rt' = Held_By_Nobody [] \<and>
     rt_schedulers rt' = Held_By_Nobody [] \<and>
     rd_state (health_readiness (rt_health rt')) = LC_Stopped \<and> model_counts (rt_health rt') = (0, 0) \<and>
     shutdown_phase (rt_shutdown rt') = Stopped \<and>
     (\<forall>i < length (rt_slots rt). sl_accepting (rt_slots rt' ! i) \<longleftrightarrow>
        i \<notin> snd ` set models \<and> sl_accepting (rt_slots rt ! i)) \<and>
     (\<not> was_drained \<longrightarrow> rt_force_stop rt' \<and>
        rt_installs rt' = Held_By_Nobody (map (\<lambda>(k, i). (k, fst (cancel_before_commit i))) installs))"
  using assms
  by (simp add: finish_shutdown_def Let_def stop_slots_frame stop_slots_more_frame stop_slots_accepting
      cancel_installs_def force_stop_def clear_models_def ready_count_def reg_count_def)

theorem finish_shutdown_quiesces_witness:
  "\<not> sl_accepting (rt_slots (finish_shutdown 0 False demo_loaded) ! 0) \<and>
   rt_models (finish_shutdown 0 False demo_loaded) = Held_By_Nobody [] \<and>
   shutdown_phase (rt_shutdown (finish_shutdown 0 False demo_loaded)) = Stopped"
proof -
  obtain h where "rt_health demo_loaded = Held_By_Nobody h"
    by (simp add: demo_loaded_def register_engine_def trim_def is_whitespace_def Let_def publish_slot_def
        new_slot_def token_default_def demo_runtime_def runtime_new_def policy_validate_def policy_default_def
        set_model_def health_default_def)
  moreover obtain installs where "rt_installs demo_loaded = Held_By_Nobody installs"
    by (simp add: demo_loaded_def register_engine_def trim_def is_whitespace_def Let_def publish_slot_def
        new_slot_def token_default_def demo_runtime_def runtime_new_def policy_validate_def policy_default_def)
  ultimately show ?thesis
    using finish_shutdown_quiesces [OF demo_loaded_fields(3,1,2) _ demo_loaded_fields(6) _
        trans [OF demo_loaded_fields(14) coordinator_default_def] refl, of installs h 0 False]
    by simp
qed

section \<open>Admission of an embedding request\<close>

lemma meter_heap: "meter (rt\<lparr>rt_heap := h\<rparr>) = meter rt" "meter (rt\<lparr>rt_next_request := n\<rparr>) = meter rt"
  by (simp_all add: meter_def)

text \<open>The lease and queue operations as operations on the meter.\<close>

lemma meter_slot_update:
  assumes "i < length (rt_slots rt)" and "fst (meter rt) ! i = (l, q)"
  shows "meter (clone_lease i rt) = ((fst (meter rt))[i := (fetch_inc l, q)], snd (meter rt))"
    and "meter (drop_lease i rt) = ((fst (meter rt))[i := (fetch_dec l, q)], snd (meter rt))"
    and "meter (queue_drop i rt) = ((fst (meter rt))[i := (l, fetch_dec q)], fetch_dec (rt_queued rt), rt_admitted rt)"
    and "queue_acquire i rt = (rt', True) \<Longrightarrow>
      meter rt' = ((fst (meter rt))[i := (l, q + 1)], fetch_inc (rt_queued rt), rt_admitted rt)"
  using assms
  by (auto simp: meter_def clone_lease_def drop_lease_def queue_drop_def queue_acquire_def gauge_drop_def
      gauge_increment_def upd_slot_def map_update split: if_split_asm)

lemma meter_drop_clone:
  assumes "i < length (rt_slots rt)" and "fst (fst (meter rt) ! i) < word_limit"
    and "meter rt3 = meter (clone_lease i rt)"
  shows "meter (drop_lease i rt3) = meter rt"
proof -
  obtain l q where lq: "fst (meter rt) ! i = (l, q)" by fastforce
  have m3: "meter rt3 = ((fst (meter rt))[i := (fetch_inc l, q)], snd (meter rt))"
    using meter_slot_update(1) [OF assms(1) lq] assms(3) by simp
  moreover have len: "i < length (fst (meter rt))" "length (rt_slots rt3) = length (fst (meter rt3))"
    using assms(1) by (simp_all add: length_meter)
  ultimately have "i < length (rt_slots rt3)" "fst (meter rt3) ! i = (fetch_inc l, q)" by simp_all
  from meter_slot_update(2) [OF this] show ?thesis
    using m3 lq assms(2) len list_update_id [of "fst (meter rt)" i] by (simp add: fetch_dec_inc)
qed

lemma meter_drop_acquire:
  assumes "i < length (rt_slots rt)" and "queue_acquire i rt = (rt4, True)" and "meter rt5 = meter rt4"
    and "snd (fst (meter rt) ! i) + 1 < word_limit" and "rt_queued rt < word_limit"
  shows "meter (queue_drop i rt5) = meter rt"
proof -
  obtain l q where lq: "fst (meter rt) ! i = (l, q)" by fastforce
  have mt: "meter rt = (fst (meter rt), rt_queued rt, rt_admitted rt)" by (simp add: meter_def)
  have m5: "meter rt5 = ((fst (meter rt))[i := (l, q + 1)], fetch_inc (rt_queued rt), rt_admitted rt)"
    using meter_slot_update(4) [OF assms(1) lq assms(2)] assms(3) by simp
  then have q5: "rt_queued rt5 = fetch_inc (rt_queued rt)" "rt_admitted rt5 = rt_admitted rt"
    by (simp_all add: meter_def)
  have len: "i < length (fst (meter rt))" "length (rt_slots rt5) = length (fst (meter rt5))"
    using assms(1) by (simp_all add: length_meter)
  with m5 have "i < length (rt_slots rt5)" "fst (meter rt5) ! i = (l, q + 1)" by simp_all
  from meter_slot_update(3) [OF this] show ?thesis
    using m5 q5 lq assms(4,5) fetch_dec_mod [of "Suc q"] list_update_id [of "fst (meter rt)" i] mt
    by (simp add: fetch_dec_inc)
qed

text \<open>
  C10. A rejected embedding request leaks nothing: whichever check refuses it (admission, size limits,
  unknown model, cancellation or deadline, full queue, blank name), every lease counter, queue counter
  and the admitted-work counter is back at its value before the request.
\<close>

theorem rejected_request_leaks_nothing:
  assumes "embed_admit now m inputs options cancellation deadline rt = (rt', Inl err)"
    and "names_ok rt" and "rt_admitted rt < word_limit" and "rt_queued rt < word_limit"
    and "\<forall>s \<in> set (rt_slots rt). sl_leases s < word_limit"
    and "pol_queue_depth (rt_policy rt) < word_limit"
  shows "meter rt' = meter rt"
proof -
  obtain rt1 ok where a: "admit_work rt = (rt1, ok)" by fastforce
  note m1 = meter_admit_work [OF a] and f1 = admit_work_frame [OF a]
  have leave: "meter (drop_work_permit rtx) = meter rt" if "ok" "meter rtx = meter rt1" for rtx
    using that m1 assms(3) by (simp add: meter_drop_work fetch_dec_inc) (simp add: meter_def fetch_dec_inc)
  have slot: "i < length (rt_slots rt1) \<and> fst (fst (meter rt1) ! i) < word_limit"
    if "rt_models rt1 = Held_By_Nobody models" "reg_get models m = Some i" for models i
    using that f1 assms(2,5) by (auto simp: names_ok_def meter_def)
  have rejected: "meter rt1 = meter rt" if "\<not> ok"
    using m1 that by simp
  have refused: "meter rt2 = meter rt1" if "lease m rt1 = (rt2, Inl e)" for rt2 e
    using meter_lease [OF that] by simp
  have leased: "rt2 = clone_lease i rt1 \<and> j = i"
    if "rt_models rt1 = Held_By_Nobody models" "reg_get models m = Some i" "lease m rt1 = (rt2, Inr j)"
    for models i j rt2
    using that by (auto simp: lease_def clone_lease_def split: if_split_asm)
  have unlease: "meter (drop_lease j rt3) = meter rt1"
    if "rt_models rt1 = Held_By_Nobody models" "reg_get models m = Some i" "lease m rt1 = (rt2, Inr j)"
      "meter rt3 = meter rt2" for models i j rt2 rt3
    using meter_drop_clone [of i rt1 rt3] slot [OF that(1,2)] leased [OF that(1-3)] that(4) by simp
  have full: "meter rt4 = meter rt2" if "queue_acquire i (rt2\<lparr>rt_heap := h\<rparr>) = (rt4, False)" for i rt2 rt4 h
    using that by (auto simp: queue_acquire_def meter_heap split: if_split_asm)
  have unqueue: "meter (queue_drop i (rt4\<lparr>rt_next_request := n\<rparr>)) = meter rt2"
    if "rt_models rt1 = Held_By_Nobody models" "reg_get models m = Some i" "lease m rt1 = (rt2, Inr j)"
      "queue_acquire i (rt2\<lparr>rt_heap := h\<rparr>) = (rt4, True)" for models i j rt2 rt4 h n
  proof -
    have r2: "i < length (rt_slots rt2)" "rt_queued rt2 = rt_queued rt" "rt_policy rt2 = rt_policy rt"
      using slot [OF that(1,2)] leased [OF that(1-3)] f1 m1 by (simp_all add: clone_lease_def meter_def)
    moreover have "snd (fst (meter rt2) ! i) < pol_queue_depth (rt_policy rt2)"
      using that(4) r2(1) by (auto simp: queue_acquire_def meter_def split: if_split_asm)
    ultimately have "meter (queue_drop i (rt4\<lparr>rt_next_request := n\<rparr>)) = meter (rt2\<lparr>rt_heap := h\<rparr>)"
      using assms(4,6) by (intro meter_drop_acquire [OF _ that(4)]) (simp_all add: meter_heap)
    then show ?thesis by (simp add: meter_heap)
  qed
  show ?thesis
    using assms(1) unfolding embed_admit_def a Let_def
    by (auto simp: lock_read_Some intro!: leave split: bool.split_asm if_split_asm option.split_asm
        sum.split_asm prod.split_asm)
      (auto simp: meter_heap dest: rejected intro: refused unlease full unqueue)
qed

theorem rejected_request_leaks_nothing_witness:
  "meter (fst (embed_admit 0 [110] [[97]] default_options (Single 0) None demo_loaded)) = meter demo_loaded"
proof -
  obtain err where "snd (embed_admit 0 [110] [[97]] default_options (Single 0) None demo_loaded) = Inl err"
    by (cases "validate_raw_inputs [[97]] 262144 1048576")
      (simp_all add: embed_admit_def admit_work_def admit_work_locked_def coordinator_default_def Let_def
        reg_get_def policy_default_def)
  moreover have "\<forall>s \<in> set (rt_slots demo_loaded). sl_leases s < word_limit"
    by (metis One_nat_def demo_loaded_fields(9,10) in_set_conv_nth less_Suc0 word_limit_pos)
  moreover have "names_ok demo_loaded" by (simp add: names_ok_def reg_get_def)
  ultimately show ?thesis
    using rejected_request_leaks_nothing [of 0 "[110]" "[[97]]" default_options "Single 0" None demo_loaded
        "fst (embed_admit 0 [110] [[97]] default_options (Single 0) None demo_loaded)" err]
    by (simp add: prod_eq_iff policy_default_def word_limit_def)
qed

section \<open>Installation commit\<close>

text \<open>A history of the commit gate: who asked, and the answers in order.\<close>

datatype gate_call = Ask_Cancel | Ask_Commit

fun gate_run :: "gate_call list \<Rightarrow> commit_gate \<Rightarrow> commit_gate \<times> (gate_call \<times> bool) list" where
  "gate_run [] g = (g, [])"
| "gate_run (Ask_Cancel # cs) g =
     (case request_cancel g of (g', d) \<Rightarrow>
      case gate_run cs g' of (g'', out) \<Rightarrow> (g'', (Ask_Cancel, d = CancelledBeforeCommit) # out))"
| "gate_run (Ask_Commit # cs) g =
     (case begin_commit g of (g', won) \<Rightarrow>
      case gate_run cs g' of (g'', out) \<Rightarrow> (g'', (Ask_Commit, won) # out))"

lemma gate_run_cancelled:
  "gate_run cs Commit_Cancelled = (g, out) \<Longrightarrow> (Ask_Commit, True) \<notin> set out"
proof (induction cs arbitrary: g out)
  case (Cons c cs)
  then show ?case by (cases c) (auto simp: request_cancel_def begin_commit_def split: prod.split_asm)
qed simp

lemma gate_run_crossed:
  "gate_run cs Commit_Crossed = (g, out) \<Longrightarrow>
     (Ask_Cancel, True) \<notin> set out \<and> (Ask_Commit, True) \<notin> set out"
proof (induction cs arbitrary: g out)
  case (Cons c cs)
  then show ?case by (cases c) (auto simp: request_cancel_def begin_commit_def split: prod.split_asm)
qed simp

text \<open>
  Cancellation and commit of an installation exclude each other: in every order of calls at most one
  of "cancelled before commit" and "commit begun" is ever answered, at most one commit is begun, and a
  caller told that the installation is shutting down is right that its commit can no longer begin.
\<close>

theorem cancel_and_commit_exclusive:
  "gate_run calls Commit_Open = (g, answers) \<Longrightarrow>
     \<not> ((Ask_Cancel, True) \<in> set answers \<and> (Ask_Commit, True) \<in> set answers) \<and>
     count_list answers (Ask_Commit, True) \<le> 1 \<and>
     (receive_install_result None control final = (control', Inl ShuttingDown) \<longrightarrow>
        final \<noteq> Some (Inl ShuttingDown) \<longrightarrow> \<not> snd (begin_commit (ic_commit control')) \<and> ic_cancelled control')"
proof -
  assume run: "gate_run calls Commit_Open = (g, answers)"
  have "\<not> ((Ask_Cancel, True) \<in> set answers \<and> (Ask_Commit, True) \<in> set answers) \<and>
     count_list answers (Ask_Commit, True) \<le> 1"
    using run
  proof (cases calls)
    case (Cons c cs)
    then show ?thesis
      using run
      by (cases c)
        (auto simp: request_cancel_def begin_commit_def count_list_0_iff split: prod.split_asm
          dest: gate_run_cancelled gate_run_crossed)
  qed simp
  moreover have "\<not> snd (begin_commit (ic_commit control')) \<and> ic_cancelled control'"
    if "receive_install_result None control final = (control', Inl ShuttingDown)" "final \<noteq> Some (Inl ShuttingDown)"
    using that
    by (auto simp: receive_install_result_def cancel_before_commit_def request_cancel_def begin_commit_def
        split: commit_gate.split_asm option.split_asm)
  ultimately show ?thesis by blast
qed

theorem cancel_and_commit_exclusive_witness:
  "\<not> ((Ask_Cancel, True) \<in> set [(Ask_Commit, True), (Ask_Cancel, False), (Ask_Commit, False)] \<and>
      (Ask_Commit, True) \<in> set [(Ask_Commit, True), (Ask_Cancel, False), (Ask_Commit, False)]) \<and>
   \<not> snd (begin_commit Commit_Cancelled)"
  using cancel_and_commit_exclusive [of "[Ask_Commit, Ask_Cancel, Ask_Commit]" Commit_Crossed
      "[(Ask_Commit, True), (Ask_Cancel, False), (Ask_Commit, False)]"
      "\<lparr>ic_cancelled = False, ic_commit = Commit_Open\<rparr>" "None :: (lifecycle_error + unit) option"
      "\<lparr>ic_cancelled = True, ic_commit = Commit_Cancelled\<rparr>"]
  by (simp add: request_cancel_def begin_commit_def receive_install_result_def cancel_before_commit_def)

end
