(* ===== verification/Manifest.thy ===== *)
theory Manifest
  imports Text "HOL-Library.Multiset" "HOL-Library.List_Lexorder" "HOL-Library.Product_Lexorder"
begin

text \<open>
  The model catalog data of \<^verbatim>\<open>impossible-models\<close>: the error type of \<^verbatim>\<open>lib.rs\<close>, the manifest and its
  validation from \<^verbatim>\<open>manifest.rs\<close>, and the two fingerprints, the cache key and the trust roots from
  \<^verbatim>\<open>store.rs\<close>. The URL parser, the JSON encoder and SHA-256 are arguments.
\<close>

section \<open>Errors\<close>

datatype http_failure_kind = HK_Connect | HK_Body | HK_Timeout | HK_Request | HK_Decode | HK_Other

text \<open>What the code looks at of an I/O error and of a request error.\<close>

record io_error =
  io_kind :: rstr
  io_text :: rstr

record http_error =
  he_connect :: bool
  he_body :: bool
  he_timeout :: bool
  he_request :: bool
  he_decode :: bool

datatype model_error =
    ME_Invalid rstr | ME_Cancelled | ME_Offline | ME_InUse | ME_Busy | ME_OriginNotAllowed rstr
  | ME_SizeLimit nat nat | ME_HashMismatch rstr rstr | ME_Io io_error | ME_Http http_failure_kind
  | ME_Json rstr

abbreviation invalid :: "string \<Rightarrow> model_error" where
  "invalid s \<equiv> ME_Invalid (lit s)"

fun is_retryable :: "model_error \<Rightarrow> bool" where
  "is_retryable ME_Busy = True"
| "is_retryable ME_InUse = True"
| "is_retryable _ = False"

definition http_kind :: "http_error \<Rightarrow> http_failure_kind" where
  "http_kind e =
     (if he_connect e then HK_Connect else if he_body e then HK_Body else if he_timeout e then HK_Timeout
      else if he_request e then HK_Request else if he_decode e then HK_Decode else HK_Other)"

fun http_kind_debug :: "http_failure_kind \<Rightarrow> string" where
  "http_kind_debug HK_Connect = ''Connect''"
| "http_kind_debug HK_Body = ''Body''"
| "http_kind_debug HK_Timeout = ''Timeout''"
| "http_kind_debug HK_Request = ''Request''"
| "http_kind_debug HK_Decode = ''Decode''"
| "http_kind_debug HK_Other = ''Other''"

fun http_kind_display :: "http_failure_kind \<Rightarrow> string" where
  "http_kind_display HK_Connect = ''connection failed''"
| "http_kind_display HK_Body = ''response body failed''"
| "http_kind_display HK_Timeout = ''request timed out''"
| "http_kind_display HK_Request = ''request failed''"
| "http_kind_display HK_Other = ''request failed''"
| "http_kind_display HK_Decode = ''response decoding failed''"

definition redacted :: rstr where
  "redacted = [34] @ lit ''[REDACTED]'' @ [34]"

fun model_error_debug :: "model_error \<Rightarrow> rstr" where
  "model_error_debug (ME_Invalid _) = lit ''Invalid('' @ redacted @ lit '')''"
| "model_error_debug ME_Cancelled = lit ''Cancelled''"
| "model_error_debug ME_Offline = lit ''Offline''"
| "model_error_debug ME_InUse = lit ''InUse''"
| "model_error_debug ME_Busy = lit ''Busy''"
| "model_error_debug (ME_OriginNotAllowed _) = lit ''OriginNotAllowed('' @ redacted @ lit '')''"
| "model_error_debug (ME_SizeLimit expected actual) =
     lit ''SizeLimit { expected: '' @ decimal expected @ lit '', actual: '' @ decimal actual @ lit '' }''"
| "model_error_debug (ME_HashMismatch _ _) =
     lit ''HashMismatch { expected: '' @ redacted @ lit '', actual: '' @ redacted @ lit '' }''"
| "model_error_debug (ME_Io e) = lit ''Io('' @ io_kind e @ lit '')''"
| "model_error_debug (ME_Http k) = lit ''Http('' @ lit (http_kind_debug k) @ lit '')''"
| "model_error_debug (ME_Json _) = lit ''Json('' @ redacted @ lit '')''"

fun model_error_display :: "model_error \<Rightarrow> rstr" where
  "model_error_display (ME_Invalid message) = lit ''invalid model data: '' @ message"
| "model_error_display ME_Cancelled = lit ''operation cancelled''"
| "model_error_display ME_Offline = lit ''network access is disabled in offline mode''"
| "model_error_display ME_InUse = lit ''model identity is currently in use''"
| "model_error_display ME_Busy = lit ''model identity is busy; retry later''"
| "model_error_display (ME_OriginNotAllowed origin) = lit ''download origin is not allowed: '' @ origin"
| "model_error_display (ME_SizeLimit expected actual) =
     lit ''artifact size limit exceeded: expected at most '' @ decimal expected
       @ lit '' bytes, received '' @ decimal actual"
| "model_error_display (ME_HashMismatch expected actual) =
     lit ''artifact hash mismatch: expected '' @ expected @ lit '', received '' @ actual"
| "model_error_display (ME_Io e) = lit ''filesystem error: '' @ io_text e"
| "model_error_display (ME_Http k) = lit ''HTTP transport error: '' @ lit (http_kind_display k)"
| "model_error_display (ME_Json text) = lit ''manifest JSON error: '' @ text"

section \<open>Manifests\<close>

record license =
  lic_spdx :: rstr
  lic_source_url :: rstr

datatype semantic_verification = Verified rstr | Unverified rstr

record tokenizer_metadata =
  tok_kind :: rstr
  tok_max_tokens :: nat
  tok_lowercase :: bool

datatype pooling = Cls | Mean | LastToken

record prefixes =
  pre_query :: rstr
  pre_document :: rstr

record dimensions =
  dim_native :: nat
  dim_matryoshka :: "nat list"

record tensor_metadata =
  ten_format :: rstr
  ten_dtype :: rstr
  ten_architecture :: rstr

record onnx_input_names =
  in_input_ids :: rstr
  in_attention_mask :: "rstr option"
  in_token_type_ids :: "rstr option"

text \<open>\<^verbatim>\<open>Onnx\<close>: model file, tokenizer file, inputs, output, padding token and normalisation.\<close>

datatype runtime_metadata =
    CatalogOnly
  | Onnx rstr rstr onnx_input_names rstr nat bool

record artifact =
  art_path :: rstr
  art_url :: rstr
  art_sha256 :: rstr
  art_size :: nat

record manifest =
  mf_schema_version :: nat
  mf_canonical_id :: rstr
  mf_revision :: rstr
  mf_license :: license
  mf_semantic_verification :: semantic_verification
  mf_tokenizer :: tokenizer_metadata
  mf_pooling :: pooling
  mf_prefixes :: prefixes
  mf_dimensions :: dimensions
  mf_tensors :: tensor_metadata
  mf_runtime :: runtime_metadata
  mf_artifacts :: "artifact list"

definition schema_version :: nat where "schema_version = 1"
definition max_artifacts :: nat where "max_artifacts = 64"
definition max_total_artifact_bytes :: nat where "max_total_artifact_bytes = 16 * 1024 * 1024 * 1024"
definition max_manifest_bytes :: nat where "max_manifest_bytes = 1024 * 1024"
definition max_metadata_text_bytes :: nat where "max_metadata_text_bytes = 4 * 1024"
definition max_url_bytes :: nat where "max_url_bytes = 8 * 1024"
definition max_tensor_name_bytes :: nat where "max_tensor_name_bytes = 256"
definition max_matryoshka_dimensions :: nat where "max_matryoshka_dimensions = 64"

section \<open>Paths and identifiers\<close>

text \<open>A test of every byte of a string.\<close>

definition bytes_all :: "(nat \<Rightarrow> bool) \<Rightarrow> rstr \<Rightarrow> bool" where
  "bytes_all p s = list_all (\<lambda>b. p (unat b)) (as_bytes s)"

definition is_lower_hex :: "nat \<Rightarrow> bool" where
  "is_lower_hex b \<longleftrightarrow> (48 \<le> b \<and> b \<le> 57) \<or> (97 \<le> b \<and> b \<le> 102)"

definition is_ascii_alphanumeric :: "nat \<Rightarrow> bool" where
  "is_ascii_alphanumeric b \<longleftrightarrow> (48 \<le> b \<and> b \<le> 57) \<or> (65 \<le> b \<and> b \<le> 90) \<or> (97 \<le> b \<and> b \<le> 122)"

definition portable_byte :: "nat \<Rightarrow> bool" where
  "portable_byte b \<longleftrightarrow> is_ascii_alphanumeric b \<or> b = 45 \<or> b = 95 \<or> b = 46"

definition to_ascii_lowercase :: "rstr \<Rightarrow> rstr" where
  "to_ascii_lowercase = map (\<lambda>c. if 65 \<le> c \<and> c \<le> 90 then c + 32 else c)"

definition to_ascii_uppercase :: "rstr \<Rightarrow> rstr" where
  "to_ascii_uppercase = map (\<lambda>c. if 97 \<le> c \<and> c \<le> 122 then c - 32 else c)"

text \<open>\<^verbatim>\<open>Path::components\<close> on a Unix target.\<close>

datatype component = RootDir | CurDir | ParentDir | Normal rstr

definition path_is_absolute :: "rstr \<Rightarrow> bool" where
  "path_is_absolute value = (case value of [] \<Rightarrow> False | c # _ \<Rightarrow> c = 47)"

definition path_components :: "rstr \<Rightarrow> component list" where
  "path_components value =
     (let pieces = split_on 47 value;
          inner = map (\<lambda>p. if p = lit ''..'' then ParentDir else Normal p)
                      (filter (\<lambda>p. p \<noteq> [] \<and> p \<noteq> lit ''.'') pieces)
      in if path_is_absolute value then RootDir # inner
         else if hd pieces = lit ''.'' then CurDir # inner
         else inner)"

definition windows_device_names :: "string list" where
  "windows_device_names =
     [''CON'', ''PRN'', ''AUX'', ''NUL'', ''COM1'', ''COM2'', ''COM3'', ''COM4'', ''COM5'', ''COM6'', ''COM7'',
      ''COM8'', ''COM9'', ''LPT1'', ''LPT2'', ''LPT3'', ''LPT4'', ''LPT5'', ''LPT6'', ''LPT7'', ''LPT8'', ''LPT9'']"

definition is_windows_device_name :: "rstr \<Rightarrow> bool" where
  "is_windows_device_name component =
     (let stem = hd (split_on 46 component)
      in to_ascii_uppercase stem \<in> set (map lit windows_device_names))"

definition unsafe_component :: "rstr \<Rightarrow> bool" where
  "unsafe_component component \<longleftrightarrow>
     component = []
     \<or> 255 < str_len component
     \<or> last component = 46 \<or> last component = 32
     \<or> \<not> bytes_all portable_byte component
     \<or> is_windows_device_name component"

definition validate_relative_path :: "rstr \<Rightarrow> model_error + unit" where
  "validate_relative_path value =
     reject_if (value = []
         \<or> 1024 < str_len value
         \<or> 92 \<in> set value
         \<or> path_is_absolute value
         \<or> list_ex (\<lambda>part. case part of Normal _ \<Rightarrow> False | _ \<Rightarrow> True) (path_components value)
         \<or> list_ex unsafe_component (split_on 47 value))
       (invalid ''artifact path is unsafe'')"

definition is_path_ancestor :: "rstr \<Rightarrow> rstr \<Rightarrow> bool" where
  "is_path_ancestor parent child =
     (case strip_prefix parent child of None \<Rightarrow> False
      | Some suffix \<Rightarrow> (case suffix of [] \<Rightarrow> False | c # _ \<Rightarrow> c = 47))"

definition validate_id :: "rstr \<Rightarrow> model_error + unit" where
  "validate_id value =
     reject_if (value = []
         \<or> 200 < str_len value
         \<or> hd value = 47
         \<or> last value = 47
         \<or> list_ex (\<lambda>part. part = [] \<or> part = lit ''.'' \<or> part = lit ''..'' \<or> \<not> bytes_all portable_byte part)
             (split_on 47 value))
       (invalid ''canonical_id contains unsafe characters'')"

section \<open>Validation\<close>

text \<open>One artifact against the portable paths seen so far, the set given as a list.\<close>

definition validate_artifact ::
  "(rstr \<Rightarrow> url option) \<Rightarrow> rstr list \<Rightarrow> artifact \<Rightarrow> model_error + rstr list" where
  "validate_artifact parse_url paths a =
     and_then (validate_relative_path (art_path a)) (\<lambda>_.
     let portable_path = to_ascii_lowercase (art_path a) in
     and_then (reject_if (portable_path = lit ''manifest.json'')
       (invalid ''manifest.json is reserved for the installed identity record'')) (\<lambda>_.
     and_then (reject_if (portable_path \<in> set paths) (invalid ''artifact paths must be unique'')) (\<lambda>_.
     let paths1 = portable_path # paths in
     and_then (reject_if (list_ex (\<lambda>existing. existing \<noteq> portable_path
           \<and> (is_path_ancestor existing portable_path \<or> is_path_ancestor portable_path existing)) paths1)
       (invalid ''artifact paths cannot be ancestors of other artifacts'')) (\<lambda>_.
     and_then (reject_if (max_url_bytes < str_len (art_url a))
       (invalid ''artifact URL exceeds the supported length'')) (\<lambda>_.
     and_then (ok_or (invalid ''artifact URL is invalid'') (parse_url (art_url a))) (\<lambda>u.
     let loopback_test_url = url_scheme u = lit ''http''
           \<and> (case url_host u of None \<Rightarrow> False
              | Some host \<Rightarrow> host \<in> {lit ''127.0.0.1'', lit ''::1'', lit ''localhost''}) in
     and_then (reject_if ((url_scheme u \<noteq> lit ''https'' \<and> \<not> loopback_test_url)
           \<or> url_host u = None \<or> url_username u \<noteq> [] \<or> url_password u \<noteq> None)
       (invalid ''artifact URL must use HTTPS (HTTP is allowed only for loopback tests) and contain no credentials'')) (\<lambda>_.
     and_then (reject_if (str_len (art_sha256 a) \<noteq> 64 \<or> \<not> bytes_all is_lower_hex (art_sha256 a)
           \<or> art_size a = 0)
       (invalid ''artifact requires SHA-256 and non-zero size'')) (\<lambda>_.
     Ok paths1))))))))"

fun validate_artifacts_from ::
  "(rstr \<Rightarrow> url option) \<Rightarrow> rstr list \<Rightarrow> artifact list \<Rightarrow> model_error + unit" where
  "validate_artifacts_from parse_url paths [] = Ok ()"
| "validate_artifacts_from parse_url paths (a # as) =
     and_then (validate_artifact parse_url paths a) (\<lambda>paths1. validate_artifacts_from parse_url paths1 as)"

definition validate_artifacts :: "(rstr \<Rightarrow> url option) \<Rightarrow> artifact list \<Rightarrow> model_error + unit" where
  "validate_artifacts parse_url artifacts = validate_artifacts_from parse_url [] artifacts"

definition flatten_options :: "'a option list \<Rightarrow> 'a list" where
  "flatten_options xs = concat (map (\<lambda>x. case x of None \<Rightarrow> [] | Some y \<Rightarrow> [y]) xs)"

definition validate_bounded_fields :: "manifest \<Rightarrow> model_error + unit" where
  "validate_bounded_fields m =
     (let semantic_text = (case mf_semantic_verification m of
              Verified evidence \<Rightarrow> evidence | Unverified reason \<Rightarrow> reason);
          metadata_fields = [lic_spdx (mf_license m), semantic_text, tok_kind (mf_tokenizer m),
              pre_query (mf_prefixes m), pre_document (mf_prefixes m), ten_format (mf_tensors m),
              ten_dtype (mf_tensors m), ten_architecture (mf_tensors m)]
      in and_then (reject_if (list_ex (\<lambda>field. max_metadata_text_bytes < str_len field) metadata_fields
              \<or> max_url_bytes < str_len (lic_source_url (mf_license m)))
           (invalid ''manifest metadata exceeds the supported length'')) (\<lambda>_.
         case mf_runtime m of CatalogOnly \<Rightarrow> Ok ()
         | Onnx _ _ inputs out _ _ \<Rightarrow>
             reject_if (list_ex (\<lambda>name. max_tensor_name_bytes < str_len name)
                 (flatten_options [Some (in_input_ids inputs), in_attention_mask inputs,
                    in_token_type_ids inputs, Some out]))
               (invalid ''runtime tensor name exceeds the supported length'')))"

definition blank_option :: "rstr option \<Rightarrow> bool" where
  "blank_option x = (case x of None \<Rightarrow> False | Some name \<Rightarrow> trim name = [])"

definition validate_runtime :: "runtime_metadata \<Rightarrow> model_error + unit" where
  "validate_runtime rt =
     (case rt of CatalogOnly \<Rightarrow> Ok ()
      | Onnx model_file tokenizer_file inputs out _ _ \<Rightarrow>
          and_then (validate_relative_path model_file) (\<lambda>_.
          and_then (validate_relative_path tokenizer_file) (\<lambda>_.
          let declared_inputs = flatten_options [Some (in_input_ids inputs), in_attention_mask inputs,
                in_token_type_ids inputs]
          in reject_if (model_file = tokenizer_file
                \<or> trim (in_input_ids inputs) = []
                \<or> trim out = []
                \<or> length (remdups declared_inputs) \<noteq> length declared_inputs
                \<or> blank_option (in_attention_mask inputs)
                \<or> blank_option (in_token_type_ids inputs))
              (invalid ''ONNX runtime metadata is incomplete''))))"

definition validate_runtime_artifacts :: "runtime_metadata \<Rightarrow> artifact list \<Rightarrow> model_error + unit" where
  "validate_runtime_artifacts rt artifacts =
     (case rt of CatalogOnly \<Rightarrow> Ok ()
      | Onnx model_file tokenizer_file _ _ _ _ \<Rightarrow>
          reject_if (list_ex (\<lambda>required. \<not> list_ex (\<lambda>a. art_path a = required) artifacts)
              [model_file, tokenizer_file])
            (invalid ''ONNX runtime file is not declared as an artifact''))"

text \<open>\<^verbatim>\<open>windows(2)\<close>.\<close>

definition windows2 :: "'a list \<Rightarrow> ('a \<times> 'a) list" where
  "windows2 xs = zip xs (tl xs)"

definition manifest_validate :: "(rstr \<Rightarrow> url option) \<Rightarrow> manifest \<Rightarrow> model_error + unit" where
  "manifest_validate parse_url m =
     and_then (reject_if (mf_schema_version m \<noteq> schema_version) (invalid ''unsupported schema_version'')) (\<lambda>_.
     and_then (validate_id (mf_canonical_id m)) (\<lambda>_.
     and_then (validate_bounded_fields m) (\<lambda>_.
     and_then (reject_if (str_len (mf_revision m) \<noteq> 40 \<or> \<not> bytes_all is_lower_hex (mf_revision m))
       (invalid ''revision must be a 40-character commit hash'')) (\<lambda>_.
     and_then (reject_if (trim (lic_spdx (mf_license m)) = []
         \<or> (case parse_url (lic_source_url (mf_license m)) of None \<Rightarrow> True | Some u \<Rightarrow> url_scheme u \<noteq> lit ''https''))
       (invalid ''license metadata must contain SPDX id and HTTPS source'')) (\<lambda>_.
     and_then (reject_if (trim (tok_kind (mf_tokenizer m)) = [] \<or> tok_max_tokens (mf_tokenizer m) = 0)
       (invalid ''tokenizer metadata is incomplete'')) (\<lambda>_.
     and_then (reject_if (dim_native (mf_dimensions m) = 0
         \<or> max_matryoshka_dimensions < length (dim_matryoshka (mf_dimensions m))
         \<or> list_ex (\<lambda>v. v = 0 \<or> dim_native (mf_dimensions m) \<le> v) (dim_matryoshka (mf_dimensions m))
         \<or> list_ex (\<lambda>(a, b). b \<le> a) (windows2 (dim_matryoshka (mf_dimensions m))))
       (invalid ''invalid embedding dimensions'')) (\<lambda>_.
     and_then (reject_if (trim (ten_format (mf_tensors m)) = [] \<or> trim (ten_dtype (mf_tensors m)) = []
         \<or> trim (ten_architecture (mf_tensors m)) = [])
       (invalid ''tensor metadata is incomplete'')) (\<lambda>_.
     and_then (validate_runtime (mf_runtime m)) (\<lambda>_.
     and_then (case mf_semantic_verification m of
         Verified evidence \<Rightarrow> reject_if (trim evidence = []) (invalid ''semantic verification evidence is empty'')
       | Unverified reason \<Rightarrow> reject_if (trim reason = []) (invalid ''semantic verification reason is empty'')) (\<lambda>_.
     and_then (reject_if (mf_artifacts m = []) (invalid ''manifest has no artifacts'')) (\<lambda>_.
     and_then (reject_if (max_artifacts < length (mf_artifacts m)) (invalid ''manifest has too many artifacts'')) (\<lambda>_.
     and_then (reject_if (case checked_sum_from 0 (map art_size (mf_artifacts m)) of
           None \<Rightarrow> True | Some aggregate \<Rightarrow> max_total_artifact_bytes < aggregate)
       (invalid ''manifest aggregate artifact size exceeds the supported limit'')) (\<lambda>_.
     and_then (validate_artifacts parse_url (mf_artifacts m)) (\<lambda>_.
     validate_runtime_artifacts (mf_runtime m) (mf_artifacts m)))))))))))))))"

definition semantics_verified :: "manifest \<Rightarrow> bool" where
  "semantics_verified m = (case mf_semantic_verification m of Verified _ \<Rightarrow> True | Unverified _ \<Rightarrow> False)"

text \<open>Decoding and encoding, with the JSON library as an argument.\<close>

definition from_json ::
  "(rstr \<Rightarrow> url option) \<Rightarrow> (bytes \<Rightarrow> rstr + manifest) \<Rightarrow> bytes \<Rightarrow> model_error + manifest" where
  "from_json parse_url decode data =
     and_then (reject_if (max_manifest_bytes < length data) (invalid ''manifest exceeds the supported size'')) (\<lambda>_.
     and_then (map_err ME_Json (decode data)) (\<lambda>m.
     and_then (manifest_validate parse_url m) (\<lambda>_. Ok m)))"

definition to_json ::
  "(rstr \<Rightarrow> url option) \<Rightarrow> (manifest \<Rightarrow> rstr + bytes) \<Rightarrow> manifest \<Rightarrow> model_error + bytes" where
  "to_json parse_url encode m =
     and_then (manifest_validate parse_url m) (\<lambda>_.
     and_then (map_err ME_Json (encode m)) (\<lambda>encoded.
     and_then (reject_if (max_manifest_bytes < length encoded) (invalid ''manifest exceeds the supported size'')) (\<lambda>_.
     Ok encoded)))"


section \<open>Fingerprints\<close>

record semantic_artifact =
  sa_path :: rstr
  sa_sha256 :: rstr
  sa_size :: nat

definition semantic_artifact_from :: "artifact \<Rightarrow> semantic_artifact" where
  "semantic_artifact_from a = \<lparr>sa_path = art_path a, sa_sha256 = art_sha256 a, sa_size = art_size a\<rparr>"

record semantic_contract =
  con_schema_version :: nat
  con_canonical_id :: rstr
  con_revision :: rstr
  con_tokenizer :: tokenizer_metadata
  con_pooling :: pooling
  con_prefixes :: prefixes
  con_dimensions :: dimensions
  con_tensors :: tensor_metadata
  con_runtime :: runtime_metadata
  con_artifacts :: "semantic_artifact list"

text \<open>The order both fingerprints sort by; the standard sort is stable.\<close>

definition artifact_order :: "artifact \<Rightarrow> rstr \<times> rstr \<times> nat" where
  "artifact_order a = (art_path a, art_sha256 a, art_size a)"

definition contract_of :: "manifest \<Rightarrow> semantic_contract" where
  "contract_of m =
     \<lparr>con_schema_version = mf_schema_version m, con_canonical_id = mf_canonical_id m,
      con_revision = mf_revision m, con_tokenizer = mf_tokenizer m, con_pooling = mf_pooling m,
      con_prefixes = mf_prefixes m, con_dimensions = mf_dimensions m, con_tensors = mf_tensors m,
      con_runtime = mf_runtime m,
      con_artifacts = map semantic_artifact_from (sort_key artifact_order (mf_artifacts m))\<rparr>"

text \<open>\<^verbatim>\<open>{:x}\<close> of a digest.\<close>

definition hex_digit :: "nat \<Rightarrow> nat" where
  "hex_digit n = (if n < 10 then 48 + n else 87 + n)"

definition lower_hex :: "bytes \<Rightarrow> rstr" where
  "lower_hex bs = concat (map (\<lambda>b. [hex_digit (unat b div 16), hex_digit (unat b mod 16)]) bs)"

text \<open>The libraries the fingerprints call: the JSON encoder of the contract, and the hash.\<close>

record fingerprint_env =
  fe_parse_url :: "rstr \<Rightarrow> url option"
  fe_contract_json :: "semantic_contract \<Rightarrow> rstr + bytes"
  fe_sha256 :: "bytes \<Rightarrow> bytes"

definition semantic_fingerprint :: "fingerprint_env \<Rightarrow> manifest \<Rightarrow> model_error + rstr" where
  "semantic_fingerprint env m =
     and_then (manifest_validate (fe_parse_url env) m) (\<lambda>_.
     and_then (map_err ME_Json (fe_contract_json env (contract_of m))) (\<lambda>encoded.
     Ok (lit ''sha256:'' @ lower_hex (fe_sha256 env encoded))))"

text \<open>\<^verbatim>\<open>u64::to_le_bytes\<close>.\<close>

definition le_bytes :: "nat \<Rightarrow> bytes" where
  "le_bytes n = map (\<lambda>i. byte (n div 256 ^ i mod 256)) [0..<8]"

definition artifact_fingerprint :: "fingerprint_env \<Rightarrow> manifest \<Rightarrow> rstr" where
  "artifact_fingerprint env m =
     lit ''sha256:'' @ lower_hex (fe_sha256 env
       (as_bytes (mf_canonical_id m) @ [0] @ as_bytes (mf_revision m)
        @ concat (map (\<lambda>a. [0] @ as_bytes (art_path a) @ [0] @ as_bytes (art_sha256 a) @ [0] @ le_bytes (art_size a))
            (sort_key artifact_order (mf_artifacts m)))))"

section \<open>Cache layout and trust\<close>

text \<open>\<^verbatim>\<open>trim_start_matches\<close> of a non-empty pattern.\<close>

function trim_start_matches :: "rstr \<Rightarrow> rstr \<Rightarrow> rstr" where
  "trim_start_matches p s =
     (if p = [] then s else case strip_prefix p s of None \<Rightarrow> s | Some r \<Rightarrow> trim_start_matches p r)"
  by pat_completeness auto

termination trim_start_matches
  by (relation "measure (\<lambda>(p, s). length s)") (auto simp: strip_prefix_Some)

declare trim_start_matches.simps [simp del]

definition cache_key :: "fingerprint_env \<Rightarrow> manifest \<Rightarrow> model_error + rstr" where
  "cache_key env m =
     and_then (semantic_fingerprint env m) (\<lambda>fp. Ok (trim_start_matches (lit ''sha256:'') fp))"

text \<open>A path of the cache: its components below the root.\<close>

type_synonym cache_path = "rstr list"

definition model_dir :: "fingerprint_env \<Rightarrow> manifest \<Rightarrow> model_error + cache_path" where
  "model_dir env m = and_then (cache_key env m) (\<lambda>k. Ok [lit ''models'', k])"

definition staging_dir :: "fingerprint_env \<Rightarrow> manifest \<Rightarrow> model_error + cache_path" where
  "staging_dir env m = and_then (cache_key env m) (\<lambda>k. Ok [lit ''staging'', k @ lit ''.partial''])"

definition lock_file :: "fingerprint_env \<Rightarrow> manifest \<Rightarrow> model_error + cache_path" where
  "lock_file env m = and_then (cache_key env m) (\<lambda>k. Ok [lit ''locks'', k @ lit ''.lock''])"

definition repair_marker :: "fingerprint_env \<Rightarrow> manifest \<Rightarrow> model_error + cache_path" where
  "repair_marker env m = and_then (cache_key env m) (\<lambda>k. Ok [lit ''transactions'', k @ lit ''.repair''])"

definition repair_backup :: "fingerprint_env \<Rightarrow> manifest \<Rightarrow> model_error + cache_path" where
  "repair_backup env m = and_then (cache_key env m) (\<lambda>k. Ok [lit ''transactions'', k @ lit ''.previous''])"

definition deletion_tombstone :: "fingerprint_env \<Rightarrow> manifest \<Rightarrow> model_error + cache_path" where
  "deletion_tombstone env m = and_then (cache_key env m) (\<lambda>k. Ok [lit ''transactions'', k @ lit ''.deleted''])"

record trusted_evidence =
  te_manifest_fingerprint :: rstr
  te_evidence :: rstr

type_synonym trust_root = "rstr set"

fun trust_curated :: "fingerprint_env \<Rightarrow> manifest list \<Rightarrow> trust_root \<Rightarrow> model_error + trust_root" where
  "trust_curated env [] root = Ok root"
| "trust_curated env (m # ms) root =
     (if semantics_verified m
      then and_then (semantic_fingerprint env m) (\<lambda>fp. trust_curated env ms (insert fp root))
      else trust_curated env ms root)"

definition malformed_evidence :: "trusted_evidence \<Rightarrow> bool" where
  "malformed_evidence r \<longleftrightarrow>
     trim (te_evidence r) = []
     \<or> str_len (te_manifest_fingerprint r) \<noteq> 71
     \<or> (case strip_prefix (lit ''sha256:'') (te_manifest_fingerprint r) of None \<Rightarrow> True
        | Some digest \<Rightarrow> \<not> bytes_all is_lower_hex digest)"

fun trust_from_evidence :: "trusted_evidence list \<Rightarrow> trust_root \<Rightarrow> model_error + trust_root" where
  "trust_from_evidence [] root = Ok root"
| "trust_from_evidence (r # rs) root =
     and_then (reject_if (malformed_evidence r) (invalid ''semantic trust evidence is malformed''))
       (\<lambda>_. trust_from_evidence rs (insert (te_manifest_fingerprint r) root))"

definition trusts :: "fingerprint_env \<Rightarrow> trust_root \<Rightarrow> manifest \<Rightarrow> model_error + bool" where
  "trusts env root m =
     (if \<not> semantics_verified m then Ok False
      else and_then (semantic_fingerprint env m) (\<lambda>fp. Ok (fp \<in> root)))"


section \<open>Paths stay below their base\<close>

text \<open>What a file system makes of a path: the position reached from \<open>base\<close>, component by component.\<close>

fun resolve :: "rstr list \<Rightarrow> component list \<Rightarrow> rstr list" where
  "resolve base [] = base"
| "resolve base (RootDir # cs) = resolve [] cs"
| "resolve base (CurDir # cs) = resolve base cs"
| "resolve base (ParentDir # cs) = resolve (butlast base) cs"
| "resolve base (Normal n # cs) = resolve (base @ [n]) cs"

lemma resolve_normal: "resolve base (map Normal ps) = base @ ps"
  by (induction ps arbitrary: base) simp_all

lemma bytes_all_ascii:
  assumes "\<And>n. p n \<Longrightarrow> n < 128"
  shows "bytes_all p s \<longleftrightarrow> list_all p s"
proof (induction s)
  case (Cons c s)
  have "list_all (\<lambda>b. p (unat b)) (utf8_char c) \<longleftrightarrow> p c"
  proof (cases "c < 128")
    case False
    have bound: "0x80 + c mod 64 < 256" using mod_less_divisor [of 64 c] by linarith
    then have "\<not> p (unat (byte (0x80 + c mod 64)))" using assms [of "0x80 + c mod 64"] by auto
    moreover have "byte (0x80 + c mod 64) \<in> set (utf8_char c)" using False by (simp add: utf8_char_def)
    ultimately show ?thesis using False assms [of c] by (auto simp: list_all_iff)
  qed (simp add: utf8_char_def)
  with Cons show ?case by (simp add: bytes_all_def as_bytes_def)
qed (simp add: bytes_all_def)

lemma portable_byte_bound: "portable_byte b \<Longrightarrow> b < 128"
  by (auto simp: portable_byte_def is_ascii_alphanumeric_def)

lemma is_lower_hex_bound: "is_lower_hex b \<Longrightarrow> b < 128"
  by (auto simp: is_lower_hex_def)

lemma bytes_all_portable: "bytes_all portable_byte s \<longleftrightarrow> list_all portable_byte s"
  by (rule bytes_all_ascii) (rule portable_byte_bound)

lemma bytes_all_hex: "bytes_all is_lower_hex s \<longleftrightarrow> list_all is_lower_hex s"
  by (rule bytes_all_ascii) (rule is_lower_hex_bound)

lemma str_len_ascii: "list_all p s \<Longrightarrow> (\<And>n. p n \<Longrightarrow> n < 128) \<Longrightarrow> str_len s = length s"
  by (induction s) (auto simp: str_len_def utf8_len_def)

lemma safe_component:
  assumes "\<not> unsafe_component p"
  shows "p \<noteq> []" "p \<noteq> lit ''.''" "p \<noteq> lit ''..''" "list_all portable_byte p" "length p \<le> 255"
proof -
  show "p \<noteq> []" "p \<noteq> lit ''.''" "p \<noteq> lit ''..''" using assms by (auto simp: unsafe_component_def lit_def)
  show b: "list_all portable_byte p" using assms by (simp add: unsafe_component_def bytes_all_portable)
  show "length p \<le> 255"
    using assms str_len_ascii [OF b portable_byte_bound] by (simp add: unsafe_component_def)
qed

lemma safe_path_components:
  assumes "validate_relative_path v = Inr ()"
  shows "path_components v = map Normal (split_on 47 v)"
    and "\<forall>p \<in> set (split_on 47 v). \<not> unsafe_component p"
proof -
  from assms show safe: "\<forall>p \<in> set (split_on 47 v). \<not> unsafe_component p"
    by (auto simp: validate_relative_path_def list_ex_iff reject_if_eq_Inr)
  have "hd (split_on 47 v) \<noteq> lit ''.''"
    using safe safe_component(2) split_on_nonempty [of 47 v] hd_in_set by metis
  moreover have "filter (\<lambda>p. p \<noteq> [] \<and> p \<noteq> lit ''.'') (split_on 47 v) = split_on 47 v"
    using safe safe_component(1,2) by (auto simp: filter_id_conv)
  moreover have "map (\<lambda>p. if p = lit ''..'' then ParentDir else Normal p) (split_on 47 v) = map Normal (split_on 47 v)"
    using safe safe_component(3) by auto
  ultimately show "path_components v = map Normal (split_on 47 v)"
    using assms by (simp add: path_components_def validate_relative_path_def Let_def reject_if_eq_Inr)
qed




section \<open>What validation establishes\<close>

definition portable :: "artifact \<Rightarrow> rstr" where
  "portable a = to_ascii_lowercase (art_path a)"

text \<open>Two portable paths that can be installed side by side.\<close>

definition disjoint_paths :: "rstr \<Rightarrow> rstr \<Rightarrow> bool" where
  "disjoint_paths p q \<longleftrightarrow> p \<noteq> q \<and> \<not> is_path_ancestor p q \<and> \<not> is_path_ancestor q p"

definition artifact_ok :: "(rstr \<Rightarrow> url option) \<Rightarrow> artifact \<Rightarrow> bool" where
  "artifact_ok parse_url a \<longleftrightarrow>
     validate_relative_path (art_path a) = Inr () \<and> portable a \<noteq> lit ''manifest.json'' \<and>
     length (art_sha256 a) = 64 \<and> list_all is_lower_hex (art_sha256 a) \<and> 0 < art_size a \<and>
     (\<exists>u host. parse_url (art_url a) = Some u \<and> url_host u = Some host \<and> url_username u = [] \<and>
        url_password u = None \<and>
        (url_scheme u = lit ''https'' \<or>
         url_scheme u = lit ''http'' \<and> host \<in> {lit ''127.0.0.1'', lit ''::1'', lit ''localhost''}))"

lemma validate_artifact_Ok:
  assumes "validate_artifact parse_url paths a = Inr paths1"
  shows "paths1 = portable a # paths" "artifact_ok parse_url a" "\<forall>q \<in> set paths. disjoint_paths q (portable a)"
proof -
  note ok = assms [unfolded validate_artifact_def Let_def and_then_eq_Inr reject_if_eq_Inr]
  from ok show "paths1 = portable a # paths" by (auto simp: portable_def)
  from ok show "\<forall>q \<in> set paths. disjoint_paths q (portable a)"
    by (auto simp: list_ex_iff disjoint_paths_def portable_def)
  from ok have "list_all is_lower_hex (art_sha256 a)" by (auto simp: bytes_all_hex)
  moreover from this ok have "length (art_sha256 a) = 64"
    using str_len_ascii [of is_lower_hex "art_sha256 a", OF _ is_lower_hex_bound] by auto
  ultimately show "artifact_ok parse_url a"
    using ok by (auto simp: artifact_ok_def portable_def ok_or_eq_Inr split: option.splits)
qed

lemma validate_artifacts_Ok:
  assumes "validate_artifacts_from parse_url paths as = Inr ()"
  shows "list_all (artifact_ok parse_url) as"
    and "sorted_wrt (\<lambda>a b. disjoint_paths (portable a) (portable b)) as"
    and "\<forall>a \<in> set as. \<forall>q \<in> set paths. disjoint_paths q (portable a)"
  using assms
proof (induction as arbitrary: paths)
  case (Cons a as)
  {
    case 1
    then show ?case using validate_artifact_Ok(2) Cons.IH(1) by (auto simp: and_then_eq_Inr)
  next
    case 2
    then obtain paths1 where v: "validate_artifact parse_url paths a = Inr paths1"
      "validate_artifacts_from parse_url paths1 as = Inr ()" by (auto simp: and_then_eq_Inr)
    then show ?case using validate_artifact_Ok(1) [OF v(1)] Cons.IH(2,3) [OF v(2)] by auto
  next
    case 3
    then obtain paths1 where v: "validate_artifact parse_url paths a = Inr paths1"
      "validate_artifacts_from parse_url paths1 as = Inr ()" by (auto simp: and_then_eq_Inr)
    then show ?case using validate_artifact_Ok(1,3) [OF v(1)] Cons.IH(3) [OF v(2)] by auto
  }
qed simp_all

lemma windows2_increasing:
  "(\<forall>(a, b) \<in> set (windows2 xs). a < b) \<longleftrightarrow> sorted_wrt (<) (xs :: nat list)"
proof (induction xs)
  case (Cons x xs)
  then show ?case
    by (cases xs) (auto simp: windows2_def dest: order.strict_trans)
qed (simp add: windows2_def)

text \<open>
  A manifest that passes validation is installable: every artifact has a confined path that is not
  the identity record, a pinned digest, a positive size and a credential-free HTTPS or loopback URL; no
  two artifacts collide or contain one another, even ignoring case; the sizes add up to at most 16 GiB;
  the truncation widths increase strictly below the native width; and the files an ONNX runtime needs
  are two different artifacts.
\<close>

theorem valid_manifest_is_installable:
  assumes "manifest_validate parse_url m = Inr ()"
  shows "mf_artifacts m \<noteq> [] \<and> length (mf_artifacts m) \<le> max_artifacts \<and>
    list_all (artifact_ok parse_url) (mf_artifacts m) \<and>
    sorted_wrt (\<lambda>a b. disjoint_paths (portable a) (portable b)) (mf_artifacts m) \<and>
    sum_list (map art_size (mf_artifacts m)) \<le> max_total_artifact_bytes \<and>
    sorted_wrt (<) (dim_matryoshka (mf_dimensions m) @ [dim_native (mf_dimensions m)]) \<and>
    (\<forall>model_file tokenizer_file inputs out pad norm.
       mf_runtime m = Onnx model_file tokenizer_file inputs out pad norm \<longrightarrow>
       model_file \<noteq> tokenizer_file \<and> {model_file, tokenizer_file} \<subseteq> set (map art_path (mf_artifacts m)))"
proof -
  note ok = assms [unfolded manifest_validate_def and_then_eq_Inr reject_if_eq_Inr]
  from ok have v: "validate_artifacts_from parse_url [] (mf_artifacts m) = Inr ()"
    by (auto simp: validate_artifacts_def)
  from ok have "\<forall>(a, b) \<in> set (windows2 (dim_matryoshka (mf_dimensions m))). a < b"
    by (fastforce simp: list_ex_iff)
  then have "sorted_wrt (<) (dim_matryoshka (mf_dimensions m))" by (simp only: windows2_increasing)
  moreover from ok have "\<forall>d \<in> set (dim_matryoshka (mf_dimensions m)). d < dim_native (mf_dimensions m)"
    by (fastforce simp: list_ex_iff)
  moreover from ok have "sum_list (map art_size (mf_artifacts m)) \<le> max_total_artifact_bytes"
    by (auto simp: checked_sum_Some split: option.splits)
  moreover have "model_file \<noteq> tokenizer_file \<and> {model_file, tokenizer_file} \<subseteq> set (map art_path (mf_artifacts m))"
    if "mf_runtime m = Onnx model_file tokenizer_file inputs out pad norm"
    for model_file tokenizer_file inputs out pad norm
  proof -
    from ok have "validate_runtime (mf_runtime m) = Inr ()"
      and "validate_runtime_artifacts (mf_runtime m) (mf_artifacts m) = Inr ()" by simp_all
    then show ?thesis
      using that
      by (auto simp: validate_runtime_def validate_runtime_artifacts_def and_then_eq_Inr reject_if_eq_Inr
          list_ex_iff Let_def)
  qed
  moreover from ok have "mf_artifacts m \<noteq> []" "length (mf_artifacts m) \<le> max_artifacts" by simp_all
  ultimately show ?thesis
    using validate_artifacts_Ok(1,2) [OF v] by (intro conjI allI impI) (simp_all add: sorted_wrt_append)
qed

text \<open>A small manifest for the witnesses, and a URL parser that takes every URL for an HTTPS one.\<close>

definition demo_url :: url where
  "demo_url = \<lparr>url_scheme = lit ''https'', url_host = Some (lit ''h''), url_username = [], url_password = None,
     url_path = lit ''/'', url_query = None, url_fragment = None, url_origin = None\<rparr>"

definition demo_artifact :: "string \<Rightarrow> artifact" where
  "demo_artifact name = \<lparr>art_path = lit name, art_url = lit ''u'', art_sha256 = replicate 64 97, art_size = 7\<rparr>"

definition demo_manifest :: manifest where
  "demo_manifest =
     \<lparr>mf_schema_version = 1, mf_canonical_id = lit ''a/b'', mf_revision = replicate 40 97,
      mf_license = \<lparr>lic_spdx = lit ''MIT'', lic_source_url = lit ''u''\<rparr>,
      mf_semantic_verification = Verified (lit ''e''),
      mf_tokenizer = \<lparr>tok_kind = lit ''t'', tok_max_tokens = 8, tok_lowercase = False\<rparr>,
      mf_pooling = Mean, mf_prefixes = \<lparr>pre_query = [], pre_document = []\<rparr>,
      mf_dimensions = \<lparr>dim_native = 4, dim_matryoshka = [1, 2]\<rparr>,
      mf_tensors = \<lparr>ten_format = lit ''f'', ten_dtype = lit ''d'', ten_architecture = lit ''c''\<rparr>,
      mf_runtime = Onnx (lit ''m.onnx'') (lit ''t.json'')
        \<lparr>in_input_ids = lit ''i'', in_attention_mask = Some (lit ''m''), in_token_type_ids = None\<rparr> (lit ''o'') 0 True,
      mf_artifacts = [demo_artifact ''m.onnx'', demo_artifact ''t.json'']\<rparr>"

lemmas path_defs = validate_relative_path_def path_components_def path_is_absolute_def unsafe_component_def
  bytes_all_portable portable_byte_def is_ascii_alphanumeric_def is_windows_device_name_def
  windows_device_names_def to_ascii_uppercase_def str_len_def utf8_len_def lit_def reject_if_eq_Inr

lemma demo_paths:
  "validate_relative_path (lit ''m.onnx'') = Inr ()" "validate_relative_path (lit ''t.json'') = Inr ()"
  by (simp_all add: path_defs)

lemma str_len_replicate: "str_len (replicate n 97) = n"
  by (induction n) (simp_all add: str_len_def utf8_len_def)

lemma demo_artifacts:
  "validate_artifacts (\<lambda>_. Some demo_url) [demo_artifact ''m.onnx'', demo_artifact ''t.json''] = Inr ()"
proof -
  have "validate_artifact (\<lambda>_. Some demo_url) [] (demo_artifact ''m.onnx'') = Inr [lit ''m.onnx'']"
    unfolding validate_artifact_def demo_artifact_def
    by (simp add: demo_paths Let_def reject_if_eq_Inr to_ascii_lowercase_def and_then_eq_Inr bytes_all_hex
        str_len_replicate demo_url_def is_lower_hex_def ok_or_def list_all_iff)
      (simp add: lit_def str_len_def utf8_len_def max_url_bytes_def)
  moreover have "validate_artifact (\<lambda>_. Some demo_url) [lit ''m.onnx''] (demo_artifact ''t.json'') =
      Inr [lit ''t.json'', lit ''m.onnx'']"
    unfolding validate_artifact_def demo_artifact_def
    by (simp add: demo_paths Let_def reject_if_eq_Inr to_ascii_lowercase_def and_then_eq_Inr bytes_all_hex
        str_len_replicate demo_url_def is_lower_hex_def ok_or_def list_all_iff)
      (simp add: lit_def str_len_def utf8_len_def max_url_bytes_def is_path_ancestor_def)
  ultimately show ?thesis by (simp add: validate_artifacts_def)
qed

lemma demo_manifest_valid: "manifest_validate (\<lambda>_. Some demo_url) demo_manifest = Inr ()"
proof -
  have "validate_id (lit ''a/b'') = Inr ()"
    by (simp add: validate_id_def reject_if_eq_Inr lit_def str_len_def utf8_len_def bytes_all_portable
        portable_byte_def is_ascii_alphanumeric_def)
  moreover have "validate_bounded_fields demo_manifest = Inr ()"
    by (simp add: validate_bounded_fields_def demo_manifest_def and_then_eq_Inr reject_if_eq_Inr flatten_options_def
        lit_def str_len_def utf8_len_def max_metadata_text_bytes_def max_url_bytes_def max_tensor_name_bytes_def)
  moreover have "validate_runtime (mf_runtime demo_manifest) = Inr ()"
    by (simp add: validate_runtime_def demo_manifest_def demo_paths and_then_eq_Inr reject_if_eq_Inr
        flatten_options_def blank_option_def trim_empty_iff Let_def)
      (simp add: lit_def is_whitespace_def)
  moreover have "validate_runtime_artifacts (mf_runtime demo_manifest) (mf_artifacts demo_manifest) = Inr ()"
    by (simp add: validate_runtime_artifacts_def demo_manifest_def reject_if_eq_Inr demo_artifact_def)
  moreover have "bytes_all is_lower_hex (replicate 40 97)"
    by (simp add: bytes_all_hex is_lower_hex_def list_all_iff)
  ultimately show ?thesis
    using demo_artifacts
    unfolding manifest_validate_def
    by (simp add: reject_if_eq_Inr and_then_eq_Inr)
      (simp add: demo_manifest_def str_len_replicate schema_version_def trim_empty_iff demo_url_def windows2_def
        max_matryoshka_dimensions_def max_artifacts_def demo_artifact_def checked_add_def word_limit_def
        max_total_artifact_bytes_def, simp add: lit_def is_whitespace_def)
qed

theorem valid_manifest_is_installable_witness:
  "list_all (artifact_ok (\<lambda>_. Some demo_url)) (mf_artifacts demo_manifest) \<and>
   disjoint_paths (portable (demo_artifact ''m.onnx'')) (portable (demo_artifact ''t.json'')) \<and>
   sorted_wrt (<) [1, 2, 4 :: nat]"
  using valid_manifest_is_installable [OF demo_manifest_valid] by (simp add: demo_manifest_def)

section \<open>Fingerprints identify the inference contract\<close>

lemma sort_key_mset:
  assumes "mset (map f xs) = mset (map f ys)" and "\<And>x y. f x = f y \<Longrightarrow> g x = g y"
  shows "map g (sort_key f xs) = map g (sort_key f ys)"
proof -
  have "map f (sort_key f zs) = sort (map f zs)" for zs
    by (rule properties_for_sort [symmetric]) simp_all
  then have "map f (sort_key f xs) = map f (sort_key f ys)"
    using assms(1) by (metis properties_for_sort sorted_sort mset_sort)
  then have "list_all2 (\<lambda>x y. f x = f y) (sort_key f xs) (sort_key f ys)"
    by (simp add: list_eq_iff_nth_eq list_all2_conv_all_nth)
  then have "list_all2 (\<lambda>x y. g x = g y) (sort_key f xs) (sort_key f ys)"
    by (rule list_all2_mono) (rule assms(2))
  then show ?thesis by (simp add: list_eq_iff_nth_eq list_all2_conv_all_nth)
qed

text \<open>
  The semantic fingerprint, which is the cache key and the unit of trust, depends on the inference
  contract only: two valid manifests that agree on it give the same fingerprint, in whatever order they
  list the artifacts, wherever these are downloaded from, and whatever licence or verification status
  they declare. The same holds for the artifact fingerprint.
\<close>

theorem fingerprints_ignore_order_and_trust:
  assumes "manifest_validate (fe_parse_url env) m = Inr ()" and "manifest_validate (fe_parse_url env) m' = Inr ()"
    and "mset (map artifact_order (mf_artifacts m)) = mset (map artifact_order (mf_artifacts m'))"
    and "(contract_of m)\<lparr>con_artifacts := []\<rparr> = (contract_of m')\<lparr>con_artifacts := []\<rparr>"
  shows "semantic_fingerprint env m = semantic_fingerprint env m' \<and>
    artifact_fingerprint env m = artifact_fingerprint env m' \<and> cache_key env m = cache_key env m'"
proof -
  have "map semantic_artifact_from (sort_key artifact_order (mf_artifacts m)) =
      map semantic_artifact_from (sort_key artifact_order (mf_artifacts m'))"
    by (rule sort_key_mset [OF assms(3)]) (simp add: artifact_order_def semantic_artifact_from_def)
  then have "contract_of m = contract_of m'" using assms(4) by (simp add: contract_of_def)
  then have sem: "semantic_fingerprint env m = semantic_fingerprint env m'"
    using assms(1,2) by (simp add: semantic_fingerprint_def)
  have "map (\<lambda>a. [0] @ as_bytes (art_path a) @ [0] @ as_bytes (art_sha256 a) @ [0] @ le_bytes (art_size a))
        (sort_key artifact_order (mf_artifacts m)) =
      map (\<lambda>a. [0] @ as_bytes (art_path a) @ [0] @ as_bytes (art_sha256 a) @ [0] @ le_bytes (art_size a))
        (sort_key artifact_order (mf_artifacts m'))"
    by (rule sort_key_mset [OF assms(3)]) (simp add: artifact_order_def)
  then have "artifact_fingerprint env m = artifact_fingerprint env m'"
    using assms(4) by (simp add: artifact_fingerprint_def contract_of_def)
  with sem show ?thesis by (simp add: cache_key_def)
qed


theorem fingerprints_ignore_order_and_trust_witness:
  "let env = \<lparr>fe_parse_url = (\<lambda>_. Some demo_url), fe_contract_json = (\<lambda>_. Inr [1, 2]), fe_sha256 = (\<lambda>b. b)\<rparr>;
       m = demo_manifest\<lparr>mf_license := \<lparr>lic_spdx = lit ''X'', lic_source_url = lit ''v''\<rparr>\<rparr>
   in semantic_fingerprint env demo_manifest = semantic_fingerprint env m"
proof -
  let ?env = "\<lparr>fe_parse_url = (\<lambda>_. Some demo_url), fe_contract_json = (\<lambda>_. Inr [1, 2]), fe_sha256 = (\<lambda>b. b)\<rparr>
    :: fingerprint_env"
  let ?m = "demo_manifest\<lparr>mf_license := \<lparr>lic_spdx = lit ''X'', lic_source_url = lit ''v''\<rparr>\<rparr>"
  have "manifest_validate (\<lambda>_. Some demo_url) ?m = Inr ()"
    using demo_manifest_valid
    by (simp add: manifest_validate_def validate_bounded_fields_def reject_if_eq_Inr and_then_eq_Inr Let_def)
      (simp add: lit_def is_whitespace_def trim_empty_iff str_len_def utf8_len_def max_metadata_text_bytes_def
        max_url_bytes_def demo_url_def)
  then show ?thesis
    using fingerprints_ignore_order_and_trust [of ?env demo_manifest ?m] demo_manifest_valid
    by (simp add: contract_of_def)
qed

end
