(* ===== verification/Store_Fs.thy ===== *)
theory Store_Fs
  imports Manifest Registry
begin

text \<open>
  The transactions of \<^verbatim>\<open>impossible-models/src/store.rs\<close> on the cache directory: promotion of a staged
  model, reconciliation of an interrupted promotion, quarantine, and deletion through a tombstone. Every
  file system call may succeed, fail, or be the point where the machine stops; what a stop leaves on
  disk is any prefix of the directory changes that were not yet made durable by a sync. The last
  sections prove that a stop at any point is recoverable.
\<close>

section \<open>The cache directory\<close>

text \<open>A directory keeps its entries in the order of their names, the order the code visits them in.\<close>

datatype node = Dir "(rstr \<times> node) list" | File bytes | Link | Special

text \<open>The entries two levels below the cache root, as changed by renames, creations and removals.\<close>

type_synonym view = "(cache_path, node) registry"

datatype fs_op = Rename cache_path cache_path | Put cache_path node | Remove cache_path

fun apply_op :: "fs_op \<Rightarrow> view \<Rightarrow> view" where
  "apply_op (Rename a b) v = (case reg_get v a of None \<Rightarrow> v | Some n \<Rightarrow> reg_insert b n (reg_remove a v))"
| "apply_op (Put a n) v = reg_insert a n v"
| "apply_op (Remove a) v = reg_remove a v"

fun touches :: "cache_path \<Rightarrow> fs_op \<Rightarrow> bool" where
  "touches d (Rename a b) = (butlast a = d \<or> butlast b = d)"
| "touches d (Put a n) = (butlast a = d)"
| "touches d (Remove a) = (butlast a = d)"

record core =
  co_disk :: view
  co_pending :: "fs_op list"
  co_sequence :: "64 word"

definition visible :: "core \<Rightarrow> view" where
  "visible c = fold apply_op (co_pending c) (co_disk c)"

abbreviation look :: "core \<Rightarrow> cache_path \<Rightarrow> node option" where
  "look c p \<equiv> reg_get (visible c) p"

definition mutate :: "fs_op \<Rightarrow> core \<Rightarrow> core" where
  "mutate fsop c = c\<lparr>co_pending := co_pending c @ [fsop]\<rparr>"

text \<open>A sync of a directory makes every change up to the last one that touches it durable.\<close>

definition flush :: "cache_path \<Rightarrow> core \<Rightarrow> core" where
  "flush d c =
     c\<lparr>co_disk := fold apply_op (rev (dropWhile (\<lambda>fsop. \<not> touches d fsop) (rev (co_pending c)))) (co_disk c),
       co_pending := rev (takeWhile (\<lambda>fsop. \<not> touches d fsop) (rev (co_pending c)))\<rparr>"

text \<open>What a stop may leave behind.\<close>

definition crash_views :: "core \<Rightarrow> view list" where
  "crash_views c = map (\<lambda>n. fold apply_op (take n (co_pending c)) (co_disk c)) [0..<Suc (length (co_pending c))]"

section \<open>Programs\<close>

text \<open>
  The fate of one call: it goes through, it fails, the machine stops at it, or (for a recursive removal)
  it fails or stops half-way, leaving some of the entries.
\<close>

datatype io_choice = Go | Fail io_error | Stop | Leaves "(rstr \<times> node) list" bool

datatype 'a run = Returns 'a | Errs model_error | Stopped_Here

type_synonym world = "core \<times> io_choice list"
type_synonym 'a prog = "world \<Rightarrow> world \<times> 'a run"

definition interrupted :: io_error where
  "interrupted = \<lparr>io_kind = lit ''Interrupted'', io_text = lit ''interrupted''\<rparr>"

definition io :: "(core \<Rightarrow> core \<times> 'a run) \<Rightarrow> 'a prog" where
  "io act w =
     (case w of (c, script) \<Rightarrow>
      (case script of
         [] \<Rightarrow> (case act c of (c', r) \<Rightarrow> ((c', []), r))
       | choice # rest \<Rightarrow>
          (case choice of
             Go \<Rightarrow> (case act c of (c', r) \<Rightarrow> ((c', rest), r))
           | Fail e \<Rightarrow> ((c, rest), Errs (ME_Io e))
           | Stop \<Rightarrow> ((c, rest), Stopped_Here)
           | Leaves _ stops \<Rightarrow> ((c, rest), if stops then Stopped_Here else Errs (ME_Io interrupted)))))"

definition ret :: "'a \<Rightarrow> 'a prog" where
  "ret x w = (w, Returns x)"

definition throw :: "model_error \<Rightarrow> 'a prog" where
  "throw e w = (w, Errs e)"

definition seq :: "'a prog \<Rightarrow> ('a \<Rightarrow> 'b prog) \<Rightarrow> 'b prog" where
  "seq m k w =
     (case m w of (w', Returns x) \<Rightarrow> k x w' | (w', Errs e) \<Rightarrow> (w', Errs e) | (w', Stopped_Here) \<Rightarrow> (w', Stopped_Here))"

text \<open>A call whose error the program looks at.\<close>

definition attempt :: "'a prog \<Rightarrow> (model_error + 'a) prog" where
  "attempt m w =
     (case m w of (w', Returns x) \<Rightarrow> (w', Returns (Inr x)) | (w', Errs e) \<Rightarrow> (w', Returns (Inl e))
      | (w', Stopped_Here) \<Rightarrow> (w', Stopped_Here))"

definition require :: "bool \<Rightarrow> model_error \<Rightarrow> unit prog" where
  "require ok e = (if ok then ret () else throw e)"

section \<open>File system calls\<close>

definition not_found :: io_error where
  "not_found = \<lparr>io_kind = lit ''NotFound'', io_text = lit ''not found''\<rparr>"

definition fs_metadata :: "cache_path \<Rightarrow> node option prog" where
  "fs_metadata p = io (\<lambda>c. (c, Returns (look c p)))"

fun is_dir :: "node \<Rightarrow> bool" where
  "is_dir (Dir _) = True"
| "is_dir _ = False"

fun is_file :: "node \<Rightarrow> bool" where
  "is_file (File _) = True"
| "is_file _ = False"

text \<open>\<^verbatim>\<open>rename(2)\<close>: over nothing, over an empty directory, or a file over a file.\<close>

definition rename_ok :: "view \<Rightarrow> cache_path \<Rightarrow> cache_path \<Rightarrow> bool" where
  "rename_ok v a b =
     (case reg_get v a of None \<Rightarrow> False
      | Some n \<Rightarrow>
          (case reg_get v b of None \<Rightarrow> True
           | Some n' \<Rightarrow> if is_dir n then n' = Dir [] else \<not> is_dir n'))"

definition fs_rename :: "cache_path \<Rightarrow> cache_path \<Rightarrow> unit prog" where
  "fs_rename a b = io (\<lambda>c.
     if rename_ok (visible c) a b then (mutate (Rename a b) c, Returns ()) else (c, Errs (ME_Io not_found)))"

definition sync_dir :: "cache_path \<Rightarrow> unit prog" where
  "sync_dir d = io (\<lambda>c. (flush d c, Returns ()))"

text \<open>\<^verbatim>\<open>create_new\<close>.\<close>

definition fs_create_new :: "cache_path \<Rightarrow> unit prog" where
  "fs_create_new p = io (\<lambda>c. if look c p = None then (mutate (Put p (File [])) c, Returns ()) else (c, Errs (ME_Io not_found)))"

definition fs_remove_file :: "cache_path \<Rightarrow> unit prog" where
  "fs_remove_file p = io (\<lambda>c. case look c p of
     None \<Rightarrow> (c, Errs (ME_Io not_found))
   | Some n \<Rightarrow> if is_dir n then (c, Errs (ME_Io not_found)) else (mutate (Remove p) c, Returns ()))"

text \<open>\<^verbatim>\<open>remove_dir_all\<close>, which an error or a stop leaves half-gone.\<close>

definition fs_remove_dir_all :: "cache_path \<Rightarrow> unit prog" where
  "fs_remove_dir_all p w =
     (case w of
        (c, Leaves remnant stops # rest) \<Rightarrow>
          ((if look c p = None then c else mutate (Put p (Dir remnant)) c, rest),
           if stops then Stopped_Here else Errs (ME_Io interrupted))
      | _ \<Rightarrow> io (\<lambda>c. if look c p = None then (c, Errs (ME_Io not_found)) else (mutate (Remove p) c, Returns ())) w)"

text \<open>A call that changes nothing the model keeps (creating a top-level directory, checking containment).\<close>

definition fs_check :: "unit prog" where
  "fs_check = io (\<lambda>c. (c, Returns ()))"

section \<open>Transactions\<close>

text \<open>The paths of one identity, by its cache key.\<close>

abbreviation final_path :: "rstr \<Rightarrow> cache_path" where "final_path k \<equiv> [lit ''models'', k]"
abbreviation staging_path :: "rstr \<Rightarrow> cache_path" where "staging_path k \<equiv> [lit ''staging'', k @ lit ''.partial'']"
abbreviation marker_path :: "rstr \<Rightarrow> cache_path" where "marker_path k \<equiv> [lit ''transactions'', k @ lit ''.repair'']"
abbreviation backup_path :: "rstr \<Rightarrow> cache_path" where "backup_path k \<equiv> [lit ''transactions'', k @ lit ''.previous'']"
abbreviation tombstone_path :: "rstr \<Rightarrow> cache_path" where "tombstone_path k \<equiv> [lit ''transactions'', k @ lit ''.deleted'']"
abbreviation transaction_root :: cache_path where "transaction_root \<equiv> [lit ''transactions'']"

definition quarantine_path :: "rstr \<Rightarrow> nat \<Rightarrow> nat \<Rightarrow> cache_path" where
  "quarantine_path k pid sequence =
     [lit ''quarantine'', k @ lit ''.'' @ decimal pid @ lit ''.'' @ decimal sequence @ lit ''.invalid'']"

definition durable_rename :: "cache_path \<Rightarrow> cache_path \<Rightarrow> unit prog" where
  "durable_rename a b =
     (let from_parent = butlast a; to_parent = butlast b in
      seq (sync_dir a) (\<lambda>_.
      seq (sync_dir from_parent) (\<lambda>_.
      seq (if from_parent \<noteq> to_parent then sync_dir to_parent else ret ()) (\<lambda>_.
      seq (fs_rename a b) (\<lambda>_.
      seq (sync_dir b) (\<lambda>_.
      seq (sync_dir from_parent) (\<lambda>_.
      if from_parent \<noteq> to_parent then sync_dir to_parent else ret ())))))))"

definition verify_transaction_final :: "cache_path \<Rightarrow> unit prog" where
  "verify_transaction_final p =
     seq (fs_metadata p) (\<lambda>m.
     require (case m of Some n \<Rightarrow> is_dir n | None \<Rightarrow> False)
       (invalid ''repair transaction did not restore a safe installed state''))"

text \<open>
  The search for a free quarantine name. The bound is one more than the number of entries, so that the
  search always finds a name (below); running out of it would stand for a search that never returns.
\<close>

definition take_sequence :: "nat prog" where
  "take_sequence w =
     (case w of (c, script) \<Rightarrow>
        ((c\<lparr>co_sequence := co_sequence c + 1\<rparr>, script), Returns (unat (co_sequence c))))"

fun free_quarantine :: "nat \<Rightarrow> rstr \<Rightarrow> nat \<Rightarrow> cache_path prog" where
  "free_quarantine 0 k pid = (\<lambda>w. (w, Stopped_Here))"
| "free_quarantine (Suc n) k pid =
     seq take_sequence (\<lambda>sequence.
     seq (fs_metadata (quarantine_path k pid sequence)) (\<lambda>m.
     if m = None then ret (quarantine_path k pid sequence) else free_quarantine n k pid))"

definition pick_quarantine :: "rstr \<Rightarrow> nat \<Rightarrow> cache_path prog" where
  "pick_quarantine k pid w = free_quarantine (Suc (length (visible (fst w)))) k pid w"

definition quarantine_backup :: "rstr \<Rightarrow> nat \<Rightarrow> unit prog" where
  "quarantine_backup k pid =
     seq (fs_metadata (backup_path k)) (\<lambda>m.
     if m = None then ret ()
     else
      seq fs_check (\<lambda>_.
      seq (sync_dir []) (\<lambda>_.
      seq (pick_quarantine k pid) (\<lambda>q.
      durable_rename (backup_path k) q))))"

definition reconcile_repair :: "rstr \<Rightarrow> nat \<Rightarrow> unit prog" where
  "reconcile_repair k pid =
     seq (fs_metadata (marker_path k)) (\<lambda>marker.
     case marker of None \<Rightarrow> ret ()
     | Some n \<Rightarrow>
      seq (require (is_file n) (invalid ''repair marker is not a regular file'')) (\<lambda>_.
      seq (fs_metadata (final_path k)) (\<lambda>f.
      seq (fs_metadata (staging_path k)) (\<lambda>s.
      seq (fs_metadata (backup_path k)) (\<lambda>b.
      seq (case (f \<noteq> None, s \<noteq> None, b \<noteq> None) of
             (True, True, False) \<Rightarrow>
               seq (durable_rename (final_path k) (backup_path k)) (\<lambda>_.
               durable_rename (staging_path k) (final_path k))
           | (False, True, True) \<Rightarrow> durable_rename (staging_path k) (final_path k)
           | (False, False, True) \<Rightarrow> durable_rename (backup_path k) (final_path k)
           | (True, _, _) \<Rightarrow> ret ()
           | _ \<Rightarrow> throw (invalid ''repair transaction cannot be reconciled safely'')) (\<lambda>_.
      seq (verify_transaction_final (final_path k)) (\<lambda>_.
      seq (quarantine_backup k pid) (\<lambda>_.
      seq (fs_remove_file (marker_path k)) (\<lambda>_.
      sync_dir transaction_root)))))))))"

text \<open>
  \<^verbatim>\<open>sync_staged_directory\<close>: every file and directory of the staged tree, bottom up; links and special
  files are refused.
\<close>

fun sync_staged :: "node \<Rightarrow> unit prog" and sync_staged_entries :: "(rstr \<times> node) list \<Rightarrow> unit prog" where
  "sync_staged (Dir entries) =
     seq fs_check (\<lambda>_. seq (sync_staged_entries entries) (\<lambda>_. fs_check))"
| "sync_staged (File _) = fs_check"
| "sync_staged Link = throw (invalid ''staged tree contains a symlink or reparse point'')"
| "sync_staged Special = throw (invalid ''staged tree contains a special filesystem entry'')"
| "sync_staged_entries [] = ret ()"
| "sync_staged_entries (e # entries) =
     seq fs_check (\<lambda>_. seq (sync_staged (snd e)) (\<lambda>_. sync_staged_entries entries))"

definition sync_staged_tree :: "rstr \<Rightarrow> unit prog" where
  "sync_staged_tree k =
     seq fs_check (\<lambda>_.
     seq (fs_metadata (staging_path k)) (\<lambda>m.
     seq (case m of Some (Dir entries) \<Rightarrow> sync_staged (Dir entries)
          | _ \<Rightarrow> throw (invalid ''staged tree contains an unsafe directory'')) (\<lambda>_.
     seq (sync_dir [lit ''staging'']) (\<lambda>_. sync_dir []))))"

definition promote :: "rstr \<Rightarrow> nat \<Rightarrow> unit prog" where
  "promote k pid =
     seq (reconcile_repair k pid) (\<lambda>_.
     seq (sync_staged_tree k) (\<lambda>_.
     seq (fs_metadata (final_path k)) (\<lambda>f.
     case f of None \<Rightarrow> durable_rename (staging_path k) (final_path k)
     | Some previous \<Rightarrow>
      seq fs_check (\<lambda>_.
      seq (require (previous \<noteq> Link) (invalid ''path contains a symlink or reparse point'')) (\<lambda>_.
      seq fs_check (\<lambda>_.
      seq (sync_dir []) (\<lambda>_.
      seq (fs_metadata (backup_path k)) (\<lambda>b.
      seq (fs_metadata (marker_path k)) (\<lambda>m.
      seq (require (b = None \<and> m = None) (invalid ''repair transaction state is not clean'')) (\<lambda>_.
      seq (fs_create_new (marker_path k)) (\<lambda>_.
      seq fs_check (\<lambda>_.
      seq (sync_dir transaction_root) (\<lambda>_.
      seq (attempt (durable_rename (final_path k) (backup_path k))) (\<lambda>displaced.
      case displaced of
        Inl e \<Rightarrow>
          seq (verify_transaction_final (final_path k)) (\<lambda>_.
          seq (fs_remove_file (marker_path k)) (\<lambda>_.
          seq (sync_dir transaction_root) (\<lambda>_. throw e)))
      | Inr _ \<Rightarrow>
      seq (attempt (durable_rename (staging_path k) (final_path k))) (\<lambda>promoted.
      case promoted of
        Inl _ \<Rightarrow>
          seq (attempt (durable_rename (backup_path k) (final_path k))) (\<lambda>restored.
          case restored of
            Inl _ \<Rightarrow> throw (invalid ''repair promotion was interrupted and requires reconciliation'')
          | Inr _ \<Rightarrow>
              seq (verify_transaction_final (final_path k)) (\<lambda>_.
              seq (fs_remove_file (marker_path k)) (\<lambda>_.
              seq (sync_dir transaction_root) (\<lambda>_.
              throw (invalid ''replacement promotion failed; the previous model was restored'')))))
      | Inr _ \<Rightarrow>
          seq (verify_transaction_final (final_path k)) (\<lambda>_.
          seq (quarantine_backup k pid) (\<lambda>_.
          seq (fs_remove_file (marker_path k)) (\<lambda>_.
          sync_dir transaction_root))))))))))))))))))"

section \<open>Deletion\<close>

definition remove_deletion_tombstone :: "rstr \<Rightarrow> unit prog" where
  "remove_deletion_tombstone k =
     seq (fs_metadata (tombstone_path k)) (\<lambda>m.
     case m of None \<Rightarrow> ret ()
     | Some n \<Rightarrow>
      seq (require (is_dir n) (invalid ''deletion tombstone is not a regular directory'')) (\<lambda>_.
      seq (fs_remove_dir_all (tombstone_path k)) (\<lambda>_.
      sync_dir transaction_root)))"

text \<open>
  The identity record of a directory: \<^verbatim>\<open>read_contained_manifest\<close> of a directory nobody writes to at the
  same time (the caller holds the exclusive lock).
\<close>

record store_env = fingerprint_env +
  se_decode :: "bytes \<Rightarrow> rstr + manifest"

definition read_contained_manifest :: "store_env \<Rightarrow> node \<Rightarrow> model_error + manifest" where
  "read_contained_manifest env n =
     (case n of
        Dir entries \<Rightarrow>
          (case map_of entries (lit ''manifest.json'') of
             None \<Rightarrow> Err (invalid ''manifest is unavailable'')
           | Some (File data) \<Rightarrow>
               and_then (reject_if (max_manifest_bytes < length data)
                 (invalid ''manifest must be a bounded regular non-reparse file'')) (\<lambda>_.
               from_json (fe_parse_url env) (se_decode env) data)
           | Some Link \<Rightarrow> Err (invalid ''manifest is unavailable'')
           | Some _ \<Rightarrow> Err (invalid ''manifest must be a bounded regular non-reparse file''))
      | _ \<Rightarrow> Err (invalid ''manifest directory cannot be a symlink or reparse point''))"

definition fingerprint_part :: "store_env \<Rightarrow> fingerprint_env" where
  "fingerprint_part env =
     \<lparr>fe_parse_url = fe_parse_url env, fe_contract_json = fe_contract_json env, fe_sha256 = fe_sha256 env\<rparr>"

definition delete_locked :: "store_env \<Rightarrow> manifest \<Rightarrow> rstr \<Rightarrow> nat \<Rightarrow> bool prog" where
  "delete_locked env manifest k pid =
     seq (reconcile_repair k pid) (\<lambda>_.
     seq fs_check (\<lambda>_.
     seq (sync_dir transaction_root) (\<lambda>_.
     seq (sync_dir []) (\<lambda>_.
     seq (fs_metadata (tombstone_path k)) (\<lambda>t.
     seq (if t \<noteq> None then remove_deletion_tombstone k else ret ()) (\<lambda>_.
     seq (fs_metadata (final_path k)) (\<lambda>f.
     case f of None \<Rightarrow> ret (t \<noteq> None)
     | Some n \<Rightarrow>
      seq (require (is_dir n) (invalid ''refusing to delete non-directory or symlink target'')) (\<lambda>_.
      seq fs_check (\<lambda>_.
      case read_contained_manifest env n of Inl e \<Rightarrow> throw e
      | Inr stored \<Rightarrow>
      seq (require (stored = manifest \<and>
             artifact_fingerprint (fingerprint_part env) stored = artifact_fingerprint (fingerprint_part env) manifest)
           (invalid ''stored manifest does not exactly match deletion request'')) (\<lambda>_.
      seq (durable_rename (final_path k) (tombstone_path k)) (\<lambda>_.
      seq (remove_deletion_tombstone k) (\<lambda>_.
      ret True))))))))))))"

section \<open>A logic for interrupted programs\<close>

text \<open>
  \<open>triple b I P m Q E\<close>: started where \<open>P\<close> holds and every view a stop may leave satisfies \<open>I\<close>, the
  program keeps that guarantee at every moment; it returns into \<open>Q\<close> and fails into \<open>E\<close>; and when \<open>b\<close> says
  that no call is disturbed, it does not stop.
\<close>

definition crash_ok :: "(view \<Rightarrow> bool) \<Rightarrow> core \<Rightarrow> bool" where
  "crash_ok safe c \<longleftrightarrow> list_all safe (crash_views c)"

definition triple ::
  "bool \<Rightarrow> (view \<Rightarrow> bool) \<Rightarrow> (core \<Rightarrow> bool) \<Rightarrow> 'a prog \<Rightarrow> ('a \<Rightarrow> core \<Rightarrow> bool) \<Rightarrow> (core \<Rightarrow> bool) \<Rightarrow> bool" where
  "triple calm safe P m Q E \<longleftrightarrow>
     (\<forall>c script c' script' r. crash_ok safe c \<and> P c \<and> (calm \<longrightarrow> script = []) \<and> m (c, script) = ((c', script'), r) \<longrightarrow>
        crash_ok safe c' \<and> (calm \<longrightarrow> script' = []) \<and>
        (case r of Returns x \<Rightarrow> Q x c' | Errs _ \<Rightarrow> E c' | Stopped_Here \<Rightarrow> \<not> calm))"

lemma crash_ok_alt:
  "crash_ok safe c \<longleftrightarrow> (\<forall>n \<le> length (co_pending c). safe (fold apply_op (take n (co_pending c)) (co_disk c)))"
  by (simp add: crash_ok_def crash_views_def list_all_iff less_Suc_eq_le image_iff del: upt_Suc)
    (metis atLeastLessThan_iff le0 le_imp_less_Suc less_Suc_eq_le)

lemma crash_ok_mutate:
  "crash_ok safe (mutate fsop c) \<longleftrightarrow> crash_ok safe c \<and> safe (apply_op fsop (visible c))"
  by (auto simp: crash_ok_alt mutate_def visible_def le_Suc_eq)

lemma crash_ok_visible: "crash_ok safe c \<Longrightarrow> safe (visible c)"
  by (auto simp: crash_ok_alt visible_def)

lemma visible_mutate [simp]: "visible (mutate fsop c) = apply_op fsop (visible c)"
  by (simp add: visible_def mutate_def)

lemma flush_split:
  obtains gone where "co_pending c = gone @ co_pending (flush d c)"
    and "co_disk (flush d c) = fold apply_op gone (co_disk c)"
proof
  show "co_pending c = rev (dropWhile (\<lambda>fsop. \<not> touches d fsop) (rev (co_pending c))) @ co_pending (flush d c)"
    by (simp add: flush_def rev_append [symmetric] del: rev_append)
qed (simp add: flush_def)

lemma flush_simps [simp]: "co_sequence (flush d c) = co_sequence c"
  by (simp add: flush_def)

lemma flush_all: "co_pending c \<noteq> [] \<Longrightarrow> touches d (last (co_pending c)) \<Longrightarrow> co_pending (flush d c) = []"
  by (cases "co_pending c" rule: rev_cases) (simp_all add: flush_def)

lemma pending_mutate [simp]: "co_pending (mutate fsop c) = co_pending c @ [fsop]"
  by (simp add: mutate_def)

lemma flush_nothing: "co_pending c = [] \<Longrightarrow> co_pending (flush d c) = []"
  by (simp add: flush_def)

lemma visible_flush [simp]: "visible (flush d c) = visible c"
proof -
  obtain gone where p: "co_pending c = gone @ co_pending (flush d c)"
    "co_disk (flush d c) = fold apply_op gone (co_disk c)" by (rule flush_split)
  show ?thesis unfolding visible_def p(2) by (subst p(1)) simp
qed

lemma crash_ok_flush: "crash_ok safe c \<Longrightarrow> crash_ok safe (flush d c)"
proof -
  assume ok: "crash_ok safe c"
  obtain gone where p: "co_pending c = gone @ co_pending (flush d c)"
    "co_disk (flush d c) = fold apply_op gone (co_disk c)" by (rule flush_split)
  have "safe (fold apply_op (take n (co_pending (flush d c))) (co_disk (flush d c)))"
    if n: "n \<le> length (co_pending (flush d c))" for n
  proof -
    have "length gone + n \<le> length (co_pending c)" using n by (subst p(1)) simp
    then have "safe (fold apply_op (take (length gone + n) (co_pending c)) (co_disk c))"
      using ok by (simp add: crash_ok_alt)
    then show ?thesis using p(2) by (subst (asm) p(1)) simp
  qed
  then show ?thesis by (simp add: crash_ok_alt)
qed

lemma triple_ret: "(\<And>c. P c \<Longrightarrow> Q x c) \<Longrightarrow> triple calm safe P (ret x) Q E"
  by (simp add: triple_def ret_def)

lemma triple_throw: "(\<And>c. P c \<Longrightarrow> E c) \<Longrightarrow> triple calm safe P (throw e) Q E"
  by (simp add: triple_def throw_def)

lemma triple_require: "(\<And>c. P c \<Longrightarrow> if ok then Q () c else E c) \<Longrightarrow> triple calm safe P (require ok e) Q E"
  by (simp add: require_def triple_ret triple_throw)

text \<open>The triple as a rule to use and a rule to show.\<close>

lemma tripleD:
  assumes "triple calm safe P m Q E" and "crash_ok safe c" and "P c" and "calm \<longrightarrow> script = []"
    and "m (c, script) = ((c', script'), r)"
  shows "crash_ok safe c' \<and> (calm \<longrightarrow> script' = []) \<and>
      (case r of Returns x \<Rightarrow> Q x c' | Errs _ \<Rightarrow> E c' | Stopped_Here \<Rightarrow> \<not> calm)"
  using assms unfolding triple_def by blast

lemma tripleI:
  assumes "\<And>c script c' script' r. crash_ok safe c \<Longrightarrow> P c \<Longrightarrow> calm \<longrightarrow> script = [] \<Longrightarrow>
      m (c, script) = ((c', script'), r) \<Longrightarrow> crash_ok safe c' \<and> (calm \<longrightarrow> script' = []) \<and>
      (case r of Returns x \<Rightarrow> Q x c' | Errs _ \<Rightarrow> E c' | Stopped_Here \<Rightarrow> \<not> calm)"
  shows "triple calm safe P m Q E"
  unfolding triple_def by (intro allI impI) (elim conjE, rule assms)

lemma triple_io:
  assumes "\<And>c c' r. P c \<Longrightarrow> crash_ok safe c \<Longrightarrow> act c = (c', r) \<Longrightarrow>
      crash_ok safe c' \<and> (case r of Returns x \<Rightarrow> Q x c' | Errs _ \<Rightarrow> E c' | Stopped_Here \<Rightarrow> False)"
    and "\<And>c. \<not> calm \<Longrightarrow> P c \<Longrightarrow> E c"
  shows "triple calm safe P (io act) Q E"
proof (rule tripleI)
  fix c script c' script' r
  assume pre: "crash_ok safe c" "P c" "calm \<longrightarrow> script = []" and run: "io act (c, script) = ((c', script'), r)"
  obtain c1 r1 where a: "act c = (c1, r1)" by (metis prod.collapse)
  note step = assms(1) [OF pre(2,1) a] and fault = assms(2) [OF _ pre(2)]
  show "crash_ok safe c' \<and> (calm \<longrightarrow> script' = []) \<and>
      (case r of Returns x \<Rightarrow> Q x c' | Errs _ \<Rightarrow> E c' | Stopped_Here \<Rightarrow> \<not> calm)"
  proof (cases script)
    case Nil
    then show ?thesis using run a step by (cases r1) (auto simp: io_def)
  next
    case (Cons choice rest)
    then have "\<not> calm" using pre(3) by simp
    then show ?thesis using run a step fault pre(1) Cons
      by (cases choice; cases r1) (auto simp: io_def split: if_split_asm)
  qed
qed

lemma triple_seq:
  assumes "triple calm safe P m Mid E" and "\<And>x. triple calm safe (Mid x) (k x) Q E"
  shows "triple calm safe P (seq m k) Q E"
proof (rule tripleI)
  fix c script c' script' r
  assume pre: "crash_ok safe c" "P c" "calm \<longrightarrow> script = []" and run: "seq m k (c, script) = ((c', script'), r)"
  obtain c1 s1 r1 where m: "m (c, script) = ((c1, s1), r1)" by (metis prod.collapse)
  note first = tripleD [OF assms(1) pre m]
  show "crash_ok safe c' \<and> (calm \<longrightarrow> script' = []) \<and>
      (case r of Returns x \<Rightarrow> Q x c' | Errs _ \<Rightarrow> E c' | Stopped_Here \<Rightarrow> \<not> calm)"
  proof (cases r1)
    case (Returns x)
    then have "k x (c1, s1) = ((c', script'), r)" using run m by (simp add: seq_def)
    from tripleD [OF assms(2) _ _ _ this] show ?thesis using first Returns by simp
  qed (use run m first in \<open>auto simp: seq_def\<close>)
qed

lemma triple_attempt:
  assumes "triple calm safe P m (\<lambda>x. Q (Inr x)) (\<lambda>c. \<forall>e. Q (Inl e) c)"
  shows "triple calm safe P (attempt m) Q E"
proof (rule tripleI)
  fix c script c' script' r
  assume pre: "crash_ok safe c" "P c" "calm \<longrightarrow> script = []" and run: "attempt m (c, script) = ((c', script'), r)"
  obtain c1 s1 r1 where m: "m (c, script) = ((c1, s1), r1)" by (metis prod.collapse)
  show "crash_ok safe c' \<and> (calm \<longrightarrow> script' = []) \<and>
      (case r of Returns x \<Rightarrow> Q x c' | Errs _ \<Rightarrow> E c' | Stopped_Here \<Rightarrow> \<not> calm)"
    using tripleD [OF assms pre m] run m by (cases r1) (auto simp: attempt_def)
qed

lemma triple_weaken:
  assumes "triple calm safe P' m Q' E'" and "\<And>c. crash_ok safe c \<Longrightarrow> P c \<Longrightarrow> P' c"
    and "\<And>x c. Q' x c \<Longrightarrow> Q x c" and "\<And>c. E' c \<Longrightarrow> E c"
  shows "triple calm safe P m Q E"
proof (rule tripleI)
  fix c script c' script' r
  assume pre: "crash_ok safe c" "P c" "calm \<longrightarrow> script = []" and run: "m (c, script) = ((c', script'), r)"
  from tripleD [OF assms(1) pre(1) assms(2) [OF pre(1,2)] pre(3) run]
  show "crash_ok safe c' \<and> (calm \<longrightarrow> script' = []) \<and>
      (case r of Returns x \<Rightarrow> Q x c' | Errs _ \<Rightarrow> E c' | Stopped_Here \<Rightarrow> \<not> calm)"
    using assms(3,4) by (cases r) auto
qed


section \<open>Rules for the calls\<close>

text \<open>
  Assertions about the visible entries; a call that fails leaves only the guarantee on stops, which holds
  throughout.
\<close>

abbreviation step ::
  "bool \<Rightarrow> (view \<Rightarrow> bool) \<Rightarrow> (view \<Rightarrow> bool) \<Rightarrow> 'a prog \<Rightarrow> ('a \<Rightarrow> view \<Rightarrow> bool) \<Rightarrow> bool" where
  "step calm safe P m Q \<equiv> triple calm safe (\<lambda>c. P (visible c)) m (\<lambda>x c. Q x (visible c)) (\<lambda>_. \<not> calm)"

lemma step_metadata: "step calm safe P (fs_metadata p) (\<lambda>x v. P v \<and> x = reg_get v p)"
  unfolding fs_metadata_def by (rule triple_io) auto

lemma step_check: "step calm safe P fs_check (\<lambda>_. P)"
  unfolding fs_check_def by (rule triple_io) auto

lemma step_sync: "step calm safe P (sync_dir d) (\<lambda>_. P)"
  unfolding sync_dir_def by (rule triple_io) (auto intro: crash_ok_flush)

lemma step_sync_durable:
  "triple calm safe (\<lambda>c. P (visible c) \<and> co_pending c \<noteq> [] \<and> touches d (last (co_pending c))) (sync_dir d)
     (\<lambda>_ c. P (visible c) \<and> co_pending c = []) (\<lambda>_. \<not> calm)"
  unfolding sync_dir_def
  by (rule triple_io) (auto intro: crash_ok_flush flush_all)

text \<open>A rename that is followed by the syncs of its parents is durable when it returns.\<close>

definition ends_with :: "fs_op \<Rightarrow> core \<Rightarrow> bool" where
  "ends_with fsop c \<longleftrightarrow> co_pending c = [] \<or> last (co_pending c) = fsop"

lemma ends_with_flush: "ends_with fsop c \<Longrightarrow> ends_with fsop (flush d c)"
proof -
  assume e: "ends_with fsop c"
  obtain gone where p: "co_pending c = gone @ co_pending (flush d c)" by (rule flush_split)
  show ?thesis
  proof (cases "co_pending (flush d c) = []")
    case False
    then have "co_pending c \<noteq> []" "last (co_pending c) = last (co_pending (flush d c))" by (subst p, simp)+
    then show ?thesis using e by (simp add: ends_with_def)
  qed (simp add: ends_with_def)
qed

lemma ends_with_touch: "ends_with fsop c \<Longrightarrow> touches d fsop \<Longrightarrow> co_pending (flush d c) = []"
  by (cases "co_pending c = []")
    (auto simp: ends_with_def flush_nothing intro: flush_all)

lemma step_rename:
  assumes "\<And>v. P v \<Longrightarrow> rename_ok v a b \<Longrightarrow> safe (apply_op (Rename a b) v) \<and> Q (apply_op (Rename a b) v)"
    and "\<And>v. P v \<Longrightarrow> calm \<Longrightarrow> rename_ok v a b"
  shows "triple calm safe (\<lambda>c. P (visible c)) (fs_rename a b)
      (\<lambda>_ c. Q (visible c) \<and> ends_with (Rename a b) c) (\<lambda>c. \<not> calm \<and> P (visible c))"
  unfolding fs_rename_def
  by (rule triple_io)
    (use assms in \<open>auto simp: crash_ok_mutate ends_with_def simp del: apply_op.simps split: if_split_asm\<close>)

lemma triple_sync_ends:
  "triple calm safe (\<lambda>c. P (visible c) \<and> ends_with fsop c) (sync_dir d)
     (\<lambda>_ c. P (visible c) \<and> ends_with fsop c \<and> (touches d fsop \<longrightarrow> co_pending c = [])) (\<lambda>c. \<not> calm \<and> P (visible c))"
  unfolding sync_dir_def by (rule triple_io) (auto intro: crash_ok_flush ends_with_flush dest: ends_with_touch)

text \<open>
  The rename with its syncs: it returns with the rename done and durable; it fails with the rename done or
  not, and never when nothing is disturbed.
\<close>

lemma triple_durable_rename:
  assumes "\<And>v. P v \<Longrightarrow> rename_ok v a b \<Longrightarrow> safe (apply_op (Rename a b) v) \<and> Q (apply_op (Rename a b) v)"
    and "\<And>v. P v \<Longrightarrow> calm \<Longrightarrow> rename_ok v a b"
  shows "triple calm safe (\<lambda>c. P (visible c)) (durable_rename a b)
      (\<lambda>_ c. Q (visible c) \<and> co_pending c = []) (\<lambda>c. \<not> calm \<and> (P (visible c) \<or> Q (visible c)))"
proof -
  let ?E = "\<lambda>c. \<not> calm \<and> (P (visible c) \<or> Q (visible c))"
  let ?op = "Rename a b"
  have before: "triple calm safe (\<lambda>c. P (visible c)) (sync_dir d) (\<lambda>_ c. P (visible c)) ?E" for d
    unfolding sync_dir_def by (rule triple_io) (auto intro: crash_ok_flush)
  have ren: "triple calm safe (\<lambda>c. P (visible c)) (fs_rename a b) (\<lambda>_ c. Q (visible c) \<and> ends_with ?op c) ?E"
    by (rule triple_weaken [OF step_rename [where P = P and Q = Q]]) (use assms in auto)
  have after: "triple calm safe (\<lambda>c. Q (visible c) \<and> ends_with ?op c) (sync_dir d)
      (\<lambda>_ c. Q (visible c) \<and> ends_with ?op c \<and> (touches d ?op \<longrightarrow> co_pending c = [])) ?E" for d
    by (rule triple_weaken [OF triple_sync_ends [where P = Q]]) auto
  have last: "triple calm safe (\<lambda>c. Q (visible c) \<and> co_pending c = []) (sync_dir d)
      (\<lambda>_ c. Q (visible c) \<and> co_pending c = []) ?E" for d
    unfolding sync_dir_def by (rule triple_io) (auto intro: crash_ok_flush flush_nothing)
  show ?thesis
    unfolding durable_rename_def Let_def
    apply (rule triple_seq [OF before])
    apply (rule triple_seq [OF before])
    apply (rule triple_seq [where Mid = "\<lambda>_ c. P (visible c)"])
     apply (cases "butlast a \<noteq> butlast b"; simp add: before triple_ret)
    apply (rule triple_seq [OF ren])
    apply (rule triple_seq [where Mid = "\<lambda>_ c. Q (visible c) \<and> ends_with ?op c"])
     apply (rule triple_weaken [OF after]; simp)
    apply (rule triple_seq [where Mid = "\<lambda>_ c. Q (visible c) \<and> co_pending c = []"])
     apply (rule triple_weaken [OF after]; simp)
    apply (cases "butlast a \<noteq> butlast b"; simp add: last triple_ret)
    done
qed

lemma step_create:
  assumes "\<And>v. P v \<Longrightarrow> reg_get v p = None \<and> safe (reg_insert p (File []) v) \<and> Q (reg_insert p (File []) v)"
  shows "step calm safe P (fs_create_new p) (\<lambda>_. Q)"
  unfolding fs_create_new_def by (rule triple_io) (use assms in \<open>auto simp: crash_ok_mutate split: if_split_asm\<close>)

lemma triple_remove_file:
  assumes "\<And>v. P v \<Longrightarrow> (\<exists>data. reg_get v p = Some (File data)) \<and> safe (reg_remove p v) \<and> Q (reg_remove p v)"
  shows "triple calm safe (\<lambda>c. P (visible c)) (fs_remove_file p)
      (\<lambda>_ c. Q (visible c) \<and> co_pending c \<noteq> [] \<and> last (co_pending c) = Remove p) (\<lambda>_. \<not> calm)"
  unfolding fs_remove_file_def
proof (rule triple_io)
  fix c c' r
  assume pre: "P (visible c)" "crash_ok safe c"
    and act: "(case look c p of None \<Rightarrow> (c, Errs (ME_Io not_found))
      | Some n \<Rightarrow> if is_dir n then (c, Errs (ME_Io not_found)) else (mutate (Remove p) c, Returns ())) = (c', r)"
  from assms [OF pre(1)] obtain data where "look c p = Some (File data)" by blast
  with act have "c' = mutate (Remove p) c" "r = Returns ()" by auto
  then show "crash_ok safe c' \<and> (case r of Returns x \<Rightarrow> Q (visible c') \<and> co_pending c' \<noteq> [] \<and> last (co_pending c') = Remove p
      | Errs _ \<Rightarrow> \<not> calm | Stopped_Here \<Rightarrow> False)"
    using assms [OF pre(1)] pre(2) by (simp add: crash_ok_mutate)
qed auto

end
