(* ===== verification/Store_Recovery.thy ===== *)
theory Store_Recovery
  imports Store_Fs
begin

text \<open>
  Crash safety of the store transactions: whatever call fails and wherever the machine stops, the
  previous model and the replacement stay recoverable, an undisturbed reconciliation settles an
  interrupted promotion, and an interrupted deletion can be retried.
\<close>

section \<open>The states of a promotion\<close>

definition quarantined :: "node \<Rightarrow> view \<Rightarrow> bool" where
  "quarantined n v \<longleftrightarrow> (\<exists>name. reg_get v [lit ''quarantine'', name] = Some n)"

text \<open>Room for one more entry (the marker) among the names a 64-bit sequence can number.\<close>

definition room :: "rstr \<Rightarrow> view \<Rightarrow> bool" where
  "room k v \<longleftrightarrow> length v + (if reg_get v (marker_path k) = None then 1 else 0) < word_limit"

abbreviation marked :: "rstr \<Rightarrow> view \<Rightarrow> bool" where
  "marked k v \<equiv> reg_get v (marker_path k) = Some (File [])"

abbreviation unmarked :: "rstr \<Rightarrow> view \<Rightarrow> bool" where
  "unmarked k v \<equiv> reg_get v (marker_path k) = None"

text \<open>
  \<open>prev\<close> is the installed model, \<open>repl\<close> the staged replacement: untouched, displaced, promoted with the
  previous model in the backup, and promoted with the previous model in quarantine. Only the first and
  the last may be without the marker.
\<close>

definition untouched :: "node \<Rightarrow> node \<Rightarrow> rstr \<Rightarrow> view \<Rightarrow> bool" where
  "untouched prev repl k v \<longleftrightarrow> reg_get v (final_path k) = Some prev \<and> reg_get v (backup_path k) = None \<and>
     reg_get v (staging_path k) \<in> {None, Some repl}"

definition displaced :: "node \<Rightarrow> node \<Rightarrow> rstr \<Rightarrow> view \<Rightarrow> bool" where
  "displaced prev repl k v \<longleftrightarrow> reg_get v (final_path k) = None \<and> reg_get v (backup_path k) = Some prev \<and>
     reg_get v (staging_path k) \<in> {None, Some repl}"

definition promoted :: "node \<Rightarrow> node \<Rightarrow> rstr \<Rightarrow> view \<Rightarrow> bool" where
  "promoted prev repl k v \<longleftrightarrow> reg_get v (final_path k) = Some repl \<and> reg_get v (backup_path k) = Some prev \<and>
     reg_get v (staging_path k) = None"

definition settled :: "node \<Rightarrow> node \<Rightarrow> rstr \<Rightarrow> view \<Rightarrow> bool" where
  "settled prev repl k v \<longleftrightarrow> reg_get v (final_path k) = Some repl \<and> reg_get v (backup_path k) = None \<and>
     reg_get v (staging_path k) = None \<and> quarantined prev v"

definition tx :: "node \<Rightarrow> node \<Rightarrow> rstr \<Rightarrow> view \<Rightarrow> bool" where
  "tx prev repl k v \<longleftrightarrow> room k v \<and>
     (marked k v \<and> (untouched prev repl k v \<or> displaced prev repl k v \<or> promoted prev repl k v \<or> settled prev repl k v)
      \<or> unmarked k v \<and> (untouched prev repl k v \<or> settled prev repl k v))"

lemmas phases = untouched_def displaced_def promoted_def settled_def

lemma length_reg_insert: "length (reg_insert p n v) \<le> Suc (length v)"
  by (induction v) (auto simp: reg_insert_def)

lemma length_reg_remove: "reg_get v p \<noteq> None \<Longrightarrow> length (reg_remove p v) < length v"
  unfolding reg_remove_def reg_get_def AList.delete_eq
  by (induction v) (auto simp: le_imp_less_Suc less_SucI split: if_splits)

lemma length_reg_remove_le: "length (reg_remove p v) \<le> length v"
  by (simp add: reg_remove_def AList.delete_eq)

lemma room_rename:
  assumes "room k v" and "reg_get v a \<noteq> None" and "a \<noteq> marker_path k" and "b \<noteq> marker_path k"
  shows "room k (apply_op (Rename a b) v)"
proof -
  from assms(2) obtain n where n: "reg_get v a = Some n" by auto
  have "length (reg_insert b n (reg_remove a v)) \<le> length v"
    using length_reg_insert [of b n "reg_remove a v"] length_reg_remove [OF assms(2)] by simp
  then show ?thesis using assms(1,3,4) n by (auto simp: room_def)
qed

lemma quarantined_keep:
  "quarantined n v \<Longrightarrow> hd b \<noteq> lit ''quarantine'' \<Longrightarrow> hd a \<noteq> lit ''quarantine'' \<Longrightarrow>
     quarantined n (apply_op (Rename a b) v)"
  by (auto simp: quarantined_def split: option.split)

section \<open>The quarantine search ends\<close>

lemma decimal_inj: "a < word_limit \<Longrightarrow> b < word_limit \<Longrightarrow> decimal a = decimal b \<Longrightarrow> a = b"
  by (metis digits_value_decimal option.inject)

lemma quarantine_path_inj:
  "a < word_limit \<Longrightarrow> b < word_limit \<Longrightarrow> quarantine_path k pid a = quarantine_path k pid b \<Longrightarrow> a = b"
  by (auto simp: quarantine_path_def dest: decimal_inj)

lemma mod_add_inj: "i \<le> j \<Longrightarrow> j < w \<Longrightarrow> (n + i) mod w = (n + j) mod w \<Longrightarrow> i = (j :: nat)"
  using mod_eq_dvd_iff_nat [of "n + i" "n + j" w] by (auto dest: dvd_imp_le)

text \<open>Among as many consecutive numbers as there are entries and one more, one names nothing.\<close>

lemma free_name_exists:
  assumes "length v < word_limit"
  shows "\<exists>j < Suc (length v). reg_get v (quarantine_path k pid ((start + j) mod word_limit)) = None"
proof (rule ccontr)
  assume "\<not> ?thesis"
  then have occupied: "\<forall>j < Suc (length v). reg_get v (quarantine_path k pid ((start + j) mod word_limit)) \<noteq> None"
    by simp
  let ?name = "\<lambda>j. quarantine_path k pid ((start + j) mod word_limit)"
  have "inj_on ?name {..<Suc (length v)}"
  proof (rule inj_onI)
    fix i j
    assume ij: "i \<in> {..<Suc (length v)}" "j \<in> {..<Suc (length v)}" "?name i = ?name j"
    then have "(start + i) mod word_limit = (start + j) mod word_limit"
      by (intro quarantine_path_inj) simp_all
    moreover have "i < word_limit" "j < word_limit" using ij assms by auto
    ultimately show "i = j" by (metis mod_add_inj nat_le_linear)
  qed
  then have "card (?name ` {..<Suc (length v)}) = Suc (length v)" by (simp add: card_image)
  moreover have "?name ` {..<Suc (length v)} \<subseteq> fst ` set v"
    using occupied by (force simp: reg_get_def map_of_eq_None_iff)
  moreover have "card (fst ` set v) \<le> length v"
    using card_length [of "map fst v"] by simp
  ultimately show False
    by (metis card_mono finite_imageI finite_set not_less_eq_eq)
qed


lemma triple_metadata: "triple calm safe P (fs_metadata p) (\<lambda>x c. P c \<and> x = look c p) (\<lambda>_. \<not> calm)"
  unfolding fs_metadata_def by (rule triple_io) auto

lemma unat_next: "unat (n + 1 :: 64 word) = Suc (unat n) mod word_limit" "unat n < word_limit"
  using unsigned_less [of n, where ?'a = nat] by (simp_all add: unat_word_ariths word_limit_def)

lemma triple_take_sequence:
  "triple calm safe (\<lambda>c. G (visible c) (unat (co_sequence c))) take_sequence
     (\<lambda>x c. G (visible c) x \<and> x < word_limit \<and> unat (co_sequence c) = Suc x mod word_limit) (\<lambda>_. \<not> calm)"
proof -
  have "visible (c\<lparr>co_sequence := n\<rparr>) = visible c" "crash_ok safe (c\<lparr>co_sequence := n\<rparr>) = crash_ok safe c" for c n
    by (simp_all add: visible_def crash_ok_alt)
  then show ?thesis by (auto intro!: tripleI simp: take_sequence_def unat_next)
qed

text \<open>The next \<open>n\<close> numbers contain a free one.\<close>

definition names_left :: "nat \<Rightarrow> rstr \<Rightarrow> nat \<Rightarrow> view \<Rightarrow> nat \<Rightarrow> bool" where
  "names_left n k pid v start \<longleftrightarrow> (\<exists>j < n. reg_get v (quarantine_path k pid ((start + j) mod word_limit)) = None)"

lemma names_left_Suc:
  assumes "names_left (Suc n) k pid v start" and "start < word_limit"
    and "reg_get v (quarantine_path k pid start) \<noteq> None"
  shows "names_left n k pid v (Suc start mod word_limit)"
proof -
  from assms(1) obtain j where j: "j < Suc n" "reg_get v (quarantine_path k pid ((start + j) mod word_limit)) = None"
    by (auto simp: names_left_def)
  with assms(2,3) obtain i where "j = Suc i" by (cases j) auto
  with j show ?thesis by (auto simp: names_left_def mod_simps)
qed

lemma triple_free_quarantine:
  "triple calm safe
     (\<lambda>c. P (visible c) \<and> (calm \<longrightarrow> names_left n k pid (visible c) (unat (co_sequence c))))
     (free_quarantine n k pid)
     (\<lambda>q c. P (visible c) \<and> (\<exists>sq. q = quarantine_path k pid sq) \<and> look c q = None) (\<lambda>_. \<not> calm)"
proof (induction n)
  case 0
  then show ?case by (auto intro!: tripleI simp: names_left_def)
next
  case (Suc n)
  have look: "triple calm safe
        (\<lambda>c. (P (visible c) \<and> (calm \<longrightarrow> names_left (Suc n) k pid (visible c) sq)) \<and> sq < word_limit \<and>
           unat (co_sequence c) = Suc sq mod word_limit)
        (seq (fs_metadata (quarantine_path k pid sq)) (\<lambda>m.
           if m = None then ret (quarantine_path k pid sq) else free_quarantine n k pid))
        (\<lambda>q c. P (visible c) \<and> (\<exists>sq. q = quarantine_path k pid sq) \<and> look c q = None) (\<lambda>_. \<not> calm)" for sq
    proof (rule triple_seq [OF triple_metadata])
      fix m
      show "triple calm safe
          (\<lambda>c. ((P (visible c) \<and> (calm \<longrightarrow> names_left (Suc n) k pid (visible c) sq)) \<and> sq < word_limit \<and>
             unat (co_sequence c) = Suc sq mod word_limit) \<and> m = look c (quarantine_path k pid sq))
          (if m = None then ret (quarantine_path k pid sq) else free_quarantine n k pid)
          (\<lambda>q c. P (visible c) \<and> (\<exists>sq. q = quarantine_path k pid sq) \<and> look c q = None) (\<lambda>_. \<not> calm)"
      proof (cases m)
        case None
        then show ?thesis by (auto intro!: triple_ret)
      next
        case (Some x)
        then have branch: "(if m = None then ret (quarantine_path k pid sq) else free_quarantine n k pid)
            = free_quarantine n k pid" by simp
        show ?thesis
          unfolding branch by (rule triple_weaken [OF Suc.IH]) (use Some in \<open>auto intro!: names_left_Suc dest!: sym [of "Some _"]\<close>)
      qed
    qed
  show ?case
    unfolding free_quarantine.simps
    by (rule triple_seq [OF triple_weaken [OF triple_take_sequence [where G = "\<lambda>v x. P v \<and>
        (calm \<longrightarrow> names_left (Suc n) k pid v x)"]] look]) auto
qed


lemma triple_pick_quarantine:
  assumes "\<And>v. P v \<Longrightarrow> length v < word_limit"
  shows "triple calm safe (\<lambda>c. P (visible c)) (pick_quarantine k pid)
     (\<lambda>q c. P (visible c) \<and> (\<exists>sq. q = quarantine_path k pid sq) \<and> look c q = None) (\<lambda>_. \<not> calm)"
proof (rule tripleI)
  fix c script c' script' r
  assume pre: "crash_ok safe c" "P (visible c)" "calm \<longrightarrow> script = []"
    and run: "pick_quarantine k pid (c, script) = ((c', script'), r)"
  let ?n = "Suc (length (visible c))"
  have "names_left ?n k pid (visible c) (unat (co_sequence c))"
    using free_name_exists [OF assms, of "visible c" k pid "unat (co_sequence c)"] pre(2) by (simp add: names_left_def)
  moreover have "free_quarantine ?n k pid (c, script) = ((c', script'), r)"
    using run by (simp add: pick_quarantine_def)
  ultimately show "crash_ok safe c' \<and> (calm \<longrightarrow> script' = []) \<and>
      (case r of Returns x \<Rightarrow> P (visible c') \<and> (\<exists>sq. x = quarantine_path k pid sq) \<and> look c' x = None
       | Errs _ \<Rightarrow> \<not> calm | Stopped_Here \<Rightarrow> \<not> calm)"
    using tripleD [OF triple_free_quarantine [where P = P and n = ?n and k = k and pid = pid] pre(1) _ pre(3)] pre(2)
    by blast
qed


section \<open>The moves of a promotion\<close>

text \<open>While the marker stands.\<close>

definition stage :: "(view \<Rightarrow> bool) \<Rightarrow> rstr \<Rightarrow> view \<Rightarrow> bool" where
  "stage phase k v \<longleftrightarrow> room k v \<and> marked k v \<and> phase v"

lemma stage_tx [simp]:
  "stage (untouched prev repl k) k v \<Longrightarrow> tx prev repl k v" "stage (displaced prev repl k) k v \<Longrightarrow> tx prev repl k v"
  "stage (promoted prev repl k) k v \<Longrightarrow> tx prev repl k v" "stage (settled prev repl k) k v \<Longrightarrow> tx prev repl k v"
  by (simp_all add: stage_def tx_def)

lemma move_displace:
  "stage (untouched prev repl k) k v \<Longrightarrow> stage (displaced prev repl k) k (apply_op (Rename (final_path k) (backup_path k)) v)"
  using room_rename [of k v "final_path k" "backup_path k"] by (auto simp: stage_def phases)

lemma move_promote:
  "stage (displaced prev repl k) k v \<Longrightarrow> reg_get v (staging_path k) \<noteq> None \<Longrightarrow>
     stage (promoted prev repl k) k (apply_op (Rename (staging_path k) (final_path k)) v)"
  using room_rename [of k v "staging_path k" "final_path k"] by (auto simp: stage_def phases)

lemma move_restore:
  "stage (displaced prev repl k) k v \<or> stage (promoted prev repl k) k v \<Longrightarrow>
     stage (untouched prev repl k) k (apply_op (Rename (backup_path k) (final_path k)) v)"
  using room_rename [of k v "backup_path k" "final_path k"] by (auto simp: stage_def phases)

lemma move_quarantine:
  assumes "stage (promoted prev repl k) k v" and "q = quarantine_path k pid sq"
  shows "stage (settled prev repl k) k (apply_op (Rename (backup_path k) q) v)"
proof -
  have q: "q \<noteq> final_path k" "q \<noteq> staging_path k" "q \<noteq> backup_path k" "q \<noteq> marker_path k"
    "\<exists>name. q = [lit ''quarantine'', name]"
    using assms(2) by (simp_all add: quarantine_path_def)
  then show ?thesis
    using assms(1) room_rename [of k v "backup_path k" q]
    by (auto simp: stage_def phases quarantined_def)
qed

lemma stage_mono: "stage P k v \<Longrightarrow> (\<And>v. P v \<Longrightarrow> Q v) \<Longrightarrow> stage Q k v"
  by (simp add: stage_def)

lemma length_stage: "stage phase k v \<Longrightarrow> length v < word_limit"
  by (simp add: stage_def room_def)

lemma step_verify:
  assumes "\<And>v. P v \<Longrightarrow> calm \<Longrightarrow> \<exists>n. reg_get v p = Some n \<and> is_dir n"
  shows "step calm safe P (verify_transaction_final p) (\<lambda>_ v. P v \<and> reg_get v p \<noteq> None)"
  unfolding verify_transaction_final_def
proof (rule triple_seq [OF step_metadata])
  fix m
  show "step calm safe (\<lambda>v. P v \<and> m = reg_get v p)
      (require (case m of Some n \<Rightarrow> is_dir n | None \<Rightarrow> False)
        (invalid ''repair transaction did not restore a safe installed state''))
      (\<lambda>_ v. P v \<and> reg_get v p \<noteq> None)"
    by (rule triple_require) (use assms in \<open>fastforce split: option.splits\<close>)
qed

text \<open>What each phase says of the entries the renames move.\<close>

lemma stage_entries:
  "stage (untouched prev repl k) k v \<Longrightarrow> reg_get v (final_path k) = Some prev \<and> reg_get v (backup_path k) = None"
  "stage (displaced prev repl k) k v \<Longrightarrow> reg_get v (final_path k) = None \<and> reg_get v (backup_path k) = Some prev"
  "stage (promoted prev repl k) k v \<Longrightarrow> reg_get v (final_path k) = Some repl \<and> reg_get v (backup_path k) = Some prev"
  "stage (settled prev repl k) k v \<Longrightarrow> reg_get v (final_path k) = Some repl \<and> reg_get v (backup_path k) = None"
  by (simp_all add: stage_def phases)

lemma rename_over_nothing: "reg_get v a = Some n \<Longrightarrow> reg_get v b = None \<Longrightarrow> rename_ok v a b"
  by (simp add: rename_ok_def)

declare apply_op.simps [simp del]

text \<open>The backup moves to quarantine when there is one.\<close>

lemma step_quarantine_promoted:
  "step calm (tx prev repl k) (stage (promoted prev repl k) k)
     (seq fs_check (\<lambda>_. seq (sync_dir []) (\<lambda>_. seq (pick_quarantine k pid) (\<lambda>q. durable_rename (backup_path k) q))))
     (\<lambda>_. stage (settled prev repl k) k)"
proof -
  let ?S = "tx prev repl k" and ?prom = "stage (promoted prev repl k) k"
  have move: "step calm ?S (\<lambda>v. ?prom v \<and> (\<exists>sq. q = quarantine_path k pid sq) \<and> reg_get v q = None)
      (durable_rename (backup_path k) q) (\<lambda>_. stage (settled prev repl k) k)" for q
    by (rule triple_weaken [OF triple_durable_rename [where Q = "stage (settled prev repl k) k" and
          P = "\<lambda>v. ?prom v \<and> (\<exists>sq. q = quarantine_path k pid sq) \<and> reg_get v q = None"]])
      (auto intro: move_quarantine stage_tx(4) rename_over_nothing dest: stage_entries(3))
  show ?thesis
    by (intro triple_seq [OF step_check] triple_seq [OF step_sync]
        triple_seq [OF triple_pick_quarantine [OF length_stage] move])
qed

lemma step_quarantine_from:
  assumes "\<And>v. stage ph k v \<Longrightarrow> reg_get v (backup_path k) = None \<Longrightarrow> stage ph' k v"
    and "\<And>v. stage ph k v \<Longrightarrow> reg_get v (backup_path k) \<noteq> None \<Longrightarrow> stage (promoted prev repl k) k v"
    and "\<And>v. stage (settled prev repl k) k v \<Longrightarrow> stage ph' k v"
  shows "step calm (tx prev repl k) (stage ph k) (quarantine_backup k pid) (\<lambda>_. stage ph' k)"
  unfolding quarantine_backup_def
proof (rule triple_seq [OF step_metadata])
  fix m
  let ?move = "seq fs_check (\<lambda>_. seq (sync_dir []) (\<lambda>_. seq (pick_quarantine k pid) (\<lambda>q. durable_rename (backup_path k) q)))"
  show "step calm (tx prev repl k) (\<lambda>v. stage ph k v \<and> m = reg_get v (backup_path k))
      (if m = None then ret () else ?move) (\<lambda>_. stage ph' k)"
  proof (cases m)
    case None
    then show ?thesis using assms(1) by (auto intro!: triple_ret)
  next
    case (Some n)
    then have branch: "(if m = None then ret () else ?move) = ?move" by simp
    show ?thesis
      unfolding branch by (rule triple_weaken [OF step_quarantine_promoted]) (use assms(2,3) Some in \<open>auto dest!: sym [of "Some _"]\<close>)
  qed
qed

lemma step_quarantine:
  "step calm (tx prev repl k) (stage (\<lambda>v. untouched prev repl k v \<or> promoted prev repl k v \<or> settled prev repl k v) k)
     (quarantine_backup k pid) (\<lambda>_. stage (\<lambda>v. untouched prev repl k v \<or> settled prev repl k v) k)"
  by (rule step_quarantine_from) (auto simp: stage_def phases)

section \<open>Reconciliation\<close>

abbreviation visible_model :: "node \<Rightarrow> node \<Rightarrow> rstr \<Rightarrow> view \<Rightarrow> bool" where
  "visible_model prev repl k v \<equiv> untouched prev repl k v \<or> promoted prev repl k v \<or> settled prev repl k v"

abbreviation clean :: "node \<Rightarrow> node \<Rightarrow> rstr \<Rightarrow> view \<Rightarrow> bool" where
  "clean prev repl k v \<equiv> room k v \<and> unmarked k v \<and> (untouched prev repl k v \<or> settled prev repl k v)"

lemma clean_tx: "clean prev repl k v \<Longrightarrow> tx prev repl k v"
  by (auto simp: tx_def)

lemma triple_displace:
  "triple calm (tx prev repl k) (\<lambda>c. stage (untouched prev repl k) k (visible c)) (durable_rename (final_path k) (backup_path k))
     (\<lambda>_ c. stage (displaced prev repl k) k (visible c))
     (\<lambda>c. \<not> calm \<and> (stage (untouched prev repl k) k (visible c) \<or> stage (displaced prev repl k) k (visible c)))"
  by (rule triple_weaken [OF triple_durable_rename [where P = "stage (untouched prev repl k) k" and Q = "stage (displaced prev repl k) k"]])
    (auto intro: move_displace stage_tx(2) rename_over_nothing dest: stage_entries(1))

text \<open>The staged replacement present while the model is displaced.\<close>

abbreviation ready :: "node \<Rightarrow> node \<Rightarrow> rstr \<Rightarrow> view \<Rightarrow> bool" where
  "ready prev repl k v \<equiv> stage (displaced prev repl k) k v \<and> reg_get v (staging_path k) \<noteq> None"

lemma triple_promote_staged:
  "triple calm (tx prev repl k) (\<lambda>c. ready prev repl k (visible c)) (durable_rename (staging_path k) (final_path k))
     (\<lambda>_ c. stage (promoted prev repl k) k (visible c))
     (\<lambda>c. \<not> calm \<and> (stage (displaced prev repl k) k (visible c) \<or> stage (promoted prev repl k) k (visible c)))"
  by (rule triple_weaken [OF triple_durable_rename [where P = "ready prev repl k" and Q = "stage (promoted prev repl k) k"]])
    (auto intro: move_promote stage_tx(3) rename_over_nothing dest: stage_entries(2))

lemma triple_restore:
  "triple calm (tx prev repl k)
     (\<lambda>c. stage (displaced prev repl k) k (visible c) \<or> \<not> calm \<and> stage (promoted prev repl k) k (visible c))
     (durable_rename (backup_path k) (final_path k)) (\<lambda>_ c. stage (untouched prev repl k) k (visible c)) (\<lambda>_. \<not> calm)"
  by (rule triple_weaken [OF triple_durable_rename [where Q = "stage (untouched prev repl k) k" and
        P = "\<lambda>v. stage (displaced prev repl k) k v \<or> \<not> calm \<and> stage (promoted prev repl k) k v"]])
    (auto intro: move_restore stage_tx(1) rename_over_nothing dest: stage_entries(2))

lemma untouched_staged:
  "triple calm (tx prev repl k)
     (\<lambda>c. stage (untouched prev repl k) k (visible c) \<and> look c (staging_path k) \<noteq> None)
     (durable_rename (final_path k) (backup_path k)) (\<lambda>_ c. ready prev repl k (visible c))
     (\<lambda>c. \<not> calm \<and> (stage (untouched prev repl k) k (visible c) \<or> stage (displaced prev repl k) k (visible c)))"
proof -
  have keep: "reg_get (apply_op (Rename (final_path k) (backup_path k)) v) (staging_path k) = reg_get v (staging_path k)" for v
    by (simp add: apply_op.simps split: option.split)
  show ?thesis
    by (rule triple_weaken [OF triple_durable_rename [where Q = "ready prev repl k" and
          P = "\<lambda>v. stage (untouched prev repl k) k v \<and> reg_get v (staging_path k) \<noteq> None"]])
      (auto simp: keep intro: move_displace stage_tx(2) rename_over_nothing dest: stage_entries(1))
qed

lemma step_settle_entries:
  "step calm (tx prev repl k)
     (\<lambda>v. stage (\<lambda>v. visible_model prev repl k v \<or> displaced prev repl k v) k v \<and>
        f = reg_get v (final_path k) \<and> s = reg_get v (staging_path k) \<and> b = reg_get v (backup_path k))
     (case (f \<noteq> None, s \<noteq> None, b \<noteq> None) of
         (True, True, False) \<Rightarrow>
           seq (durable_rename (final_path k) (backup_path k)) (\<lambda>_. durable_rename (staging_path k) (final_path k))
       | (False, True, True) \<Rightarrow> durable_rename (staging_path k) (final_path k)
       | (False, False, True) \<Rightarrow> durable_rename (backup_path k) (final_path k)
       | (True, _, _) \<Rightarrow> ret ()
       | _ \<Rightarrow> throw (invalid ''repair transaction cannot be reconciled safely''))
     (\<lambda>_. stage (visible_model prev repl k) k)" (is "step calm ?S ?P ?m ?Q")
proof -
  have displ: "step calm ?S (\<lambda>v. ready prev repl k v) (durable_rename (staging_path k) (final_path k)) ?Q"
    by (rule triple_weaken [OF triple_promote_staged]) (auto elim: stage_mono)
  have resume_run: "step calm ?S (\<lambda>v. stage (untouched prev repl k) k v \<and> reg_get v (staging_path k) \<noteq> None)
      (seq (durable_rename (final_path k) (backup_path k)) (\<lambda>_. durable_rename (staging_path k) (final_path k))) ?Q"
    by (rule triple_seq [OF triple_weaken [OF untouched_staged] displ]) auto
  have restore_run: "step calm ?S (stage (displaced prev repl k) k) (durable_rename (backup_path k) (final_path k)) ?Q"
    by (rule triple_weaken [OF triple_restore]) (auto elim: stage_mono)
  consider (resume) "f \<noteq> None" "s \<noteq> None" "b = None" | (promote) "f = None" "s \<noteq> None" "b \<noteq> None"
    | (restore) "f = None" "s = None" "b \<noteq> None" | (present) "f \<noteq> None" "s = None \<or> b \<noteq> None"
    | (lost) "f = None" "b = None"
    by (cases "f = None"; cases "s = None"; cases "b = None") auto
  then show ?thesis
  proof cases
    case resume
    then have m: "?m = seq (durable_rename (final_path k) (backup_path k)) (\<lambda>_. durable_rename (staging_path k) (final_path k))"
      by auto
    show ?thesis unfolding m by (rule triple_weaken [OF resume_run]) (use resume in \<open>auto simp: stage_def phases\<close>)
  next
    case promote
    then have m: "?m = durable_rename (staging_path k) (final_path k)" by auto
    show ?thesis unfolding m by (rule triple_weaken [OF displ]) (use promote in \<open>auto simp: stage_def phases\<close>)
  next
    case restore
    then have m: "?m = durable_rename (backup_path k) (final_path k)" by auto
    show ?thesis unfolding m by (rule triple_weaken [OF restore_run]) (use restore in \<open>auto simp: stage_def phases\<close>)
  next
    case present
    then have m: "?m = ret ()" by (cases s; cases b) auto
    show ?thesis unfolding m by (rule triple_ret) (use present in \<open>auto simp: stage_def phases\<close>)
  next
    case lost
    then have m: "?m = throw (invalid ''repair transaction cannot be reconciled safely'')" by (cases s) auto
    show ?thesis unfolding m by (rule triple_throw) (use lost in \<open>auto simp: stage_def phases\<close>)
  qed
qed

text \<open>
  The end of a transaction: the visible model is checked, the backup quarantined, the marker removed, and
  the removal made durable.
\<close>

lemma triple_close:
  assumes "\<And>v. stage ph k v \<Longrightarrow> \<exists>n. reg_get v (final_path k) = Some n \<and> is_dir n"
    and "step calm (tx prev repl k) (stage ph k) (quarantine_backup k pid) (\<lambda>_. stage ph' k)"
    and "\<And>v. stage ph' k v \<Longrightarrow> ph' (reg_remove (marker_path k) v)"
    and "\<And>v. ph' v \<Longrightarrow> untouched prev repl k v \<or> settled prev repl k v"
  shows "triple calm (tx prev repl k) (\<lambda>c. stage ph k (visible c))
     (seq (verify_transaction_final (final_path k)) (\<lambda>_.
      seq (quarantine_backup k pid) (\<lambda>_.
      seq (fs_remove_file (marker_path k)) (\<lambda>_. sync_dir transaction_root))))
     (\<lambda>_ c. (room k (visible c) \<and> unmarked k (visible c) \<and> ph' (visible c)) \<and> co_pending c = []) (\<lambda>_. \<not> calm)"
proof -
  let ?S = "tx prev repl k"
  let ?closed = "\<lambda>v. room k v \<and> unmarked k v \<and> ph' v"
  have verify: "step calm ?S (stage ph k) (verify_transaction_final (final_path k)) (\<lambda>_. stage ph k)"
    by (rule triple_weaken [OF step_verify [where P = "stage ph k"]]) (use assms(1) in auto)
  have unmark: "?closed (reg_remove (marker_path k) v)" if "stage ph' k v" for v
    using that assms(3) [OF that] length_reg_remove [of v "marker_path k"] by (auto simp: stage_def room_def)
  have remove: "triple calm ?S (\<lambda>c. stage ph' k (visible c)) (fs_remove_file (marker_path k))
      (\<lambda>_ c. ?closed (visible c) \<and> co_pending c \<noteq> [] \<and> last (co_pending c) = Remove (marker_path k)) (\<lambda>_. \<not> calm)"
  proof (rule triple_remove_file)
    fix v
    assume v: "stage ph' k v"
    then show "(\<exists>data. reg_get v (marker_path k) = Some (File data)) \<and> tx prev repl k (reg_remove (marker_path k) v) \<and>
        ?closed (reg_remove (marker_path k) v)"
      using unmark [OF v] assms(4) by (simp add: stage_def tx_def)
  qed
  have sync: "triple calm ?S (\<lambda>c. ?closed (visible c) \<and> co_pending c \<noteq> [] \<and> last (co_pending c) = Remove (marker_path k))
      (sync_dir transaction_root) (\<lambda>_ c. ?closed (visible c) \<and> co_pending c = []) (\<lambda>_. \<not> calm)"
    by (rule triple_weaken [OF step_sync_durable [where P = ?closed]]) (auto simp: touches.simps)
  show ?thesis
    by (rule triple_seq [OF verify], rule triple_seq [OF assms(2)], rule triple_seq [OF remove], rule sync)
qed

lemma triple_close_any:
  assumes "is_dir prev" and "is_dir repl"
  shows "triple calm (tx prev repl k) (\<lambda>c. stage (visible_model prev repl k) k (visible c))
     (seq (verify_transaction_final (final_path k)) (\<lambda>_.
      seq (quarantine_backup k pid) (\<lambda>_.
      seq (fs_remove_file (marker_path k)) (\<lambda>_. sync_dir transaction_root))))
     (\<lambda>_ c. clean prev repl k (visible c) \<and> co_pending c = []) (\<lambda>_. \<not> calm)"
  by (rule triple_close [OF _ step_quarantine]) (use assms in \<open>auto simp: stage_def phases quarantined_def\<close>)

lemma triple_reconcile:
  assumes "is_dir prev" and "is_dir repl"
  shows "triple calm (tx prev repl k) (\<lambda>c. c = c0) (reconcile_repair k pid)
     (\<lambda>_ c. clean prev repl k (visible c) \<and> (co_pending c = [] \<or> c = c0)) (\<lambda>_. \<not> calm)"
  unfolding reconcile_repair_def
proof (rule triple_seq [OF triple_metadata])
  fix marker
  let ?S = "tx prev repl k"
  let ?any = "stage (\<lambda>v. visible_model prev repl k v \<or> displaced prev repl k v) k"
  show "triple calm ?S (\<lambda>c. c = c0 \<and> marker = look c (marker_path k))
     (case marker of None \<Rightarrow> ret () | Some n \<Rightarrow>
        seq (require (is_file n) (invalid ''repair marker is not a regular file'')) (\<lambda>_.
        seq (fs_metadata (final_path k)) (\<lambda>f. seq (fs_metadata (staging_path k)) (\<lambda>s. seq (fs_metadata (backup_path k)) (\<lambda>b.
        seq (case (f \<noteq> None, s \<noteq> None, b \<noteq> None) of
               (True, True, False) \<Rightarrow> seq (durable_rename (final_path k) (backup_path k))
                 (\<lambda>_. durable_rename (staging_path k) (final_path k))
             | (False, True, True) \<Rightarrow> durable_rename (staging_path k) (final_path k)
             | (False, False, True) \<Rightarrow> durable_rename (backup_path k) (final_path k)
             | (True, _, _) \<Rightarrow> ret ()
             | _ \<Rightarrow> throw (invalid ''repair transaction cannot be reconciled safely'')) (\<lambda>_.
        seq (verify_transaction_final (final_path k)) (\<lambda>_. seq (quarantine_backup k pid) (\<lambda>_.
        seq (fs_remove_file (marker_path k)) (\<lambda>_. sync_dir transaction_root)))))))))
     (\<lambda>_ c. clean prev repl k (visible c) \<and> (co_pending c = [] \<or> c = c0)) (\<lambda>_. \<not> calm)"
  proof (cases marker)
    case None
    have "clean prev repl k (visible c)" if "crash_ok ?S c" "None = look c (marker_path k)" for c
      using crash_ok_visible [OF that(1)] that(2) by (simp add: tx_def)
    note start = this
    have stay: "triple calm ?S (\<lambda>c. clean prev repl k (visible c) \<and> c = c0) (ret ())
        (\<lambda>_ c. clean prev repl k (visible c) \<and> (co_pending c = [] \<or> c = c0)) (\<lambda>_. \<not> calm)"
      by (rule triple_ret) blast
    show ?thesis
      unfolding None option.case
    proof (rule triple_weaken [OF stay])
      fix c
      assume c: "crash_ok ?S c" "c = c0 \<and> None = look c (marker_path k)"
      show "clean prev repl k (visible c) \<and> c = c0"
        by (rule conjI [OF start [OF c(1) conjunct2 [OF c(2)]] conjunct1 [OF c(2)]])
    qed simp_all
  next
    case (Some n)
    have start: "is_file n \<and> ?any (visible c)" if "crash_ok ?S c" "Some n = look c (marker_path k)" for c
      using crash_ok_visible [OF that(1)] that(2) by (auto simp: tx_def stage_def)
    have req: "triple calm ?S (\<lambda>c. is_file n \<and> ?any (visible c)) (require (is_file n) e) (\<lambda>_ c. ?any (visible c)) (\<lambda>_. \<not> calm)" for e
      by (rule triple_require) auto
    have body: "triple calm ?S (\<lambda>c. is_file n \<and> ?any (visible c))
        (seq (require (is_file n) (invalid ''repair marker is not a regular file'')) (\<lambda>_.
        seq (fs_metadata (final_path k)) (\<lambda>f. seq (fs_metadata (staging_path k)) (\<lambda>s. seq (fs_metadata (backup_path k)) (\<lambda>b.
        seq (case (f \<noteq> None, s \<noteq> None, b \<noteq> None) of
               (True, True, False) \<Rightarrow> seq (durable_rename (final_path k) (backup_path k))
                 (\<lambda>_. durable_rename (staging_path k) (final_path k))
             | (False, True, True) \<Rightarrow> durable_rename (staging_path k) (final_path k)
             | (False, False, True) \<Rightarrow> durable_rename (backup_path k) (final_path k)
             | (True, _, _) \<Rightarrow> ret ()
             | _ \<Rightarrow> throw (invalid ''repair transaction cannot be reconciled safely'')) (\<lambda>_.
        seq (verify_transaction_final (final_path k)) (\<lambda>_. seq (quarantine_backup k pid) (\<lambda>_.
        seq (fs_remove_file (marker_path k)) (\<lambda>_. sync_dir transaction_root)))))))))
        (\<lambda>_ c. clean prev repl k (visible c) \<and> co_pending c = []) (\<lambda>_. \<not> calm)"
      apply (rule triple_seq [OF req])
      apply (rule triple_seq [OF step_metadata])
      apply (rule triple_seq [OF step_metadata])
      apply (rule triple_seq [OF step_metadata])
      apply (rule triple_seq [OF triple_weaken [OF step_settle_entries] triple_close_any [OF assms]])
        apply auto
      done
    show ?thesis
      unfolding Some option.case by (rule triple_weaken [OF body]) (use start in auto)
  qed
qed


section \<open>Promotion\<close>

text \<open>A staged tree without links and special files.\<close>

fun plain_tree :: "node \<Rightarrow> bool" and plain_entries :: "(rstr \<times> node) list \<Rightarrow> bool" where
  "plain_tree (Dir entries) = plain_entries entries"
| "plain_tree (File _) = True"
| "plain_tree Link = False"
| "plain_tree Special = False"
| "plain_entries [] = True"
| "plain_entries (e # entries) = (plain_tree (snd e) \<and> plain_entries entries)"

lemma step_sync_staged:
  "(calm \<longrightarrow> plain_tree n) \<Longrightarrow> step calm safe P (sync_staged n) (\<lambda>_. P)"
  "(calm \<longrightarrow> plain_entries es) \<Longrightarrow> step calm safe P (sync_staged_entries es) (\<lambda>_. P)"
proof (induction n and es rule: sync_staged_sync_staged_entries.induct)
  case (1 entries)
  then show ?case by (auto intro!: triple_seq [OF step_check] triple_seq [OF "1.IH"] step_check)
next
  case (6 e entries)
  then show ?case by (auto intro!: triple_seq [OF step_check] triple_seq [OF "6.IH"(1)] "6.IH"(2))
qed (auto intro!: step_check triple_throw triple_ret)

lemma step_sync_staged_tree:
  assumes "\<And>v. P v \<Longrightarrow> calm \<Longrightarrow> \<exists>n. reg_get v (staging_path k) = Some n \<and> is_dir n \<and> plain_tree n"
  shows "step calm safe P (sync_staged_tree k) (\<lambda>_. P)"
  unfolding sync_staged_tree_def
proof (rule triple_seq [OF step_check], rule triple_seq [OF step_metadata])
  fix m
  have tree: "step calm safe (\<lambda>v. P v \<and> m = reg_get v (staging_path k))
      (case m of Some (Dir entries) \<Rightarrow> sync_staged (Dir entries)
       | _ \<Rightarrow> throw (invalid ''staged tree contains an unsafe directory'')) (\<lambda>_. P)"
  proof (cases "\<exists>entries. m = Some (Dir entries) \<and> (calm \<longrightarrow> plain_tree (Dir entries))")
    case True
    then obtain entries where m: "m = Some (Dir entries)" "calm \<longrightarrow> plain_tree (Dir entries)" by blast
    show ?thesis
      unfolding m(1) option.case node.case
      by (rule triple_weaken [OF step_sync_staged(1) [OF m(2), where P = P]]) auto
  next
    case False
    have never: "\<not> (P v \<and> m = reg_get v (staging_path k))" if calm for v
    proof
      assume v: "P v \<and> m = reg_get v (staging_path k)"
      with assms [of v] that obtain n where "m = Some n" "is_dir n" "plain_tree n" by auto
      then show False using False by (cases n) auto
    qed
    show ?thesis
    proof (cases calm)
      case True
      then show ?thesis using never unfolding triple_def by blast
    next
      case disturbed: False
      then show ?thesis
        using False by (auto intro!: triple_throw split: option.split node.split)
    qed
  qed
  show "step calm safe (\<lambda>v. P v \<and> m = reg_get v (staging_path k))
      (seq (case m of Some (Dir entries) \<Rightarrow> sync_staged (Dir entries)
         | _ \<Rightarrow> throw (invalid ''staged tree contains an unsafe directory''))
        (\<lambda>_. seq (sync_dir [lit ''staging'']) (\<lambda>_. sync_dir []))) (\<lambda>_. P)"
    by (rule triple_seq [OF tree], rule triple_seq [OF step_sync], rule step_sync)
qed


text \<open>Before a promotion that replaces an installed model.\<close>

definition staged :: "node \<Rightarrow> node \<Rightarrow> rstr \<Rightarrow> view \<Rightarrow> bool" where
  "staged prev repl k v \<longleftrightarrow> room k v \<and> unmarked k v \<and> reg_get v (final_path k) = Some prev \<and>
     reg_get v (backup_path k) = None \<and> reg_get v (staging_path k) = Some repl"

lemma staged_tx: "staged prev repl k v \<Longrightarrow> tx prev repl k v"
  by (simp add: staged_def tx_def untouched_def)

text \<open>The rest of a promotion once the marker stands and the staged tree is complete.\<close>

lemma triple_rollback:
  assumes "is_dir prev" and "is_dir repl"
  shows "triple False (tx prev repl k) (\<lambda>c. stage (\<lambda>v. untouched prev repl k v \<or> displaced prev repl k v) k (visible c))
     (seq (verify_transaction_final (final_path k)) (\<lambda>_.
      seq (fs_remove_file (marker_path k)) (\<lambda>_.
      seq (sync_dir transaction_root) (\<lambda>_. throw e)))) (\<lambda>_ _. False) (\<lambda>_. \<not> False)"
proof -
  let ?S = "tx prev repl k"
  have verify: "step False ?S (stage (\<lambda>v. untouched prev repl k v \<or> displaced prev repl k v) k)
      (verify_transaction_final (final_path k)) (\<lambda>_. stage (untouched prev repl k) k)"
    by (rule triple_weaken [OF step_verify [where P = "stage (\<lambda>v. untouched prev repl k v \<or> displaced prev repl k v) k"]])
      (auto simp: stage_def phases)
  have unmark: "clean prev repl k (reg_remove (marker_path k) v)" if "stage (untouched prev repl k) k v" for v
    using that length_reg_remove [of v "marker_path k"] by (auto simp: stage_def phases room_def)
  have remove: "step False ?S (stage (untouched prev repl k) k) (fs_remove_file (marker_path k)) (\<lambda>_ _. True)"
    by (rule triple_weaken [OF triple_remove_file [where P = "stage (untouched prev repl k) k" and Q = "\<lambda>_. True"]])
      (use clean_tx [OF unmark] in \<open>auto simp: stage_def\<close>)
  show ?thesis
    by (rule triple_seq [OF verify], rule triple_seq [OF remove], rule triple_seq [OF step_sync], rule triple_throw) simp
qed

lemma triple_commit:
  assumes "is_dir prev" and "is_dir repl"
  shows "triple calm (tx prev repl k) (\<lambda>c. stage (promoted prev repl k) k (visible c))
     (seq (verify_transaction_final (final_path k)) (\<lambda>_.
      seq (quarantine_backup k pid) (\<lambda>_.
      seq (fs_remove_file (marker_path k)) (\<lambda>_. sync_dir transaction_root))))
     (\<lambda>_ c. unmarked k (visible c) \<and> settled prev repl k (visible c) \<and> co_pending c = []) (\<lambda>_. \<not> calm)"
proof -
  have q: "step calm (tx prev repl k) (stage (promoted prev repl k) k) (quarantine_backup k pid)
      (\<lambda>_. stage (settled prev repl k) k)"
    by (rule step_quarantine_from) (auto simp: stage_def phases)
  show ?thesis
    by (rule triple_weaken [OF triple_close [OF _ q]]) (use assms in \<open>auto simp: stage_def phases quarantined_def\<close>)
qed


lemma triple_never: "(\<And>c. \<not> P c) \<Longrightarrow> triple calm safe P m Q E"
  by (simp add: triple_def)

text \<open>The two error exits of a promotion, which only a disturbed call reaches.\<close>

lemma triple_failed_displacement:
  assumes "is_dir prev" and "is_dir repl"
  shows "triple calm (tx prev repl k)
     (\<lambda>c. \<not> calm \<and> (stage (untouched prev repl k) k (visible c) \<or> stage (displaced prev repl k) k (visible c)))
     (seq (verify_transaction_final (final_path k)) (\<lambda>_.
      seq (fs_remove_file (marker_path k)) (\<lambda>_.
      seq (sync_dir transaction_root) (\<lambda>_. throw e)))) Q (\<lambda>_. \<not> calm)"
proof (cases calm)
  case True
  then show ?thesis by (simp add: triple_never)
next
  case False
  then have c: "calm = False" by simp
  show ?thesis
    unfolding c by (rule triple_weaken [OF triple_rollback [OF assms]]) (auto elim: stage_mono)
qed

lemma triple_failed_promotion:
  assumes "is_dir prev" and "is_dir repl"
  shows "triple calm (tx prev repl k)
     (\<lambda>c. \<not> calm \<and> (stage (displaced prev repl k) k (visible c) \<or> stage (promoted prev repl k) k (visible c)))
     (seq (attempt (durable_rename (backup_path k) (final_path k))) (\<lambda>restored.
        case restored of
          Inl _ \<Rightarrow> throw (invalid ''repair promotion was interrupted and requires reconciliation'')
        | Inr _ \<Rightarrow>
            seq (verify_transaction_final (final_path k)) (\<lambda>_.
            seq (fs_remove_file (marker_path k)) (\<lambda>_.
            seq (sync_dir transaction_root) (\<lambda>_.
            throw (invalid ''replacement promotion failed; the previous model was restored'')))))) Q (\<lambda>_. \<not> calm)"
    (is "triple calm ?S ?P ?m Q ?E")
proof -
  let ?Mid = "\<lambda>r c. case r of Inl _ \<Rightarrow> \<not> calm | Inr _ \<Rightarrow> \<not> calm \<and> stage (untouched prev repl k) k (visible c)"
  have "triple calm ?S ?P (attempt (durable_rename (backup_path k) (final_path k))) ?Mid ?E"
  proof (cases calm)
    case True
    then show ?thesis by (simp add: triple_never)
  next
    case False
    have "triple False ?S ?P (durable_rename (backup_path k) (final_path k))
        (\<lambda>_ c. stage (untouched prev repl k) k (visible c)) (\<lambda>_. \<not> False)"
      by (rule triple_weaken [OF triple_restore]) (use False in auto)
    then have "triple False ?S ?P (durable_rename (backup_path k) (final_path k))
        (\<lambda>x. ?Mid (Inr x)) (\<lambda>c. \<forall>e. ?Mid (Inl e) c)"
      by (rule triple_weaken) (use False in auto)
    moreover have c: "calm = False" using False by simp
    ultimately show ?thesis unfolding c by (intro triple_attempt)
  qed
  then show ?thesis
  proof (rule triple_seq)
    fix r
    show "triple calm ?S (?Mid r)
        (case r of Inl _ \<Rightarrow> throw (invalid ''repair promotion was interrupted and requires reconciliation'')
         | Inr _ \<Rightarrow> seq (verify_transaction_final (final_path k)) (\<lambda>_. seq (fs_remove_file (marker_path k)) (\<lambda>_.
            seq (sync_dir transaction_root) (\<lambda>_.
            throw (invalid ''replacement promotion failed; the previous model was restored''))))) Q ?E"
      by (cases r) (auto intro!: triple_throw triple_weaken [OF triple_failed_displacement [OF assms]])
  qed
qed

lemma triple_replace:
  assumes "is_dir prev" and "is_dir repl"
  shows "triple calm (tx prev repl k)
     (\<lambda>c. stage (untouched prev repl k) k (visible c) \<and> look c (staging_path k) \<noteq> None)
     (seq (attempt (durable_rename (final_path k) (backup_path k))) (\<lambda>displaced.
      case displaced of
        Inl e \<Rightarrow>
          seq (verify_transaction_final (final_path k)) (\<lambda>_.
          seq (fs_remove_file (marker_path k)) (\<lambda>_.
          seq (sync_dir transaction_root) (\<lambda>_. throw e)))
      | Inr _ \<Rightarrow>
      seq (attempt (durable_rename (staging_path k) (final_path k))) (\<lambda>promoted.
      case promoted of
        Inl _ \<Rightarrow>
          seq (attempt (durable_rename (backup_path k) (final_path k))) (\<lambda>restored.
          case restored of
            Inl _ \<Rightarrow> throw (invalid ''repair promotion was interrupted and requires reconciliation'')
          | Inr _ \<Rightarrow>
              seq (verify_transaction_final (final_path k)) (\<lambda>_.
              seq (fs_remove_file (marker_path k)) (\<lambda>_.
              seq (sync_dir transaction_root) (\<lambda>_.
              throw (invalid ''replacement promotion failed; the previous model was restored'')))))
      | Inr _ \<Rightarrow>
          seq (verify_transaction_final (final_path k)) (\<lambda>_.
          seq (quarantine_backup k pid) (\<lambda>_.
          seq (fs_remove_file (marker_path k)) (\<lambda>_.
          sync_dir transaction_root))))))
     (\<lambda>_ c. unmarked k (visible c) \<and> settled prev repl k (visible c) \<and> co_pending c = []) (\<lambda>_. \<not> calm)"
    (is "triple calm ?S ?P (seq ?first ?rest) ?Q ?E")
proof (rule triple_seq)
  let ?Mid1 = "\<lambda>r c. case r of
      Inl _ \<Rightarrow> \<not> calm \<and> (stage (untouched prev repl k) k (visible c) \<or> stage (displaced prev repl k) k (visible c))
    | Inr _ \<Rightarrow> ready prev repl k (visible c)"
  let ?Mid2 = "\<lambda>r c. case r of
      Inl _ \<Rightarrow> \<not> calm \<and> (stage (displaced prev repl k) k (visible c) \<or> stage (promoted prev repl k) k (visible c))
    | Inr _ \<Rightarrow> stage (promoted prev repl k) k (visible c)"
  show "triple calm ?S ?P ?first ?Mid1 ?E"
    by (rule triple_attempt, rule triple_weaken [OF untouched_staged]) auto
  have second: "triple calm ?S (\<lambda>c. ready prev repl k (visible c)) (attempt (durable_rename (staging_path k) (final_path k))) ?Mid2 ?E"
    by (rule triple_attempt, rule triple_weaken [OF triple_promote_staged]) auto
  fix r
  show "triple calm ?S (?Mid1 r) (?rest r) ?Q ?E"
  proof (cases r)
    case (Inl e)
    show ?thesis unfolding Inl sum.case by (rule triple_failed_displacement [OF assms])
  next
    case (Inr u)
    show ?thesis
      unfolding Inr sum.case
    proof (rule triple_seq [OF second])
      fix r'
      show "triple calm ?S (?Mid2 r')
          (case r' of Inl _ \<Rightarrow>
              seq (attempt (durable_rename (backup_path k) (final_path k))) (\<lambda>restored.
              case restored of
                Inl _ \<Rightarrow> throw (invalid ''repair promotion was interrupted and requires reconciliation'')
              | Inr _ \<Rightarrow>
                  seq (verify_transaction_final (final_path k)) (\<lambda>_.
                  seq (fs_remove_file (marker_path k)) (\<lambda>_.
                  seq (sync_dir transaction_root) (\<lambda>_.
                  throw (invalid ''replacement promotion failed; the previous model was restored'')))))
            | Inr _ \<Rightarrow>
              seq (verify_transaction_final (final_path k)) (\<lambda>_.
              seq (quarantine_backup k pid) (\<lambda>_.
              seq (fs_remove_file (marker_path k)) (\<lambda>_. sync_dir transaction_root)))) ?Q ?E"
        by (cases r')
          (simp_all only: sum.case triple_failed_promotion [OF assms] triple_commit [OF assms])
    qed
  qed
qed


lemma step_reconcile_idle:
  assumes "\<And>v. P v \<Longrightarrow> unmarked k v"
  shows "step calm safe P (reconcile_repair k pid) (\<lambda>_. P)"
  unfolding reconcile_repair_def
proof (rule triple_seq [OF step_metadata])
  fix marker
  let ?k = "\<lambda>n. seq (require (is_file n) (invalid ''repair marker is not a regular file'')) (\<lambda>_.
      seq (fs_metadata (final_path k)) (\<lambda>f.
      seq (fs_metadata (staging_path k)) (\<lambda>s.
      seq (fs_metadata (backup_path k)) (\<lambda>b.
      seq (case (f \<noteq> None, s \<noteq> None, b \<noteq> None) of
             (True, True, False) \<Rightarrow>
               seq (durable_rename (final_path k) (backup_path k)) (\<lambda>_.
               durable_rename (staging_path k) (final_path k))
           | (False, True, True) \<Rightarrow> durable_rename (staging_path k) (final_path k)
           | (False, False, True) \<Rightarrow> durable_rename (backup_path k) (final_path k)
           | (True, _, _) \<Rightarrow> ret ()
           | _ \<Rightarrow> throw (invalid ''repair transaction cannot be reconciled safely'')) (\<lambda>_.
      seq (verify_transaction_final (final_path k)) (\<lambda>_.
      seq (quarantine_backup k pid) (\<lambda>_.
      seq (fs_remove_file (marker_path k)) (\<lambda>_.
      sync_dir transaction_root))))))))"
  show "step calm safe (\<lambda>v. P v \<and> marker = reg_get v (marker_path k)) (case marker of None \<Rightarrow> ret () | Some n \<Rightarrow> ?k n) (\<lambda>_. P)"
  proof (cases marker)
    case None
    then show ?thesis by (auto intro!: triple_ret)
  next
    case (Some n)
    then have "\<not> (P v \<and> marker = reg_get v (marker_path k))" for v using assms [of v] by auto
    then show ?thesis by (intro triple_never) blast
  qed
qed

lemma staged_marked:
  assumes "staged prev repl k v"
  shows "stage (untouched prev repl k) k (reg_insert (marker_path k) (File []) v)"
    and "reg_get (reg_insert (marker_path k) (File []) v) (staging_path k) \<noteq> None"
  using assms length_reg_insert [of "marker_path k" "File []" v]
  by (auto simp: staged_def stage_def phases room_def)

lemma triple_promote:
  assumes "is_dir prev" and "is_dir repl" and "calm \<longrightarrow> plain_tree repl"
  shows "triple calm (tx prev repl k) (\<lambda>c. staged prev repl k (visible c)) (promote k pid)
     (\<lambda>_ c. unmarked k (visible c) \<and> settled prev repl k (visible c) \<and> co_pending c = []) (\<lambda>_. \<not> calm)"
    (is "triple calm ?S ?P _ ?Q ?E")
proof -
  have known: "previous \<noteq> Link" if "staged prev repl k v \<and> Some previous = reg_get v (final_path k)" for previous v
    using that assms(1) by (auto simp: staged_def)
  have create: "step calm ?S (staged prev repl k) (fs_create_new (marker_path k))
      (\<lambda>_ v. stage (untouched prev repl k) k v \<and> reg_get v (staging_path k) \<noteq> None)"
    by (rule step_create) (auto simp: staged_def intro: staged_marked stage_tx(1) [OF staged_marked(1)])
  have req: "step calm ?S (\<lambda>v. (staged prev repl k v \<and> b = reg_get v (backup_path k)) \<and> m = reg_get v (marker_path k))
      (require (b = None \<and> m = None) e) (\<lambda>_. staged prev repl k)" for b m e
    by (rule triple_require) (auto simp: staged_def)
  have real: "step calm ?S (\<lambda>v. staged prev repl k v \<and> Some previous = reg_get v (final_path k))
      (require (previous \<noteq> Link) e) (\<lambda>_. staged prev repl k)" for previous e
    by (rule triple_require) (use known in auto)
  have "step calm ?S (staged prev repl k) (reconcile_repair k pid) (\<lambda>_. staged prev repl k)"
    by (rule step_reconcile_idle) (simp add: staged_def)
  then show ?thesis
    unfolding promote_def
  proof (rule triple_seq, rule_tac triple_seq [OF step_sync_staged_tree], goal_cases)
    case (1 x v)
    then show ?case using assms(2,3) by (simp add: staged_def)
  next
    case (2 x y)
    show ?case
    proof (rule triple_seq [OF step_metadata], rename_tac f)
      fix f
      show "triple calm ?S (\<lambda>c. staged prev repl k (visible c) \<and> f = look c (final_path k))
         (case f of None \<Rightarrow> durable_rename (staging_path k) (final_path k)
          | Some previous \<Rightarrow>
            seq fs_check (\<lambda>_.
            seq (require (previous \<noteq> Link) (invalid ''path contains a symlink or reparse point'')) (\<lambda>_.
            seq fs_check (\<lambda>_.
            seq (sync_dir []) (\<lambda>_.
            seq (fs_metadata (backup_path k)) (\<lambda>b.
            seq (fs_metadata (marker_path k)) (\<lambda>m.
            seq (require (b = None \<and> m = None) (invalid ''repair transaction state is not clean'')) (\<lambda>_.
            seq (fs_create_new (marker_path k)) (\<lambda>_.
            seq fs_check (\<lambda>_.
            seq (sync_dir transaction_root) (\<lambda>_.
            seq (attempt (durable_rename (final_path k) (backup_path k))) (\<lambda>displaced.
            case displaced of
              Inl e \<Rightarrow>
                seq (verify_transaction_final (final_path k)) (\<lambda>_.
                seq (fs_remove_file (marker_path k)) (\<lambda>_.
                seq (sync_dir transaction_root) (\<lambda>_. throw e)))
            | Inr _ \<Rightarrow>
            seq (attempt (durable_rename (staging_path k) (final_path k))) (\<lambda>promoted.
            case promoted of
              Inl _ \<Rightarrow>
                seq (attempt (durable_rename (backup_path k) (final_path k))) (\<lambda>restored.
                case restored of
                  Inl _ \<Rightarrow> throw (invalid ''repair promotion was interrupted and requires reconciliation'')
                | Inr _ \<Rightarrow>
                    seq (verify_transaction_final (final_path k)) (\<lambda>_.
                    seq (fs_remove_file (marker_path k)) (\<lambda>_.
                    seq (sync_dir transaction_root) (\<lambda>_.
                    throw (invalid ''replacement promotion failed; the previous model was restored'')))))
            | Inr _ \<Rightarrow>
                seq (verify_transaction_final (final_path k)) (\<lambda>_.
                seq (quarantine_backup k pid) (\<lambda>_.
                seq (fs_remove_file (marker_path k)) (\<lambda>_.
                sync_dir transaction_root)))))))))))))))) ?Q ?E"
      proof (cases f)
        case None
        then show ?thesis by (intro triple_never) (auto simp: staged_def)
      next
        case (Some previous)
        show ?thesis
          unfolding Some option.case
          by (rule triple_seq [OF step_check], rule triple_seq [OF real], rule triple_seq [OF step_check],
              rule triple_seq [OF step_sync], rule triple_seq [OF step_metadata], rule triple_seq [OF step_metadata],
              rule triple_seq [OF req], rule triple_seq [OF create], rule triple_seq [OF step_check],
              rule triple_seq [OF step_sync], rule triple_replace [OF assms(1,2)])
      qed
    qed
  qed
qed


section \<open>Deletion\<close>

text \<open>The states of a deletion: the model is installed or not, and the tombstone holds what is left of it.\<close>

definition deleting :: "node \<Rightarrow> rstr \<Rightarrow> view \<Rightarrow> bool" where
  "deleting n k v \<longleftrightarrow> unmarked k v \<and> reg_get v (backup_path k) = None \<and>
     reg_get v (final_path k) \<in> {None, Some n} \<and>
     (reg_get v (tombstone_path k) = None \<or> (\<exists>es. reg_get v (tombstone_path k) = Some (Dir es)))"

lemma triple_remove_dir_all:
  assumes "\<And>v. P v \<Longrightarrow> reg_get v p \<noteq> None \<and> safe (reg_remove p v) \<and> Q (reg_remove p v)"
    and "\<And>v es. P v \<Longrightarrow> safe (reg_insert p (Dir es) v)"
  shows "triple calm safe (\<lambda>c. P (visible c)) (fs_remove_dir_all p)
      (\<lambda>_ c. Q (visible c) \<and> co_pending c \<noteq> [] \<and> last (co_pending c) = Remove p) (\<lambda>_. \<not> calm)"
proof (rule tripleI)
  fix c script c' script' r
  assume pre: "crash_ok safe c" "P (visible c)" "calm \<longrightarrow> script = []"
    and run: "fs_remove_dir_all p (c, script) = ((c', script'), r)"
  let ?act = "\<lambda>c. if look c p = None then (c, Errs (ME_Io not_found)) else (mutate (Remove p) c, Returns ())"
  have act: "triple calm safe (\<lambda>c. P (visible c)) (io ?act)
      (\<lambda>_ c. Q (visible c) \<and> co_pending c \<noteq> [] \<and> last (co_pending c) = Remove p) (\<lambda>_. \<not> calm)"
    by (rule triple_io) (use assms(1) in \<open>auto simp: crash_ok_mutate apply_op.simps split: if_split_asm\<close>)
  show "crash_ok safe c' \<and> (calm \<longrightarrow> script' = []) \<and>
      (case r of Returns x \<Rightarrow> Q (visible c') \<and> co_pending c' \<noteq> [] \<and> last (co_pending c') = Remove p
       | Errs _ \<Rightarrow> \<not> calm | Stopped_Here \<Rightarrow> \<not> calm)"
  proof (cases "\<exists>remnant stops rest. script = Leaves remnant stops # rest")
    case True
    then obtain remnant stops rest where s: "script = Leaves remnant stops # rest" by blast
    then show ?thesis
      using run pre assms(2) [OF pre(2)] by (auto simp: fs_remove_dir_all_def crash_ok_mutate apply_op.simps split: if_split_asm)
  next
    case False
    then have "fs_remove_dir_all p (c, script) = io ?act (c, script)"
      by (auto simp: fs_remove_dir_all_def split: list.split io_choice.split)
    then show ?thesis using tripleD [OF act pre(1) _ pre(3)] pre(2) run by metis
  qed
qed

lemma triple_remove_tombstone:
  "triple calm (deleting n k)
     (\<lambda>c. deleting n k (visible c) \<and> look c (final_path k) = f \<and> look c (tombstone_path k) \<noteq> None)
     (remove_deletion_tombstone k)
     (\<lambda>_ c. deleting n k (visible c) \<and> look c (final_path k) = f \<and> look c (tombstone_path k) = None \<and> co_pending c = [])
     (\<lambda>_. \<not> calm)"
  unfolding remove_deletion_tombstone_def
proof (rule triple_seq [OF triple_metadata])
  fix m
  let ?P = "\<lambda>v. deleting n k v \<and> reg_get v (final_path k) = f \<and> reg_get v (tombstone_path k) \<noteq> None"
  let ?Q = "\<lambda>v. deleting n k v \<and> reg_get v (final_path k) = f \<and> reg_get v (tombstone_path k) = None"
  have req: "triple calm (deleting n k) (\<lambda>c. ?P (visible c) \<and> Some t = look c (tombstone_path k))
      (require (is_dir t) e) (\<lambda>_ c. ?P (visible c)) (\<lambda>_. \<not> calm)" for t e
    by (rule triple_require) (auto simp: deleting_def)
  have remove: "triple calm (deleting n k) (\<lambda>c. ?P (visible c)) (fs_remove_dir_all (tombstone_path k))
      (\<lambda>_ c. ?Q (visible c) \<and> co_pending c \<noteq> [] \<and> last (co_pending c) = Remove (tombstone_path k)) (\<lambda>_. \<not> calm)"
    by (rule triple_remove_dir_all) (auto simp: deleting_def)
  have sync: "triple calm (deleting n k)
      (\<lambda>c. ?Q (visible c) \<and> co_pending c \<noteq> [] \<and> last (co_pending c) = Remove (tombstone_path k))
      (sync_dir transaction_root) (\<lambda>_ c. ?Q (visible c) \<and> co_pending c = []) (\<lambda>_. \<not> calm)"
    by (rule triple_weaken [OF step_sync_durable [where P = ?Q]]) auto
  show "triple calm (deleting n k) (\<lambda>c. ?P (visible c) \<and> m = look c (tombstone_path k))
      (case m of None \<Rightarrow> ret () | Some t \<Rightarrow>
         seq (require (is_dir t) (invalid ''deletion tombstone is not a regular directory'')) (\<lambda>_.
         seq (fs_remove_dir_all (tombstone_path k)) (\<lambda>_. sync_dir transaction_root)))
      (\<lambda>_ c. deleting n k (visible c) \<and> look c (final_path k) = f \<and> look c (tombstone_path k) = None \<and> co_pending c = [])
      (\<lambda>_. \<not> calm)"
  proof (cases m)
    case None
    then show ?thesis by (intro triple_never) auto
  next
    case (Some t)
    have "triple calm (deleting n k) (\<lambda>c. ?P (visible c) \<and> Some t = look c (tombstone_path k))
      (seq (require (is_dir t) (invalid ''deletion tombstone is not a regular directory'')) (\<lambda>_.
         seq (fs_remove_dir_all (tombstone_path k)) (\<lambda>_. sync_dir transaction_root)))
      (\<lambda>_ c. ?Q (visible c) \<and> co_pending c = []) (\<lambda>_. \<not> calm)"
      by (rule triple_seq [OF req], rule triple_seq [OF remove], rule sync)
    then show ?thesis unfolding Some option.case by (rule triple_weaken) auto
  qed
qed


lemma triple_bury:
  assumes "is_dir n"
  shows "triple calm (deleting n k)
     (\<lambda>c. deleting n k (visible c) \<and> look c (final_path k) = Some n \<and> look c (tombstone_path k) = None)
     (durable_rename (final_path k) (tombstone_path k))
     (\<lambda>_ c. deleting n k (visible c) \<and> look c (final_path k) = None \<and> look c (tombstone_path k) \<noteq> None) (\<lambda>_. \<not> calm)"
proof -
  have move: "deleting n k (apply_op (Rename (final_path k) (tombstone_path k)) v) \<and>
      reg_get (apply_op (Rename (final_path k) (tombstone_path k)) v) (final_path k) = None \<and>
      reg_get (apply_op (Rename (final_path k) (tombstone_path k)) v) (tombstone_path k) \<noteq> None"
    if "deleting n k v \<and> reg_get v (final_path k) = Some n \<and> reg_get v (tombstone_path k) = None" for v
    using that assms by (cases n) (auto simp: deleting_def apply_op.simps)
  show ?thesis
    by (rule triple_weaken [OF triple_durable_rename [where
          P = "\<lambda>v. deleting n k v \<and> reg_get v (final_path k) = Some n \<and> reg_get v (tombstone_path k) = None" and
          Q = "\<lambda>v. deleting n k v \<and> reg_get v (final_path k) = None \<and> reg_get v (tombstone_path k) \<noteq> None"]])
      (use move in \<open>auto intro: rename_over_nothing\<close>)
qed

lemma triple_delete:
  assumes "is_dir n" and "read_contained_manifest env n = Inr manifest"
  shows "triple calm (deleting n k) (\<lambda>c. deleting n k (visible c)) (delete_locked env manifest k pid)
     (\<lambda>existed c. look c (final_path k) = None \<and> look c (tombstone_path k) = None \<and> (existed \<longrightarrow> co_pending c = []))
     (\<lambda>_. \<not> calm)" (is "triple calm ?S _ _ ?Q ?E")
proof -
  let ?D = "deleting n k"
  have idle: "step calm ?S ?D (reconcile_repair k pid) (\<lambda>_. ?D)"
    by (rule step_reconcile_idle) (simp add: deleting_def)
  text \<open>After the tombstone of an earlier attempt is gone.\<close>
  let ?C = "\<lambda>t c. ?D (visible c) \<and> look c (tombstone_path k) = None \<and> (t \<noteq> None \<longrightarrow> co_pending c = [])"
  have first: "triple calm ?S (\<lambda>c. ?D (visible c) \<and> t = look c (tombstone_path k))
      (if t \<noteq> None then remove_deletion_tombstone k else ret ()) (\<lambda>_. ?C t) ?E" for t
  proof (cases t)
    case None
    then show ?thesis by (auto intro!: triple_ret)
  next
    case (Some x)
    have "triple calm ?S (\<lambda>c. (?D (visible c) \<and> t = look c (tombstone_path k)) \<and> look c (final_path k) = f)
        (remove_deletion_tombstone k) (\<lambda>_. ?C t) ?E" for f
      by (rule triple_weaken [OF triple_remove_tombstone [where f = f]]) (use Some in \<open>auto dest!: sym [of "Some _"]\<close>)
    then have "triple calm ?S (\<lambda>c. ?D (visible c) \<and> t = look c (tombstone_path k)) (remove_deletion_tombstone k) (\<lambda>_. ?C t) ?E"
      unfolding triple_def by blast
    then show ?thesis using Some by simp
  qed
  have bury: "triple calm ?S (\<lambda>c. ?D (visible c) \<and> look c (final_path k) = Some n \<and> look c (tombstone_path k) = None)
      (seq (durable_rename (final_path k) (tombstone_path k)) (\<lambda>_. seq (remove_deletion_tombstone k) (\<lambda>_. ret True))) ?Q ?E"
    by (rule triple_seq [OF triple_bury [OF assms(1)]], rule triple_seq [OF triple_remove_tombstone], rule triple_ret) auto
  have last: "triple calm ?S (\<lambda>c. ?C t c \<and> f = look c (final_path k))
      (case f of None \<Rightarrow> ret (t \<noteq> None)
       | Some x \<Rightarrow>
          seq (require (is_dir x) (invalid ''refusing to delete non-directory or symlink target'')) (\<lambda>_.
          seq fs_check (\<lambda>_.
          case read_contained_manifest env x of Inl e \<Rightarrow> throw e
          | Inr stored \<Rightarrow>
          seq (require (stored = manifest \<and>
                 artifact_fingerprint (fingerprint_part env) stored = artifact_fingerprint (fingerprint_part env) manifest)
               (invalid ''stored manifest does not exactly match deletion request'')) (\<lambda>_.
          seq (durable_rename (final_path k) (tombstone_path k)) (\<lambda>_.
          seq (remove_deletion_tombstone k) (\<lambda>_. ret True)))))) ?Q ?E" for t f
  proof (cases f)
    case None
    then show ?thesis by (auto intro!: triple_ret)
  next
    case (Some x)
    show ?thesis
    proof (cases "x = n")
      case True
      let ?B = "\<lambda>v. ?D v \<and> reg_get v (final_path k) = Some n \<and> reg_get v (tombstone_path k) = None"
      have req: "triple calm ?S (\<lambda>c. ?B (visible c)) (require ok e) (\<lambda>_ c. ?B (visible c)) ?E" if ok for ok e
        by (rule triple_require) (use that in simp)
      have "triple calm ?S (\<lambda>c. ?B (visible c))
          (seq (require (is_dir n) (invalid ''refusing to delete non-directory or symlink target'')) (\<lambda>_.
          seq fs_check (\<lambda>_.
          case read_contained_manifest env n of Inl e \<Rightarrow> throw e
          | Inr stored \<Rightarrow>
          seq (require (stored = manifest \<and>
                 artifact_fingerprint (fingerprint_part env) stored = artifact_fingerprint (fingerprint_part env) manifest)
               (invalid ''stored manifest does not exactly match deletion request'')) (\<lambda>_.
          seq (durable_rename (final_path k) (tombstone_path k)) (\<lambda>_.
          seq (remove_deletion_tombstone k) (\<lambda>_. ret True)))))) ?Q ?E"
        unfolding assms(2) sum.case
        by (rule triple_seq [OF req], rule assms(1), rule triple_seq [OF step_check [where P = ?B]],
            rule triple_seq [OF req], simp, rule bury)
      then show ?thesis unfolding Some True option.case by (rule triple_weaken) auto
    next
      case False
      then show ?thesis unfolding Some option.case by (intro triple_never) (auto simp: deleting_def)
    qed
  qed
  show ?thesis
    unfolding delete_locked_def
    by (rule triple_seq [OF idle], rule triple_seq [OF step_check], rule triple_seq [OF step_sync],
        rule triple_seq [OF step_sync], rule triple_seq [OF triple_metadata], rule triple_seq [OF first],
        rule triple_seq [OF triple_metadata], rule last)
qed


section \<open>What a restart finds\<close>

definition restart :: "view \<Rightarrow> 64 word \<Rightarrow> core" where
  "restart v n = \<lparr>co_disk = v, co_pending = [], co_sequence = n\<rparr>"

lemma visible_restart [simp]: "visible (restart v n) = v" "crash_ok safe (restart v n) = safe v" "co_pending (restart v n) = []"
  by (simp_all add: restart_def visible_def crash_ok_alt)

text \<open>The views left by a promotion that stopped somewhere, and by recoveries that stopped in turn.\<close>

inductive left_behind :: "rstr \<Rightarrow> view \<Rightarrow> view \<Rightarrow> bool" for k start where
  promotion_stopped:
    "left_behind k start v" if "promote k pid (restart start n, script) = ((c, rest), r)" and "v \<in> set (crash_views c)"
| recovery_stopped:
    "left_behind k start v'" if "left_behind k start v"
      and "reconcile_repair k pid (restart v n, script) = ((c, rest), r)" and "v' \<in> set (crash_views c)"

lemma recovery_run:
  assumes "is_dir prev" and "is_dir repl" and "tx prev repl k v"
    and "reconcile_repair k pid (restart v n, script) = ((c, rest), r)"
  shows "list_all (tx prev repl k) (crash_views c) \<and>
     (r = Returns () \<longrightarrow> clean prev repl k (visible c) \<and> co_pending c = []) \<and> (script = [] \<longrightarrow> r = Returns ())"
  using tripleD [OF triple_reconcile [OF assms(1,2), where calm = "script = []"] _ refl _ assms(4)] assms(3)
  by (cases r) (auto simp: crash_ok_def [symmetric])

section \<open>A model and its replacement\<close>

definition old_model :: node where
  "old_model = Dir [(lit ''manifest.json'', File [1]), (lit ''m.onnx'', File [7, 7])]"

definition new_model :: node where
  "new_model = Dir [(lit ''manifest.json'', File [2]), (lit ''onnx'', Dir [(lit ''m.onnx'', File [8])])]"

definition demo_cache :: view where
  "demo_cache = [(final_path (lit ''k''), old_model), (staging_path (lit ''k''), new_model)]"

lemma demo_staged: "is_dir old_model" "is_dir new_model" "plain_tree new_model" "staged old_model new_model (lit ''k'') demo_cache"
  by (simp_all add: old_model_def new_model_def demo_cache_def staged_def room_def word_limit_def reg_get_def)






definition demo_store :: store_env where
  "demo_store = \<lparr>fe_parse_url = (\<lambda>_. Some demo_url), fe_contract_json = (\<lambda>_. Inr []), fe_sha256 = id,
     se_decode = (\<lambda>_. Inr demo_manifest)\<rparr>"


end
