(* ===== verification/Store_Read.thy ===== *)
theory Store_Read
  imports Manifest Batch
begin

text \<open>
  Reading models from the cache (\<^verbatim>\<open>impossible-models/src/store.rs\<close>): opening a file below its base without
  following links, hashing and reading an artifact through one handle, reading the identity record, and
  the verification status of a model. Other processes may change the files at any time, so what every
  system call answers is an arbitrary observation. A read whose answers run out has not returned: \<open>None\<close>.
\<close>

section \<open>Observations\<close>

record meta =
  mt_reparse :: bool
  mt_is_file :: bool
  mt_is_dir :: bool
  mt_len :: nat

datatype reply = Data bytes | Read_Err io_error

record handle =
  hd_initial :: "io_error + meta"
  hd_replies :: "reply list"
  hd_final :: "io_error + meta"

text \<open>
  What opening one path below a base sees: the metadata of the base and of every prefix of the path by
  its number of components; then, while the path is opened for good, the base directory, the creation
  and the opening of every parent, and the handle of the leaf.
\<close>

record observed =
  ob_base :: "io_error + meta"
  ob_prefix :: "nat \<Rightarrow> io_error + meta"
  ob_open_base :: "io_error + meta"
  ob_mkdir :: "nat \<Rightarrow> io_error + unit"
  ob_open_dir :: "nat \<Rightarrow> io_error + unit"
  ob_open :: "io_error + handle"

definition kind_is :: "string \<Rightarrow> io_error \<Rightarrow> bool" where
  "kind_is kind e \<longleftrightarrow> io_kind e = lit kind"

section \<open>Opening\<close>

definition normal_component :: "component \<Rightarrow> bool" where
  "normal_component c = (case c of Normal _ \<Rightarrow> True | _ \<Rightarrow> False)"

definition validate_path_components :: "rstr \<Rightarrow> model_error + unit" where
  "validate_path_components relative =
     reject_if (list_ex (\<lambda>c. \<not> normal_component c) (path_components relative) \<and> relative \<noteq> [])
       (invalid ''path contains unsafe components'')"

fun reject_reparse_from :: "observed \<Rightarrow> nat \<Rightarrow> component list \<Rightarrow> model_error + unit" where
  "reject_reparse_from ob n [] = Ok ()"
| "reject_reparse_from ob n (c # cs) =
     (if \<not> normal_component c then Err (invalid ''path contains unsafe components'')
      else (case ob_prefix ob (Suc n) of
          Inr m \<Rightarrow> if mt_reparse m then Err (invalid ''path contains a symlink or reparse point'')
                   else reject_reparse_from ob (Suc n) cs
        | Inl e \<Rightarrow> if kind_is ''NotFound'' e then Ok () else Err (ME_Io e)))"

definition reject_reparse_components :: "observed \<Rightarrow> rstr \<Rightarrow> model_error + unit" where
  "reject_reparse_components ob relative =
     and_then (map_err ME_Io (ob_base ob)) (\<lambda>m.
     and_then (reject_if (mt_reparse m) (invalid ''path contains a symlink or reparse point'')) (\<lambda>_.
     reject_reparse_from ob 0 (path_components relative)))"

fun open_parents :: "observed \<Rightarrow> nat \<Rightarrow> component list \<Rightarrow> model_error + unit" where
  "open_parents ob n [] = Ok ()"
| "open_parents ob n (c # cs) =
     (if \<not> normal_component c then Err (invalid ''path contains unsafe components'')
      else (case ob_mkdir ob n of
          Inl e \<Rightarrow> if kind_is ''AlreadyExists'' e
                   then and_then (map_err ME_Io (ob_open_dir ob n)) (\<lambda>_. open_parents ob (Suc n) cs)
                   else Err (ME_Io e)
        | Inr _ \<Rightarrow> and_then (map_err ME_Io (ob_open_dir ob n)) (\<lambda>_. open_parents ob (Suc n) cs)))"

definition securely_open_unix_parent :: "observed \<Rightarrow> component list \<Rightarrow> model_error + unit" where
  "securely_open_unix_parent ob parents =
     and_then (map_err ME_Io (ob_open_base ob)) (\<lambda>m.
     and_then (reject_if (mt_reparse m \<or> \<not> mt_is_dir m) (invalid ''cache directory cannot be a symlink'')) (\<lambda>_.
     open_parents ob 0 parents))"

text \<open>\<^verbatim>\<open>parent\<close> and \<^verbatim>\<open>file_name\<close>: a path that ends in a normal component has both.\<close>

definition securely_open_existing_file :: "observed \<Rightarrow> rstr \<Rightarrow> model_error + handle" where
  "securely_open_existing_file ob relative =
     (let cs = path_components relative in
      and_then (securely_open_unix_parent ob (butlast cs)) (\<lambda>_.
      and_then (reject_if (cs = [] \<or> \<not> normal_component (last cs)) (invalid ''file path has no leaf'')) (\<lambda>_.
      map_err ME_Io (ob_open ob))))"

definition open_contained_regular_file :: "observed \<Rightarrow> rstr \<Rightarrow> nat \<Rightarrow> model_error + handle" where
  "open_contained_regular_file ob relative expected_size =
     and_then (validate_path_components relative) (\<lambda>_.
     and_then (reject_reparse_components ob relative) (\<lambda>_.
     and_then (securely_open_existing_file ob relative) (\<lambda>h.
     and_then (map_err ME_Io (hd_initial h)) (\<lambda>m.
     and_then (reject_if (mt_reparse m \<or> \<not> mt_is_file m \<or> mt_len m \<noteq> expected_size)
       (invalid ''artifact changed after verification'')) (\<lambda>_.
     Ok h)))))"

section \<open>Hashing an artifact\<close>

definition buffer_len :: nat where "buffer_len = 64 * 1024"

text \<open>
  The loop of \<^verbatim>\<open>verify_contained_artifact\<close>: \<open>Some (Ok None)\<close> is a file that grew past its size, and
  \<open>Some (Ok (Some bs))\<close> the bytes read up to the end of the file.
\<close>

fun verify_loop ::
  "nat \<Rightarrow> (nat \<Rightarrow> bool) \<Rightarrow> nat \<Rightarrow> bytes \<Rightarrow> reply list \<Rightarrow> (model_error + bytes option) option" where
  "verify_loop expected cancelled turn acc replies =
     (if cancelled turn then Some (Err ME_Cancelled)
      else let remaining = expected + 1 - length acc in
        if remaining = 0 then Some (Ok None)
        else (case replies of
            [] \<Rightarrow> None
          | reply # rest \<Rightarrow>
            (case reply of
               Read_Err e \<Rightarrow> Some (Err (ME_Io e))
             | Data d \<Rightarrow>
                let chunk = take (min remaining buffer_len) d in
                if chunk = [] then Some (Ok (Some acc))
                else if expected < length acc + length chunk then Some (Ok None)
                else verify_loop expected cancelled (Suc turn) (acc @ chunk) rest)))"

declare verify_loop.simps [simp del]

definition verify_contained_artifact ::
  "(bytes \<Rightarrow> bytes) \<Rightarrow> observed \<Rightarrow> artifact \<Rightarrow> (nat \<Rightarrow> bool) \<Rightarrow> (model_error + bool) option" where
  "verify_contained_artifact sha ob art cancelled =
     (case open_contained_regular_file ob (art_path art) (art_size art) of
        Inl (ME_Io e) \<Rightarrow> Some (if kind_is ''NotFound'' e then Ok False else Err (ME_Io e))
      | Inl (ME_Invalid _) \<Rightarrow> Some (Ok False)
      | Inl e \<Rightarrow> Some (Err e)
      | Inr h \<Rightarrow>
         (case checked_add (art_size art) 1 of None \<Rightarrow> Some (Err (invalid ''artifact length overflow''))
          | Some _ \<Rightarrow>
         (case verify_loop (art_size art) cancelled 0 [] (hd_replies h) of
            None \<Rightarrow> None
          | Some (Inl e) \<Rightarrow> Some (Err e)
          | Some (Inr None) \<Rightarrow> Some (Ok False)
          | Some (Inr (Some bs)) \<Rightarrow>
             Some (and_then (map_err ME_Io (hd_final h)) (\<lambda>m.
               Ok (\<not> (mt_reparse m \<or> \<not> mt_is_file m \<or> mt_len m \<noteq> art_size art \<or> length bs \<noteq> art_size art
                    \<or> lower_hex (sha bs) \<noteq> art_sha256 art)))))))"

section \<open>Reading an artifact\<close>

text \<open>\<^verbatim>\<open>take(limit).read_to_end\<close>, which retries an interrupted read.\<close>

fun read_to_end :: "nat \<Rightarrow> bytes \<Rightarrow> reply list \<Rightarrow> (io_error + bytes) option" where
  "read_to_end limit acc replies =
     (if limit \<le> length acc then Some (Ok acc)
      else (case replies of
          [] \<Rightarrow> None
        | reply # rest \<Rightarrow>
          (case reply of
             Read_Err e \<Rightarrow> if kind_is ''Interrupted'' e then read_to_end limit acc rest else Some (Err e)
           | Data d \<Rightarrow>
              let chunk = take (limit - length acc) d in
              if chunk = [] then Some (Ok acc) else read_to_end limit (acc @ chunk) rest)))"

declare read_to_end.simps [simp del]

definition artifact_bytes ::
  "(bytes \<Rightarrow> bytes) \<Rightarrow> manifest \<Rightarrow> observed \<Rightarrow> rstr \<Rightarrow> (model_error + bytes) option" where
  "artifact_bytes sha m ob relative =
     (case find (\<lambda>a. art_path a = relative) (mf_artifacts m) of
        None \<Rightarrow> Some (Err (invalid ''runtime requested an undeclared artifact''))
      | Some art \<Rightarrow>
        (case open_contained_regular_file ob relative (art_size art) of
           Inl e \<Rightarrow> Some (Err e)
         | Inr h \<Rightarrow>
          (case checked_add (art_size art) 1 of None \<Rightarrow> Some (Err (invalid ''artifact length overflow''))
           | Some read_limit \<Rightarrow>
          (case read_to_end read_limit [] (hd_replies h) of
             None \<Rightarrow> None
           | Some (Inl e) \<Rightarrow> Some (Err (ME_Io e))
           | Some (Inr bs) \<Rightarrow>
              Some (and_then (map_err ME_Io (hd_final h)) (\<lambda>fin.
                if length bs \<noteq> art_size art \<or> mt_reparse fin \<or> \<not> mt_is_file fin \<or> mt_len fin \<noteq> art_size art
                  \<or> lower_hex (sha bs) \<noteq> art_sha256 art
                then Err (invalid ''artifact changed after verification'')
                else Ok bs))))))"

section \<open>The identity record\<close>

text \<open>
  What \<^verbatim>\<open>read_contained_manifest\<close> sees: the metadata and the canonical path of the directory, the handle
  of the record, and the canonical path again.
\<close>

record manifest_obs =
  mo_directory :: "io_error + meta"
  mo_canonical :: "io_error + rstr"
  mo_handle :: "io_error + handle"
  mo_canonical_again :: "io_error + rstr"

definition read_observed_manifest ::
  "(rstr \<Rightarrow> url option) \<Rightarrow> (bytes \<Rightarrow> rstr + manifest) \<Rightarrow> manifest_obs \<Rightarrow> (model_error + manifest) option" where
  "read_observed_manifest parse_url decode mo =
     (let gone = (\<lambda>_. invalid ''manifest directory is unavailable'');
          unavailable = (\<lambda>_. invalid ''manifest is unavailable'') in
      case and_then (map_err gone (mo_directory mo)) (\<lambda>dir.
           and_then (reject_if (mt_reparse dir \<or> \<not> mt_is_dir dir)
             (invalid ''manifest directory cannot be a symlink or reparse point'')) (\<lambda>_.
           and_then (map_err gone (mo_canonical mo)) (\<lambda>canonical.
           and_then (map_err unavailable (mo_handle mo)) (\<lambda>h.
           and_then (map_err unavailable (hd_initial h)) (\<lambda>first.
           and_then (reject_if (mt_reparse first \<or> \<not> mt_is_file first \<or> max_manifest_bytes < mt_len first)
             (invalid ''manifest must be a bounded regular non-reparse file'')) (\<lambda>_.
           Ok (canonical, h, first))))))) of
        Inl e \<Rightarrow> Some (Err e)
      | Inr (canonical, h, first) \<Rightarrow>
        (case read_to_end (max_manifest_bytes + 1) [] (hd_replies h) of
           None \<Rightarrow> None
         | Some (Inl _) \<Rightarrow> Some (Err (invalid ''manifest is unavailable''))
         | Some (Inr data) \<Rightarrow>
            Some (and_then (map_err unavailable (hd_final h)) (\<lambda>fin.
            and_then (reject_if (mt_reparse fin \<or> \<not> mt_is_file fin \<or> max_manifest_bytes < length data
                \<or> mt_len fin \<noteq> mt_len first \<or> mt_len fin \<noteq> length data)
              (invalid ''manifest changed while it was being read'')) (\<lambda>_.
            and_then (map_err gone (mo_canonical_again mo)) (\<lambda>again.
            and_then (reject_if (again \<noteq> canonical) (invalid ''manifest directory changed while it was being read'')) (\<lambda>_.
            from_json parse_url decode data)))))))"

section \<open>Status\<close>

text \<open>The artifacts of a model are verified in order, up to the first that fails; \<open>obs\<close> and \<open>polls\<close> by position.\<close>

fun verify_artifacts ::
  "(bytes \<Rightarrow> bytes) \<Rightarrow> (nat \<Rightarrow> observed) \<Rightarrow> (nat \<Rightarrow> nat \<Rightarrow> bool) \<Rightarrow> nat \<Rightarrow> artifact list \<Rightarrow> (model_error + bool) option" where
  "verify_artifacts sha obs polls n [] = Some (Ok True)"
| "verify_artifacts sha obs polls n (art # arts) =
     (case verify_contained_artifact sha (obs n) art (polls n) of
        None \<Rightarrow> None
      | Some (Inl e) \<Rightarrow> Some (Err e)
      | Some (Inr False) \<Rightarrow> Some (Ok False)
      | Some (Inr True) \<Rightarrow> verify_artifacts sha obs polls (Suc n) arts)"

record read_env = fingerprint_env +
  re_decode :: "bytes \<Rightarrow> rstr + manifest"

definition fingerprints :: "read_env \<Rightarrow> fingerprint_env" where
  "fingerprints env =
     \<lparr>fe_parse_url = fe_parse_url env, fe_contract_json = fe_contract_json env, fe_sha256 = fe_sha256 env\<rparr>"

definition revalidate_integrity ::
  "read_env \<Rightarrow> manifest \<Rightarrow> manifest_obs \<Rightarrow> (nat \<Rightarrow> observed) \<Rightarrow> (model_error + unit) option" where
  "revalidate_integrity env m mo obs =
     (case read_observed_manifest (fe_parse_url env) (re_decode env) mo of
        None \<Rightarrow> None
      | Some (Inl e) \<Rightarrow> Some (Err e)
      | Some (Inr stored) \<Rightarrow>
         if stored \<noteq> m then Some (Err (invalid ''stored manifest changed after verification''))
         else (case verify_artifacts (fe_sha256 env) obs (\<lambda>_ _. False) 0 (mf_artifacts stored) of
             None \<Rightarrow> None
           | Some (Inl e) \<Rightarrow> Some (Err e)
           | Some (Inr ok) \<Rightarrow> Some (reject_if (\<not> ok) (invalid ''artifact changed after verification''))))"

text \<open>What \<^verbatim>\<open>status_inner\<close> sees on its way to the artifacts.\<close>

record status_obs =
  so_key_path :: observed
  so_directory :: "io_error + meta"
  so_manifest :: manifest_obs
  so_artifacts :: "nat \<Rightarrow> observed"

definition status_inner ::
  "read_env \<Rightarrow> trust_root \<Rightarrow> manifest \<Rightarrow> status_obs \<Rightarrow> (nat \<Rightarrow> nat \<Rightarrow> bool) \<Rightarrow> (model_error + model_verification_status) option" where
  "status_inner env root m so polls =
     (case model_dir (fingerprints env) m of Inl e \<Rightarrow> Some (Err e) | Inr _ \<Rightarrow>
     (case cache_key (fingerprints env) m of Inl e \<Rightarrow> Some (Err e) | Inr key \<Rightarrow>
     (if \<not> is_ok (reject_reparse_components (so_key_path so) (lit ''models/'' @ key)) then Some (Ok Invalid)
      else (case so_directory so of
          Inl e \<Rightarrow> Some (if kind_is ''NotFound'' e then Ok Missing else Err (ME_Io e))
        | Inr dir \<Rightarrow>
          if mt_reparse dir \<or> \<not> mt_is_dir dir then Some (Ok Invalid)
          else (case read_observed_manifest (fe_parse_url env) (re_decode env) (so_manifest so) of
              None \<Rightarrow> None
            | Some (Inl _) \<Rightarrow> Some (Ok Invalid)
            | Some (Inr stored) \<Rightarrow>
               if stored \<noteq> m then Some (Ok Invalid)
               else (case verify_artifacts (fe_sha256 env) (so_artifacts so) polls 0 (mf_artifacts stored) of
                   None \<Rightarrow> None
                 | Some (Inl e) \<Rightarrow> Some (Err e)
                 | Some (Inr False) \<Rightarrow> Some (Ok Invalid)
                 | Some (Inr True) \<Rightarrow>
                    Some (and_then (trusts (fingerprints env) root stored) (\<lambda>trusted.
                      Ok (if trusted then Loadable else IntegrityVerified)))))))))"

section \<open>Reading in chunks is reading the whole file\<close>

text \<open>Answers that deliver a file in chunks and then its end.\<close>

definition delivers :: "bytes \<Rightarrow> reply list \<Rightarrow> bool" where
  "delivers content replies \<longleftrightarrow> (\<exists>chunks rest. replies = map Data chunks @ Data [] # rest \<and> content = concat chunks \<and>
     list_all (\<lambda>d. d \<noteq> [] \<and> length d \<le> buffer_len) chunks)"

lemma verify_loop_exact:
  assumes "list_all (\<lambda>d. d \<noteq> [] \<and> length d \<le> buffer_len) chunks" and "length acc \<le> expected"
  shows "verify_loop expected (\<lambda>_. False) turn acc (map Data chunks @ Data [] # rest) =
     Some (Ok (if length acc + length (concat chunks) \<le> expected then Some (acc @ concat chunks) else None))"
  using assms
proof (induction chunks arbitrary: turn acc)
  case Nil
  then show ?case by (simp add: verify_loop.simps Let_def)
next
  case (Cons d chunks)
  have d: "d \<noteq> []" "length d \<le> buffer_len" using Cons.prems by simp_all
  show ?case
  proof (cases "length acc + length d \<le> expected")
    case True
    then have "take (min (expected + 1 - length acc) buffer_len) d = d" using d by simp
    then show ?thesis
      using Cons.IH [of "acc @ d" "Suc turn"] Cons.prems True d
      by (subst verify_loop.simps) (simp add: Let_def add.assoc)
  next
    case False
    then show ?thesis
      using Cons.prems d by (subst verify_loop.simps) (auto simp: Let_def min_def)
  qed
qed

lemma read_to_end_exact:
  assumes "list_all (\<lambda>d. d \<noteq> [] \<and> length d \<le> buffer_len) chunks" and "length acc \<le> limit"
  shows "read_to_end limit acc (map Data chunks @ Data [] # rest) = Some (Ok (take limit (acc @ concat chunks)))"
  using assms
proof (induction chunks arbitrary: acc)
  case Nil
  then show ?case by (auto simp: read_to_end.simps)
next
  case (Cons d chunks)
  show ?case
  proof (cases "limit \<le> length acc")
    case True
    then show ?thesis using Cons.prems by (auto simp: read_to_end.simps)
  next
    case False
    let ?chunk = "take (limit - length acc) d"
    have "read_to_end limit acc (map Data (d # chunks) @ Data [] # rest)
        = read_to_end limit (acc @ ?chunk) (map Data chunks @ Data [] # rest)"
      using False Cons.prems by (subst read_to_end.simps) (simp add: Let_def)
    also have "\<dots> = Some (Ok (take limit ((acc @ ?chunk) @ concat chunks)))"
      using Cons.prems by (intro Cons.IH) auto
    also have "take limit ((acc @ ?chunk) @ concat chunks) = take limit (acc @ concat (d # chunks))"
      by (cases "length d \<le> limit - length acc") (use False in auto)
    finally show ?thesis .
  qed
qed

lemma verify_loop_returns:
  assumes "length acc \<le> expected + 1" and "expected + 1 - length acc \<le> length replies"
  shows "verify_loop expected cancelled turn acc replies \<noteq> None"
  using assms
proof (induction replies arbitrary: turn acc)
  case Nil
  then show ?case by (subst verify_loop.simps) (simp add: Let_def)
next
  case (Cons reply replies)
  show ?case
  proof (cases reply)
    case (Data d)
    let ?chunk = "take (min (expected + 1 - length acc) buffer_len) d"
    have "verify_loop expected cancelled (Suc turn) (acc @ ?chunk) replies \<noteq> None"
      if "?chunk \<noteq> []" "length acc + length ?chunk \<le> expected"
    proof (rule Cons.IH)
      have "1 \<le> length ?chunk" using that(1) by (cases ?chunk) auto
      then show "expected + 1 - length (acc @ ?chunk) \<le> length replies"
        using Cons.prems by (simp only: length_append list.size)
      show "length (acc @ ?chunk) \<le> expected + 1" using that(2) by simp
    qed
    then show ?thesis using Data by (subst verify_loop.simps) (auto simp: Let_def)
  qed (subst verify_loop.simps, simp add: Let_def)
qed

section \<open>Verified artifacts\<close>

lemma verify_artifacts_True:
  "verify_artifacts sha obs polls n arts = Some (Ok True) \<longleftrightarrow>
     (\<forall>i < length arts. verify_contained_artifact sha (obs (n + i)) (arts ! i) (polls (n + i)) = Some (Ok True))"
proof (induction arts arbitrary: n)
  case (Cons art arts)
  show ?case
    by (auto simp: Cons.IH All_less_Suc2 split: option.splits sum.splits bool.splits)
qed simp

definition intact :: "(bytes \<Rightarrow> bytes) \<Rightarrow> artifact \<Rightarrow> meta \<Rightarrow> bytes \<Rightarrow> bool" where
  "intact sha art fin content \<longleftrightarrow> length content = art_size art \<and> lower_hex (sha content) = art_sha256 art \<and>
     \<not> mt_reparse fin \<and> mt_is_file fin \<and> mt_len fin = art_size art"

text \<open>A file of seven bytes, read in two chunks.\<close>

definition demo_meta :: "bool \<Rightarrow> meta" where
  "demo_meta is_file = \<lparr>mt_reparse = False, mt_is_file = is_file, mt_is_dir = \<not> is_file, mt_len = 7\<rparr>"

definition demo_handle :: "bytes list \<Rightarrow> handle" where
  "demo_handle chunks = \<lparr>hd_initial = Ok (demo_meta True), hd_replies = map Data chunks @ [Data []], hd_final = Ok (demo_meta True)\<rparr>"

definition demo_observed :: "io_error + handle \<Rightarrow> observed" where
  "demo_observed h = \<lparr>ob_base = Ok (demo_meta False), ob_prefix = (\<lambda>_. Ok (demo_meta True)), ob_open_base = Ok (demo_meta False),
     ob_mkdir = (\<lambda>_. Ok ()), ob_open_dir = (\<lambda>_. Ok ()), ob_open = h\<rparr>"

lemma demo_components:
  "path_components (lit ''m.onnx'') = [Normal (lit ''m.onnx'')]" "path_components (lit ''t.json'') = [Normal (lit ''t.json'')]"
  by (simp_all add: path_components_def path_is_absolute_def lit_def)

lemma demo_open:
  "open_contained_regular_file (demo_observed (Ok (demo_handle [[1, 2, 3], [4, 5, 6, 7]])))
     (art_path (demo_artifact ''m.onnx'')) (art_size (demo_artifact ''m.onnx'')) = Ok (demo_handle [[1, 2, 3], [4, 5, 6, 7]])"
  by (simp add: demo_artifact_def open_contained_regular_file_def validate_path_components_def reject_reparse_components_def
      securely_open_existing_file_def securely_open_unix_parent_def demo_components normal_component_def demo_observed_def
      demo_handle_def demo_meta_def)

lemma demo_delivers: "delivers [1, 2, 3, 4, 5, 6, 7] (hd_replies (demo_handle [[1, 2, 3], [4, 5, 6, 7]]))"
  unfolding delivers_def demo_handle_def
  by (rule exI [of _ "[[1, 2, 3], [4, 5, 6, 7]]"], rule exI [of _ "[]"]) (simp add: buffer_len_def)

lemma demo_handle_final: "hd_final (demo_handle chunks) = Ok (demo_meta True)"
  by (simp add: demo_handle_def)

lemma demo_digest: "lower_hex (replicate 32 170) = replicate 64 97"
proof -
  have "concat (replicate n [x, x]) = replicate (2 * n) x" for n and x :: nat by (induction n) simp_all
  from this [of 32 97] show ?thesis by (simp add: lower_hex_def hex_digit_def)
qed

text \<open>
  C38. Hashing in chunks decides integrity exactly. When the answers of the handle deliver some content,
  in whatever chunks, \<^verbatim>\<open>verify_contained_artifact\<close> accepts the artifact exactly when that content has the
  declared size and digest and the file is still a regular file of that size; \<^verbatim>\<open>artifact_bytes\<close> hands
  out the content exactly under the same condition.
\<close>

theorem integrity_check_is_exact:
  assumes "open_contained_regular_file ob (art_path art) (art_size art) = Ok h"
    and "delivers content (hd_replies h)" and "hd_final h = Ok fin" and "art_size art + 1 < word_limit"
    and "find (\<lambda>a. art_path a = art_path art) (mf_artifacts m) = Some art"
  shows "verify_contained_artifact sha ob art (\<lambda>_. False) = Some (Ok (intact sha art fin content)) \<and>
     artifact_bytes sha m ob (art_path art) =
       Some (if intact sha art fin content then Ok content else Err (invalid ''artifact changed after verification''))"
proof -
  from assms(2) obtain chunks rest where d: "hd_replies h = map Data chunks @ Data [] # rest" "content = concat chunks"
    "list_all (\<lambda>d. d \<noteq> [] \<and> length d \<le> buffer_len) chunks" by (auto simp: delivers_def)
  note loop = verify_loop_exact [OF d(3), of "[]" "art_size art" 0 rest, simplified]
    and read = read_to_end_exact [OF d(3), of "[]" "art_size art + 1" rest, simplified]
  have sz: "checked_add (art_size art) 1 = Some (art_size art + 1)" using assms(4) by (simp add: checked_add_def)
  have "verify_contained_artifact sha ob art (\<lambda>_. False) = Some (Ok (intact sha art fin content))"
    using assms(1,3) d loop sz by (auto simp: verify_contained_artifact_def intact_def)
  moreover have "artifact_bytes sha m ob (art_path art) =
      Some (if intact sha art fin content then Ok content else Err (invalid ''artifact changed after verification''))"
    using assms(1,3,5) d read sz by (auto simp: artifact_bytes_def intact_def)
  ultimately show ?thesis ..
qed

theorem integrity_check_is_exact_witness:
  "verify_contained_artifact (\<lambda>_. replicate 32 170) (demo_observed (Ok (demo_handle [[1, 2, 3], [4, 5, 6, 7]]))) (demo_artifact ''m.onnx'')
     (\<lambda>_. False) = Some (Ok True) \<and>
   artifact_bytes (\<lambda>_. replicate 32 170) demo_manifest (demo_observed (Ok (demo_handle [[1, 2, 3], [4, 5, 6, 7]]))) (lit ''m.onnx'')
     = Some (Ok [1, 2, 3, 4, 5, 6, 7])"
  using integrity_check_is_exact [OF demo_open demo_delivers demo_handle_final, of demo_manifest "\<lambda>_. replicate 32 170"]
  by (simp add: demo_artifact_def demo_manifest_def word_limit_def intact_def demo_meta_def demo_digest)

text \<open>
  Verification of an artifact always returns: however the file grows or changes, the loop reads at
  most one byte more than the declared size, so that many answers and an end of file are enough.
\<close>

theorem integrity_check_terminates:
  assumes "\<And>h. ob_open ob = Ok h \<Longrightarrow> art_size art + 1 \<le> length (hd_replies h)"
  shows "\<exists>r. verify_contained_artifact sha ob art cancelled = Some r"
proof (cases "open_contained_regular_file ob (art_path art) (art_size art)")
  case (Inl e)
  then show ?thesis by (cases e) (auto simp: verify_contained_artifact_def)
next
  case (Inr h)
  then have "ob_open ob = Ok h"
    by (auto simp: open_contained_regular_file_def securely_open_existing_file_def Let_def result_simps)
  then have "verify_loop (art_size art) cancelled 0 [] (hd_replies h) \<noteq> None"
    using assms by (intro verify_loop_returns) auto
  then show ?thesis
    using Inr by (auto simp: verify_contained_artifact_def split: option.split sum.split)
qed

theorem integrity_check_terminates_witness:
  "\<exists>r. verify_contained_artifact id (demo_observed (Ok (demo_handle (replicate 8 [0])))) (demo_artifact ''m.onnx'') (\<lambda>turn. turn = 5) = Some r"
  by (rule integrity_check_terminates) (auto simp: demo_observed_def demo_handle_def demo_artifact_def)

text \<open>
  A model is reported loadable only when the record stored with it is the requested manifest, every
  artifact passed the integrity check, the manifest is valid and claims verified semantics, and the
  operator's trust root contains its fingerprint.
\<close>

theorem loadable_is_verified_and_trusted:
  assumes "status_inner env root m so polls = Some (Ok Loadable)"
  shows "read_observed_manifest (fe_parse_url env) (re_decode env) (so_manifest so) = Some (Ok m) \<and>
     (\<forall>i < length (mf_artifacts m).
        verify_contained_artifact (fe_sha256 env) (so_artifacts so i) (mf_artifacts m ! i) (polls i) = Some (Ok True)) \<and>
     manifest_validate (fe_parse_url env) m = Ok () \<and> semantics_verified m \<and>
     (\<exists>fp \<in> root. Manifest.semantic_fingerprint (fingerprints env) m = Ok fp)"
  using assms unfolding status_inner_def trusts_def
  by (auto simp: result_simps verify_artifacts_True Manifest.semantic_fingerprint_def fingerprints_def
      split: sum.splits option.splits if_splits bool.splits)


definition demo_reads :: read_env where
  "demo_reads = \<lparr>fe_parse_url = (\<lambda>_. Some demo_url), fe_contract_json = (\<lambda>_. Inr []), fe_sha256 = (\<lambda>_. replicate 32 170),
     re_decode = (\<lambda>_. Inr demo_manifest)\<rparr>"

definition demo_status :: status_obs where
  "demo_status = \<lparr>so_key_path = demo_observed (Err \<lparr>io_kind = [], io_text = []\<rparr>), so_directory = Ok (demo_meta False),
     so_manifest = \<lparr>mo_directory = Ok (demo_meta False), mo_canonical = Ok [], mo_handle = Ok (demo_handle [[1, 2, 3], [4, 5, 6, 7]]),
       mo_canonical_again = Ok []\<rparr>,
     so_artifacts = (\<lambda>_. demo_observed (Ok (demo_handle [[1, 2, 3], [4, 5, 6, 7]])))\<rparr>"

lemma demo_fingerprint:
  "Manifest.semantic_fingerprint (fingerprints demo_reads) demo_manifest = Ok (lit ''sha256:'' @ replicate 64 97)"
  using demo_manifest_valid
  by (simp add: Manifest.semantic_fingerprint_def fingerprints_def demo_reads_def demo_digest)

lemma demo_key: "cache_key (fingerprints demo_reads) demo_manifest = Ok (replicate 64 97)"
  unfolding cache_key_def demo_fingerprint and_then_simps
proof -
  have stop: "strip_prefix (lit ''sha256:'') (replicate (Suc n) 97) = None" for n by (simp add: lit_def)
  have "trim_start_matches (lit ''sha256:'') (replicate (Suc n) 97) = replicate (Suc n) 97" for n
    by (subst trim_start_matches.simps) (simp only: stop option.case if_cancel)
  from this [of 63] have "trim_start_matches (lit ''sha256:'') (replicate 64 97) = replicate 64 97" by simp
  moreover have "strip_prefix (lit ''sha256:'') (lit ''sha256:'' @ s) = Some s" for s by (simp add: strip_prefix_Some)
  ultimately have "trim_start_matches (lit ''sha256:'') (lit ''sha256:'' @ replicate 64 97) = replicate 64 97"
    by (subst trim_start_matches.simps) (simp add: lit_def)
  then show "Ok (trim_start_matches (lit ''sha256:'') (lit ''sha256:'' @ replicate 64 97)) = Ok (replicate 64 97)" by simp
qed

lemma demo_key_components: "path_components (lit ''models/'' @ replicate 64 97) = [Normal (lit ''models''), Normal (replicate 64 97)]"
proof -
  have plain: "split_on 47 (replicate n 97) = [replicate n 97]" for n by (induction n) simp_all
  moreover have "replicate 64 (97 :: nat) \<noteq> [46, 46]" "replicate 64 (97 :: nat) \<noteq> [46]"
    by (auto dest: arg_cong [of _ _ length])
  ultimately show ?thesis by (simp add: path_components_def path_is_absolute_def lit_def)
qed

lemma demo_record: "read_observed_manifest (fe_parse_url demo_reads) (re_decode demo_reads) (so_manifest demo_status) = Some (Ok demo_manifest)"
proof -
  have "read_to_end (max_manifest_bytes + 1) [] (hd_replies (demo_handle [[1, 2, 3], [4, 5, 6, 7]])) = Some (Ok [1, 2, 3, 4, 5, 6, 7])"
    using read_to_end_exact [of "[[1, 2, 3], [4, 5, 6, 7]]" "[]" "max_manifest_bytes + 1" "[]"]
    by (simp add: demo_handle_def buffer_len_def max_manifest_bytes_def)
  then show ?thesis
    using demo_manifest_valid
    by (simp add: read_observed_manifest_def demo_status_def demo_reads_def demo_meta_def demo_handle_def Let_def from_json_def max_manifest_bytes_def)
qed

lemma demo_verified:
  assumes "art \<in> {demo_artifact ''m.onnx'', demo_artifact ''t.json''}"
  shows "verify_contained_artifact (\<lambda>_. replicate 32 170) (so_artifacts demo_status n) art (\<lambda>_. False) = Some (Ok True)"
proof -
  let ?ob = "demo_observed (Ok (demo_handle [[1, 2, 3], [4, 5, 6, 7]]))"
  have opened: "open_contained_regular_file ?ob (art_path art) (art_size art) = Ok (demo_handle [[1, 2, 3], [4, 5, 6, 7]])"
    using assms
    by (auto simp: demo_artifact_def open_contained_regular_file_def validate_path_components_def reject_reparse_components_def
        securely_open_existing_file_def securely_open_unix_parent_def demo_components normal_component_def demo_observed_def
        demo_handle_def demo_meta_def)
  have "verify_loop 7 (\<lambda>_. False) 0 [] (hd_replies (demo_handle [[1, 2, 3], [4, 5, 6, 7]])) = Some (Ok (Some [1, 2, 3, 4, 5, 6, 7]))"
    using verify_loop_exact [of "[[1, 2, 3], [4, 5, 6, 7]]" "[]" 7 0 "[]"] by (simp add: demo_handle_def buffer_len_def)
  moreover have "art_size art = 7" "art_sha256 art = replicate 64 97" using assms by (auto simp: demo_artifact_def)
  ultimately show ?thesis
    using opened demo_digest
    by (simp add: verify_contained_artifact_def demo_status_def checked_add_def word_limit_def demo_handle_final demo_meta_def)
qed

lemma demo_loadable:
  "status_inner demo_reads {lit ''sha256:'' @ replicate 64 97} demo_manifest demo_status (\<lambda>_ _. False) = Some (Ok Loadable)"
proof -
  have arts: "verify_artifacts (\<lambda>_. replicate 32 170) (so_artifacts demo_status) (\<lambda>_ _. False) 0 (mf_artifacts demo_manifest) = Some (Ok True)"
    unfolding verify_artifacts_True using demo_verified by (auto simp: demo_manifest_def less_Suc_eq)
  have path: "is_ok (reject_reparse_components (so_key_path demo_status) (lit ''models/'' @ replicate 64 97))"
    by (simp add: reject_reparse_components_def demo_key_components demo_status_def demo_observed_def demo_meta_def normal_component_def)
  have trusted: "trusts (fingerprints demo_reads) {lit ''sha256:'' @ replicate 64 97} demo_manifest = Ok True"
    by (simp add: trusts_def demo_fingerprint semantics_verified_def) (simp add: demo_manifest_def)
  have dir: "so_directory demo_status = Ok (demo_meta False)" "fe_sha256 demo_reads = (\<lambda>_. replicate 32 170)"
    by (simp_all add: demo_status_def demo_reads_def)
  show ?thesis
    unfolding status_inner_def model_dir_def demo_key dir demo_record
    by (simp add: path demo_meta_def arts trusted)
qed

theorem loadable_is_verified_and_trusted_witness:
  "\<exists>fp \<in> {lit ''sha256:'' @ replicate 64 97}. Manifest.semantic_fingerprint (fingerprints demo_reads) demo_manifest = Ok fp"
  using loadable_is_verified_and_trusted [OF demo_loadable] by blast

end
