(* ===== verification/Store_Import.thy ===== *)
theory Store_Import
  imports Store_Read
begin

text \<open>
  The rest of \<^verbatim>\<open>impossible-models/src/store.rs\<close>: the model locks, the status that repairs first, the
  capability of a verified model, contained creation of files, the import of a local directory and
  discovery. As in Store_Read every system call answers an arbitrary observation, and a wait whose
  observations run out has not returned.
\<close>

section \<open>Locks\<close>

text \<open>An I/O error with the number of the operating system.\<close>

record os_error = io_error +
  oe_raw :: "int option"

definition os_to_io :: "os_error \<Rightarrow> io_error" where
  "os_to_io e = \<lparr>io_kind = io_kind e, io_text = io_text e\<rparr>"

definition is_lock_contention :: "os_error \<Rightarrow> bool" where
  "is_lock_contention e \<longleftrightarrow> io_kind e = lit ''WouldBlock'' \<or> oe_raw e = Some 33"

record lock_obs =
  lo_create_parent :: "io_error + unit"
  lo_locks :: observed
  lo_file :: "io_error + meta"
  lo_parent :: "io_error + meta"

definition symlink_metadata_if_exists :: "io_error + meta \<Rightarrow> model_error + meta option" where
  "symlink_metadata_if_exists r =
     (case r of Inr m \<Rightarrow> Ok (Some m)
      | Inl e \<Rightarrow> if kind_is ''NotFound'' e then Ok None else Err (ME_Io e))"

text \<open>What one turn of a lock loop sees: the cancellation, the file with the attempt on it, and whether the deadline has passed.\<close>

record lock_turn =
  lt_cancelled :: bool
  lt_attempt :: "os_error + (os_error + unit)"
  lt_late :: bool

fun attempt_result :: "os_error + (os_error + unit) \<Rightarrow> os_error + unit" where
  "attempt_result (Inl e) = Inl e"
| "attempt_result (Inr r) = r"

fun exclusive_lock_loop :: "lock_turn list \<Rightarrow> (model_error + unit) option" where
  "exclusive_lock_loop [] = None"
| "exclusive_lock_loop (t # turns) =
     (if lt_cancelled t then Some (Err ME_Cancelled)
      else (case attempt_result (lt_attempt t) of
          Inr _ \<Rightarrow> Some (Ok ())
        | Inl e \<Rightarrow>
            if \<not> is_lock_contention e then Some (Err (ME_Io (os_to_io e)))
            else if lt_late t then Some (Err ME_Busy)
            else exclusive_lock_loop turns))"

definition acquire_store_lock_with_cancel ::
  "fingerprint_env \<Rightarrow> manifest \<Rightarrow> lock_obs \<Rightarrow> lock_turn list \<Rightarrow> (model_error + unit) option" where
  "acquire_store_lock_with_cancel env m lo turns =
     (case and_then (lock_file env m) (\<lambda>_.
           and_then (map_err ME_Io (lo_create_parent lo)) (\<lambda>_.
           and_then (reject_reparse_components (lo_locks lo) (lit ''locks'')) (\<lambda>_.
           and_then (symlink_metadata_if_exists (lo_file lo)) (\<lambda>lock_metadata.
           and_then (map_err ME_Io (lo_parent lo)) (\<lambda>parent.
           reject_if (mt_reparse parent \<or> (case lock_metadata of None \<Rightarrow> False | Some f \<Rightarrow> mt_reparse f))
             (invalid ''model lock path cannot be a symlink'')))))) of
        Inl e \<Rightarrow> Some (Err e)
      | Inr _ \<Rightarrow> exclusive_lock_loop turns)"

definition acquire_store_lock ::
  "fingerprint_env \<Rightarrow> manifest \<Rightarrow> lock_obs \<Rightarrow> lock_turn list \<Rightarrow> (model_error + unit) option" where
  "acquire_store_lock env m lo turns =
     acquire_store_lock_with_cancel env m lo (map (\<lambda>t. t\<lparr>lt_cancelled := False\<rparr>) turns)"

text \<open>The checks that the shared lock and the lock for deletion share; \<open>opened\<close> is the answer to opening the file.\<close>

definition prepare_lock_file ::
  "fingerprint_env \<Rightarrow> manifest \<Rightarrow> lock_obs \<Rightarrow> io_error + unit \<Rightarrow> model_error + unit" where
  "prepare_lock_file env m lo opened =
     and_then (lock_file env m) (\<lambda>_.
     and_then (map_err ME_Io (lo_create_parent lo)) (\<lambda>_.
     and_then (reject_reparse_components (lo_locks lo) (lit ''locks'')) (\<lambda>_.
     and_then (symlink_metadata_if_exists (lo_file lo)) (\<lambda>f.
     and_then (reject_if (case f of None \<Rightarrow> False | Some x \<Rightarrow> mt_reparse x)
       (invalid ''model lock path cannot be a reparse point'')) (\<lambda>_.
     map_err ME_Io opened)))))"

text \<open>Each turn: the attempt, and whether the deadline is still ahead.\<close>

fun shared_lock_loop :: "((os_error + unit) \<times> bool) list \<Rightarrow> (model_error + unit) option" where
  "shared_lock_loop [] = None"
| "shared_lock_loop ((r, early) # turns) =
     (case r of
        Inr _ \<Rightarrow> Some (Ok ())
      | Inl e \<Rightarrow>
          if is_lock_contention e \<and> early then shared_lock_loop turns
          else if is_lock_contention e then Some (Err ME_Busy)
          else Some (Err (ME_Io (os_to_io e))))"

definition acquire_shared_store_lock ::
  "fingerprint_env \<Rightarrow> manifest \<Rightarrow> lock_obs \<Rightarrow> io_error + unit \<Rightarrow> ((os_error + unit) \<times> bool) list \<Rightarrow>
   (model_error + unit) option" where
  "acquire_shared_store_lock env m lo opened turns =
     (case prepare_lock_file env m lo opened of Inl e \<Rightarrow> Some (Err e) | Inr _ \<Rightarrow> shared_lock_loop turns)"

definition acquire_delete_lock ::
  "fingerprint_env \<Rightarrow> manifest \<Rightarrow> lock_obs \<Rightarrow> io_error + unit \<Rightarrow> os_error + unit \<Rightarrow> model_error + unit" where
  "acquire_delete_lock env m lo opened attempted =
     and_then (prepare_lock_file env m lo opened) (\<lambda>_.
     (case attempted of
        Inr _ \<Rightarrow> Ok ()
      | Inl e \<Rightarrow> if is_lock_contention e then Err ME_InUse else Err (ME_Io (os_to_io e))))"

text \<open>A wait ends at the latest at the first turn that finds the deadline passed.\<close>

lemma exclusive_lock_loop_returns:
  "list_ex lt_late turns \<Longrightarrow> \<exists>r. exclusive_lock_loop turns = Some r"
  by (induction turns) (auto split: sum.split)

lemma shared_lock_loop_returns:
  "list_ex (\<lambda>t. \<not> snd t) turns \<Longrightarrow> \<exists>r. shared_lock_loop turns = Some r"
  by (induction turns rule: shared_lock_loop.induct) (auto split: sum.split)

lemma uncancelled_lock: "exclusive_lock_loop (map (\<lambda>t. t\<lparr>lt_cancelled := False\<rparr>) turns) \<noteq> Some (Err ME_Cancelled)"
  by (induction turns) (auto split: sum.split)

section \<open>Status and the verified model\<close>

text \<open>\<open>marker\<close>: the repair marker; \<open>repair_lock\<close> and \<open>repaired\<close>: the answers of the lock and of the reconciliation.\<close>

definition marker_gone :: "io_error + meta \<Rightarrow> (model_error + unit) option \<Rightarrow> model_error + unit \<Rightarrow> (model_error + unit) option" where
  "marker_gone marker repair_lock repaired =
     (case marker of
        Inr _ \<Rightarrow> (case repair_lock of None \<Rightarrow> None | Some r \<Rightarrow> Some (and_then r (\<lambda>_. repaired)))
      | Inl e \<Rightarrow> if kind_is ''NotFound'' e then Some (Ok ()) else Some (Err (ME_Io e)))"

definition status_with_cancel ::
  "read_env \<Rightarrow> trust_root \<Rightarrow> manifest \<Rightarrow> bool \<Rightarrow> io_error + meta \<Rightarrow> (model_error + unit) option \<Rightarrow> model_error + unit \<Rightarrow>
   status_obs \<Rightarrow> (nat \<Rightarrow> nat \<Rightarrow> bool) \<Rightarrow> (model_error + model_verification_status) option" where
  "status_with_cancel env root m cancelled marker repair_lock repaired so polls =
     (case and_then (manifest_validate (fe_parse_url env) m) (\<lambda>_.
           and_then (reject_if cancelled ME_Cancelled) (\<lambda>_.
           repair_marker (fingerprints env) m)) of
        Inl e \<Rightarrow> Some (Err e)
      | Inr _ \<Rightarrow>
        (case marker_gone marker repair_lock repaired of
           None \<Rightarrow> None
         | Some (Inl e) \<Rightarrow> Some (Err e)
         | Some (Inr _) \<Rightarrow> status_inner env root m so polls))"

text \<open>One turn of the loop of \<^verbatim>\<open>verified_model\<close>.\<close>

record verify_turn =
  vt_marker :: "io_error + meta"
  vt_repair_lock :: "(model_error + unit) option"
  vt_repaired :: "model_error + unit"
  vt_lease :: "(model_error + unit) option"
  vt_marker_again :: "io_error + meta"
  vt_status :: status_obs

record verified_model =
  vm_manifest :: manifest
  vm_root :: cache_path

fun status_debug :: "model_verification_status \<Rightarrow> string" where
  "status_debug Missing = ''Missing''"
| "status_debug Invalid = ''Invalid''"
| "status_debug IntegrityVerified = ''IntegrityVerified''"
| "status_debug Loadable = ''Loadable''"

fun verified_model_loop ::
  "read_env \<Rightarrow> trust_root \<Rightarrow> manifest \<Rightarrow> verify_turn list \<Rightarrow> (model_error + verified_model) option" where
  "verified_model_loop env root m [] = None"
| "verified_model_loop env root m (t # turns) =
     (case repair_marker (fingerprints env) m of Inl e \<Rightarrow> Some (Err e) | Inr _ \<Rightarrow>
     (case marker_gone (vt_marker t) (vt_repair_lock t) (vt_repaired t) of
        None \<Rightarrow> None
      | Some (Inl e) \<Rightarrow> Some (Err e)
      | Some (Inr _) \<Rightarrow>
     (case vt_lease t of
        None \<Rightarrow> None
      | Some (Inl e) \<Rightarrow> Some (Err e)
      | Some (Inr _) \<Rightarrow>
     (case vt_marker_again t of
        Inr _ \<Rightarrow> verified_model_loop env root m turns
      | Inl e \<Rightarrow>
          if \<not> kind_is ''NotFound'' e then Some (Err (ME_Io e))
          else (case status_inner env root m (vt_status t) (\<lambda>_ _. False) of
              None \<Rightarrow> None
            | Some (Inl err) \<Rightarrow> Some (Err err)
            | Some (Inr Loadable) \<Rightarrow>
                Some (and_then (model_dir (fingerprints env) m) (\<lambda>dir. Ok \<lparr>vm_manifest = m, vm_root = dir\<rparr>))
            | Some (Inr status) \<Rightarrow>
                Some (Err (invalid (''model is not loadable after verification: '' @ status_debug status))))))))"

definition verified_model_of ::
  "read_env \<Rightarrow> trust_root \<Rightarrow> manifest \<Rightarrow> verify_turn list \<Rightarrow> (model_error + verified_model) option" where
  "verified_model_of env root m turns =
     (case manifest_validate (fe_parse_url env) m of
        Inl e \<Rightarrow> Some (Err e) | Inr _ \<Rightarrow> verified_model_loop env root m turns)"

text \<open>
  The capability to load a model is handed out only under a lease with no repair pending: in the
  turn that returns it the shared lock was granted, the repair marker was seen absent after that, and
  the verification under the lease found the model loadable.
\<close>

theorem verified_model_needs_lease_and_verification:
  assumes "verified_model_of env root m turns = Some (Ok vm)"
  shows "vm_manifest vm = m \<and> manifest_validate (fe_parse_url env) m = Ok () \<and>
    (\<exists>t \<in> set turns. vt_lease t = Some (Ok ()) \<and> (\<exists>e. vt_marker_again t = Inl e \<and> kind_is ''NotFound'' e) \<and>
       status_inner env root m (vt_status t) (\<lambda>_ _. False) = Some (Ok Loadable))"
proof -
  have v: "manifest_validate (fe_parse_url env) m = Ok ()"
    and l: "verified_model_loop env root m turns = Some (Ok vm)"
    using assms by (auto simp: verified_model_of_def split: sum.split_asm)
  from l have "vm_manifest vm = m \<and> (\<exists>t \<in> set turns. vt_lease t = Some (Ok ()) \<and>
      (\<exists>e. vt_marker_again t = Inl e \<and> kind_is ''NotFound'' e) \<and>
      status_inner env root m (vt_status t) (\<lambda>_ _. False) = Some (Ok Loadable))"
  proof (induction turns)
    case (Cons t turns)
    show ?case
    proof (cases "vt_marker_again t")
      case (Inr x)
      then have "verified_model_loop env root m turns = Some (Ok vm)"
        using Cons.prems by (auto split: sum.split_asm option.split_asm)
      then show ?thesis using Cons.IH by auto
    next
      case (Inl e)
      then show ?thesis
        using Cons.prems
        by (auto simp: result_simps split: sum.split_asm option.split_asm if_split_asm model_verification_status.split_asm)
    qed
  qed simp
  with v show ?thesis by blast
qed


section \<open>Contained creation\<close>

text \<open>\<^verbatim>\<open>Path::starts_with\<close> compares whole components.\<close>

definition path_starts_with :: "rstr \<Rightarrow> rstr \<Rightarrow> bool" where
  "path_starts_with p base =
     (take (length (path_components base)) (path_components p) = path_components base)"

text \<open>What a revalidation sees: the components, the base with its canonical path, and the leaf with its own.\<close>

record contained_obs =
  cn_path :: observed
  cn_base :: "io_error + meta"
  cn_base_canonical :: "io_error + rstr"
  cn_leaf :: "io_error + meta"
  cn_canonical :: "io_error + rstr"

definition canonical_directory :: "io_error + meta \<Rightarrow> io_error + rstr \<Rightarrow> model_error + rstr" where
  "canonical_directory metadata canonical =
     and_then (map_err ME_Io metadata) (\<lambda>m.
     and_then (reject_if (mt_reparse m \<or> \<not> mt_is_dir m)
       (invalid ''cache directory cannot be a symlink or reparse point'')) (\<lambda>_.
     map_err ME_Io canonical))"

definition revalidate_contained_directory :: "contained_obs \<Rightarrow> rstr \<Rightarrow> model_error + unit" where
  "revalidate_contained_directory cn relative =
     and_then (validate_path_components relative) (\<lambda>_.
     and_then (reject_reparse_components (cn_path cn) relative) (\<lambda>_.
     and_then (canonical_directory (cn_base cn) (cn_base_canonical cn)) (\<lambda>canonical_base.
     and_then (map_err ME_Io (cn_leaf cn)) (\<lambda>m.
     and_then (reject_if (mt_reparse m \<or> \<not> mt_is_dir m)
       (invalid ''cache directory cannot be a symlink or reparse point'')) (\<lambda>_.
     and_then (map_err ME_Io (cn_canonical cn)) (\<lambda>canonical.
     reject_if (\<not> path_starts_with canonical canonical_base) (invalid ''cache directory escaped containment'')))))))"

definition revalidate_contained_path :: "contained_obs \<Rightarrow> rstr \<Rightarrow> model_error + unit" where
  "revalidate_contained_path cn relative =
     and_then (validate_path_components relative) (\<lambda>_.
     and_then (reject_reparse_components (cn_path cn) relative) (\<lambda>_.
     and_then (canonical_directory (cn_base cn) (cn_base_canonical cn)) (\<lambda>canonical_base.
     and_then (map_err ME_Io (cn_leaf cn)) (\<lambda>m.
     and_then (reject_if (mt_reparse m \<or> \<not> mt_is_file m)
       (invalid ''cache leaf is not a regular non-reparse file'')) (\<lambda>_.
     and_then (map_err ME_Io (cn_canonical cn)) (\<lambda>canonical.
     reject_if (\<not> path_starts_with canonical canonical_base) (invalid ''cache file escaped containment'')))))))"

text \<open>
  The unix \<^verbatim>\<open>securely_create_new_file\<close>: the parents are opened one by one below the base, then the leaf is
  created exclusively through the last of them; \<open>created\<close> is that call's answer.
\<close>

definition securely_create_new_file :: "observed \<Rightarrow> rstr \<Rightarrow> io_error + 'h \<Rightarrow> model_error + 'h" where
  "securely_create_new_file ob relative created =
     (let cs = path_components relative in
      and_then (securely_open_unix_parent ob (butlast cs)) (\<lambda>_.
      and_then (reject_if (cs = [] \<or> \<not> normal_component (last cs)) (invalid ''file path has no leaf'')) (\<lambda>_.
      map_err ME_Io created)))"

text \<open>\<open>created\<close> carries the metadata of the new handle.\<close>

definition create_new_contained_file ::
  "observed \<Rightarrow> io_error + (io_error + meta) \<Rightarrow> contained_obs \<Rightarrow> rstr \<Rightarrow> model_error + unit" where
  "create_new_contained_file ob created cn relative =
     and_then (validate_path_components relative) (\<lambda>_.
     and_then (reject_if (relative = []) (invalid ''file path cannot be empty'')) (\<lambda>_.
     and_then (securely_create_new_file ob relative created) (\<lambda>metadata.
     and_then (map_err ME_Io metadata) (\<lambda>m.
     and_then (reject_if (mt_reparse m \<or> \<not> mt_is_file m)
       (invalid ''cache leaf is not a regular non-reparse file'')) (\<lambda>_.
     revalidate_contained_path cn relative)))))"

text \<open>\<open>parent\<close>: the relative path of the parent directory.\<close>

definition create_contained_parent_directories ::
  "observed \<Rightarrow> contained_obs \<Rightarrow> rstr \<Rightarrow> model_error + unit" where
  "create_contained_parent_directories ob cn parent =
     and_then (validate_path_components parent) (\<lambda>_.
     and_then (securely_open_unix_parent ob (path_components parent)) (\<lambda>_.
     revalidate_contained_directory cn parent))"

lemma revalidated_path_is_contained:
  assumes "revalidate_contained_path cn relative = Ok ()"
  shows "(\<forall>c \<in> set (path_components relative). normal_component c) \<or> relative = []"
    and "\<exists>base canonical m. cn_base_canonical cn = Inr base \<and> cn_canonical cn = Inr canonical \<and>
      path_starts_with canonical base \<and> cn_leaf cn = Inr m \<and> \<not> mt_reparse m \<and> mt_is_file m"
  using assms
  by (auto simp: revalidate_contained_path_def canonical_directory_def validate_path_components_def result_simps
      list_ex_iff)


section \<open>Copying an artifact\<close>

text \<open>
  The loop of \<^verbatim>\<open>copy_import_artifact\<close>: an answer of the source and the failure of the write that follows it,
  if any. The second loop, over the staged file, is the same without writes.
\<close>

fun copy_loop :: "nat \<Rightarrow> bytes \<Rightarrow> (reply \<times> io_error option) list \<Rightarrow> (model_error + bytes) option" where
  "copy_loop size_limit copied [] = None"
| "copy_loop size_limit copied ((reply, write) # rest) =
     (case reply of
        Read_Err e \<Rightarrow> Some (Err (ME_Io e))
      | Data d \<Rightarrow>
          let chunk = take buffer_len d in
          if chunk = [] then Some (Ok copied)
          else (case checked_add (length copied) (length chunk) of
              None \<Rightarrow> Some (Err (invalid ''artifact length overflow''))
            | Some copied_now \<Rightarrow>
                if size_limit < copied_now then Some (Err (ME_SizeLimit size_limit copied_now))
                else (case write of Some e \<Rightarrow> Some (Err (ME_Io e))
                  | None \<Rightarrow> copy_loop size_limit (copied @ chunk) rest)))"

definition hash_loop :: "nat \<Rightarrow> reply list \<Rightarrow> (model_error + bytes) option" where
  "hash_loop size_limit replies = copy_loop size_limit [] (map (\<lambda>r. (r, None)) replies)"

record copy_obs =
  co_source :: "io_error + handle"
  co_target :: "model_error + unit"
  co_writes :: "io_error option list"
  co_flush :: "io_error + unit"
  co_sync :: "io_error + unit"
  co_staged :: "model_error + handle"
  co_recheck :: "model_error + unit"

definition stable_import_destination_error :: "model_error + unit \<Rightarrow> model_error \<Rightarrow> model_error" where
  "stable_import_destination_error recheck e =
     (case recheck of Inl (ME_Invalid _) \<Rightarrow> invalid ''import staging destination became unsafe'' | _ \<Rightarrow> e)"

definition copy_import_artifact :: "(bytes \<Rightarrow> bytes) \<Rightarrow> artifact \<Rightarrow> copy_obs \<Rightarrow> (model_error + unit) option" where
  "copy_import_artifact sha art co =
     (case and_then (map_err ME_Io (co_source co)) (\<lambda>src.
           and_then (map_err ME_Io (hd_initial src)) (\<lambda>m.
           and_then (reject_if (\<not> mt_is_file m) (ME_Invalid (lit ''artifact is not a regular file: '' @ art_path art))) (\<lambda>_.
           and_then (reject_if (mt_len m \<noteq> art_size art) (ME_SizeLimit (art_size art) (mt_len m))) (\<lambda>_.
           and_then (map_err (stable_import_destination_error (co_recheck co)) (co_target co)) (\<lambda>_.
           Ok src))))) of
        Inl e \<Rightarrow> Some (Err e)
      | Inr src \<Rightarrow>
     (case copy_loop (art_size art) [] (zip (hd_replies src) (co_writes co)) of
        None \<Rightarrow> None
      | Some (Inl e) \<Rightarrow> Some (Err e)
      | Some (Inr copied) \<Rightarrow>
     (case and_then (map_err ME_Io (co_flush co)) (\<lambda>_.
           and_then (map_err ME_Io (co_sync co)) (\<lambda>_.
           and_then (reject_if (length copied \<noteq> art_size art) (ME_SizeLimit (art_size art) (length copied))) (\<lambda>_.
           and_then (reject_if (lower_hex (sha copied) \<noteq> art_sha256 art)
             (ME_HashMismatch (art_sha256 art) (lower_hex (sha copied)))) (\<lambda>_.
           and_then (map_err (stable_import_destination_error (co_recheck co)) (co_staged co)) (\<lambda>staged.
           and_then (map_err ME_Io (hd_initial staged)) (\<lambda>m.
           and_then (reject_if (\<not> mt_is_file m \<or> mt_len m \<noteq> art_size art)
             (invalid ''staged artifact changed during import'')) (\<lambda>_.
           Ok staged))))))) of
        Inl e \<Rightarrow> Some (Err e)
      | Inr staged \<Rightarrow>
     (case hash_loop (art_size art) (hd_replies staged) of
        None \<Rightarrow> None
      | Some (Inl e) \<Rightarrow> Some (Err e)
      | Some (Inr content) \<Rightarrow>
          Some (reject_if (length content \<noteq> art_size art \<or> lower_hex (sha content) \<noteq> art_sha256 art)
            (ME_HashMismatch (art_sha256 art) (lower_hex (sha content))))))))"

section \<open>Import\<close>

record import_obs =
  io_source_path :: observed
  io_canonical :: "io_error + rstr"
  io_parents :: "model_error + unit"
  io_copy :: copy_obs

text \<open>The loop over the artifacts, below the canonical \<open>source\<close>.\<close>

fun import_artifacts ::
  "(bytes \<Rightarrow> bytes) \<Rightarrow> rstr \<Rightarrow> (nat \<Rightarrow> import_obs) \<Rightarrow> nat \<Rightarrow> artifact list \<Rightarrow> (model_error + unit) option" where
  "import_artifacts sha source obs n [] = Some (Ok ())"
| "import_artifacts sha source obs n (art # arts) =
     (case and_then (reject_reparse_components (io_source_path (obs n)) (art_path art)) (\<lambda>_.
           and_then (map_err ME_Io (io_canonical (obs n))) (\<lambda>canonical.
           and_then (reject_if (\<not> path_starts_with canonical source) (invalid ''import artifact escaped configured source'')) (\<lambda>_.
           map_err (stable_import_destination_error (co_recheck (io_copy (obs n)))) (io_parents (obs n))))) of
        Inl e \<Rightarrow> Some (Err e)
      | Inr _ \<Rightarrow>
     (case copy_import_artifact sha art (io_copy (obs n)) of
        None \<Rightarrow> None
      | Some (Inl e) \<Rightarrow> Some (Err e)
      | Some (Inr _) \<Rightarrow> import_artifacts sha source obs (Suc n) arts))"

text \<open>
  What the rest of an import sees. \<open>ir_record\<close>: the creation, the writing and the syncing of the identity
  record; \<open>ir_promote\<close>: the answer of \<^verbatim>\<open>promote\<close>, the only call that touches the installed model.
\<close>

record import_run =
  ir_status :: "(model_error + model_verification_status) option"
  ir_lock :: "(model_error + unit) option"
  ir_reconciled :: "model_error + unit"
  ir_status_locked :: "(model_error + model_verification_status) option"
  ir_source :: "model_error + rstr"
  ir_source_is_dir :: bool
  ir_staging :: "model_error + unit"
  ir_artifacts :: "nat \<Rightarrow> import_obs"
  ir_record :: "model_error + unit"
  ir_promote :: "model_error + unit"
  ir_final :: "(model_error + model_verification_status) option"

definition already_installed :: "model_verification_status \<Rightarrow> bool" where
  "already_installed s \<longleftrightarrow> s = IntegrityVerified \<or> s = Loadable"

text \<open>The part before the promotion: \<open>Ok (Some s)\<close> is the early return of a model that is already there.\<close>

definition import_stage ::
  "read_env \<Rightarrow> manifest \<Rightarrow> import_run \<Rightarrow> (model_error + model_verification_status option) option" where
  "import_stage env m ir =
     (case manifest_validate (fe_parse_url env) m of Inl e \<Rightarrow> Some (Err e) | Inr _ \<Rightarrow>
     (case ir_status ir of None \<Rightarrow> None | Some (Inl e) \<Rightarrow> Some (Err e) | Some (Inr existing) \<Rightarrow>
     if already_installed existing then Some (Ok (Some existing))
     else (case ir_lock ir of None \<Rightarrow> None | Some (Inl e) \<Rightarrow> Some (Err e) | Some (Inr _) \<Rightarrow>
     (case ir_reconciled ir of Inl e \<Rightarrow> Some (Err e) | Inr _ \<Rightarrow>
     (case ir_status_locked ir of None \<Rightarrow> None | Some (Inl e) \<Rightarrow> Some (Err e) | Some (Inr existing') \<Rightarrow>
     if already_installed existing' then Some (Ok (Some existing'))
     else (case and_then (ir_source ir) (\<lambda>source.
             and_then (reject_if (\<not> ir_source_is_dir ir) (invalid ''import source must be a real directory'')) (\<lambda>_.
             and_then (staging_dir (fingerprints env) m) (\<lambda>_.
             and_then (ir_staging ir) (\<lambda>_. Ok source)))) of
         Inl e \<Rightarrow> Some (Err e)
       | Inr source \<Rightarrow>
     (case import_artifacts (fe_sha256 env) source (ir_artifacts ir) 0 (mf_artifacts m) of
        None \<Rightarrow> None
      | Some (Inl e) \<Rightarrow> Some (Err e)
      | Some (Inr _) \<Rightarrow> Some (and_then (ir_record ir) (\<lambda>_. Ok None)))))))))"

text \<open>A failure also removes the staging directory; the error of that removal is ignored.\<close>

definition import_model ::
  "read_env \<Rightarrow> manifest \<Rightarrow> import_run \<Rightarrow> (model_error + model_verification_status) option" where
  "import_model env m ir =
     (case import_stage env m ir of
        None \<Rightarrow> None
      | Some (Inl e) \<Rightarrow> Some (Err e)
      | Some (Inr (Some existing)) \<Rightarrow> Some (Ok existing)
      | Some (Inr None) \<Rightarrow> (case ir_promote ir of Inl e \<Rightarrow> Some (Err e) | Inr _ \<Rightarrow> ir_final ir))"

lemma import_stage_promote [simp]: "import_stage env m (ir\<lparr>ir_promote := p\<rparr>) = import_stage env m ir"
  by (cases ir) (simp only: import_stage_def import_run.select_convs import_run.update_convs)

lemma import_stage_ready:
  assumes "import_stage env m ir = Some (Ok None)"
  obtains source where "ir_source ir = Inr source"
    "import_artifacts (fe_sha256 env) source (ir_artifacts ir) 0 (mf_artifacts m) = Some (Ok ())"
  using assms unfolding import_stage_def
  by (auto simp: result_simps split: sum.split_asm option.split_asm if_split_asm)

lemma copy_import_artifact_Ok:
  "copy_import_artifact sha art co = Some (Ok ()) \<Longrightarrow>
     \<exists>staged content. co_staged co = Inr staged \<and> hash_loop (art_size art) (hd_replies staged) = Some (Ok content) \<and>
       length content = art_size art \<and> lower_hex (sha content) = art_sha256 art"
  by (auto simp: copy_import_artifact_def result_simps split: sum.split_asm option.split_asm)

lemma import_artifacts_Ok:
  "import_artifacts sha source obs n arts = Some (Ok ()) \<Longrightarrow> i < length arts \<Longrightarrow>
     (\<exists>canonical. io_canonical (obs (n + i)) = Inr canonical \<and> path_starts_with canonical source) \<and>
     copy_import_artifact sha (arts ! i) (io_copy (obs (n + i))) = Some (Ok ())"
proof (induction arts arbitrary: n i)
  case (Cons art arts)
  show ?case
  proof (cases i)
    case 0
    then show ?thesis
      using Cons.prems by (auto simp: result_simps split: sum.split_asm option.split_asm)
  next
    case (Suc j)
    have "import_artifacts sha source obs (Suc n) arts = Some (Ok ())"
      using Cons.prems(1) by (auto split: sum.split_asm option.split_asm)
    then show ?thesis using Cons.IH [of "Suc n" j] Cons.prems(2) Suc by simp
  qed
qed simp

text \<open>
  An import never promotes unverified bytes: when what the import answers depends on the promotion,
  every artifact was found inside the authorised source and the bytes read back from its staged file
  have the declared size and digest.
\<close>

theorem import_promotes_only_verified_bytes:
  assumes "import_model env m (ir\<lparr>ir_promote := p\<rparr>) \<noteq> import_model env m (ir\<lparr>ir_promote := q\<rparr>)"
    and "i < length (mf_artifacts m)"
  shows "\<exists>source canonical staged content.
    ir_source ir = Inr source \<and> io_canonical (ir_artifacts ir i) = Inr canonical \<and> path_starts_with canonical source \<and>
    co_staged (io_copy (ir_artifacts ir i)) = Inr staged \<and>
    hash_loop (art_size (mf_artifacts m ! i)) (hd_replies staged) = Some (Ok content) \<and>
    length content = art_size (mf_artifacts m ! i) \<and>
    lower_hex (fe_sha256 env content) = art_sha256 (mf_artifacts m ! i)"
proof -
  have "import_stage env m ir = Some (Ok None)"
    using assms(1) by (auto simp: import_model_def split: option.split_asm sum.split_asm)
  then obtain source where s: "ir_source ir = Inr source"
    and a: "import_artifacts (fe_sha256 env) source (ir_artifacts ir) 0 (mf_artifacts m) = Some (Ok ())"
    by (rule import_stage_ready)
  from import_artifacts_Ok [OF a assms(2)] obtain canonical
    where "io_canonical (ir_artifacts ir i) = Inr canonical" "path_starts_with canonical source"
      and c: "copy_import_artifact (fe_sha256 env) (mf_artifacts m ! i) (io_copy (ir_artifacts ir i)) = Some (Ok ())"
    by auto
  with s copy_import_artifact_Ok [OF c] show ?thesis by blast
qed


text \<open>An import of two artifacts that reaches its promotion.\<close>

definition demo_copy :: copy_obs where
  "demo_copy = \<lparr>co_source = Ok (Store_Read.demo_handle [[1, 2, 3], [4, 5, 6, 7]]), co_target = Ok (), co_writes = [None, None, None],
     co_flush = Ok (), co_sync = Ok (), co_staged = Ok (Store_Read.demo_handle [[1, 2, 3, 4], [5, 6, 7]]), co_recheck = Ok ()\<rparr>"

definition demo_import :: import_run where
  "demo_import = \<lparr>ir_status = Some (Ok Missing), ir_lock = Some (Ok ()), ir_reconciled = Ok (), ir_status_locked = Some (Ok Missing),
     ir_source = Ok (lit ''/s''), ir_source_is_dir = True, ir_staging = Ok (),
     ir_artifacts = (\<lambda>_. \<lparr>io_source_path = demo_observed (Ok (Store_Read.demo_handle [])), io_canonical = Ok (lit ''/s/f''),
       io_parents = Ok (), io_copy = demo_copy\<rparr>),
     ir_record = Ok (), ir_promote = Ok (), ir_final = Some (Ok Loadable)\<rparr>"

lemma demo_copied:
  assumes "art \<in> set (mf_artifacts demo_manifest)"
  shows "copy_import_artifact (\<lambda>_. replicate 32 170) art demo_copy = Some (Ok ())"
proof -
  have a: "art_size art = 7" "art_sha256 art = replicate 64 97"
    using assms by (auto simp: demo_manifest_def demo_artifact_def)
  have "copy_loop 7 [] (zip (hd_replies (Store_Read.demo_handle [[1, 2, 3], [4, 5, 6, 7]])) [None, None, None]) = Some (Ok [1, 2, 3, 4, 5, 6, 7])"
    "hash_loop 7 (hd_replies (Store_Read.demo_handle [[1, 2, 3, 4], [5, 6, 7]])) = Some (Ok [1, 2, 3, 4, 5, 6, 7])"
    by (simp_all add: Store_Read.demo_handle_def buffer_len_def Let_def checked_add_def word_limit_def hash_loop_def)
  then show ?thesis
    by (simp add: copy_import_artifact_def demo_copy_def a Store_Read.demo_handle_def demo_meta_def demo_digest)
qed

lemma demo_import_staged:
  "import_artifacts (\<lambda>_. replicate 32 170) (lit ''/s'') (ir_artifacts demo_import) 0 (mf_artifacts demo_manifest) = Some (Ok ())"
proof -
  have c: "io_copy (ir_artifacts demo_import n) = demo_copy" "io_parents (ir_artifacts demo_import n) = Ok ()"
    "io_canonical (ir_artifacts demo_import n) = Ok (lit ''/s/f'')"
    "io_source_path (ir_artifacts demo_import n) = demo_observed (Ok (Store_Read.demo_handle []))" for n
    by (simp_all add: demo_import_def)
  have p: "path_starts_with (lit ''/s/f'') (lit ''/s'')"
    by (simp add: path_starts_with_def path_components_def path_is_absolute_def lit_def)
  have r: "reject_reparse_components (demo_observed (Ok (Store_Read.demo_handle []))) (art_path art) = Ok ()"
    if "art \<in> set (mf_artifacts demo_manifest)" for art
    using that
    by (auto simp: demo_manifest_def demo_artifact_def reject_reparse_components_def demo_components demo_observed_def
        demo_meta_def normal_component_def)
  have "set arts \<subseteq> set (mf_artifacts demo_manifest) \<Longrightarrow>
      import_artifacts (\<lambda>_. replicate 32 170) (lit ''/s'') (ir_artifacts demo_import) n arts = Some (Ok ())" for arts n
    by (induction arts arbitrary: n) (simp_all add: c p r demo_copied)
  then show ?thesis by simp
qed

theorem import_promotes_only_verified_bytes_witness:
  "\<exists>content. length content = (7 :: nat) \<and> hash_loop 7 (hd_replies (Store_Read.demo_handle [[1, 2, 3, 4], [5, 6, 7]])) = Some (Ok content)"
proof -
  have "is_ok (staging_dir (fingerprints demo_reads) demo_manifest)"
    using demo_key by (simp add: staging_dir_def)
  moreover have "fe_parse_url demo_reads = (\<lambda>_. Some demo_url)" "fe_sha256 demo_reads = (\<lambda>_. replicate 32 170)"
    by (simp_all add: demo_reads_def)
  ultimately have "import_stage demo_reads demo_manifest demo_import = Some (Ok None)"
    using demo_manifest_valid demo_import_staged
    by (auto simp: import_stage_def is_ok_iff already_installed_def) (simp_all add: demo_import_def already_installed_def)
  then have "import_model demo_reads demo_manifest (demo_import\<lparr>ir_promote := Ok ()\<rparr>) \<noteq>
      import_model demo_reads demo_manifest (demo_import\<lparr>ir_promote := Err ME_Busy\<rparr>)"
    by (simp add: import_model_def) (simp add: demo_import_def)
  from import_promotes_only_verified_bytes [OF this, of 0] show ?thesis
    by (auto simp: demo_manifest_def demo_artifact_def demo_import_def demo_copy_def)
qed

section \<open>Import sources and staging\<close>

text \<open>\<open>prefixes\<close>: the metadata of every prefix of the source path, by its number of components.\<close>

fun import_prefixes :: "(nat \<Rightarrow> io_error + meta) \<Rightarrow> nat \<Rightarrow> component list \<Rightarrow> model_error + unit" where
  "import_prefixes prefixes n [] = Ok ()"
| "import_prefixes prefixes n (c # cs) =
     (case prefixes (Suc n) of
        Inl e \<Rightarrow> Err (ME_Io e)
      | Inr m \<Rightarrow> if mt_reparse m then Err (invalid ''import source contains a symlink or reparse point'')
                 else import_prefixes prefixes (Suc n) cs)"

definition validate_import_source ::
  "rstr \<Rightarrow> io_error + meta \<Rightarrow> (nat \<Rightarrow> io_error + meta) \<Rightarrow> io_error + rstr \<Rightarrow> model_error + rstr" where
  "validate_import_source source metadata prefixes canonical =
     and_then (reject_if (list_ex (\<lambda>c. c = CurDir \<or> c = ParentDir) (path_components source))
       (invalid ''import source contains unsafe components'')) (\<lambda>_.
     and_then (map_err ME_Io metadata) (\<lambda>m.
     and_then (reject_if (mt_reparse m \<or> \<not> mt_is_dir m)
       (invalid ''import source must be a real non-reparse directory'')) (\<lambda>_.
     and_then (import_prefixes prefixes 0 (path_components source)) (\<lambda>_.
     map_err ME_Io canonical))))"

definition ensure_contained_directory :: "io_error + meta \<Rightarrow> io_error + rstr \<Rightarrow> io_error + rstr \<Rightarrow> model_error + unit" where
  "ensure_contained_directory metadata canonical_base canonical =
     and_then (map_err ME_Io metadata) (\<lambda>m.
     and_then (reject_if (mt_reparse m) (invalid ''cache directory cannot be a symlink'')) (\<lambda>_.
     and_then (map_err ME_Io canonical_base) (\<lambda>base.
     and_then (map_err ME_Io canonical) (\<lambda>directory.
     reject_if (\<not> path_starts_with directory base) (invalid ''cache directory escaped containment'')))))"

text \<open>One directory that \<^verbatim>\<open>prepare_staging\<close> creates, checks and syncs.\<close>

record ensured_dir =
  en_create :: "io_error + unit"
  en_meta :: "io_error + meta"
  en_base :: "io_error + rstr"
  en_canonical :: "io_error + rstr"
  en_sync :: "io_error + unit"

definition ensure_directory :: "ensured_dir \<Rightarrow> model_error + unit" where
  "ensure_directory en =
     and_then (map_err ME_Io (en_create en)) (\<lambda>_.
     and_then (ensure_contained_directory (en_meta en) (en_base en) (en_canonical en)) (\<lambda>_.
     map_err ME_Io (en_sync en)))"

text \<open>
  The four directories of the cache, the old staging directory if there is one (its removal and the sync
  of its parent), and the new one with the syncs of its parent and of the root.
\<close>

record staging_obs =
  sg_directories :: "ensured_dir list"
  sg_root_sync :: "io_error + unit"
  sg_old :: "io_error + meta"
  sg_remove :: "io_error + unit"
  sg_parent_sync :: "io_error + unit"
  sg_new :: ensured_dir
  sg_final_syncs :: "(io_error + unit) list"

definition prepare_staging :: "staging_obs \<Rightarrow> model_error + unit" where
  "prepare_staging sg =
     and_then (collect_results ensure_directory (sg_directories sg)) (\<lambda>_.
     and_then (map_err ME_Io (sg_root_sync sg)) (\<lambda>_.
     and_then (symlink_metadata_if_exists (sg_old sg)) (\<lambda>old.
     and_then (case old of None \<Rightarrow> Ok ()
        | Some m \<Rightarrow>
            and_then (reject_if (mt_reparse m \<or> \<not> mt_is_dir m) (invalid ''unsafe staging path'')) (\<lambda>_.
            and_then (map_err ME_Io (sg_remove sg)) (\<lambda>_. map_err ME_Io (sg_parent_sync sg)))) (\<lambda>_.
     and_then (ensure_directory (sg_new sg)) (\<lambda>_.
     and_then (collect_results (map_err ME_Io) (sg_final_syncs sg)) (\<lambda>_. Ok ()))))))"


text \<open>\<^verbatim>\<open>CacheLayout::new\<close>: the canonical root.\<close>

definition cache_layout_new :: "io_error + unit \<Rightarrow> io_error + meta \<Rightarrow> io_error + rstr \<Rightarrow> model_error + rstr" where
  "cache_layout_new created metadata canonical =
     and_then (map_err ME_Io created) (\<lambda>_.
     and_then (map_err ME_Io metadata) (\<lambda>m.
     and_then (reject_if (mt_reparse m) (invalid ''cache root cannot be a symlink'')) (\<lambda>_.
     map_err ME_Io canonical)))"

section \<open>Discovery\<close>

definition max_discovery_roots :: nat where "max_discovery_roots = 64"
definition max_discovery_entries :: nat where "max_discovery_entries = 1024"

record entry_obs =
  de_entry :: "io_error + unit"
  de_meta :: "io_error + meta"
  de_canonical :: "io_error + rstr"
  de_record :: manifest_obs

record root_obs =
  dr_meta :: "io_error + meta"
  dr_canonical :: "io_error + rstr"
  dr_entries :: "io_error + entry_obs list"

text \<open>The entries of one root; \<open>inspected\<close> counts over all roots.\<close>

fun discover_entries ::
  "(rstr \<Rightarrow> url option) \<Rightarrow> (bytes \<Rightarrow> rstr + manifest) \<Rightarrow> rstr \<Rightarrow> entry_obs list \<Rightarrow> nat \<times> manifest list \<Rightarrow>
   (model_error + nat \<times> manifest list) option" where
  "discover_entries parse_url decode root [] (inspected, found) = Some (Ok (inspected, found))"
| "discover_entries parse_url decode root (en # ens) (inspected, found) =
     (case checked_add inspected 1 of None \<Rightarrow> Some (Err (invalid ''model discovery entry limit exceeded''))
      | Some seen_now \<Rightarrow>
     if max_discovery_entries < seen_now then Some (Err (invalid ''model discovery entry limit exceeded''))
     else (case de_entry en of Inl _ \<Rightarrow> Some (Err (invalid ''model discovery entry is unavailable''))
      | Inr _ \<Rightarrow>
     (case de_meta en of Inl _ \<Rightarrow> Some (Err (invalid ''model discovery entry is unavailable''))
      | Inr m \<Rightarrow>
     if mt_reparse m \<or> \<not> mt_is_dir m then discover_entries parse_url decode root ens (seen_now, found)
     else (case de_canonical en of Inl _ \<Rightarrow> discover_entries parse_url decode root ens (seen_now, found)
      | Inr canonical \<Rightarrow>
     if \<not> path_starts_with canonical root then discover_entries parse_url decode root ens (seen_now, found)
     else (case read_observed_manifest parse_url decode (de_record en) of
         None \<Rightarrow> None
       | Some (Inl _) \<Rightarrow> discover_entries parse_url decode root ens (seen_now, found)
       | Some (Inr x) \<Rightarrow> discover_entries parse_url decode root ens (seen_now, found @ [x]))))))"

fun discover_roots ::
  "(rstr \<Rightarrow> url option) \<Rightarrow> (bytes \<Rightarrow> rstr + manifest) \<Rightarrow> root_obs list \<Rightarrow> nat \<times> manifest list \<Rightarrow>
   (model_error + manifest list) option" where
  "discover_roots parse_url decode [] acc = Some (Ok (snd acc))"
| "discover_roots parse_url decode (r # rs) acc =
     (case dr_meta r of
        Inl e \<Rightarrow> if kind_is ''NotFound'' e then discover_roots parse_url decode rs acc
                 else Some (Err (invalid ''model discovery root is unavailable''))
      | Inr m \<Rightarrow>
     if mt_reparse m \<or> \<not> mt_is_dir m then discover_roots parse_url decode rs acc
     else (case (dr_canonical r, dr_entries r) of
         (Inr root, Inr entries) \<Rightarrow>
           (case discover_entries parse_url decode root entries acc of
              None \<Rightarrow> None
            | Some (Inl e) \<Rightarrow> Some (Err e)
            | Some (Inr acc') \<Rightarrow> discover_roots parse_url decode rs acc')
       | _ \<Rightarrow> Some (Err (invalid ''model discovery root is unavailable''))))"

definition discover ::
  "(rstr \<Rightarrow> url option) \<Rightarrow> (bytes \<Rightarrow> rstr + manifest) \<Rightarrow> root_obs list \<Rightarrow> (model_error + manifest list) option" where
  "discover parse_url decode roots =
     (if max_discovery_roots < length roots then Some (Err (invalid ''model discovery root limit exceeded''))
      else discover_roots parse_url decode roots (0, []))"

text \<open>What is found so far is bounded by what was inspected, and every manifest was read from an authorised entry.\<close>

definition authorised :: "(rstr \<Rightarrow> url option) \<Rightarrow> (bytes \<Rightarrow> rstr + manifest) \<Rightarrow> root_obs list \<Rightarrow> manifest \<Rightarrow> bool" where
  "authorised parse_url decode roots x \<longleftrightarrow> (\<exists>r \<in> set roots. \<exists>root entries en canonical.
     dr_canonical r = Inr root \<and> dr_entries r = Inr entries \<and> en \<in> set entries \<and> de_canonical en = Inr canonical \<and>
     path_starts_with canonical root \<and> read_observed_manifest parse_url decode (de_record en) = Some (Ok x))"

definition discovery_ok :: "(rstr \<Rightarrow> url option) \<Rightarrow> (bytes \<Rightarrow> rstr + manifest) \<Rightarrow> root_obs list \<Rightarrow> nat \<times> manifest list \<Rightarrow> bool" where
  "discovery_ok parse_url decode roots acc \<longleftrightarrow>
     length (snd acc) \<le> fst acc \<and> fst acc \<le> max_discovery_entries \<and> (\<forall>x \<in> set (snd acc). authorised parse_url decode roots x)"

lemma discover_entries_ok:
  assumes "discover_entries parse_url decode root entries acc = Some (Ok acc')"
    and "discovery_ok parse_url decode roots acc" and "r \<in> set roots" and "dr_canonical r = Inr root"
    and "dr_entries r = Inr all_entries" and "set entries \<subseteq> set all_entries"
  shows "discovery_ok parse_url decode roots acc'"
  using assms(1,2,6)
proof (induction entries arbitrary: acc)
  case Nil
  then show ?case by (cases acc) simp
next
  case (Cons en ens)
  obtain inspected found where acc: "acc = (inspected, found)" by fastforce
  have auth: "authorised parse_url decode roots x"
    if "de_canonical en = Inr canonical" "path_starts_with canonical root"
      "read_observed_manifest parse_url decode (de_record en) = Some (Ok x)" for canonical x
    using assms(3-5) Cons.prems(3) that unfolding authorised_def by simp blast
  from Cons.prems(1) acc obtain seen_now where c: "checked_add inspected 1 = Some seen_now" "\<not> max_discovery_entries < seen_now"
    by (auto split: option.split_asm if_split_asm)
  then have "seen_now = inspected + 1" by (simp add: checked_simps)
  then have next_ok: "discovery_ok parse_url decode roots (seen_now, found)"
    "authorised parse_url decode roots x \<Longrightarrow> discovery_ok parse_url decode roots (seen_now, found @ [x])" for x
    using Cons.prems(2) acc c(2) by (auto simp: discovery_ok_def)
  show ?case
    using Cons.IH Cons.prems(1,3) acc c next_ok auth
    by (auto split: sum.split_asm option.split_asm if_split_asm)
qed


lemma discover_roots_ok:
  assumes "discover_roots parse_url decode rs acc = Some (Ok found)"
    and "discovery_ok parse_url decode roots acc" and "set rs \<subseteq> set roots"
  shows "length found \<le> max_discovery_entries \<and> (\<forall>x \<in> set found. authorised parse_url decode roots x)"
  using assms
proof (induction rs arbitrary: acc)
  case Nil
  then show ?case by (auto simp: discovery_ok_def)
next
  case (Cons r rs)
  show ?case
  proof (cases "\<exists>m. dr_meta r = Inr m \<and> \<not> (mt_reparse m \<or> \<not> mt_is_dir m)")
    case True
    then obtain root entries acc' where e: "dr_canonical r = Inr root" "dr_entries r = Inr entries"
      "discover_entries parse_url decode root entries acc = Some (Ok acc')"
      "discover_roots parse_url decode rs acc' = Some (Ok found)"
      using Cons.prems(1) by (auto split: sum.split_asm option.split_asm)
    have "discovery_ok parse_url decode roots acc'"
      using discover_entries_ok [OF e(3) Cons.prems(2), of r entries] e(1,2) Cons.prems(3) by simp
    then show ?thesis using Cons.IH e(4) Cons.prems(3) by simp
  next
    case False
    then have "discover_roots parse_url decode rs acc = Some (Ok found)"
      using Cons.prems(1) by (auto split: sum.split_asm if_split_asm)
    then show ?thesis using Cons.IH Cons.prems(2,3) by simp
  qed
qed

text \<open>
  Discovery is bounded and stays inside its roots: it returns at most 1024 manifests, each read as a
  bounded regular file from a directory whose canonical path lies below the canonical path of one of the
  authorised roots.
\<close>

theorem discovery_is_bounded_and_confined:
  assumes "discover parse_url decode roots = Some (Ok found)"
  shows "length roots \<le> 64 \<and> length found \<le> 1024 \<and> (\<forall>x \<in> set found. authorised parse_url decode roots x)"
proof -
  have r: "length roots \<le> max_discovery_roots" "discover_roots parse_url decode roots (0, []) = Some (Ok found)"
    using assms by (auto simp: discover_def split: if_split_asm)
  have "discovery_ok parse_url decode roots (0, [])"
    by (simp add: discovery_ok_def max_discovery_entries_def)
  from discover_roots_ok [OF r(2) this subset_refl] show ?thesis
    using r(1) by (simp add: max_discovery_roots_def max_discovery_entries_def)
qed

definition demo_roots :: "root_obs list" where
  "demo_roots = [\<lparr>dr_meta = Ok (demo_meta False), dr_canonical = Ok (lit ''/s''),
     dr_entries = Ok [\<lparr>de_entry = Ok (), de_meta = Ok (demo_meta False), de_canonical = Ok (lit ''/s/f''),
       de_record = so_manifest demo_status\<rparr>]\<rparr>]"

theorem discovery_is_bounded_and_confined_witness:
  "discover (fe_parse_url demo_reads) (re_decode demo_reads) demo_roots = Some (Ok [demo_manifest]) \<and>
   authorised (fe_parse_url demo_reads) (re_decode demo_reads) demo_roots demo_manifest"
proof -
  have "path_starts_with (lit ''/s/f'') (lit ''/s'')"
    by (simp add: path_starts_with_def path_components_def path_is_absolute_def lit_def)
  then have d: "discover (fe_parse_url demo_reads) (re_decode demo_reads) demo_roots = Some (Ok [demo_manifest])"
    by (simp add: discover_def demo_roots_def demo_record demo_meta_def max_discovery_roots_def max_discovery_entries_def
        checked_add_def word_limit_def)
  then show ?thesis using discovery_is_bounded_and_confined [OF d] by simp
qed

definition demo_turn :: verify_turn where
  "demo_turn = \<lparr>vt_marker = Err \<lparr>io_kind = lit ''NotFound'', io_text = []\<rparr>, vt_repair_lock = Some (Ok ()), vt_repaired = Ok (),
     vt_lease = Some (Ok ()), vt_marker_again = Err \<lparr>io_kind = lit ''NotFound'', io_text = []\<rparr>, vt_status = demo_status\<rparr>"

theorem verified_model_needs_lease_and_verification_witness:
  "vt_lease demo_turn = Some (Ok ()) \<and>
   status_inner demo_reads {lit ''sha256:'' @ replicate 64 97} demo_manifest (vt_status demo_turn) (\<lambda>_ _. False) = Some (Ok Loadable)"
proof -
  have "is_ok (repair_marker (fingerprints demo_reads) demo_manifest)" "is_ok (model_dir (fingerprints demo_reads) demo_manifest)"
    using demo_key by (simp_all add: repair_marker_def model_dir_def)
  then obtain vm where "verified_model_of demo_reads {lit ''sha256:'' @ replicate 64 97} demo_manifest [demo_turn] = Some (Ok vm)"
    using demo_manifest_valid demo_loadable
    by (auto simp: verified_model_of_def is_ok_iff demo_turn_def marker_gone_def kind_is_def demo_reads_def)
  from verified_model_needs_lease_and_verification [OF this] show ?thesis by simp
qed

end
