(* ===== verification/Install.thy ===== *)
theory Install
  imports Store_Import Runtime
begin

text \<open>
  The installer of \<^verbatim>\<open>impossible-models/src/install.rs\<close>: its network policy, the download of one artifact with
  redirects checked hop by hop, the lock, and the installation transaction. The HTTP client and the URL
  parser are arguments; what each wait observes is arbitrary.
\<close>

section \<open>Policy\<close>

text \<open>A parsed URL with its port and its texts.\<close>

record install_url = url +
  iu_port :: "nat option"
  iu_text :: rstr
  iu_origin_text :: rstr

record install_options =
  opt_offline :: bool
  opt_allowed_origins :: "install_url list"
  opt_max_redirects :: nat
  opt_max_artifact_bytes :: nat
  opt_max_artifacts :: nat
  opt_max_total_artifact_bytes :: nat

definition default_origins :: "string list" where
  "default_origins =
     [''https://huggingface.co'', ''https://cas-server.xethub.hf.co'', ''https://cas-server.xethub-eu.hf.co'',
      ''https://transfer.xethub.hf.co'', ''https://transfer.xethub-eu.hf.co'', ''https://us.aws.cdn.hf.co'',
      ''https://us.gcp.cdn.hf.co'', ''https://cdn-lfs-us-1.hf.co'', ''https://cdn-lfs-eu-1.hf.co'']"

definition install_options_default :: "(rstr \<Rightarrow> install_url option) \<Rightarrow> install_options" where
  "install_options_default parse =
     \<lparr>opt_offline = False, opt_allowed_origins = List.map_filter (\<lambda>s. parse (lit s)) default_origins,
      opt_max_redirects = 3, opt_max_artifact_bytes = 2 * 1024 * 1024 * 1024, opt_max_artifacts = max_artifacts,
      opt_max_total_artifact_bytes = 8 * 1024 * 1024 * 1024\<rparr>"

definition safe_origin :: "install_url \<Rightarrow> bool" where
  "safe_origin o' \<longleftrightarrow>
     (let safe_loopback = (url_scheme o' = lit ''http'' \<and>
            (case url_host o' of None \<Rightarrow> False
             | Some h \<Rightarrow> h \<in> {lit ''127.0.0.1'', lit ''::1'', lit ''localhost''})) in
      \<not> (url_host o' = None
        \<or> (url_scheme o' \<noteq> lit ''https'' \<and> \<not> safe_loopback)
        \<or> url_username o' \<noteq> []
        \<or> url_password o' \<noteq> None
        \<or> url_path o' \<noteq> lit ''/''
        \<or> url_query o' \<noteq> None
        \<or> url_fragment o' \<noteq> None
        \<or> iu_text o' \<noteq> iu_origin_text o' @ lit ''/''))"

text \<open>\<open>client\<close>: the answer of the HTTP client builder.\<close>

definition installer_new :: "http_error + unit \<Rightarrow> install_options \<Rightarrow> model_error + install_options" where
  "installer_new client options =
     and_then (reject_if (opt_max_artifact_bytes options = 0 \<or> opt_max_artifacts options = 0
         \<or> opt_max_total_artifact_bytes options = 0) (invalid ''installation limits must be non-zero'')) (\<lambda>_.
     and_then (reject_if (opt_allowed_origins options = [])
       (invalid ''at least one download origin must be explicitly allowed'')) (\<lambda>_.
     and_then (reject_if (list_ex (\<lambda>o'. \<not> safe_origin o') (opt_allowed_origins options))
       (invalid ''allowed origins must be exact canonical HTTPS origins (HTTP is test-only for loopback)'')) (\<lambda>_.
     and_then (map_err (\<lambda>e. ME_Http (http_kind e)) client) (\<lambda>_.
     Ok options))))"

fun sum_artifact_sizes :: "nat \<Rightarrow> nat \<Rightarrow> artifact list \<Rightarrow> model_error + nat" where
  "sum_artifact_sizes max_bytes acc [] = Ok acc"
| "sum_artifact_sizes max_bytes acc (art # arts) =
     (if max_bytes < art_size art then Err (ME_SizeLimit max_bytes (art_size art))
      else (case checked_add acc (art_size art) of
          None \<Rightarrow> Err (invalid ''aggregate artifact size overflow'')
        | Some acc' \<Rightarrow> sum_artifact_sizes max_bytes acc' arts))"

definition validate_install_size :: "install_options \<Rightarrow> manifest \<Rightarrow> model_error + unit" where
  "validate_install_size options m =
     and_then (reject_if (opt_max_artifacts options < length (mf_artifacts m))
       (invalid ''manifest exceeds configured artifact count'')) (\<lambda>_.
     and_then (sum_artifact_sizes (opt_max_artifact_bytes options) 0 (mf_artifacts m)) (\<lambda>t.
     reject_if (opt_max_total_artifact_bytes options < t)
       (ME_SizeLimit (opt_max_total_artifact_bytes options) t)))"

definition origin_matches :: "install_url \<Rightarrow> install_url \<Rightarrow> bool" where
  "origin_matches o' candidate \<longleftrightarrow>
     url_scheme o' = url_scheme candidate \<and> url_host o' = url_host candidate \<and> iu_port o' = iu_port candidate"

definition ensure_allowed :: "install_options \<Rightarrow> install_url \<Rightarrow> model_error + unit" where
  "ensure_allowed options candidate =
     (if list_ex (\<lambda>o'. origin_matches o' candidate) (opt_allowed_origins options) then Ok ()
      else Err (ME_OriginNotAllowed (iu_origin_text candidate)))"

section \<open>Download\<close>

text \<open>A response: the location header is missing, not text, or text.\<close>

datatype location = No_Location | Not_Text | Location rstr

record response =
  rs_status :: nat
  rs_location :: location
  rs_content_length :: "rstr option"

text \<open>The end of the wait for a response: the client's answer, or the cancellation.\<close>

datatype 'a sent = Answer 'a | Cancelled_While

definition is_redirection :: "nat \<Rightarrow> bool" where
  "is_redirection status \<longleftrightarrow> 300 \<le> status \<and> status < 400"

text \<open>
  The redirect loop. \<open>net hop u\<close> is what request number \<open>hop\<close>, sent to \<open>u\<close>, brings; \<open>cancelled hop\<close> the check before
  it; \<open>join\<close> resolves a location against the current URL.
\<close>

function fetch ::
  "install_options \<Rightarrow> (nat \<Rightarrow> install_url \<Rightarrow> (http_error + response) sent) \<Rightarrow> (nat \<Rightarrow> bool) \<Rightarrow>
   (install_url \<Rightarrow> rstr \<Rightarrow> install_url option) \<Rightarrow> install_url \<Rightarrow> nat \<Rightarrow> model_error + response" where
  "fetch options net cancelled join u redirects =
     and_then (ensure_allowed options u) (\<lambda>_.
     if cancelled redirects then Err ME_Cancelled
     else (case net redirects u of
         Cancelled_While \<Rightarrow> Err ME_Cancelled
       | Answer (Inl e) \<Rightarrow> Err (ME_Http (http_kind e))
       | Answer (Inr r) \<Rightarrow>
           if is_redirection (rs_status r) then
             if opt_max_redirects options \<le> redirects then Err (invalid ''redirect limit exceeded'')
             else (case rs_location r of
                 No_Location \<Rightarrow> Err (invalid ''redirect omitted Location'')
               | Not_Text \<Rightarrow> Err (invalid ''redirect Location is invalid'')
               | Location l \<Rightarrow>
                   (case join u l of None \<Rightarrow> Err (invalid ''redirect URL is invalid'')
                    | Some u' \<Rightarrow> fetch options net cancelled join u' (redirects + 1)))
           else if rs_status r \<noteq> 200 then
             Err (ME_Invalid (lit ''artifact server returned HTTP '' @ decimal (rs_status r)))
           else Ok r))"
  by pat_completeness auto
termination
  by (relation "measure (\<lambda>(options, net, cancelled, join, u, redirects). opt_max_redirects options - redirects)") auto

declare fetch.simps [simp del]

definition validate_content_length :: "response \<Rightarrow> nat \<Rightarrow> model_error + unit" where
  "validate_content_length r expected_size =
     (case Option.bind (rs_content_length r) parse_unsigned of
        None \<Rightarrow> Ok ()
      | Some len \<Rightarrow> reject_if (expected_size < len) (ME_SizeLimit expected_size len))"


text \<open>
  The body loop: a chunk with the failure of its write, if any, the end, a failed read, or the cancellation
  (with the result of the flush). The state is what has been written.
\<close>

datatype body_event =
    Chunk bytes "io_error option"
  | Body_End
  | Body_Failed http_error
  | Body_Cancelled "io_error + unit"

fun receive_body :: "install_options \<Rightarrow> nat \<Rightarrow> bytes \<Rightarrow> body_event list \<Rightarrow> (model_error + bytes) option" where
  "receive_body options expected_size received [] = None"
| "receive_body options expected_size received (ev # events) =
     (case ev of
        Body_Failed e \<Rightarrow> Some (Err (ME_Http (http_kind e)))
      | Body_Cancelled flushed \<Rightarrow> Some (and_then (map_err ME_Io flushed) (\<lambda>_. Err ME_Cancelled))
      | Body_End \<Rightarrow> Some (Ok received)
      | Chunk d write \<Rightarrow>
          (case checked_add (length received) (length d) of
             None \<Rightarrow> Some (Err (invalid ''artifact length overflow''))
           | Some n \<Rightarrow>
               if expected_size < n \<or> opt_max_artifact_bytes options < n
               then Some (Err (ME_SizeLimit (min expected_size (opt_max_artifact_bytes options)) n))
               else (case write of Some e \<Rightarrow> Some (Err (ME_Io e))
                 | None \<Rightarrow> receive_body options expected_size (received @ d) events)))"

record download_obs =
  dl_url :: "install_url option"
  dl_net :: "nat \<Rightarrow> install_url \<Rightarrow> (http_error + response) sent"
  dl_cancelled :: "nat \<Rightarrow> bool"
  dl_join :: "install_url \<Rightarrow> rstr \<Rightarrow> install_url option"
  dl_create :: "model_error + unit"
  dl_body :: "body_event list"
  dl_flush :: "io_error + unit"
  dl_sync :: "io_error + unit"
  dl_final :: "io_error + meta"
  dl_contained :: "model_error + unit"

definition finish_download :: "(bytes \<Rightarrow> bytes) \<Rightarrow> artifact \<Rightarrow> bytes \<Rightarrow> download_obs \<Rightarrow> model_error + unit" where
  "finish_download sha art received dl =
     and_then (map_err ME_Io (dl_flush dl)) (\<lambda>_.
     and_then (map_err ME_Io (dl_sync dl)) (\<lambda>_.
     and_then (map_err ME_Io (dl_final dl)) (\<lambda>m.
     and_then (reject_if (length received \<noteq> art_size art) (ME_SizeLimit (art_size art) (length received))) (\<lambda>_.
     and_then (reject_if (lower_hex (sha received) \<noteq> art_sha256 art)
       (ME_HashMismatch (art_sha256 art) (lower_hex (sha received)))) (\<lambda>_.
     and_then (reject_if (\<not> mt_is_file m \<or> mt_len m \<noteq> art_size art)
       (invalid ''staged artifact changed while writing'')) (\<lambda>_.
     dl_contained dl))))))"

text \<open>\<^verbatim>\<open>download\<close>: on success, the bytes of the staged file.\<close>

definition download ::
  "install_options \<Rightarrow> (bytes \<Rightarrow> bytes) \<Rightarrow> artifact \<Rightarrow> download_obs \<Rightarrow> (model_error + bytes) option" where
  "download options sha art dl =
     (case and_then (ok_or (invalid ''invalid artifact URL'') (dl_url dl)) (\<lambda>u.
           and_then (fetch options (dl_net dl) (dl_cancelled dl) (dl_join dl) u 0) (\<lambda>r.
           and_then (validate_content_length r (art_size art)) (\<lambda>_.
           dl_create dl))) of
        Inl e \<Rightarrow> Some (Err e)
      | Inr _ \<Rightarrow>
     (case receive_body options (art_size art) [] (dl_body dl) of
        None \<Rightarrow> None
      | Some (Inl e) \<Rightarrow> Some (Err e)
      | Some (Inr received) \<Rightarrow> Some (and_then (finish_download sha art received dl) (\<lambda>_. Ok received))))"

section \<open>The lock\<close>

text \<open>
  \<^verbatim>\<open>acquire_lock\<close>: unlike the lock of the store, the cancellation is read only after a failed attempt.
\<close>

fun install_lock_loop :: "lock_turn list \<Rightarrow> (model_error + unit) option" where
  "install_lock_loop [] = None"
| "install_lock_loop (t # turns) =
     (case attempt_result (lt_attempt t) of
        Inr _ \<Rightarrow> Some (Ok ())
      | Inl e \<Rightarrow>
          if \<not> is_lock_contention e then Some (Err (ME_Io (os_to_io e)))
          else if lt_cancelled t then Some (Err ME_Cancelled)
          else if lt_late t then Some (Err ME_Busy)
          else install_lock_loop turns)"

definition acquire_lock :: "lock_obs \<Rightarrow> lock_turn list \<Rightarrow> (model_error + unit) option" where
  "acquire_lock lo turns =
     (case and_then (map_err ME_Io (lo_create_parent lo)) (\<lambda>_.
           and_then (reject_reparse_components (lo_locks lo) (lit ''locks'')) (\<lambda>_.
           and_then (symlink_metadata_if_exists (lo_file lo)) (\<lambda>f.
           reject_if (case f of None \<Rightarrow> False | Some m \<Rightarrow> mt_reparse m)
             (invalid ''lock file cannot be a symlink or reparse point'')))) of
        Inl e \<Rightarrow> Some (Err e)
      | Inr _ \<Rightarrow> install_lock_loop turns)"

section \<open>The transaction\<close>

fun download_all ::
  "install_options \<Rightarrow> (bytes \<Rightarrow> bytes) \<Rightarrow> (nat \<Rightarrow> model_error + unit) \<Rightarrow> (nat \<Rightarrow> download_obs) \<Rightarrow> nat \<Rightarrow> artifact list \<Rightarrow>
   (model_error + bytes list) option" where
  "download_all options sha parents obs n [] = Some (Ok [])"
| "download_all options sha parents obs n (art # arts) =
     (case parents n of Inl e \<Rightarrow> Some (Err e) | Inr _ \<Rightarrow>
     (case download options sha art (obs n) of
        None \<Rightarrow> None
      | Some (Inl e) \<Rightarrow> Some (Err e)
      | Some (Inr d) \<Rightarrow>
          (case download_all options sha parents obs (Suc n) arts of
             None \<Rightarrow> None | Some (Inl e) \<Rightarrow> Some (Err e) | Some (Inr ds) \<Rightarrow> Some (Ok (d # ds)))))"

text \<open>The staging of the identity record, after the commit point.\<close>

record record_obs =
  ro_json :: "model_error + bytes"
  ro_create :: "model_error + unit"
  ro_write :: "io_error + unit"
  ro_flush :: "io_error + unit"
  ro_sync :: "io_error + unit"
  ro_meta :: "io_error + meta"
  ro_contained :: "model_error + unit"

definition stage_record :: "record_obs \<Rightarrow> model_error + unit" where
  "stage_record ro =
     and_then (ro_json ro) (\<lambda>manifest_bytes.
     and_then (ro_create ro) (\<lambda>_.
     and_then (map_err ME_Io (ro_write ro)) (\<lambda>_.
     and_then (map_err ME_Io (ro_flush ro)) (\<lambda>_.
     and_then (map_err ME_Io (ro_sync ro)) (\<lambda>_.
     and_then (map_err ME_Io (ro_meta ro)) (\<lambda>m.
     and_then (reject_if (\<not> mt_is_file m \<or> mt_len m \<noteq> length manifest_bytes)
       (invalid ''staged manifest changed while writing'')) (\<lambda>_.
     ro_contained ro)))))))"

text \<open>
  What one installation sees, in order. \<open>in_gate\<close> is the commit gate when \<^verbatim>\<open>begin_commit\<close> runs; \<open>in_promote\<close> the
  answer of \<^verbatim>\<open>promote\<close>, the only call that touches the installed model.
\<close>

record install_run =
  in_status :: "(model_error + model_verification_status) option"
  in_cancelled :: bool
  in_lock :: "(model_error + unit) option"
  in_reconciled :: "model_error + unit"
  in_status_locked :: "(model_error + model_verification_status) option"
  in_staging :: "model_error + unit"
  in_parents :: "nat \<Rightarrow> model_error + unit"
  in_downloads :: "nat \<Rightarrow> download_obs"
  in_cancelled_last :: bool
  in_gate :: commit_gate
  in_record :: record_obs
  in_promote :: "model_error + unit"
  in_final :: "(model_error + model_verification_status) option"

text \<open>Up to the commit point: \<open>Ok (Some s)\<close> is a model that is already there, \<open>Ok None\<close> authenticated staging.\<close>

definition install_stage ::
  "install_options \<Rightarrow> read_env \<Rightarrow> manifest \<Rightarrow> install_run \<Rightarrow> (model_error + model_verification_status option) option" where
  "install_stage options env m run =
     (case and_then (manifest_validate (fe_parse_url env) m) (\<lambda>_. validate_install_size options m) of
        Inl e \<Rightarrow> Some (Err e) | Inr _ \<Rightarrow>
     (case in_status run of None \<Rightarrow> None | Some (Inl e) \<Rightarrow> Some (Err e) | Some (Inr existing) \<Rightarrow>
     if already_installed existing then Some (Ok (Some existing))
     else if opt_offline options then Some (Err ME_Offline)
     else if in_cancelled run then Some (Err ME_Cancelled)
     else (case lock_file (fingerprints env) m of Inl e \<Rightarrow> Some (Err e) | Inr _ \<Rightarrow>
     (case in_lock run of None \<Rightarrow> None | Some (Inl e) \<Rightarrow> Some (Err e) | Some (Inr _) \<Rightarrow>
     (case in_reconciled run of Inl e \<Rightarrow> Some (Err e) | Inr _ \<Rightarrow>
     (case in_status_locked run of None \<Rightarrow> None | Some (Inl e) \<Rightarrow> Some (Err e) | Some (Inr existing') \<Rightarrow>
     if already_installed existing' then Some (Ok (Some existing'))
     else (case and_then (staging_dir (fingerprints env) m) (\<lambda>_. in_staging run) of Inl e \<Rightarrow> Some (Err e) | Inr _ \<Rightarrow>
     (case download_all options (fe_sha256 env) (in_parents run) (in_downloads run) 0 (mf_artifacts m) of
        None \<Rightarrow> None
      | Some (Inl e) \<Rightarrow> Some (Err e)
      | Some (Inr _) \<Rightarrow> Some (if in_cancelled_last run then Err ME_Cancelled else Ok None)))))))))"

text \<open>The gate after the transaction, and its result.\<close>

definition install_transaction ::
  "install_options \<Rightarrow> read_env \<Rightarrow> manifest \<Rightarrow> install_run \<Rightarrow>
   commit_gate \<times> (model_error + model_verification_status) option" where
  "install_transaction options env m run =
     (case install_stage options env m run of
        None \<Rightarrow> (in_gate run, None)
      | Some (Inl e) \<Rightarrow> (in_gate run, Some (Err e))
      | Some (Inr (Some existing)) \<Rightarrow> (in_gate run, Some (Ok existing))
      | Some (Inr None) \<Rightarrow>
          (case begin_commit (in_gate run) of
             (gate, False) \<Rightarrow> (gate, Some (Err ME_Cancelled))
           | (gate, True) \<Rightarrow>
               (gate, case and_then (stage_record (in_record run)) (\<lambda>_. in_promote run) of
                   Inl e \<Rightarrow> Some (Err e) | Inr _ \<Rightarrow> in_final run)))"

section \<open>Guarantees\<close>

lemma fetch_same:
  assumes "\<And>hop v. hop \<le> max n (opt_max_redirects options) \<Longrightarrow> ensure_allowed options v = Ok () \<Longrightarrow> net hop v = net' hop v"
  shows "fetch options net cancelled join u n = fetch options net' cancelled join u n"
  using assms
proof (induction options net cancelled join u n rule: fetch.induct)
  case (1 options net cancelled join u n)
  show ?case
  proof (cases "ensure_allowed options u = Ok () \<and> \<not> cancelled n")
    case True
    then have same: "net' n u = net n u" using "1.prems" [of n u] by simp
    have rec: "fetch options net cancelled join v (n + 1) = fetch options net' cancelled join v (n + 1)"
      if "net n u = Answer (Inr r)" "is_redirection (rs_status r)" "n < opt_max_redirects options"
        "rs_location r = Location l" "join u l = Some v" for r l v
      using that True by (intro "1.IH") (auto intro!: "1.prems")
    show ?thesis
      using rec True by (subst (1 2) fetch.simps) (auto simp: same split: sent.split sum.split location.split option.split)
  next
    case False
    then show ?thesis by (subst (1 2) fetch.simps) (auto simp: ensure_allowed_def)
  qed
qed

lemma download_same:
  assumes "\<And>hop v. hop \<le> opt_max_redirects options \<Longrightarrow> ensure_allowed options v = Ok () \<Longrightarrow> dl_net dl hop v = net' hop v"
  shows "download options sha art (dl\<lparr>dl_net := net'\<rparr>) = download options sha art dl"
proof -
  have "fetch options (dl_net dl) (dl_cancelled dl) (dl_join dl) u 0 = fetch options net' (dl_cancelled dl) (dl_join dl) u 0" for u
    by (rule fetch_same) (simp add: assms)
  then show ?thesis
    by (cases dl) (simp only: download_def finish_download_def download_obs.select_convs download_obs.update_convs)
qed

lemma download_all_cong:
  "(\<And>k art. download options sha art (obs k) = download options sha art (obs' k)) \<Longrightarrow>
     download_all options sha parents obs n arts = download_all options sha parents obs' n arts"
  by (induction arts arbitrary: n) (auto split: sum.split option.split)

lemma install_stage_fields [simp]:
  "install_stage options env m (run\<lparr>in_promote := p\<rparr>) = install_stage options env m run"
  "install_stage options env m (run\<lparr>in_gate := g\<rparr>) = install_stage options env m run"
  "install_stage options env m (run\<lparr>in_record := r\<rparr>) = install_stage options env m run"
  by (cases run; simp only: install_stage_def install_run.select_convs install_run.update_convs)+

lemma install_stage_downloads:
  assumes "\<not> opt_offline options \<Longrightarrow> download_all options (fe_sha256 env) (in_parents run) obs 0 (mf_artifacts m) =
      download_all options (fe_sha256 env) (in_parents run) (in_downloads run) 0 (mf_artifacts m)"
  shows "install_stage options env m (run\<lparr>in_downloads := obs\<rparr>) = install_stage options env m run"
proof (cases "opt_offline options")
  case True
  then show ?thesis
    by (cases run) (simp only: install_stage_def install_run.select_convs install_run.update_convs if_True)
next
  case False
  with assms show ?thesis
    by (cases run) (simp only: install_stage_def install_run.select_convs install_run.update_convs simp_thms)
qed

lemma install_stage_ready:
  assumes "install_stage options env m run = Some (Ok None)"
  obtains ds where "\<not> opt_offline options" "\<not> in_cancelled_last run"
    "validate_install_size options m = Ok ()"
    "download_all options (fe_sha256 env) (in_parents run) (in_downloads run) 0 (mf_artifacts m) = Some (Ok ds)"
  using assms unfolding install_stage_def
  by (auto simp: result_simps split: sum.split_asm option.split_asm if_split_asm)

lemma download_all_nth:
  "download_all options sha parents obs n arts = Some (Ok ds) \<Longrightarrow>
     length ds = length arts \<and> (\<forall>i < length arts. download options sha (arts ! i) (obs (n + i)) = Some (Ok (ds ! i)))"
proof (induction arts arbitrary: n ds)
  case (Cons art arts)
  from Cons.prems obtain d es where d: "download options sha art (obs n) = Some (Ok d)"
    and es: "download_all options sha parents obs (Suc n) arts = Some (Ok es)" and "ds = d # es"
    by (auto split: sum.split_asm option.split_asm)
  with Cons.IH [OF es] show ?case by (auto simp: nth_Cons split: nat.split)
qed simp

lemma receive_body_bounded:
  "receive_body options expected received events = Some (Ok bs) \<Longrightarrow>
     length received \<le> min expected (opt_max_artifact_bytes options) \<Longrightarrow>
     length bs \<le> min expected (opt_max_artifact_bytes options)"
proof (induction events arbitrary: received)
  case (Cons ev events)
  then show ?case
    by (cases ev)
       (auto simp: checked_add_def result_simps split: if_split_asm option.split_asm sum.split_asm
         intro: Cons.IH [of "received @ _"])
qed simp

text \<open>The body loop ends with the first event that is not a chunk.\<close>

lemma receive_body_returns:
  "\<exists>ev \<in> set events. \<not> (\<exists>d w. ev = Chunk d w) \<Longrightarrow> \<exists>res. receive_body options expected received events = Some res"
  by (induction events arbitrary: received) (auto split: body_event.split option.split)

lemma download_Ok:
  assumes "download options sha art dl = Some (Ok bs)"
  shows "length bs = art_size art \<and> length bs \<le> opt_max_artifact_bytes options \<and> lower_hex (sha bs) = art_sha256 art \<and>
    receive_body options (art_size art) [] (dl_body dl) = Some (Ok bs)"
proof -
  have body: "receive_body options (art_size art) [] (dl_body dl) = Some (Ok bs)"
    and "length bs = art_size art \<and> lower_hex (sha bs) = art_sha256 art"
    using assms by (auto simp: download_def finish_download_def result_simps split: sum.split_asm option.split_asm)
  moreover have "length bs \<le> opt_max_artifact_bytes options"
    using receive_body_bounded [OF body] by simp
  ultimately show ?thesis by simp
qed

lemma sum_artifact_sizes_Ok:
  "sum_artifact_sizes limit acc arts = Ok t \<longleftrightarrow>
     list_all (\<lambda>art. art_size art \<le> limit) arts \<and> t = acc + sum_list (map art_size arts) \<and> (arts = [] \<or> t < word_limit)"
proof (induction arts arbitrary: acc)
  case (Cons art arts)
  then show ?case
  proof (cases "acc + art_size art < word_limit")
    case True
    then show ?thesis
      by (simp add: checked_add_def Cons.IH add.assoc) auto
  next
    case False
    then show ?thesis by (auto simp: checked_add_def)
  qed
qed auto

text \<open>
  The size policy is exact: a manifest is accepted exactly when it has no more artifacts than allowed,
  none larger than the limit per artifact, and their sum fits in 64 bits and in the total limit.
\<close>

theorem install_size_policy_is_exact:
  "validate_install_size options m = Ok () \<longleftrightarrow>
     length (mf_artifacts m) \<le> opt_max_artifacts options \<and>
     list_all (\<lambda>art. art_size art \<le> opt_max_artifact_bytes options) (mf_artifacts m) \<and>
     sum_list (map art_size (mf_artifacts m)) < word_limit \<and>
     sum_list (map art_size (mf_artifacts m)) \<le> opt_max_total_artifact_bytes options"
proof -
  let ?sum = "sum_artifact_sizes (opt_max_artifact_bytes options) 0 (mf_artifacts m)"
  have "(\<exists>t. ?sum = Ok t \<and> t \<le> opt_max_total_artifact_bytes options) \<longleftrightarrow>
      list_all (\<lambda>art. art_size art \<le> opt_max_artifact_bytes options) (mf_artifacts m) \<and>
      sum_list (map art_size (mf_artifacts m)) < word_limit \<and>
      sum_list (map art_size (mf_artifacts m)) \<le> opt_max_total_artifact_bytes options"
    by (cases "mf_artifacts m = []") (auto simp: sum_artifact_sizes_Ok word_limit_def simp del: sum_artifact_sizes.simps)
  then show ?thesis
    by (cases ?sum) (auto simp: validate_install_size_def reject_if_def split: if_split_asm)
qed

text \<open>
  C29. The network policy confines the installation: its outcome depends on no answer to a request other
  than one for an allowed origin, after at most the configured number of redirects, and on none at all when it is
  offline.
\<close>

theorem install_contacts_only_allowed_origins:
  assumes "\<forall>n hop u. \<not> opt_offline options \<and> hop \<le> opt_max_redirects options \<and> ensure_allowed options u = Ok () \<longrightarrow>
      dl_net (in_downloads run n) hop u = net' n hop u"
  shows "install_transaction options env m (run\<lparr>in_downloads := \<lambda>n. (in_downloads run n)\<lparr>dl_net := net' n\<rparr>\<rparr>) =
    install_transaction options env m run"
proof -
  have "install_stage options env m (run\<lparr>in_downloads := \<lambda>n. (in_downloads run n)\<lparr>dl_net := net' n\<rparr>\<rparr>) =
      install_stage options env m run"
    using assms by (intro install_stage_downloads download_all_cong download_same) auto
  then show ?thesis
    by (simp add: install_transaction_def split: option.split sum.split prod.split)
qed

text \<open>
  C28. An installation promotes only authenticated bytes: when its outcome depends on the promotion, it
  was not offline, the commit gate was open and has been crossed, and every artifact was downloaded in full, within the
  limit per artifact, with the declared size and digest.
\<close>

theorem install_promotes_only_authenticated_bytes:
  assumes "install_transaction options env m (run\<lparr>in_promote := p\<rparr>) \<noteq> install_transaction options env m (run\<lparr>in_promote := q\<rparr>)"
    and "i < length (mf_artifacts m)"
  shows "\<not> opt_offline options \<and> in_gate run = Commit_Open \<and>
    fst (install_transaction options env m run) = Commit_Crossed \<and>
    (\<exists>bs. receive_body options (art_size (mf_artifacts m ! i)) [] (dl_body (in_downloads run i)) = Some (Ok bs) \<and>
       length bs = art_size (mf_artifacts m ! i) \<and> length bs \<le> opt_max_artifact_bytes options \<and>
       lower_hex (fe_sha256 env bs) = art_sha256 (mf_artifacts m ! i))"
proof -
  have staged: "install_stage options env m run = Some (Ok None)"
    and gate: "in_gate run = Commit_Open"
    using assms(1)
    by (auto simp: install_transaction_def begin_commit_def split: option.split_asm sum.split_asm commit_gate.split_asm)
  from staged obtain ds where online: "\<not> opt_offline options"
    and ds: "download_all options (fe_sha256 env) (in_parents run) (in_downloads run) 0 (mf_artifacts m) = Some (Ok ds)"
    by (rule install_stage_ready)
  have "download options (fe_sha256 env) (mf_artifacts m ! i) (in_downloads run i) = Some (Ok (ds ! i))"
    using download_all_nth [OF ds] assms(2) by simp
  from download_Ok [OF this] show ?thesis
    using online staged gate by (auto simp: install_transaction_def begin_commit_def)
qed

text \<open>
  Cancellation and commit have one winner: after a cancellation that was answered with "cancelled
  before commit" the installation leaves the gate cancelled, and its outcome depends neither on the identity record nor
  on the promotion.
\<close>

theorem cancelled_install_never_promotes:
  assumes "request_cancel gate = (gate', CancelledBeforeCommit)"
  shows "fst (install_transaction options env m (run\<lparr>in_gate := gate'\<rparr>)) = Commit_Cancelled \<and>
    install_transaction options env m (run\<lparr>in_gate := gate', in_record := r, in_promote := p\<rparr>) =
    install_transaction options env m (run\<lparr>in_gate := gate'\<rparr>)"
proof -
  have "gate' = Commit_Cancelled"
    using assms by (auto simp: request_cancel_def split: commit_gate.split_asm)
  then show ?thesis
    by (auto simp: install_transaction_def begin_commit_def split: option.split sum.split)
qed

text \<open>
  Waiting for the installation lock ends: once an attempt is made past the deadline, and none
  is left undecided before, the loop has answered; the answer "busy" is given only after the deadline.
\<close>

theorem install_lock_ends:
  assumes "t \<in> set turns" and "lt_late t"
  shows "\<exists>res. install_lock_loop turns = Some res \<and> (res = Err ME_Busy \<longrightarrow> list_ex lt_late turns)"
  using assms
proof (induction turns)
  case (Cons u turns)
  then show ?case by (cases "attempt_result (lt_attempt u)") auto
qed simp

section \<open>Instances\<close>

text \<open>An installation of two artifacts, each reached through one redirect, that is promoted.\<close>

definition demo_origin :: "string \<Rightarrow> install_url" where
  "demo_origin h = url.extend demo_url \<lparr>iu_port = Some 443, iu_text = lit h, iu_origin_text = lit h\<rparr>\<lparr>url_host := Some (lit h)\<rparr>"

definition demo_options :: install_options where
  "demo_options = \<lparr>opt_offline = False, opt_allowed_origins = [demo_origin ''a'', demo_origin ''b''], opt_max_redirects = 3,
     opt_max_artifact_bytes = 100, opt_max_artifacts = 4, opt_max_total_artifact_bytes = 200\<rparr>"

definition demo_net :: "nat \<Rightarrow> install_url \<Rightarrow> (http_error + response) sent" where
  "demo_net hop u = Answer (Ok
     (if hop = 0 then \<lparr>rs_status = 302, rs_location = Location (lit ''b''), rs_content_length = None\<rparr>
      else \<lparr>rs_status = 200, rs_location = No_Location, rs_content_length = None\<rparr>))"

definition demo_download :: download_obs where
  "demo_download = \<lparr>dl_url = Some (demo_origin ''a''), dl_net = demo_net, dl_cancelled = (\<lambda>_. False),
     dl_join = (\<lambda>_ l. Some (demo_origin ''b'')), dl_create = Ok (),
     dl_body = [Chunk [1, 2, 3] None, Chunk [4, 5, 6, 7] None, Body_End], dl_flush = Ok (), dl_sync = Ok (),
     dl_final = Ok (demo_meta True), dl_contained = Ok ()\<rparr>"

definition demo_install :: install_run where
  "demo_install = \<lparr>in_status = Some (Ok Missing), in_cancelled = False, in_lock = Some (Ok ()), in_reconciled = Ok (),
     in_status_locked = Some (Ok Missing), in_staging = Ok (), in_parents = (\<lambda>_. Ok ()), in_downloads = (\<lambda>_. demo_download),
     in_cancelled_last = False, in_gate = Commit_Open,
     in_record = \<lparr>ro_json = Ok [1, 2, 3, 4, 5, 6, 7], ro_create = Ok (), ro_write = Ok (), ro_flush = Ok (), ro_sync = Ok (),
       ro_meta = Ok (demo_meta True), ro_contained = Ok ()\<rparr>,
     in_promote = Ok (), in_final = Some (Ok Loadable)\<rparr>"

lemma demo_fetch: "fetch demo_options demo_net (\<lambda>_. False) (\<lambda>_ l. Some (demo_origin ''b'')) (demo_origin ''a'') 0 =
    Ok \<lparr>rs_status = 200, rs_location = No_Location, rs_content_length = None\<rparr>"
proof -
  have "ensure_allowed demo_options (demo_origin h) = Ok ()" if "h = ''a'' \<or> h = ''b''" for h
    using that by (auto simp: ensure_allowed_def demo_options_def origin_matches_def)
  then show ?thesis
    by (subst fetch.simps, simp add: demo_net_def is_redirection_def)
       (subst fetch.simps, simp add: demo_net_def is_redirection_def demo_options_def)
qed

lemma demo_downloaded:
  assumes "art \<in> set (mf_artifacts demo_manifest)"
  shows "download demo_options (\<lambda>_. replicate 32 170) art demo_download = Some (Ok [1, 2, 3, 4, 5, 6, 7])"
proof -
  have a: "art_size art = 7" "art_sha256 art = replicate 64 97"
    using assms by (auto simp: demo_manifest_def demo_artifact_def)
  have b: "receive_body demo_options 7 [] [Chunk [1, 2, 3] None, Chunk [4, 5, 6, 7] None, Body_End] = Some (Ok [1, 2, 3, 4, 5, 6, 7])"
    by (simp add: checked_add_def word_limit_def demo_options_def)
  show ?thesis
    by (simp add: download_def demo_download_def demo_fetch a b validate_content_length_def finish_download_def demo_meta_def demo_digest
        del: receive_body.simps)
qed

lemma demo_all_downloaded:
  "set arts \<subseteq> set (mf_artifacts demo_manifest) \<Longrightarrow>
     \<exists>ds. download_all demo_options (\<lambda>_. replicate 32 170) (\<lambda>_. Ok ()) (\<lambda>_. demo_download) n arts = Some (Ok ds)"
proof (induction arts arbitrary: n)
  case (Cons art arts)
  from Cons.IH [of "Suc n"] Cons.prems obtain ds
    where "download_all demo_options (\<lambda>_. replicate 32 170) (\<lambda>_. Ok ()) (\<lambda>_. demo_download) (Suc n) arts = Some (Ok ds)"
    by auto
  with Cons.prems show ?case by (simp add: demo_downloaded)
qed simp

lemma demo_install_staged: "install_stage demo_options demo_reads demo_manifest demo_install = Some (Ok None)"
proof -
  have "is_ok (staging_dir (fingerprints demo_reads) demo_manifest)" "is_ok (lock_file (fingerprints demo_reads) demo_manifest)"
    using demo_key by (simp_all add: staging_dir_def lock_file_def)
  moreover have "fe_parse_url demo_reads = (\<lambda>_. Some demo_url)" "fe_sha256 demo_reads = (\<lambda>_. replicate 32 170)"
    by (simp_all add: demo_reads_def)
  moreover have "validate_install_size demo_options demo_manifest = Ok ()"
    by (simp add: validate_install_size_def demo_options_def demo_manifest_def demo_artifact_def checked_add_def word_limit_def)
  moreover obtain ds where "download_all demo_options (\<lambda>_. replicate 32 170) (\<lambda>_. Ok ()) (\<lambda>_. demo_download) 0 (mf_artifacts demo_manifest) = Some (Ok ds)"
    using demo_all_downloaded by blast
  moreover have "\<not> opt_offline demo_options" by (simp add: demo_options_def)
  ultimately show ?thesis
    using demo_manifest_valid by (auto simp: install_stage_def demo_install_def is_ok_iff already_installed_def)
qed

theorem install_contacts_only_allowed_origins_witness:
  "install_transaction demo_options demo_reads demo_manifest
     (demo_install\<lparr>in_downloads := \<lambda>n. demo_download
       \<lparr>dl_net := \<lambda>hop u. if ensure_allowed demo_options u = Ok () then demo_net hop u else Cancelled_While\<rparr>\<rparr>) =
   install_transaction demo_options demo_reads demo_manifest demo_install"
proof -
  have d: "in_downloads demo_install n = demo_download" "dl_net demo_download = demo_net" for n
    by (simp_all add: demo_install_def demo_download_def)
  show ?thesis
    using install_contacts_only_allowed_origins [where options = demo_options and run = demo_install and env = demo_reads
        and m = demo_manifest and net' = "\<lambda>n hop u. if ensure_allowed demo_options u = Ok () then demo_net hop u else Cancelled_While"]
    by (simp add: d)
qed

theorem install_promotes_only_authenticated_bytes_witness:
  "\<exists>bs. receive_body demo_options 7 [] (dl_body demo_download) = Some (Ok bs) \<and> length bs = 7"
proof -
  have "install_transaction demo_options demo_reads demo_manifest (demo_install\<lparr>in_promote := Ok ()\<rparr>) \<noteq>
      install_transaction demo_options demo_reads demo_manifest (demo_install\<lparr>in_promote := Err ME_Busy\<rparr>)"
    using demo_install_staged
    by (simp add: install_transaction_def begin_commit_def)
       (simp add: demo_install_def stage_record_def begin_commit_def demo_meta_def)
  from install_promotes_only_authenticated_bytes [OF this, of 0] show ?thesis
    by (auto simp: demo_manifest_def demo_artifact_def demo_install_def)
qed

theorem cancelled_install_never_promotes_witness:
  "fst (install_transaction demo_options demo_reads demo_manifest (demo_install\<lparr>in_gate := Commit_Cancelled\<rparr>)) = Commit_Cancelled"
  using cancelled_install_never_promotes [where gate = Commit_Open and gate' = Commit_Cancelled and run = demo_install
      and options = demo_options and env = demo_reads and m = demo_manifest and r = "in_record demo_install" and p = "Ok ()"]
  by (simp add: request_cancel_def)

theorem install_lock_ends_witness:
  "\<exists>res. install_lock_loop [\<lparr>lt_cancelled = False, lt_attempt = Inr (Inr ()), lt_late = True\<rparr>] = Some res"
  using install_lock_ends [where t = "\<lparr>lt_cancelled = False, lt_attempt = Inr (Inr ()), lt_late = True\<rparr>"
      and turns = "[\<lparr>lt_cancelled = False, lt_attempt = Inr (Inr ()), lt_late = True\<rparr>]"]
  by auto

end
