(* ===== verification/Onnx_Graph.thy ===== *)
theory Onnx_Graph
  imports Execution Store_Read
begin

text \<open>
  What the ONNX adapter (\<^verbatim>\<open>impossible-embedding-onnx/src/lib.rs\<close>) checks of a model file before it runs it:
  the contract of the manifest, the scan of the decoded graph for tensors kept in other files, and the
  inputs and outputs the session declares. Decoding protobuf is a parameter; the probe types are the
  fields the code declares.
\<close>

section \<open>The contract of the manifest\<close>

record onnx_contract =
  oc_inputs :: onnx_input_names
  oc_output :: rstr
  oc_pad_token_id :: nat
  oc_normalize :: bool

definition contract_of_manifest :: "manifest \<Rightarrow> engine_failure + rstr \<times> rstr \<times> onnx_contract" where
  "contract_of_manifest m =
     (case mf_runtime m of
        CatalogOnly \<Rightarrow> Err (failure ModelUnavailable)
      | Onnx model_file tokenizer_file inputs out pad l2 \<Rightarrow>
          Ok (model_file, tokenizer_file,
            \<lparr>oc_inputs = inputs, oc_output = out, oc_pad_token_id = pad, oc_normalize = l2\<rparr>))"

section \<open>Tensors in other files\<close>

record tensor_probe =
  tp_external_data :: "(rstr option \<times> rstr option) list"
  tp_data_location :: "int option"

record sparse_probe =
  sp_values :: "tensor_probe option"
  sp_indices :: "tensor_probe option"

text \<open>
  A graph: nodes (each the list of its attributes), initializers and sparse initializers. An attribute:
  a tensor, a graph, tensors, graphs, a sparse tensor and sparse tensors.
\<close>

datatype graph_probe =
    Graph (gr_nodes: "attribute_probe list list") (gr_initializers: "tensor_probe list") (gr_sparse: "sparse_probe list")
and attribute_probe =
    Attribute (at_tensor: "tensor_probe option") (at_graph: "graph_probe option") (at_tensors: "tensor_probe list")
      (at_graphs: "graph_probe list") (at_sparse: "sparse_probe option") (at_sparses: "sparse_probe list")

record training_probe =
  tr_initialization :: "graph_probe option"
  tr_algorithm :: "graph_probe option"

record function_probe =
  fn_nodes :: "attribute_probe list list"
  fn_attributes :: "attribute_probe list"

record model_probe =
  mp_graph :: "graph_probe option"
  mp_training :: "training_probe list"
  mp_functions :: "function_probe list"

definition option_holds :: "('a \<Rightarrow> bool) \<Rightarrow> 'a option \<Rightarrow> bool" where
  "option_holds p x = (case x of None \<Rightarrow> False | Some y \<Rightarrow> p y)"

definition option_list :: "'a option \<Rightarrow> 'a list" where
  "option_list x = (case x of None \<Rightarrow> [] | Some y \<Rightarrow> [y])"

definition tensor_uses_external_data :: "tensor_probe \<Rightarrow> bool" where
  "tensor_uses_external_data t \<longleftrightarrow> tp_data_location t = Some 1 \<or> tp_external_data t \<noteq> []"

definition tensors_use_external_data :: "tensor_probe list \<Rightarrow> bool" where
  "tensors_use_external_data ts = list_ex tensor_uses_external_data ts"

definition sparse_uses_external_data :: "sparse_probe \<Rightarrow> bool" where
  "sparse_uses_external_data s \<longleftrightarrow>
     option_holds tensor_uses_external_data (sp_values s) \<or> option_holds tensor_uses_external_data (sp_indices s)"

text \<open>
  The scans stop at the first hit, as \<^verbatim>\<open>any\<close> does, and push the graphs they pass on the stack: the head of
  the list is its top.
\<close>

fun attributes_use_external_data :: "attribute_probe list \<Rightarrow> graph_probe list \<Rightarrow> bool \<times> graph_probe list" where
  "attributes_use_external_data [] graphs = (False, graphs)"
| "attributes_use_external_data (a # as) graphs =
     (let graphs' = rev (at_graphs a) @ option_list (at_graph a) @ graphs in
      if option_holds tensor_uses_external_data (at_tensor a) \<or> tensors_use_external_data (at_tensors a)
         \<or> option_holds sparse_uses_external_data (at_sparse a) \<or> list_ex sparse_uses_external_data (at_sparses a)
      then (True, graphs')
      else attributes_use_external_data as graphs')"

fun nodes_use_external_data :: "attribute_probe list list \<Rightarrow> graph_probe list \<Rightarrow> bool \<times> graph_probe list" where
  "nodes_use_external_data [] graphs = (False, graphs)"
| "nodes_use_external_data (n # ns) graphs =
     (case attributes_use_external_data n graphs of
        (True, graphs') \<Rightarrow> (True, graphs')
      | (False, graphs') \<Rightarrow> nodes_use_external_data ns graphs')"

fun scan_functions :: "function_probe list \<Rightarrow> graph_probe list \<Rightarrow> bool \<times> graph_probe list" where
  "scan_functions [] graphs = (False, graphs)"
| "scan_functions (f # fs) graphs =
     (case nodes_use_external_data (fn_nodes f) graphs of
        (True, graphs') \<Rightarrow> (True, graphs')
      | (False, graphs') \<Rightarrow>
         (case attributes_use_external_data (fn_attributes f) graphs' of
            (True, graphs'') \<Rightarrow> (True, graphs'')
          | (False, graphs'') \<Rightarrow> scan_functions fs graphs''))"

text \<open>The work left: every graph of the stack with all the graphs below it.\<close>

primrec graph_weight :: "graph_probe \<Rightarrow> nat" and attribute_weight :: "attribute_probe \<Rightarrow> nat" where
  "graph_weight (Graph nodes inits sparse) = Suc (sum_list (map sum_list (map (map attribute_weight) nodes)))"
| "attribute_weight (Attribute t g ts gs s ss) =
     (case map_option graph_weight g of None \<Rightarrow> 0 | Some n \<Rightarrow> n) + sum_list (map graph_weight gs)"

definition stack_weight :: "graph_probe list \<Rightarrow> nat" where
  "stack_weight gs = sum_list (map graph_weight gs)"

lemma stack_weight_simps [simp]:
  "stack_weight [] = 0" "stack_weight (g # gs) = graph_weight g + stack_weight gs"
  "stack_weight (gs @ hs) = stack_weight gs + stack_weight hs" "stack_weight (rev gs) = stack_weight gs"
  by (simp_all add: stack_weight_def sum_list_rev flip: rev_map)

lemma attribute_weight_stack:
  "attribute_weight a = stack_weight (rev (at_graphs a) @ option_list (at_graph a))"
  by (cases a) (simp add: stack_weight_def option_list_def sum_list_rev rev_map [symmetric] split: option.split)

lemma attributes_weight:
  "stack_weight (snd (attributes_use_external_data as graphs)) \<le> sum_list (map attribute_weight as) + stack_weight graphs"
proof (induction as arbitrary: graphs)
  case (Cons a as)
  let ?new = "rev (at_graphs a) @ option_list (at_graph a) @ graphs"
  have "stack_weight ?new = attribute_weight a + stack_weight graphs" by (simp add: attribute_weight_stack)
  then show ?case using Cons.IH [of ?new] by (simp add: Let_def)
qed simp

lemma nodes_weight:
  "stack_weight (snd (nodes_use_external_data ns graphs)) \<le>
     sum_list (map (\<lambda>n. sum_list (map attribute_weight n)) ns) + stack_weight graphs"
proof (induction ns arbitrary: graphs)
  case (Cons n ns)
  obtain b graphs' where r: "attributes_use_external_data n graphs = (b, graphs')" by fastforce
  then show ?case
    using attributes_weight [of n graphs] Cons.IH [of graphs'] by (cases b) auto
qed simp

function scan_graphs :: "graph_probe list \<Rightarrow> bool" where
  "scan_graphs [] = False"
| "scan_graphs (g # graphs) =
     (if tensors_use_external_data (gr_initializers g) \<or> list_ex sparse_uses_external_data (gr_sparse g) then True
      else (case nodes_use_external_data (gr_nodes g) graphs of
          (True, _) \<Rightarrow> True
        | (False, graphs') \<Rightarrow> scan_graphs graphs'))"
  by pat_completeness auto

termination scan_graphs
proof (relation "measure stack_weight", goal_cases)
  case (2 g graphs x graphs')
  have "stack_weight graphs' \<le> sum_list (map (\<lambda>n. sum_list (map attribute_weight n)) (gr_nodes g)) + stack_weight graphs"
    using nodes_weight [of "gr_nodes g" graphs] 2 by (metis snd_conv)
  moreover have "graph_weight g = Suc (sum_list (map (\<lambda>n. sum_list (map attribute_weight n)) (gr_nodes g)))"
    by (cases g) (simp add: comp_def)
  ultimately show ?case by simp
qed simp

definition reject_external_data_graph :: "(bytes \<Rightarrow> rstr + model_probe) \<Rightarrow> bytes \<Rightarrow> engine_failure + unit" where
  "reject_external_data_graph decode data =
     (case decode data of
        Inl e \<Rightarrow> Err (with_source ModelUnavailable (lit ''ONNX inspection failed: '' @ e))
      | Inr m \<Rightarrow>
         (let start = option_list (mp_graph m);
              graphs = fold (\<lambda>t gs. option_list (tr_algorithm t) @ option_list (tr_initialization t) @ gs) (mp_training m) start in
          case scan_functions (mp_functions m) graphs of
            (True, _) \<Rightarrow> Err (failure InvalidRequest)
          | (False, graphs') \<Rightarrow> if scan_graphs graphs' then Err (failure InvalidRequest) else Ok ()))"

section \<open>The contract of the session\<close>

datatype element_type = Int64 | Float32 | Other_Element

text \<open>The declared type of an input or output; a negative dimension is free.\<close>

datatype value_type = Tensor element_type "int list" | Other_Value

record outlet =
  ou_name :: rstr
  ou_type :: value_type

definition int_matrix :: "value_type \<Rightarrow> bool" where
  "int_matrix ty = (case ty of Tensor e shape \<Rightarrow> e = Int64 \<and> length shape = 2 | Other_Value \<Rightarrow> False)"

definition float_output :: "nat \<Rightarrow> value_type \<Rightarrow> bool" where
  "float_output native ty =
     (case ty of
        Tensor e shape \<Rightarrow> e = Float32 \<and> (length shape = 2 \<or> length shape = 3)
          \<and> shape \<noteq> [] \<and> (last shape < 0 \<or> last shape = int native)
      | Other_Value \<Rightarrow> False)"

definition required_inputs :: "onnx_contract \<Rightarrow> rstr list" where
  "required_inputs c =
     flatten_options [Some (in_input_ids (oc_inputs c)), in_attention_mask (oc_inputs c), in_token_type_ids (oc_inputs c)]"

definition validate_graph_contract ::
  "onnx_contract \<Rightarrow> outlet list \<Rightarrow> outlet list \<Rightarrow> nat \<Rightarrow> engine_failure + unit" where
  "validate_graph_contract c inputs outputs native =
     (let available = set (map ou_name inputs);
          required = set (required_inputs c);
          has_exact_inputs = (card available = length inputs \<and> card required = length inputs \<and> available = required);
          valid_inputs = (has_exact_inputs \<and> list_all (\<lambda>i. int_matrix (ou_type i)) inputs);
          output_count = length (filter (\<lambda>out. ou_name out = oc_output c) outputs);
          valid_output = (output_count = 1 \<and>
            option_holds (\<lambda>out. float_output native (ou_type out)) (find (\<lambda>out. ou_name out = oc_output c) outputs))
      in reject_if (\<not> valid_inputs \<or> \<not> valid_output) (failure InvalidRequest))"

section \<open>The scan finds every tensor\<close>

primrec graph_external :: "graph_probe \<Rightarrow> bool" and attribute_external :: "attribute_probe \<Rightarrow> bool" where
  "graph_external (Graph nodes inits sparse) \<longleftrightarrow>
     list_ex tensor_uses_external_data inits \<or> list_ex sparse_uses_external_data sparse
     \<or> list_ex id (map (list_ex id) (map (map attribute_external) nodes))"
| "attribute_external (Attribute t g ts gs s ss) \<longleftrightarrow>
     option_holds tensor_uses_external_data t \<or> list_ex tensor_uses_external_data ts
     \<or> option_holds sparse_uses_external_data s \<or> list_ex sparse_uses_external_data ss
     \<or> option_holds id (map_option graph_external g) \<or> list_ex id (map graph_external gs)"

definition model_external :: "model_probe \<Rightarrow> bool" where
  "model_external m \<longleftrightarrow> option_holds graph_external (mp_graph m)
     \<or> list_ex (\<lambda>t. option_holds graph_external (tr_initialization t) \<or> option_holds graph_external (tr_algorithm t)) (mp_training m)
     \<or> list_ex (\<lambda>f. list_ex (list_ex attribute_external) (fn_nodes f) \<or> list_ex attribute_external (fn_attributes f)) (mp_functions m)"

lemma list_ex_id_map [simp]: "list_ex id (map p xs) = list_ex p xs"
  by (simp add: list_ex_iff)

lemma list_ex_map' [simp]: "list_ex p (map f xs) = list_ex (\<lambda>x. p (f x)) xs"
  by (simp add: list_ex_iff)

lemma list_ex_rev [simp]: "list_ex p (rev xs) = list_ex p xs"
  by (simp add: list_ex_iff)

lemma option_list_ex [simp]: "list_ex p (option_list x) = option_holds p x"
  by (simp add: option_list_def option_holds_def split: option.split)

lemma option_holds_map [simp]: "option_holds id (map_option p x) = option_holds p x"
  by (cases x) (simp_all add: option_holds_def)

lemma attribute_external_alt:
  "attribute_external a \<longleftrightarrow>
     (option_holds tensor_uses_external_data (at_tensor a) \<or> tensors_use_external_data (at_tensors a)
      \<or> option_holds sparse_uses_external_data (at_sparse a) \<or> list_ex sparse_uses_external_data (at_sparses a))
     \<or> list_ex graph_external (rev (at_graphs a) @ option_list (at_graph a))"
  by (cases a) (auto simp: tensors_use_external_data_def)

lemma graph_external_alt:
  "graph_external g \<longleftrightarrow> tensors_use_external_data (gr_initializers g) \<or> list_ex sparse_uses_external_data (gr_sparse g)
     \<or> list_ex (list_ex attribute_external) (gr_nodes g)"
  by (cases g) (simp add: tensors_use_external_data_def)

text \<open>What a scan reports or leaves on the stack is external exactly when what it scanned or found there is.\<close>

lemma attributes_scan:
  "attributes_use_external_data as graphs = (found, graphs') \<Longrightarrow>
     (found \<or> list_ex graph_external graphs') = (list_ex attribute_external as \<or> list_ex graph_external graphs)"
proof (induction as arbitrary: graphs)
  case (Cons a as)
  from Cons.prems Cons.IH [of "rev (at_graphs a) @ option_list (at_graph a) @ graphs"] show ?case
    by (auto simp: Let_def attribute_external_alt split: if_splits)
qed simp

lemma nodes_scan:
  "nodes_use_external_data ns graphs = (found, graphs') \<Longrightarrow>
     (found \<or> list_ex graph_external graphs') = (list_ex (list_ex attribute_external) ns \<or> list_ex graph_external graphs)"
proof (induction ns arbitrary: graphs)
  case (Cons n ns)
  obtain b gs where r: "attributes_use_external_data n graphs = (b, gs)" by fastforce
  from Cons.prems Cons.IH [of gs] attributes_scan [OF r] show ?case
    by (cases b) (auto simp: r)
qed simp

lemma functions_scan:
  "scan_functions fs graphs = (found, graphs') \<Longrightarrow>
     (found \<or> list_ex graph_external graphs') =
     (list_ex (\<lambda>f. list_ex (list_ex attribute_external) (fn_nodes f) \<or> list_ex attribute_external (fn_attributes f)) fs
      \<or> list_ex graph_external graphs)"
proof (induction fs arbitrary: graphs)
  case (Cons f fs)
  obtain b gs where r: "nodes_use_external_data (fn_nodes f) graphs = (b, gs)" by fastforce
  obtain b' gs' where r': "attributes_use_external_data (fn_attributes f) gs = (b', gs')" by fastforce
  from Cons.prems Cons.IH [of gs'] nodes_scan [OF r] attributes_scan [OF r'] show ?case
    by (cases b; cases b') (auto simp: r r')
qed simp

lemma graphs_scan: "scan_graphs gs = list_ex graph_external gs"
proof (induction gs rule: scan_graphs.induct)
  case (2 g graphs)
  obtain b gs where r: "nodes_use_external_data (gr_nodes g) graphs = (b, gs)" by fastforce
  from 2 nodes_scan [OF r] show ?case
    by (cases b) (auto simp: r graph_external_alt [of g])
qed simp

lemma training_stack:
  "list_ex p (fold (\<lambda>t gs. option_list (tr_algorithm t) @ option_list (tr_initialization t) @ gs) ts start) \<longleftrightarrow>
     list_ex (\<lambda>t. option_holds p (tr_initialization t) \<or> option_holds p (tr_algorithm t)) ts \<or> list_ex p start"
  by (induction ts arbitrary: start) auto

lemma reject_external_iff:
  assumes "decode data = Ok m"
  shows "reject_external_data_graph decode data = (if model_external m then Err (failure InvalidRequest) else Ok ())"
proof -
  let ?start = "fold (\<lambda>t gs. option_list (tr_algorithm t) @ option_list (tr_initialization t) @ gs) (mp_training m) (option_list (mp_graph m))"
  obtain b gs where r: "scan_functions (mp_functions m) ?start = (b, gs)" by fastforce
  have "(b \<or> scan_graphs gs) = model_external m"
    using functions_scan [OF r] by (auto simp: graphs_scan training_stack model_external_def)
  then show ?thesis
    by (cases b) (auto simp: reject_external_data_graph_def assms r Let_def)
qed

text \<open>
  C37. No tensor kept in another file escapes the scan, however deep it hides. The worklist over graphs
  always ends, and it rejects a decoded model exactly when some tensor anywhere in it (an initializer, a
  sparse initializer, an attribute of a node, in the main graph, the training graphs, the functions or
  any graph nested below them) refers to external data.
\<close>

theorem external_data_scan_is_complete:
  assumes "decode data = Ok m"
  shows "reject_external_data_graph decode data = (if model_external m then Err (failure InvalidRequest) else Ok ())"
  using assms by (rule reject_external_iff)

theorem external_data_scan_is_complete_witness:
  "reject_external_data_graph (\<lambda>_. Ok \<lparr>mp_graph = Some (Graph [[Attribute None (Some (Graph [] [\<lparr>tp_external_data = [], tp_data_location = Some 1\<rparr>] []))
       [] [] None []]] [] []), mp_training = [], mp_functions = []\<rparr>) [] = Err (failure InvalidRequest)"
  by (subst external_data_scan_is_complete [OF refl])
    (simp add: model_external_def option_holds_def tensor_uses_external_data_def)

end
