(* ===== verification/Float32.thy ===== *)
theory Float32
  imports Batch
begin

text \<open>
  The \<^verbatim>\<open>f32\<close> arithmetic the ONNX adapter uses, on bit patterns: addition, multiplication, division and
  square root of IEEE 754 binary32 with rounding to nearest, ties to even. A finite magnitude is an
  integer number of units \<open>2 ^ -149\<close>, so that the exact result of an operation is a fraction of integers
  and one rounding function serves all of them. NaN results carry the canonical payload.
\<close>

section \<open>Patterns\<close>

definition f32_inf :: nat where "f32_inf = 255 * 2 ^ 23"

definition f32_sign :: "f32 \<Rightarrow> bool" where
  "f32_sign x \<longleftrightarrow> 2 ^ 31 \<le> unat x"

definition f32_mag :: "f32 \<Rightarrow> nat" where
  "f32_mag x = unat x mod 2 ^ 31"

definition f32_make :: "bool \<Rightarrow> nat \<Rightarrow> f32" where
  "f32_make sign mag = of_nat ((if sign then 2 ^ 31 else 0) + mag)"

definition f32_nan :: f32 where "f32_nan = f32_make False (f32_inf + 2 ^ 22)"
definition f32_zero :: f32 where "f32_zero = f32_make False 0"
definition f32_one :: f32 where "f32_one = f32_make False (127 * 2 ^ 23)"
definition f32_epsilon :: f32 where "f32_epsilon = f32_make False (104 * 2 ^ 23)"

definition f32_is_nan :: "f32 \<Rightarrow> bool" where
  "f32_is_nan x \<longleftrightarrow> f32_inf < f32_mag x"

definition f32_is_inf :: "f32 \<Rightarrow> bool" where
  "f32_is_inf x \<longleftrightarrow> f32_mag x = f32_inf"

text \<open>The magnitude in units of \<open>2 ^ -149\<close>.\<close>

definition f32_units :: "nat \<Rightarrow> nat" where
  "f32_units mag = (if mag < 2 ^ 23 then mag else (2 ^ 23 + mag mod 2 ^ 23) * 2 ^ (mag div 2 ^ 23 - 1))"

definition f32_value :: "f32 \<Rightarrow> int" where
  "f32_value x = (if f32_sign x then - 1 else 1) * int (f32_units (f32_mag x))"

section \<open>Rounding\<close>

fun bit_len :: "nat \<Rightarrow> nat" where
  "bit_len n = (if n = 0 then 0 else Suc (bit_len (n div 2)))"

declare bit_len.simps [simp del]

text \<open>The quotient to the nearest integer, ties to even.\<close>

definition round_even :: "nat \<Rightarrow> nat \<Rightarrow> nat" where
  "round_even p q =
     (let d = p div q; r = p mod q in if q < 2 * r \<or> (2 * r = q \<and> odd d) then Suc d else d)"

text \<open>
  The magnitude nearest to \<open>p / q\<close> units. Of the integer part the leading 24 bits are kept; a carry out of
  the significand moves to the next exponent by itself.
\<close>

definition round_units :: "nat \<Rightarrow> nat \<Rightarrow> nat" where
  "round_units p q =
     (let s = bit_len (p div q) - 24 in min f32_inf (s * 2 ^ 23 + round_even p (q * 2 ^ s)))"

section \<open>Operations\<close>

definition f32_add :: "f32 \<Rightarrow> f32 \<Rightarrow> f32" where
  "f32_add x y =
     (if f32_is_nan x \<or> f32_is_nan y then f32_nan
      else if f32_is_inf x then (if f32_is_inf y \<and> f32_sign x \<noteq> f32_sign y then f32_nan else x)
      else if f32_is_inf y then y
      else let v = f32_value x + f32_value y in
        if v = 0 then f32_make (f32_sign x \<and> f32_sign y) 0
        else f32_make (v < 0) (round_units (nat \<bar>v\<bar>) 1))"

definition f32_mul :: "f32 \<Rightarrow> f32 \<Rightarrow> f32" where
  "f32_mul x y =
     (let sign = (f32_sign x \<noteq> f32_sign y) in
      if f32_is_nan x \<or> f32_is_nan y then f32_nan
      else if f32_is_inf x \<or> f32_is_inf y then
        (if f32_mag x = 0 \<or> f32_mag y = 0 then f32_nan else f32_make sign f32_inf)
      else f32_make sign (round_units (f32_units (f32_mag x) * f32_units (f32_mag y)) (2 ^ 149)))"

definition f32_div :: "f32 \<Rightarrow> f32 \<Rightarrow> f32" where
  "f32_div x y =
     (let sign = (f32_sign x \<noteq> f32_sign y) in
      if f32_is_nan x \<or> f32_is_nan y then f32_nan
      else if f32_is_inf x then (if f32_is_inf y then f32_nan else f32_make sign f32_inf)
      else if f32_is_inf y then f32_make sign 0
      else if f32_mag y = 0 then (if f32_mag x = 0 then f32_nan else f32_make sign f32_inf)
      else f32_make sign (round_units (f32_units (f32_mag x) * 2 ^ 149) (f32_units (f32_mag y))))"

fun isqrt :: "nat \<Rightarrow> nat" where
  "isqrt n = (if n = 0 then 0 else let r = 2 * isqrt (n div 4) in if (r + 1) * (r + 1) \<le> n then r + 1 else r)"

declare isqrt.simps [simp del]

text \<open>
  The square root of \<open>u\<close> units is that of \<open>u * 2 ^ 149\<close>, in units. Two more bits and one that says whether
  anything was cut off are enough to round correctly.
\<close>

definition f32_sqrt :: "f32 \<Rightarrow> f32" where
  "f32_sqrt x =
     (if f32_is_nan x then f32_nan
      else if f32_mag x = 0 then x
      else if f32_sign x then f32_nan
      else if f32_is_inf x then x
      else let n = f32_units (f32_mag x) * 2 ^ 149 * 16; r = isqrt n in
        f32_make False (round_units (2 * r + (if r * r < n then 1 else 0)) 8))"

definition f32_le :: "f32 \<Rightarrow> f32 \<Rightarrow> bool" where
  "f32_le x y \<longleftrightarrow> \<not> f32_is_nan x \<and> \<not> f32_is_nan y \<and> f32_value x \<le> f32_value y"

section \<open>Lemmas\<close>

lemma f32_make_simps:
  assumes "mag < 2 ^ 31"
  shows "f32_mag (f32_make sign mag) = mag" and "f32_sign (f32_make sign mag) = sign"
proof -
  have "unat (f32_make sign mag) = (if sign then 2 ^ 31 else 0) + mag"
    unfolding f32_make_def using assms by (subst unat_of_nat) simp
  then show "f32_mag (f32_make sign mag) = mag" "f32_sign (f32_make sign mag) = sign"
    using assms by (auto simp: f32_mag_def f32_sign_def)
qed

lemma f32_is_finite_mag: "f32_is_finite x \<longleftrightarrow> f32_mag x < f32_inf"
proof -
  have "take_bit 8 (drop_bit 23 x) = 255 \<longleftrightarrow> unat (take_bit 8 (drop_bit 23 x)) = 255"
    by (simp add: word_unat_eq_iff)
  also have "unat (take_bit 8 (drop_bit 23 x)) = unat x div 2 ^ 23 mod 2 ^ 8"
    by (simp only: unsigned_take_bit_eq unat_drop_bit_eq) (simp only: take_bit_eq_mod drop_bit_eq_div)
  also have "unat x div 2 ^ 23 mod 2 ^ 8 = f32_mag x div 2 ^ 23"
    unfolding f32_mag_def using mod_mult2_eq [of "unat x" "2 ^ 23" "2 ^ 8"] by simp
  moreover have "f32_mag x < 2 ^ 31" by (simp add: f32_mag_def)
  ultimately show ?thesis
    by (auto simp: f32_is_finite_def f32_inf_def)
qed

lemma round_units_le: "round_units p q \<le> f32_inf"
  by (simp add: round_units_def Let_def)

lemma f32_make_round [simp]:
  "f32_mag (f32_make sign (round_units p q)) = round_units p q"
  "f32_sign (f32_make sign (round_units p q)) = sign"
  using round_units_le [of p q] by (simp_all add: f32_make_simps f32_inf_def)

lemma bit_len_less: "n < 2 ^ k \<longleftrightarrow> bit_len n \<le> k"
proof (induction n arbitrary: k rule: bit_len.induct)
  case (1 n)
  show ?case
  proof (cases "n = 0")
    case False
    then show ?thesis
      using "1.IH" [OF False, of "k - 1"] by (cases k) (auto simp: bit_len.simps [of n])
  qed (simp add: bit_len.simps)
qed

lemma bit_len_ge: "2 ^ k \<le> n \<longleftrightarrow> k < bit_len n"
  using bit_len_less [of n k] by linarith

lemma round_even_bounds: "p div q \<le> round_even p q" "round_even p q \<le> Suc (p div q)"
  by (simp_all add: round_even_def Let_def)

lemma round_units_upper:
  assumes "p div q < 2 ^ (24 + k)" and "k \<le> 252"
  shows "round_units p q < f32_inf"
proof -
  let ?s = "bit_len (p div q) - 24"
  have s: "?s \<le> k" using assms(1) by (simp add: bit_len_less)
  have "p div q < 2 ^ (24 + ?s)" by (simp add: bit_len_less)
  then have "p div (q * 2 ^ ?s) < 2 ^ 24"
    by (simp add: div_mult2_eq power_add less_mult_imp_div_less mult.commute)
  then have "round_even p (q * 2 ^ ?s) \<le> 2 ^ 24"
    using round_even_bounds(2) [of p "q * 2 ^ ?s"] by simp
  moreover have "?s * 2 ^ 23 \<le> 252 * (2 :: nat) ^ 23" using s assms(2) by (intro mult_right_mono) auto
  ultimately show ?thesis by (simp add: round_units_def Let_def f32_inf_def)
qed

lemma round_units_lower:
  assumes "2 ^ (23 + k) \<le> p div q"
  shows "min f32_inf ((k + 1) * 2 ^ 23) \<le> round_units p q"
proof -
  let ?s = "bit_len (p div q) - 24"
  have s: "k \<le> ?s" "2 ^ (23 + ?s) \<le> p div q" using assms by (auto simp: bit_len_ge)
  then have "2 ^ 23 \<le> p div (q * 2 ^ ?s)"
    by (simp add: div_mult2_eq power_add less_eq_div_iff_mult_less_eq)
  then have "2 ^ 23 \<le> round_even p (q * 2 ^ ?s)"
    using round_even_bounds(1) le_trans by blast
  moreover have "k * 2 ^ 23 \<le> ?s * (2 :: nat) ^ 23" using s(1) by simp
  ultimately show ?thesis unfolding round_units_def Let_def by (simp add: min_def algebra_simps)
qed

lemma round_units_overflow: "2 ^ 277 \<le> p div q \<Longrightarrow> round_units p q = f32_inf"
  using round_units_lower [of 254 p q] round_units_le [of p q] by (simp add: f32_inf_def)

lemma f32_units_lower:
  assumes "(k + 1) * 2 ^ 23 \<le> mag"
  shows "2 ^ (23 + k) \<le> f32_units mag"
proof -
  have "k + 1 \<le> mag div 2 ^ 23" using assms by (simp add: less_eq_div_iff_mult_less_eq)
  then have "(2 :: nat) ^ k \<le> 2 ^ (mag div 2 ^ 23 - 1)" by (intro power_increasing) auto
  then have "2 ^ 23 * 2 ^ k \<le> (2 ^ 23 + mag mod 2 ^ 23) * 2 ^ (mag div 2 ^ 23 - 1)"
    by (intro mult_mono) auto
  moreover have "\<not> mag < 2 ^ 23" using assms by simp
  ultimately show ?thesis unfolding f32_units_def by (simp only: if_False power_add)
qed

lemma f32_units_upper:
  assumes "mag < (k + 1) * 2 ^ 23"
  shows "f32_units mag < 2 ^ (23 + k)"
proof (cases "mag < 2 ^ 23")
  case True
  moreover have "(2 :: nat) ^ 23 \<le> 2 ^ (23 + k)" by (intro power_increasing) auto
  ultimately show ?thesis unfolding f32_units_def by simp
next
  case False
  have "mag div 2 ^ 23 \<le> k" using assms by (simp add: less_mult_imp_div_less less_Suc_eq_le)
  moreover have "1 \<le> mag div 2 ^ 23" using False by simp
  ultimately have e: "mag div 2 ^ 23 - 1 \<le> k - 1" "1 \<le> k" by linarith+
  have "(2 ^ 23 + mag mod 2 ^ 23) * 2 ^ (mag div 2 ^ 23 - 1) < 2 ^ 24 * (2 :: nat) ^ (k - 1)"
  proof (rule mult_less_le_imp_less)
    show "2 ^ 23 + mag mod 2 ^ 23 < (2 :: nat) ^ 24" by simp
    show "(2 :: nat) ^ (mag div 2 ^ 23 - 1) \<le> 2 ^ (k - 1)" using e by (intro power_increasing) auto
  qed simp_all
  also have "\<dots> = 2 ^ (23 + k)" using e(2) by (simp only: power_add [symmetric]) simp
  finally show ?thesis using False unfolding f32_units_def by simp
qed

lemma isqrt_bounds: "isqrt n * isqrt n \<le> n \<and> n < Suc (isqrt n) * Suc (isqrt n)"
proof (induction n rule: isqrt.induct)
  case (1 n)
  show ?case
  proof (cases "n = 0")
    case False
    let ?i = "isqrt (n div 4)"
    from "1.IH" [OF False] have i: "?i * ?i \<le> n div 4" "n div 4 < Suc ?i * Suc ?i" by auto
    have "(2 * ?i) * (2 * ?i) \<le> n" using i(1) by (simp add: less_eq_div_iff_mult_less_eq mult.commute mult.left_commute)
    moreover have "n < (2 * ?i + 2) * (2 * ?i + 2)"
    proof -
      have "n < 4 * (Suc ?i * Suc ?i)" using i(2) by (simp add: div_less_iff_less_mult mult.commute)
      then show ?thesis by (simp add: algebra_simps)
    qed
    ultimately show ?thesis using False by (subst (1 2 3 4) isqrt.simps) (auto simp: Let_def)
  qed (simp add: isqrt.simps)
qed


lemma f32_units_zero [simp]: "f32_units 0 = 0"
  by (simp add: f32_units_def)

text \<open>A finite sum of squares bounds its members: every square is finite, so every member is below \<open>2 ^ 64\<close>.\<close>

lemma f32_mul_self_sign: "\<not> f32_sign (f32_mul x x)"
  by (simp add: f32_mul_def f32_nan_def f32_make_simps f32_inf_def Let_def)

lemma f32_not_finite_add:
  assumes "\<not> f32_is_finite y"
  shows "\<not> f32_is_finite (f32_add x y)" and "\<not> f32_is_finite (f32_add y x)"
proof -
  have nan: "\<not> f32_is_finite f32_nan" by (simp add: f32_is_finite_mag f32_nan_def f32_make_simps f32_inf_def)
  show "\<not> f32_is_finite (f32_add x y)" "\<not> f32_is_finite (f32_add y x)"
    using assms nan by (auto simp: f32_add_def f32_is_finite_mag f32_is_inf_def f32_is_nan_def not_less)
qed

lemma f32_square_finite:
  assumes "f32_is_finite (f32_mul x x)"
  shows "f32_units (f32_mag x) < 2 ^ 213"
proof (rule ccontr)
  assume big: "\<not> ?thesis"
  then have u: "2 ^ 213 \<le> f32_units (f32_mag x)" by simp
  have "(2 :: nat) ^ 213 * 2 ^ 213 \<le> f32_units (f32_mag x) * f32_units (f32_mag x)" by (intro mult_mono u) auto
  then have "2 ^ 277 \<le> (f32_units (f32_mag x) * f32_units (f32_mag x)) div 2 ^ 149"
    by (simp add: less_eq_div_iff_mult_less_eq)
  then have "round_units (f32_units (f32_mag x) * f32_units (f32_mag x)) (2 ^ 149) = f32_inf"
    by (rule round_units_overflow)
  moreover have "f32_mag x \<noteq> 0" using big by (metis f32_units_zero zero_less_power zero_less_numeral)
  ultimately show False
    using assms by (auto simp: f32_mul_def f32_is_finite_mag Let_def f32_nan_def f32_make_simps f32_inf_def split: if_splits)
qed

text \<open>The root of a finite number above \<open>EPSILON\<close> is finite and at least \<open>2 ^ -12\<close>.\<close>

lemma f32_sqrt_lower:
  assumes "f32_is_finite n" and "\<not> f32_le n f32_epsilon"
  shows "f32_is_finite (f32_sqrt n) \<and> 2 ^ 137 \<le> f32_units (f32_mag (f32_sqrt n))"
proof -
  have eps: "f32_value f32_epsilon = 2 ^ 126" "\<not> f32_is_nan f32_epsilon"
    by (simp_all add: f32_value_def f32_epsilon_def f32_make_simps f32_units_def f32_is_nan_def f32_inf_def)
  have n: "\<not> f32_is_nan n" "\<not> f32_is_inf n" using assms(1) by (auto simp: f32_is_finite_mag f32_is_nan_def f32_is_inf_def)
  then have "f32_value n > 2 ^ 126" using assms(2) eps by (simp add: f32_le_def)
  then have pos: "\<not> f32_sign n" and u: "2 ^ 126 < f32_units (f32_mag n)"
    by (auto simp: f32_value_def split: if_splits)
  define q where "q = f32_units (f32_mag n) * 2 ^ 149 * 16"
  define p where "p = 2 * isqrt q + (if isqrt q * isqrt q < q then 1 else 0)"
  have "f32_mag n \<noteq> 0" using u by (metis f32_units_zero not_less_zero)
  then have root: "f32_sqrt n = f32_make False (round_units p 8)"
    using n pos unfolding f32_sqrt_def q_def p_def by (simp add: Let_def)
  have "(2 :: nat) ^ 139 * 2 ^ 139 \<le> q" using u unfolding q_def by simp
  have low: "2 ^ 139 \<le> isqrt q"
  proof (rule ccontr)
    assume "\<not> ?thesis"
    then have "Suc (isqrt q) * Suc (isqrt q) \<le> 2 ^ 139 * 2 ^ 139" by (intro mult_mono) auto
    then show False using isqrt_bounds [of q] \<open>2 ^ 139 * 2 ^ 139 \<le> q\<close> by linarith
  qed
  have "f32_mag n < (254 + 1) * 2 ^ 23" using assms(1) by (simp add: f32_is_finite_mag f32_inf_def)
  from f32_units_upper [OF this] have "f32_units (f32_mag n) < 2 ^ 277" by simp
  then have "q < 2 ^ 215 * 2 ^ 215" unfolding q_def by simp
  have high: "isqrt q < 2 ^ 215"
  proof (rule ccontr)
    assume "\<not> ?thesis"
    then have "2 ^ 215 * 2 ^ 215 \<le> isqrt q * isqrt q" by (intro mult_mono) auto
    then show False using isqrt_bounds [of q] \<open>q < 2 ^ 215 * 2 ^ 215\<close> by linarith
  qed
  have "p div 8 < 2 ^ (24 + 190)" using high unfolding p_def by (auto simp: div_less_iff_less_mult)
  then have fin: "round_units p 8 < f32_inf" by (rule round_units_upper) simp
  have "2 ^ (23 + 114) \<le> p div 8" using low unfolding p_def by (simp add: less_eq_div_iff_mult_less_eq)
  from round_units_lower [OF this] fin have "(114 + 1) * 2 ^ 23 \<le> round_units p 8" by simp
  from f32_units_lower [OF this] fin show ?thesis by (simp add: root f32_is_finite_mag)
qed

lemma f32_div_finite:
  assumes "f32_is_finite x" and "f32_units (f32_mag x) < 2 ^ 213"
    and "f32_is_finite r" and "2 ^ 137 \<le> f32_units (f32_mag r)"
  shows "f32_is_finite (f32_div x r)"
proof -
  let ?u = "f32_units (f32_mag x)" and ?d = "f32_units (f32_mag r)"
  have "?u * 2 ^ 149 < 2 ^ 213 * 2 ^ 149" using assms(2) by simp
  also have "\<dots> \<le> 2 ^ 225 * ?d" using assms(4) by simp
  finally have "?u * 2 ^ 149 < 2 ^ 225 * ?d" .
  then have "?u * 2 ^ 149 div ?d < 2 ^ (24 + 201)" by (simp add: less_mult_imp_div_less)
  then have "round_units (?u * 2 ^ 149) ?d < f32_inf" by (rule round_units_upper) simp
  moreover have "f32_mag r \<noteq> 0" using assms(4) by (metis f32_units_zero le_zero_eq power_not_zero zero_neq_numeral)
  ultimately show ?thesis
    using assms(1,3) by (auto simp: f32_div_def f32_is_finite_mag f32_is_nan_def f32_is_inf_def Let_def)
qed

end
