(* ===== verification/Onnx_Engine.thy ===== *)
theory Onnx_Engine
  imports Onnx_Graph Float32
begin

text \<open>
  The ONNX engine (\<^verbatim>\<open>impossible-embedding-onnx/src/lib.rs\<close>): loading under epochs, tokenisation with
  prefixes, preflight, padding of a batch into tensors, the native run, pooling, truncation and
  normalisation. The tokenizer and the session are parameters. A panic (an index out of bounds) or a
  read that has not returned is \<open>None\<close>.
\<close>

section \<open>Libraries\<close>

record encoding =
  enc_ids :: "nat list"
  enc_mask :: "nat list"
  enc_types :: "nat list"

definition enc_len :: "encoding \<Rightarrow> nat" where
  "enc_len e = length (enc_ids e)"

type_synonym encoder = "rstr \<Rightarrow> rstr + encoding"

record tokenizer =
  tk_encode :: encoder
  tk_added_tokens :: "nat option"
  tk_with_truncation :: "nat \<Rightarrow> rstr + encoder"

text \<open>An array of the runtime: its shape and its elements in row-major order.\<close>

record nd_array =
  nd_shape :: "nat list"
  nd_data :: "f32 list"

definition nd_offset :: "nat list \<Rightarrow> nat list \<Rightarrow> nat" where
  "nd_offset shape index = fold (\<lambda>(n, i) acc. acc * n + i) (zip shape index) 0"

definition nd_get :: "nd_array \<Rightarrow> nat list \<Rightarrow> f32 option" where
  "nd_get a index =
     (let offset = nd_offset (nd_shape a) index in
      if list_all2 (<) index (nd_shape a) \<and> offset < length (nd_data a) then Some (nd_data a ! offset) else None)"

text \<open>
  The session: its declared inputs and outputs, whether a panic poisoned its lock, the construction of an
  input tensor (an error text or nothing), and a run, whose outputs are looked up by name and extracted.
\<close>

type_synonym input_tensor = "rstr \<times> nat list \<times> int list"

record session =
  ss_inputs :: "outlet list"
  ss_outputs :: "outlet list"
  ss_poisoned :: bool
  ss_tensor :: "nat list \<Rightarrow> int list \<Rightarrow> rstr option"
  ss_run :: "input_tensor list \<Rightarrow> rstr + (rstr \<Rightarrow> (rstr + nd_array) option)"

record onnx_libs =
  ol_probe :: "bytes \<Rightarrow> rstr + model_probe"
  ol_tokenizer :: "bytes \<Rightarrow> rstr + tokenizer"
  ol_session :: "bytes \<Rightarrow> rstr + session"

section \<open>Failures\<close>

definition private_error :: "error_code \<Rightarrow> string \<Rightarrow> rstr \<Rightarrow> engine_failure" where
  "private_error code op e = with_source code (lit op @ lit '' failed: '' @ e)"

definition inference_error :: "rstr \<Rightarrow> engine_failure" where
  "inference_error e = private_error InferenceFailed ''ONNX inference'' e"

section \<open>Loaded models\<close>

record loaded_model =
  lm_manifest :: manifest
  lm_contract :: onnx_contract
  lm_encode :: encoder
  lm_encode_truncating :: encoder
  lm_session :: session
  lm_identity :: resolved_identity

text \<open>\<^verbatim>\<open>Path::extension\<close>: after the last dot of the file name, unless the dot starts it.\<close>

definition path_extension :: "rstr \<Rightarrow> rstr option" where
  "path_extension value =
     (let cs = path_components value in
      if cs = [] then None
      else (case last cs of
          Normal name \<Rightarrow>
            (let after = takeWhile (\<lambda>c. c \<noteq> 46) (rev name); before = drop (Suc (length after)) (rev name) in
             if 46 \<in> set name \<and> before \<noteq> [] then Some (rev after) else None)
        | _ \<Rightarrow> None))"

definition model_failure :: "error_code \<Rightarrow> model_error \<Rightarrow> engine_failure" where
  "model_failure code e = with_source code (model_error_display e)"

definition safe_artifact_bytes ::
  "read_env \<Rightarrow> manifest \<Rightarrow> observed \<Rightarrow> rstr \<Rightarrow> string \<Rightarrow> (engine_failure + bytes) option" where
  "safe_artifact_bytes env m ob relative extension =
     (if path_extension relative \<noteq> Some (lit extension) then Some (Err (failure InvalidRequest))
      else map_option (map_err (model_failure ModelUnavailable)) (artifact_bytes (fe_sha256 env) m ob relative))"

text \<open>What the two revalidations and the two reads of a load see of the disk.\<close>

record load_obs =
  lo_first :: "manifest_obs \<times> (nat \<Rightarrow> observed)"
  lo_model :: observed
  lo_tokenizer :: observed
  lo_second :: "manifest_obs \<times> (nat \<Rightarrow> observed)"

text \<open>The question mark on a result that may not have arrived.\<close>

definition then_opt :: "('e + 'a) option \<Rightarrow> ('a \<Rightarrow> ('e + 'b) option) \<Rightarrow> ('e + 'b) option" where
  "then_opt r f = (case r of None \<Rightarrow> None | Some (Inl e) \<Rightarrow> Some (Inl e) | Some (Inr x) \<Rightarrow> f x)"

definition engine_name :: rstr where "engine_name = lit ''onnx-runtime@0.1.0''"

definition revalidate :: "read_env \<Rightarrow> manifest \<Rightarrow> manifest_obs \<times> (nat \<Rightarrow> observed) \<Rightarrow> (engine_failure + unit) option" where
  "revalidate env m obs = map_option (map_err (model_failure ModelUnavailable)) (revalidate_integrity env m (fst obs) (snd obs))"

definition load_candidate ::
  "read_env \<Rightarrow> onnx_libs \<Rightarrow> manifest \<Rightarrow> load_obs \<Rightarrow> (engine_failure + loaded_model) option" where
  "load_candidate env libs m lo =
     then_opt (revalidate env m (lo_first lo)) (\<lambda>_.
     then_opt (Some (contract_of_manifest m)) (\<lambda>(model_file, tokenizer_file, contract).
     then_opt (safe_artifact_bytes env m (lo_model lo) model_file ''onnx'') (\<lambda>model_bytes.
     then_opt (Some (reject_external_data_graph (ol_probe libs) model_bytes)) (\<lambda>_.
     then_opt (safe_artifact_bytes env m (lo_tokenizer lo) tokenizer_file ''json'') (\<lambda>tokenizer_bytes.
     then_opt (Some (map_err (private_error ModelUnavailable ''tokenizer parse'') (ol_tokenizer libs tokenizer_bytes))) (\<lambda>tk.
     let max_tokens = tok_max_tokens (mf_tokenizer m) in
     if max_tokens < (case tk_added_tokens tk of None \<Rightarrow> 0 | Some n \<Rightarrow> n) then Some (Err (failure InvalidRequest))
     else
     then_opt (Some (map_err (private_error ModelUnavailable ''tokenizer truncation'') (tk_with_truncation tk max_tokens))) (\<lambda>trunc.
     then_opt (Some (map_err (private_error ModelUnavailable ''ONNX load'') (ol_session libs model_bytes))) (\<lambda>session.
     then_opt (Some (validate_graph_contract contract (ss_inputs session) (ss_outputs session) (dim_native (mf_dimensions m)))) (\<lambda>_.
     then_opt (revalidate env m (lo_second lo)) (\<lambda>_.
     then_opt (Some (map_err (model_failure Internal) (Manifest.semantic_fingerprint (fingerprints env) m))) (\<lambda>semantic.
     then_opt (Some (identity_new (mf_canonical_id m) (mf_revision m) engine_name
        (Manifest.artifact_fingerprint (fingerprints env) m) semantic)) (\<lambda>identity.
     Some (Ok \<lparr>lm_manifest = m, lm_contract = contract, lm_encode = tk_encode tk, lm_encode_truncating = trunc,
               lm_session = session, lm_identity = identity\<rparr>)))))))))))))"

section \<open>Epochs\<close>

record engine_state =
  es_epoch :: "64 word"
  es_loaded :: "loaded_model option"
  es_poisoned :: bool

definition engine_new :: engine_state where
  "engine_new = \<lparr>es_epoch = 0, es_loaded = None, es_poisoned = False\<rparr>"

definition lock_state :: "engine_state \<Rightarrow> engine_failure + engine_state" where
  "lock_state s = (if es_poisoned s then Err (with_source Internal (lit ''model state lock is poisoned'')) else Ok s)"

definition reserve_transition :: "engine_state \<Rightarrow> engine_state \<times> 64 word" where
  "reserve_transition s = (let e = es_epoch s + 1 in (s\<lparr>es_epoch := e\<rparr>, e))"

definition accepts :: "engine_state \<Rightarrow> 64 word \<Rightarrow> bool" where
  "accepts s e \<longleftrightarrow> es_epoch s = e"

text \<open>The two critical sections of \<^verbatim>\<open>load\<close>.\<close>

definition load_begin :: "engine_state \<Rightarrow> engine_state \<times> (engine_failure + 64 word)" where
  "load_begin s = (case lock_state s of Inl e \<Rightarrow> (s, Err e) | Inr _ \<Rightarrow> map_prod id Ok (reserve_transition s))"

definition load_publish :: "64 word \<Rightarrow> loaded_model \<Rightarrow> engine_state \<Rightarrow> engine_state \<times> (engine_failure + resolved_identity)" where
  "load_publish epoch candidate s =
     (case lock_state s of Inl e \<Rightarrow> (s, Err e)
      | Inr _ \<Rightarrow>
         if \<not> accepts s epoch then (s, Err (failure ModelUnavailable))
         else (s\<lparr>es_loaded := Some candidate\<rparr>, Ok (lm_identity candidate)))"

definition engine_unload :: "engine_state \<Rightarrow> engine_state \<times> (engine_failure + unit)" where
  "engine_unload s =
     (case lock_state s of Inl e \<Rightarrow> (s, Err e)
      | Inr _ \<Rightarrow> ((fst (reserve_transition s))\<lparr>es_loaded := None\<rparr>, Ok ()))"

definition is_loaded :: "engine_state \<Rightarrow> bool" where
  "is_loaded s \<longleftrightarrow> \<not> es_poisoned s \<and> es_loaded s \<noteq> None"

definition current_model :: "engine_state \<Rightarrow> engine_failure + loaded_model" where
  "current_model s = and_then (lock_state s) (\<lambda>s. ok_or (failure ModelUnavailable) (es_loaded s))"

definition requested_current :: "engine_state \<Rightarrow> rstr \<Rightarrow> engine_failure + loaded_model" where
  "requested_current s requested =
     and_then (current_model s) (\<lambda>m.
     and_then (reject_if (requested \<noteq> mf_canonical_id (lm_manifest m)) (failure ModelUnavailable)) (\<lambda>_. Ok m))"

definition resolved_model_contract :: "engine_state \<Rightarrow> rstr \<Rightarrow> engine_failure + resolved_identity \<times> nat" where
  "resolved_model_contract s requested =
     and_then (requested_current s requested) (\<lambda>m.
     let dims = dim_native (mf_dimensions (lm_manifest m)) in
     if dims = 0 then Err (failure Internal) else Ok (lm_identity m, dims))"

section \<open>Tokenisation\<close>

definition prefix_for :: "loaded_model \<Rightarrow> embedding_task \<Rightarrow> rstr option" where
  "prefix_for m task =
     (let p = (case task of Query \<Rightarrow> pre_query (mf_prefixes (lm_manifest m))
                | Document \<Rightarrow> pre_document (mf_prefixes (lm_manifest m))) in
      if p = [] then None else Some p)"

definition apply_prefix :: "rstr \<Rightarrow> rstr option \<Rightarrow> rstr" where
  "apply_prefix input pfx =
     (case pfx of None \<Rightarrow> input
      | Some p \<Rightarrow> if strip_prefix p input \<noteq> None then input else p @ input)"

definition model_encode :: "loaded_model \<Rightarrow> rstr \<Rightarrow> truncation \<Rightarrow> engine_failure + encoding" where
  "model_encode m text truncation =
     (let tokenizer = (case truncation of Reject \<Rightarrow> lm_encode m | Truncate \<Rightarrow> lm_encode_truncating m) in
      and_then (map_err (private_error InvalidRequest ''tokenization'') (tokenizer text)) (\<lambda>e.
      and_then (reject_if (tok_max_tokens (mf_tokenizer (lm_manifest m)) < enc_len e) (failure InvalidRequest)) (\<lambda>_.
      Ok e)))"

definition encode_input :: "loaded_model \<Rightarrow> embed_options \<Rightarrow> rstr \<Rightarrow> engine_failure + encoding" where
  "encode_input m opts text = model_encode m (apply_prefix text (prefix_for m (opt_task opts))) (opt_truncation opts)"

text \<open>\<^verbatim>\<open>u32::try_from(dimension).unwrap_or(u32::MAX)\<close>.\<close>

definition clamp_u32 :: "nat \<Rightarrow> nat" where
  "clamp_u32 n = (if n < 2 ^ 32 then n else 2 ^ 32 - 1)"

definition validate_dimensions :: "manifest \<Rightarrow> nat option \<Rightarrow> engine_failure + unit" where
  "validate_dimensions m requested =
     reject_if (option_holds (\<lambda>d. clamp_u32 d \<noteq> dim_native (mf_dimensions m) \<and> clamp_u32 d \<notin> set (dim_matryoshka (mf_dimensions m))) requested)
       (failure InvalidRequest)"

section \<open>Preflight\<close>

fun preflight_inputs ::
  "loaded_model \<Rightarrow> embed_options \<Rightarrow> rstr list \<Rightarrow> nat \<Rightarrow> nat \<Rightarrow> engine_failure + nat \<times> nat" where
  "preflight_inputs m opts [] tokens longest = Ok (tokens, longest)"
| "preflight_inputs m opts (text # texts) tokens longest =
     and_then (encode_input m opts text) (\<lambda>e.
     let len = max (enc_len e) 1 in
     if tok_max_tokens (mf_tokenizer (lm_manifest m)) < len then Err (failure InvalidRequest)
     else and_then (ok_or (failure InvalidRequest) (checked_add tokens len)) (\<lambda>tokens'.
       preflight_inputs m opts texts tokens' (max longest len)))"

definition preflight_with_options ::
  "engine_state \<Rightarrow> rstr \<Rightarrow> rstr list \<Rightarrow> embed_options \<Rightarrow> engine_failure + batch_cost" where
  "preflight_with_options s requested inputs opts =
     and_then (requested_current s requested) (\<lambda>m.
     and_then (validate_dimensions (lm_manifest m) (opt_dimensions opts)) (\<lambda>_.
     and_then (preflight_inputs m opts inputs 0 0) (\<lambda>(tokens, longest).
     cost_new (length inputs) tokens longest)))"

section \<open>Padding\<close>

text \<open>
  The arrays of ids, masks and types are filled cell by cell; a cell or a column that does not exist is a
  panic.
\<close>

type_synonym arrays = "int list \<times> int list \<times> int list"

definition put_cell :: "nat \<Rightarrow> encoding \<Rightarrow> nat \<Rightarrow> nat \<Rightarrow> arrays \<Rightarrow> arrays option" where
  "put_cell i e column tid arrs =
     (case arrs of (ids, masks, types) \<Rightarrow>
        if i < length ids \<and> i < length masks \<and> i < length types \<and> column < length (enc_mask e) \<and> column < length (enc_types e)
        then Some (ids[i := int tid], masks[i := int (enc_mask e ! column)], types[i := int (enc_types e ! column)])
        else None)"

fun fill_columns :: "nat \<Rightarrow> encoding \<Rightarrow> nat \<Rightarrow> nat list \<Rightarrow> arrays \<Rightarrow> arrays option" where
  "fill_columns start e column [] arrs = Some arrs"
| "fill_columns start e column (tid # ids) arrs =
     (case put_cell (start + column) e column tid arrs of None \<Rightarrow> None
      | Some arrs' \<Rightarrow> fill_columns start e (Suc column) ids arrs')"

fun fill_rows :: "nat \<Rightarrow> nat \<Rightarrow> encoding list \<Rightarrow> arrays \<Rightarrow> arrays option" where
  "fill_rows sequence row [] arrs = Some arrs"
| "fill_rows sequence row (e # es) arrs =
     (case fill_columns (row * sequence) e 0 (enc_ids e) arrs of None \<Rightarrow> None
      | Some arrs' \<Rightarrow> fill_rows sequence (Suc row) es arrs')"

definition batch_sequence :: "encoding list \<Rightarrow> nat" where
  "batch_sequence es = max (fold (\<lambda>e m. max m (enc_len e)) es 0) 1"

section \<open>Pooling and normalisation\<close>

definition valid_runtime_output_shape :: "nat list \<Rightarrow> nat \<Rightarrow> nat \<Rightarrow> nat \<Rightarrow> bool" where
  "valid_runtime_output_shape shape batch sequence native \<longleftrightarrow>
     shape = [batch, native] \<or> shape = [batch, sequence, native]"

definition row_of :: "nd_array \<Rightarrow> (nat \<Rightarrow> nat list) \<Rightarrow> nat \<Rightarrow> f32 list option" where
  "row_of out index hidden = those (map (\<lambda>d. nd_get out (index d)) [0..<hidden])"

definition mean_at :: "nd_array \<Rightarrow> nat \<Rightarrow> nat list \<Rightarrow> nat \<Rightarrow> f32 option" where
  "mean_at out row indices d =
     map_option (\<lambda>xs. let (total, count) = fold (\<lambda>x (total, count). (f32_add total x, f32_add count f32_one)) xs (f32_zero, f32_zero)
                      in f32_div total count)
       (those (map (\<lambda>t. nd_get out [row, t, d]) indices))"

definition pool_tokens :: "nd_array \<Rightarrow> nat \<Rightarrow> nat \<Rightarrow> int list \<Rightarrow> pooling \<Rightarrow> (engine_failure + f32 list) option" where
  "pool_tokens out row hidden mk pool =
     (let indices = map fst (filter (\<lambda>(i, v). v \<noteq> 0) (enumerate 0 mk)) in
      if indices = [] then Some (Err (failure InferenceFailed))
      else map_option Ok (case pool of
          Cls \<Rightarrow> row_of out (\<lambda>d. [row, hd indices, d]) hidden
        | LastToken \<Rightarrow> row_of out (\<lambda>d. [row, last indices, d]) hidden
        | Mean \<Rightarrow> those (map (mean_at out row indices) [0..<hidden])))"

definition l2_normalize :: "f32 list \<Rightarrow> engine_failure + f32 list" where
  "l2_normalize vector =
     (let n = fold (\<lambda>v acc. f32_add acc (f32_mul v v)) vector f32_zero in
      if \<not> f32_is_finite n \<or> f32_le n f32_epsilon then Err (failure InferenceFailed)
      else Ok (map (\<lambda>v. f32_div v (f32_sqrt n)) vector))"

definition finish_vector :: "nat option \<Rightarrow> bool \<Rightarrow> f32 list \<Rightarrow> engine_failure + f32 list" where
  "finish_vector dims l2 vector =
     and_then (reject_if (\<not> list_all f32_is_finite vector) (failure InferenceFailed)) (\<lambda>_.
     and_then (case dims of None \<Rightarrow> Ok vector
         | Some d \<Rightarrow> if length vector < d then Err (failure InferenceFailed) else Ok (take d vector)) (\<lambda>cut.
     if l2 then l2_normalize cut else Ok cut))"

section \<open>Running a batch\<close>

text \<open>The masks have a cell for every token of every row, so a row of them is always a slice.\<close>

fun collect_opt :: "('a \<Rightarrow> ('e + 'b) option) \<Rightarrow> 'a list \<Rightarrow> ('e + 'b list) option" where
  "collect_opt f [] = Some (Ok [])"
| "collect_opt f (x # xs) = then_opt (f x) (\<lambda>y. then_opt (collect_opt f xs) (\<lambda>ys. Some (Ok (y # ys))))"

definition tensor_error :: "session \<Rightarrow> nat list \<Rightarrow> int list \<Rightarrow> engine_failure + unit" where
  "tensor_error ss shape data = (case ss_tensor ss shape data of None \<Rightarrow> Ok () | Some e \<Rightarrow> Err (inference_error e))"

definition run_inputs :: "onnx_contract \<Rightarrow> nat list \<Rightarrow> arrays \<Rightarrow> input_tensor list" where
  "run_inputs c shape arrs =
     (case arrs of (ids, masks, types) \<Rightarrow>
        (in_input_ids (oc_inputs c), shape, ids)
        # map (\<lambda>name. (name, shape, masks)) (option_list (in_attention_mask (oc_inputs c)))
        @ map (\<lambda>name. (name, shape, types)) (option_list (in_token_type_ids (oc_inputs c))))"

definition output_vectors ::
  "manifest \<Rightarrow> nd_array \<Rightarrow> nat \<Rightarrow> nat \<Rightarrow> int list \<Rightarrow> (engine_failure + f32 list list) option" where
  "output_vectors m out batch sequence masks =
     (case nd_shape out of
        [rows, hidden] \<Rightarrow>
          if rows = batch then map_option Ok (those (map (\<lambda>r. row_of out (\<lambda>d. [r, d]) hidden) [0..<batch]))
          else Some (Err (failure InferenceFailed))
      | [rows, tokens, hidden] \<Rightarrow>
          if rows = batch \<and> tokens = sequence
          then collect_opt (\<lambda>r. pool_tokens out r hidden (take sequence (drop (r * sequence) masks)) (mf_pooling m)) [0..<batch]
          else Some (Err (failure InferenceFailed))
      | _ \<Rightarrow> Some (Err (failure InferenceFailed)))"

definition run_padded ::
  "loaded_model \<Rightarrow> nat \<Rightarrow> nat \<Rightarrow> nat option \<Rightarrow> bool \<Rightarrow> int list \<Rightarrow> int list \<Rightarrow> int list \<Rightarrow> (engine_failure + f32 list list) option" where
  "run_padded m batch sequence dims l2 ids masks types =
     (let c = lm_contract m; ss = lm_session m in
      then_opt (Some (tensor_error ss [batch, sequence] ids)) (\<lambda>_.
      then_opt (Some (tensor_error ss [batch, sequence] masks)) (\<lambda>_.
      then_opt (Some (tensor_error ss [batch, sequence] types)) (\<lambda>_.
      if ss_poisoned ss then Some (Err (with_source InferenceFailed (lit ''inference session lock is poisoned'')))
      else
      then_opt (Some (map_err inference_error (ss_run ss (run_inputs c [batch, sequence] (ids, masks, types))))) (\<lambda>outputs.
      then_opt (Some (ok_or (failure InferenceFailed) (outputs (oc_output c)))) (\<lambda>found.
      then_opt (Some (map_err inference_error found)) (\<lambda>out.
      if \<not> valid_runtime_output_shape (nd_shape out) batch sequence (dim_native (mf_dimensions (lm_manifest m)))
      then Some (Err (failure InferenceFailed))
      else
      then_opt (output_vectors (lm_manifest m) out batch sequence masks) (\<lambda>vectors.
      Some (collect_results (finish_vector dims l2) vectors)))))))))"

definition model_run ::
  "loaded_model \<Rightarrow> encoding list \<Rightarrow> nat option \<Rightarrow> bool \<Rightarrow> (engine_failure + f32 list list) option" where
  "model_run m encodings dims l2 =
     (let batch = length encodings; sequence = batch_sequence encodings in
      then_opt (Some (ok_or (failure InvalidRequest) (checked_mul batch sequence))) (\<lambda>capacity.
      case fill_rows sequence 0 encodings
          (replicate capacity (int (oc_pad_token_id (lm_contract m))), replicate capacity 0, replicate capacity 0) of
        None \<Rightarrow> None
      | Some (ids, masks, types) \<Rightarrow> run_padded m batch sequence dims l2 ids masks types))"

section \<open>Embedding\<close>

text \<open>The three reads of the control see three worlds.\<close>

definition embed_with_options ::
  "engine_state \<Rightarrow> rstr \<Rightarrow> rstr list \<Rightarrow> control \<Rightarrow> embed_options \<Rightarrow> (heap \<times> nat) \<Rightarrow> (heap \<times> nat) \<Rightarrow> (heap \<times> nat) \<Rightarrow>
   (engine_failure + embedding_output) option" where
  "embed_with_options s requested inputs control opts w1 w2 w3 =
     then_opt (Some (check_control w1 control)) (\<lambda>_.
     then_opt (Some (requested_current s requested)) (\<lambda>m.
     then_opt (Some (validate_dimensions (lm_manifest m) (opt_dimensions opts))) (\<lambda>_.
     then_opt (Some (collect_results (encode_input m opts) inputs)) (\<lambda>encodings.
     then_opt (Some (usage_new (map enc_len encodings))) (\<lambda>usage.
     then_opt (Some (check_control w2 control)) (\<lambda>_.
     let l2 = (case opt_normalize opts of None \<Rightarrow> oc_normalize (lm_contract m) | Some b \<Rightarrow> b) in
     then_opt (model_run m encodings (opt_dimensions opts) l2) (\<lambda>vectors.
     then_opt (Some (check_control w3 control)) (\<lambda>_.
     Some (Ok \<lparr>out_vectors = vectors, out_model = lm_identity m, out_usage = usage\<rparr>)))))))))"

definition engine_warm :: "engine_state \<Rightarrow> (engine_failure + unit) option" where
  "engine_warm s =
     then_opt (Some (current_model s)) (\<lambda>m.
     let input = (case prefix_for m Document of None \<Rightarrow> lit ''warmup'' | Some p \<Rightarrow> p) in
     then_opt (Some (model_encode m input Truncate)) (\<lambda>e.
     then_opt (model_run m [e] None (oc_normalize (lm_contract m))) (\<lambda>_. Some (Ok ()))))"

text \<open>The runtime's view of the engine (\<^verbatim>\<open>impl RuntimeEngine for OnnxEmbeddingEngine\<close>).\<close>

definition onnx_engine :: "engine_state \<Rightarrow> (heap \<times> nat) \<Rightarrow> (heap \<times> nat) \<Rightarrow> (heap \<times> nat) \<Rightarrow> engine" where
  "onnx_engine s w1 w2 w3 =
     \<lparr>en_contract = (\<lambda>requested. Some (and_then (resolved_model_contract s requested) (\<lambda>(identity, dims). runtime_contract_new identity dims))),
      en_preflight = (\<lambda>requested inputs opts. Some (preflight_with_options s requested inputs opts)),
      en_embed = (\<lambda>requested inputs control opts. embed_with_options s requested inputs control opts w1 w2 w3)\<rparr>"

end
