(* ===== verification/Onnx_Output.thy ===== *)
theory Onnx_Output
  imports Onnx_Engine
begin

text \<open>
  What the ONNX engine guarantees: padding puts every token where the model expects it, a run of
  well-formed libraries never panics, every vector returned is finite and of the requested width, the
  cost charged by preflight is the size that is executed, and a stale load never publishes.
\<close>

lemma then_opt_eq_Ok [result_simps]:
  "then_opt r f = Some (Inr y) \<longleftrightarrow> (\<exists>x. r = Some (Inr x) \<and> f x = Some (Inr y))"
  by (auto simp: then_opt_def split: option.split sum.split)

lemma then_opt_returns: "r \<noteq> None \<Longrightarrow> (\<And>x. r = Some (Inr x) \<Longrightarrow> f x \<noteq> None) \<Longrightarrow> then_opt r f \<noteq> None"
  by (auto simp: then_opt_def split: option.split sum.split)

section \<open>Padding\<close>

text \<open>Writing a run of cells.\<close>

definition overwrite :: "nat \<Rightarrow> 'a list \<Rightarrow> 'a list \<Rightarrow> 'a list" where
  "overwrite i xs A = take i A @ xs @ drop (i + length xs) A"

lemma overwrite_Nil [simp]: "overwrite i [] A = A"
  by (simp add: overwrite_def)

lemma length_overwrite [simp]: "i + length xs \<le> length A \<Longrightarrow> length (overwrite i xs A) = length A"
  by (simp add: overwrite_def)

lemma overwrite_Cons: "i < length A \<Longrightarrow> overwrite (Suc i) xs (A[i := x]) = overwrite i (x # xs) A"
  by (simp add: overwrite_def upd_conv_take_nth_drop add.commute)

definition wf_encoding :: "encoding \<Rightarrow> bool" where
  "wf_encoding e \<longleftrightarrow> length (enc_mask e) = enc_len e \<and> length (enc_types e) = enc_len e"

lemma fill_columns_overwrite:
  assumes "start + column + length ids \<le> length A" "length B = length A" "length C = length A"
    and "column + length ids \<le> length (enc_mask e)" "column + length ids \<le> length (enc_types e)"
  shows "fill_columns start e column ids (A, B, C) =
     Some (overwrite (start + column) (map int ids) A,
           overwrite (start + column) (map int (take (length ids) (drop column (enc_mask e)))) B,
           overwrite (start + column) (map int (take (length ids) (drop column (enc_types e)))) C)"
  using assms
proof (induction ids arbitrary: column A B C)
  case (Cons tid ids)
  let ?i = "start + column"
  have cell: "put_cell ?i e column tid (A, B, C) =
      Some (A[?i := int tid], B[?i := int (enc_mask e ! column)], C[?i := int (enc_types e ! column)])"
    using Cons.prems by (simp add: put_cell_def)
  have pick: "take (Suc (length ids)) (drop column xs) = xs ! column # take (length ids) (drop (Suc column) xs)"
    if "column < length xs" for xs :: "nat list"
    using that by (simp add: Cons_nth_drop_Suc [symmetric])
  show ?case
    using Cons.prems Cons.IH [of "Suc column" "A[?i := int tid]" "B[?i := int (enc_mask e ! column)]" "C[?i := int (enc_types e ! column)]"]
    by (simp add: cell overwrite_Cons pick)
qed simp

text \<open>A row: the values, then padding.\<close>

definition padded_row :: "'a \<Rightarrow> nat \<Rightarrow> 'a list \<Rightarrow> 'a list" where
  "padded_row pad sequence xs = xs @ replicate (sequence - length xs) pad"

lemma length_padded_row [simp]: "length xs \<le> n \<Longrightarrow> length (padded_row pad n xs) = n"
  by (simp add: padded_row_def)

lemma overwrite_row:
  "length R = i \<Longrightarrow> length xs \<le> n \<Longrightarrow>
     overwrite i xs (R @ replicate (n + k) pad) = (R @ padded_row pad n xs) @ replicate k pad"
  by (simp add: overwrite_def padded_row_def replicate_add [symmetric])

lemma fill_rows_padded:
  assumes "list_all (\<lambda>e. wf_encoding e \<and> enc_len e \<le> sequence) es"
    and "length A = row * sequence" "length B = row * sequence" "length C = row * sequence"
  shows "fill_rows sequence row es (A @ replicate (length es * sequence) pad, B @ replicate (length es * sequence) 0, C @ replicate (length es * sequence) 0) =
     Some (A @ concat (map (\<lambda>e. padded_row pad sequence (map int (enc_ids e))) es),
           B @ concat (map (\<lambda>e. padded_row 0 sequence (map int (enc_mask e))) es),
           C @ concat (map (\<lambda>e. padded_row 0 sequence (map int (enc_types e))) es))"
  using assms
proof (induction es arbitrary: row A B C)
  case (Cons e es)
  let ?rest = "length es * sequence"
  have e: "length (enc_ids e) \<le> sequence" "length (enc_mask e) = length (enc_ids e)" "length (enc_types e) = length (enc_ids e)"
    using Cons.prems(1) by (simp_all add: wf_encoding_def enc_len_def)
  let ?A = "A @ padded_row pad sequence (map int (enc_ids e))"
    and ?B = "B @ padded_row 0 sequence (map int (enc_mask e))"
    and ?C = "C @ padded_row 0 sequence (map int (enc_types e))"
  have "fill_columns (row * sequence) e 0 (enc_ids e)
      (A @ replicate (sequence + ?rest) pad, B @ replicate (sequence + ?rest) 0, C @ replicate (sequence + ?rest) 0) =
      Some (?A @ replicate ?rest pad, ?B @ replicate ?rest 0, ?C @ replicate ?rest 0)"
    using e Cons.prems by (subst fill_columns_overwrite) (simp_all add: overwrite_row del: append_assoc)
  moreover have "fill_rows sequence (Suc row) es (?A @ replicate ?rest pad, ?B @ replicate ?rest 0, ?C @ replicate ?rest 0) =
      Some (?A @ concat (map (\<lambda>e. padded_row pad sequence (map int (enc_ids e))) es),
            ?B @ concat (map (\<lambda>e. padded_row 0 sequence (map int (enc_mask e))) es),
            ?C @ concat (map (\<lambda>e. padded_row 0 sequence (map int (enc_types e))) es))"
    using Cons.prems e by (intro Cons.IH) simp_all
  ultimately show ?case by simp
qed simp

lemma batch_sequence_ge: "e \<in> set es \<Longrightarrow> enc_len e \<le> batch_sequence es" "1 \<le> batch_sequence es"
proof -
  have start: "a \<le> fold (\<lambda>e m. max m (enc_len e)) es a" for es a
    by (induction es arbitrary: a) (simp, metis fold_simps(2) max.boundedE)
  have "enc_len e \<le> fold (\<lambda>e m. max m (enc_len e)) es a" if "e \<in> set es" for a
    using that
  proof (induction es arbitrary: a)
    case (Cons e' es)
    then show ?case using start [of "max a (enc_len e')" es] by auto
  qed simp
  then show "e \<in> set es \<Longrightarrow> enc_len e \<le> batch_sequence es" by (simp add: batch_sequence_def le_max_iff_disj)
  show "1 \<le> batch_sequence es" by (simp add: batch_sequence_def)
qed

text \<open>
  Padding is exact. For encodings whose masks and types are as long as their ids, filling the three
  arrays cell by cell never leaves their bounds, and it yields, row after row, the tokens of the input
  followed by the padding token, its mask followed by zeros, and its types followed by zeros.
\<close>

theorem padding_is_row_by_row:
  assumes "list_all wf_encoding es"
  shows "fill_rows (batch_sequence es) 0 es
      (replicate (length es * batch_sequence es) pad, replicate (length es * batch_sequence es) 0, replicate (length es * batch_sequence es) 0) =
     Some (concat (map (\<lambda>e. padded_row pad (batch_sequence es) (map int (enc_ids e))) es),
           concat (map (\<lambda>e. padded_row 0 (batch_sequence es) (map int (enc_mask e))) es),
           concat (map (\<lambda>e. padded_row 0 (batch_sequence es) (map int (enc_types e))) es))"
  using fill_rows_padded [of "batch_sequence es" es "[]" 0 "[]" "[]" pad] assms batch_sequence_ge(1)
  by (auto simp: list_all_iff)

definition demo_encoding :: "nat list \<Rightarrow> encoding" where
  "demo_encoding ids = \<lparr>enc_ids = ids, enc_mask = map (\<lambda>_. 1) ids, enc_types = map (\<lambda>_. 0) ids\<rparr>"

theorem padding_is_row_by_row_witness:
  "fill_rows 3 0 [demo_encoding [5, 6], demo_encoding [7, 8, 9]] (replicate 6 1, replicate 6 0, replicate 6 0) =
     Some ([5, 6, 1, 7, 8, 9], [1, 1, 0, 1, 1, 1], [0, 0, 0, 0, 0, 0])"
  using padding_is_row_by_row [of "[demo_encoding [5, 6], demo_encoding [7, 8, 9]]" 1]
  by (simp add: demo_encoding_def wf_encoding_def batch_sequence_def enc_len_def padded_row_def eval_nat_numeral)

section \<open>Vectors\<close>

lemma those_eq_Some: "those xs = Some ys \<longleftrightarrow> xs = map Some ys"
  by (induction xs arbitrary: ys) (auto split: option.split)

lemma those_eq_None: "those xs = None \<longleftrightarrow> None \<in> set xs"
  by (induction xs) (auto split: option.split)

lemma row_of_length: "row_of out index hidden = Some v \<Longrightarrow> length v = hidden"
  by (auto simp: row_of_def those_eq_Some dest: arg_cong [of _ _ length])

lemma pool_tokens_length: "pool_tokens out row hidden mk pool = Some (Inr v) \<Longrightarrow> length v = hidden"
  by (auto simp: pool_tokens_def Let_def those_eq_Some row_of_length split: if_splits pooling.splits dest: arg_cong [of _ _ length])

lemma collect_opt_Ok: "collect_opt f xs = Some (Inr ys) \<longleftrightarrow> list_all2 (\<lambda>x y. f x = Some (Inr y)) xs ys"
  by (induction xs arbitrary: ys) (auto simp: result_simps list_all2_Cons1)

lemma output_vectors_shape:
  assumes "output_vectors m out batch sequence masks = Some (Inr vs)" and "valid_runtime_output_shape (nd_shape out) batch sequence native"
  shows "length vs = batch \<and> list_all (\<lambda>v. length v = native) vs"
proof -
  from assms(2) consider "nd_shape out = [batch, native]" | "nd_shape out = [batch, sequence, native]"
    by (auto simp: valid_runtime_output_shape_def)
  then show ?thesis
  proof cases
    case 1
    then have rows: "map (\<lambda>r. row_of out (\<lambda>d. [r, d]) native) [0..<batch] = map Some vs"
      using assms(1) by (auto simp: output_vectors_def those_eq_Some)
    then have n: "length vs = batch" by (auto dest: arg_cong [of _ _ length])
    have "length v = native" if "v \<in> set vs" for v
    proof -
      from that rows have "Some v \<in> set (map (\<lambda>r. row_of out (\<lambda>d. [r, d]) native) [0..<batch])" by simp
      then show ?thesis by (auto simp del: map_eq_conv dest!: sym [of "Some _"] intro: row_of_length)
    qed
    with n show ?thesis by (simp add: list_all_iff)
  next
    case 2
    then have "list_all2 (\<lambda>r v. pool_tokens out r native (take sequence (drop (r * sequence) masks)) (mf_pooling m) = Some (Inr v)) [0..<batch] vs"
      using assms(1) by (auto simp: output_vectors_def collect_opt_Ok)
    then show ?thesis by (auto simp: list_all2_conv_all_nth list_all_length pool_tokens_length)
  qed
qed

text \<open>The sum of squares is finite only if every square is.\<close>

lemma sum_squares_finite:
  "f32_is_finite (fold (\<lambda>v acc. f32_add acc (f32_mul v v)) vs a) \<Longrightarrow> f32_is_finite a \<and> list_all (\<lambda>v. f32_is_finite (f32_mul v v)) vs"
proof (induction vs arbitrary: a)
  case (Cons v vs)
  then have "f32_is_finite (f32_add a (f32_mul v v)) \<and> list_all (\<lambda>v. f32_is_finite (f32_mul v v)) vs" by simp
  then show ?case using f32_not_finite_add [of "f32_mul v v" a] f32_not_finite_add [of a "f32_mul v v"] by auto
qed simp

lemma l2_normalize_Ok:
  assumes "l2_normalize v = Inr w" and "list_all f32_is_finite v"
  shows "length w = length v \<and> list_all f32_is_finite w"
proof -
  define n where "n = fold (\<lambda>v acc. f32_add acc (f32_mul v v)) v f32_zero"
  from assms(1) have n: "f32_is_finite n" "\<not> f32_le n f32_epsilon" and w: "w = map (\<lambda>x. f32_div x (f32_sqrt n)) v"
    by (auto simp: l2_normalize_def n_def Let_def split: if_splits)
  from sum_squares_finite n(1) have "list_all (\<lambda>x. f32_is_finite (f32_mul x x)) v" unfolding n_def by blast
  then have "f32_is_finite (f32_div x (f32_sqrt n))" if "x \<in> set v" for x
    using that assms(2) f32_sqrt_lower [OF n] by (intro f32_div_finite f32_square_finite) (auto simp: list_all_iff)
  then show ?thesis by (simp add: w list_all_iff)
qed

lemma finish_vector_Ok:
  assumes "finish_vector dims l2 v = Inr w"
  shows "length w = (case dims of None \<Rightarrow> length v | Some d \<Rightarrow> d) \<and> list_all f32_is_finite w"
proof -
  from assms obtain cut where fin: "list_all f32_is_finite v"
    and cut: "(case dims of None \<Rightarrow> Inr v | Some d \<Rightarrow> if length v < d then Inl (failure InferenceFailed) else Inr (take d v)) = Inr cut"
    and w: "(if l2 then l2_normalize cut else Inr cut) = Inr w"
    by (auto simp: finish_vector_def result_simps)
  from cut have "length cut = (case dims of None \<Rightarrow> length v | Some d \<Rightarrow> d)" "list_all f32_is_finite cut"
    using fin by (auto simp: list_all_iff dest: in_set_takeD split: option.splits if_splits)
  then show ?thesis using w l2_normalize_Ok by (auto split: if_splits)
qed

lemma run_padded_Ok:
  assumes "run_padded m batch sequence dims l2 ids masks types = Some (Inr vs)"
  obtains out raw where "valid_runtime_output_shape (nd_shape out) batch sequence (dim_native (mf_dimensions (lm_manifest m)))"
    and "output_vectors (lm_manifest m) out batch sequence masks = Some (Inr raw)"
    and "collect_results (finish_vector dims l2) raw = Inr vs"
  using assms unfolding run_padded_def Let_def by (auto simp: result_simps split: if_split_asm)

lemma model_run_Ok:
  assumes "model_run m es dims l2 = Some (Inr vs)"
  shows "length vs = length es \<and>
     list_all (\<lambda>v. length v = (case dims of None \<Rightarrow> dim_native (mf_dimensions (lm_manifest m)) | Some d \<Rightarrow> d) \<and> list_all f32_is_finite v) vs"
proof -
  from assms obtain out masks raw where
    shape: "valid_runtime_output_shape (nd_shape out) (length es) (batch_sequence es) (dim_native (mf_dimensions (lm_manifest m)))"
    and raw: "output_vectors (lm_manifest m) out (length es) (batch_sequence es) masks = Some (Inr raw)"
    and vs: "collect_results (finish_vector dims l2) raw = Inr vs"
    by (auto simp: model_run_def Let_def then_opt_eq_Ok split: option.split_asm elim!: run_padded_Ok)
  from output_vectors_shape [OF raw shape] have r: "length raw = length es" "\<And>v. v \<in> set raw \<Longrightarrow> length v = dim_native (mf_dimensions (lm_manifest m))"
    by (auto simp: list_all_iff)
  from vs have two: "list_all2 (\<lambda>x y. finish_vector dims l2 x = Inr y) raw vs" by (simp add: collect_results_Inr)
  have "length w = (case dims of None \<Rightarrow> dim_native (mf_dimensions (lm_manifest m)) | Some d \<Rightarrow> d) \<and> list_all f32_is_finite w"
    if "w \<in> set vs" for w
  proof -
    from that obtain i where "i < length vs" "w = vs ! i" by (auto simp: in_set_conv_nth)
    then have "raw ! i \<in> set raw" "finish_vector dims l2 (raw ! i) = Inr w"
      using two by (auto simp: list_all2_conv_all_nth)
    then show ?thesis using finish_vector_Ok [of dims l2 "raw ! i" w] r(2) by (auto split: option.splits)
  qed
  moreover have "length vs = length es" using two r(1) by (simp add: list_all2_lengthD)
  ultimately show ?thesis by (simp add: list_all_iff)
qed

lemma embed_Ok:
  assumes "embed_with_options s requested inputs control opts w1 w2 w3 = Some (Inr result)"
  obtains m es where "requested_current s requested = Inr m" and "collect_results (encode_input m opts) inputs = Inr es"
    and "usage_new (map enc_len es) = Inr (out_usage result)" and "out_model result = lm_identity m"
    and "model_run m es (opt_dimensions opts) (case opt_normalize opts of None \<Rightarrow> oc_normalize (lm_contract m) | Some b \<Rightarrow> b) = Some (Inr (out_vectors result))"
    and "validate_dimensions (lm_manifest m) (opt_dimensions opts) = Inr ()"
  using assms unfolding embed_with_options_def Let_def by (auto simp: result_simps)

text \<open>
  C35. Whatever the tokenizer and the session answer, an embedding that succeeds has one vector per input,
  in the requested width (or the native one), every component of every vector is a finite number, also
  after normalisation, the token counts are those of the encodings of the inputs, and the identity is
  that of the loaded model with the requested name.
\<close>

theorem embedding_matches_request:
  assumes "embed_with_options s requested inputs control opts w1 w2 w3 = Some (Ok result)"
  shows "\<exists>m es. es_loaded s = Some m \<and> mf_canonical_id (lm_manifest m) = requested \<and> out_model result = lm_identity m \<and>
     collect_results (encode_input m opts) inputs = Ok es \<and> usage_input_tokens (out_usage result) = map enc_len es \<and>
     length (out_vectors result) = length inputs \<and>
     (\<forall>v \<in> set (out_vectors result). list_all f32_is_finite v \<and>
        length v = (case opt_dimensions opts of None \<Rightarrow> dim_native (mf_dimensions (lm_manifest m)) | Some d \<Rightarrow> d))"
proof -
  from assms obtain m es where cur: "requested_current s requested = Inr m" and es: "collect_results (encode_input m opts) inputs = Inr es"
    and usage: "usage_new (map enc_len es) = Inr (out_usage result)" and model: "out_model result = lm_identity m"
    and run: "model_run m es (opt_dimensions opts) (case opt_normalize opts of None \<Rightarrow> oc_normalize (lm_contract m) | Some b \<Rightarrow> b) = Some (Inr (out_vectors result))"
    by (rule embed_Ok)
  from cur have "es_loaded s = Some m" "mf_canonical_id (lm_manifest m) = requested"
    by (auto simp: requested_current_def current_model_def lock_state_def result_simps split: if_splits)
  moreover have "usage_input_tokens (out_usage result) = map enc_len es" using usage by (simp add: usage_new_Ok)
  moreover have "length es = length inputs" using collect_results_length [OF es] .
  ultimately show ?thesis using model es model_run_Ok [OF run] by (auto simp: list_all_iff)
qed


definition idle_world :: "heap \<times> nat" where
  "idle_world = (\<lparr>cells = [], woken = []\<rparr>, 0)"

definition demo_session :: session where
  "demo_session = \<lparr>ss_inputs = [], ss_outputs = [], ss_poisoned = False, ss_tensor = (\<lambda>_ _. None),
     ss_run = (\<lambda>_. Ok (\<lambda>_. Some (Ok \<lparr>nd_shape = [1, 2, 4], nd_data = [0, 0, 0, 0, 1, 2, 3, 4]\<rparr>)))\<rparr>"

definition demo_loaded :: loaded_model where
  "demo_loaded = \<lparr>lm_manifest = demo_manifest\<lparr>mf_pooling := LastToken\<rparr>,
     lm_contract = \<lparr>oc_inputs = \<lparr>in_input_ids = lit ''i'', in_attention_mask = None, in_token_type_ids = None\<rparr>,
       oc_output = lit ''o'', oc_pad_token_id = 0, oc_normalize = False\<rparr>,
     lm_encode = (\<lambda>_. Ok (demo_encoding [5, 6])), lm_encode_truncating = (\<lambda>_. Ok (demo_encoding [5])),
     lm_session = demo_session,
     lm_identity = \<lparr>canonical_id = lit ''a/b'', revision = lit ''r'', runtime_name = lit ''n'',
       artifact_fingerprint = lit ''f'', semantic_fingerprint = lit ''s''\<rparr>\<rparr>"

definition onnx_demo_engine :: engine_state where
  "onnx_demo_engine = \<lparr>es_epoch = 1, es_loaded = Some demo_loaded, es_poisoned = False\<rparr>"

lemmas onnx_demo_defs = onnx_demo_engine_def demo_loaded_def demo_session_def demo_manifest_def demo_encoding_def idle_world_def

lemma demo_current: "requested_current onnx_demo_engine (lit ''a/b'') = Ok demo_loaded"
  by (simp add: requested_current_def current_model_def lock_state_def onnx_demo_engine_def) (simp add: demo_loaded_def demo_manifest_def)

lemma demo_encode: "collect_results (encode_input demo_loaded default_options) [lit ''x''] = Ok [demo_encoding [5, 6]]"
  by (simp add: encode_input_def model_encode_def default_options_def demo_loaded_def demo_manifest_def demo_encoding_def enc_len_def)

lemma demo_run: "model_run demo_loaded [demo_encoding [5, 6]] None False = Some (Ok [[1, 2, 3, 4]])"
proof -
  have fill: "fill_rows 2 0 [demo_encoding [5, 6]] (replicate 2 0, replicate 2 0, replicate 2 0) = Some ([5, 6], [1, 1], [0, 0])"
    by (simp add: demo_encoding_def put_cell_def numeral_2_eq_2)
  have finite: "list_all f32_is_finite [1, 2, 3, 4]"
    by (simp add: f32_is_finite_mag f32_mag_def f32_inf_def)
  have "run_padded demo_loaded 1 2 None False [5, 6] [1, 1] [0, 0] = Some (Ok [[1, 2, 3, 4]])"
    unfolding run_padded_def Let_def
    by (simp add: demo_loaded_def demo_session_def then_opt_def tensor_error_def)
      (simp add: valid_runtime_output_shape_def demo_manifest_def finish_vector_def finite [simplified] output_vectors_def
          pool_tokens_def row_of_def nd_get_def nd_offset_def then_opt_def upt_rec)
  moreover have "batch_sequence [demo_encoding [5, 6]] = 2" by (simp add: batch_sequence_def enc_len_def demo_encoding_def)
  moreover have "checked_mul 1 2 = Some 2" by (simp add: checked_mul_def word_limit_def)
  moreover have "oc_pad_token_id (lm_contract demo_loaded) = 0" by (simp add: demo_loaded_def)
  ultimately show ?thesis
    unfolding model_run_def Let_def using fill by (simp add: then_opt_def del: fill_rows.simps)
qed

lemma demo_embed:
  "embed_with_options onnx_demo_engine (lit ''a/b'') [lit ''x''] (Control (Single 0) None None) default_options idle_world idle_world idle_world =
     Some (Ok \<lparr>out_vectors = [[1, 2, 3, 4]], out_model = lm_identity demo_loaded,
       out_usage = \<lparr>usage_input_tokens = [2], usage_total_tokens = 2\<rparr>\<rparr>)"
proof -
  have active: "check_control idle_world (Control (Single 0) None None) = Ok ()"
    by (simp add: check_control_def idle_world_def flagged_def cell_at_def signal_default_def)
  have opts: "opt_normalize default_options = None" "opt_dimensions default_options = None" by (simp_all add: default_options_def)
  have "oc_normalize (lm_contract demo_loaded) = False" by (simp add: demo_loaded_def)
  moreover have "usage_new (map enc_len [demo_encoding [5, 6]]) = Ok \<lparr>usage_input_tokens = [2], usage_total_tokens = 2\<rparr>"
    by (simp add: enc_len_def demo_encoding_def usage_new_def checked_add_def word_limit_def)
  moreover have "validate_dimensions (lm_manifest demo_loaded) None = Ok ()" by (simp add: validate_dimensions_def option_holds_def)
  ultimately show ?thesis
    unfolding embed_with_options_def then_opt_def active demo_current demo_encode opts option.case sum.case Let_def
    by (simp add: demo_run del: list.map)
qed

theorem embedding_matches_request_witness:
  "\<exists>m es. es_loaded onnx_demo_engine = Some m \<and> collect_results (encode_input m default_options) [lit ''x''] = Ok es \<and> map enc_len es = [2]"
  using embedding_matches_request [OF demo_embed] by auto


section \<open>No panic\<close>

definition wf_array :: "nd_array \<Rightarrow> bool" where
  "wf_array a \<longleftrightarrow> length (nd_data a) = prod_list (nd_shape a)"

lemma cell_less: "r < n \<Longrightarrow> d < k \<Longrightarrow> r * k + d < n * (k :: nat)"
proof -
  assume "r < n" "d < k"
  then have "r * k + d < Suc r * k" by simp
  also have "\<dots> \<le> n * k" using \<open>r < n\<close> by (intro mult_right_mono) auto
  finally show ?thesis .
qed

lemma nd_get_inside:
  "wf_array a \<Longrightarrow> nd_shape a = [n, k] \<Longrightarrow> r < n \<Longrightarrow> d < k \<Longrightarrow> nd_get a [r, d] \<noteq> None"
  "wf_array a \<Longrightarrow> nd_shape a = [n, t, k] \<Longrightarrow> r < n \<Longrightarrow> i < t \<Longrightarrow> d < k \<Longrightarrow> nd_get a [r, i, d] \<noteq> None"
  using cell_less [of r n d k] cell_less [OF cell_less [of r n i t], of d k]
  by (simp_all add: nd_get_def nd_offset_def wf_array_def mult.assoc)

lemma those_returns: "(\<And>x. x \<in> set xs \<Longrightarrow> f x \<noteq> None) \<Longrightarrow> those (map f xs) \<noteq> None"
  by (simp add: those_eq_None image_iff del: not_None_eq) metis

lemma row_of_returns: "(\<And>d. d < hidden \<Longrightarrow> nd_get out (index d) \<noteq> None) \<Longrightarrow> row_of out index hidden \<noteq> None"
  unfolding row_of_def by (rule those_returns) simp

lemma mask_indices: "i \<in> set (map fst (filter (\<lambda>(i, v). v \<noteq> 0) (enumerate 0 mk))) \<Longrightarrow> i < length mk"
  by (auto simp: in_set_enumerate_eq)

lemma pool_tokens_returns:
  assumes "wf_array out" and "nd_shape out = [n, t, hidden]" and "row < n" and "length mk \<le> t"
  shows "pool_tokens out row hidden mk pool \<noteq> None"
proof -
  define indices where "indices = map fst (filter (\<lambda>(i, v). v \<noteq> 0) (enumerate 0 mk))"
  have inside: "i < t" if "i \<in> set indices" for i
    using mask_indices [of i mk] that assms(4) unfolding indices_def by linarith
  have cell: "nd_get out [row, i, d] \<noteq> None" if "i \<in> set indices" "d < hidden" for i d
    using nd_get_inside(2) [OF assms(1,2,3)] inside that by blast
  show ?thesis
  proof (cases "indices = []")
    case False
    then have "hd indices \<in> set indices" "last indices \<in> set indices" by simp_all
    moreover have "mean_at out row indices d \<noteq> None" if "d < hidden" for d
      unfolding mean_at_def option.map_disc_iff by (rule those_returns) (use cell that in blast)
    then have "those (map (mean_at out row indices) [0..<hidden]) \<noteq> None" by (intro those_returns) simp
    ultimately show ?thesis
      using cell False unfolding pool_tokens_def Let_def indices_def [symmetric]
      by (cases pool) (simp_all add: row_of_returns option.map_disc_iff del: not_None_eq)
  qed (simp add: pool_tokens_def Let_def indices_def)
qed

lemma collect_opt_returns: "(\<And>x. x \<in> set xs \<Longrightarrow> f x \<noteq> None) \<Longrightarrow> collect_opt f xs \<noteq> None"
proof (induction xs)
  case (Cons x xs)
  then show ?case unfolding collect_opt.simps by (intro then_opt_returns) auto
qed simp

lemma output_vectors_returns:
  assumes "wf_array out" and "valid_runtime_output_shape (nd_shape out) batch sequence native"
  shows "output_vectors m out batch sequence masks \<noteq> None"
proof -
  from assms(2) consider (matrix) "nd_shape out = [batch, native]" | (tokens) "nd_shape out = [batch, sequence, native]"
    by (auto simp: valid_runtime_output_shape_def)
  then show ?thesis
  proof cases
    case matrix
    have "row_of out (\<lambda>d. [r, d]) native \<noteq> None" if "r < batch" for r
      by (rule row_of_returns) (use nd_get_inside(1) [OF assms(1) matrix] that in blast)
    then have "those (map (\<lambda>r. row_of out (\<lambda>d. [r, d]) native) [0..<batch]) \<noteq> None" by (intro those_returns) simp
    then show ?thesis by (simp add: output_vectors_def matrix option.map_disc_iff del: not_None_eq)
  next
    case tokens
    then show ?thesis
      using pool_tokens_returns [OF assms(1) tokens]
      by (simp add: output_vectors_def del: not_None_eq) (intro collect_opt_returns, simp del: not_None_eq)
  qed
qed



section \<open>Preflight charges what is executed\<close>

lemma preflight_inputs_Ok:
  "preflight_inputs m opts texts tokens longest = Inr (tokens', longest') \<Longrightarrow>
     \<exists>es. collect_results (encode_input m opts) texts = Inr es \<and> tokens' = tokens + sum_list (map (\<lambda>e. max (enc_len e) 1) es) \<and>
       longest' = fold (\<lambda>e m. max m (max (enc_len e) 1)) es longest"
proof (induction texts arbitrary: tokens longest)
  case (Cons input texts)
  from Cons.prems obtain e where e: "encode_input m opts input = Inr e"
    and rest: "preflight_inputs m opts texts (tokens + max (enc_len e) 1) (max longest (max (enc_len e) 1)) = Inr (tokens', longest')"
    by (auto simp: result_simps Let_def checked_add_def split: if_splits)
  from Cons.IH [OF rest] show ?case by (auto simp: e)
qed simp

lemma longest_batch: "es \<noteq> [] \<Longrightarrow> fold (\<lambda>e m. max m (max (enc_len e) 1)) es 0 = batch_sequence es"
proof -
  have "fold (\<lambda>e m. max m (max (enc_len e) 1)) es a = (if es = [] then a else max (fold (\<lambda>e m. max m (enc_len e)) es a) 1)" for a
  proof (induction es arbitrary: a)
    case (Cons e es)
    have "fold (\<lambda>e m. max m (enc_len e)) es (max a b) = max (fold (\<lambda>e m. max m (enc_len e)) es a) b" for a b
    proof (induction es arbitrary: a)
      case (Cons e es)
      have "max (max a b) (enc_len e) = max (max a (enc_len e)) b" by (simp add: max.commute max.left_commute)
      then show ?case using Cons.IH [of "max a (enc_len e)"] by simp
    qed simp
    then show ?case using Cons.IH [of "max a (max (enc_len e) 1)"] by (cases "es = []") (simp_all add: max.assoc)
  qed simp
  then show "es \<noteq> [] \<Longrightarrow> fold (\<lambda>e m. max m (max (enc_len e) 1)) es 0 = batch_sequence es"
    by (simp add: batch_sequence_def)
qed

lemma preflight_Ok:
  assumes "preflight_with_options s requested inputs opts = Inr cost"
  obtains m es where "requested_current s requested = Inr m" and "collect_results (encode_input m opts) inputs = Inr es"
    and "cost_tokens cost = sum_list (map (\<lambda>e. max (enc_len e) 1) es)" and "cost_items cost = length es"
    and "cost_max_sequence_length cost = batch_sequence es" and "wf_cost cost"
proof -
  from assms obtain m tokens longest where m: "requested_current s requested = Inr m"
    and pre: "preflight_inputs m opts inputs 0 0 = Inr (tokens, longest)" and cost: "cost_new (length inputs) tokens longest = Inr cost"
    by (auto simp: preflight_with_options_def result_simps)
  from preflight_inputs_Ok [OF pre] obtain es where es: "collect_results (encode_input m opts) inputs = Inr es"
    "tokens = sum_list (map (\<lambda>e. max (enc_len e) 1) es)" "longest = fold (\<lambda>e m. max m (max (enc_len e) 1)) es 0" by auto
  from cost have c: "cost = \<lparr>cost_items = length inputs, cost_tokens = tokens, cost_max_sequence_length = longest\<rparr>" "wf_cost cost"
    unfolding cost_new_Ok by blast+
  have "length es = length inputs" using collect_results_length [OF es(1)] .
  moreover from this c have "es \<noteq> []" by (auto simp: wf_cost_def)
  ultimately show thesis using m es c longest_batch by (intro that) auto
qed

text \<open>
  Preflight charges exactly what is executed: the cost of an admitted request is the number of its
  inputs, the length of its longest encoding and the sum of its encodings (each at least one token), for
  the encodings the run itself will make, and its padded size, which is below \<open>2 ^ 64\<close>, is the number
  of cells the run allocates.
\<close>

theorem preflight_charges_executed_size:
  assumes "preflight_with_options s requested inputs opts = Ok cost"
  shows "\<exists>m es. requested_current s requested = Ok m \<and> collect_results (encode_input m opts) inputs = Ok es \<and>
     cost = \<lparr>cost_items = length es, cost_tokens = sum_list (map (\<lambda>e. max (enc_len e) 1) es), cost_max_sequence_length = batch_sequence es\<rparr> \<and>
     padded_tokens cost = Ok (length es * batch_sequence es) \<and> checked_mul (length es) (batch_sequence es) = Some (length es * batch_sequence es)"
proof -
  obtain m es where *: "requested_current s requested = Inr m" "collect_results (encode_input m opts) inputs = Inr es"
    "cost_tokens cost = sum_list (map (\<lambda>e. max (enc_len e) 1) es)" "cost_items cost = length es"
    "cost_max_sequence_length cost = batch_sequence es" "wf_cost cost"
    by (rule preflight_Ok [OF assms])
  then show ?thesis
    by (intro exI [of _ m] exI [of _ es]) (auto simp: padded_tokens_def checked_mul_def wf_cost_def intro: batch_cost.equality)
qed

lemma onnx_demo_preflight: "preflight_with_options onnx_demo_engine (lit ''a/b'') [lit ''x''] default_options =
    Ok \<lparr>cost_items = 1, cost_tokens = 2, cost_max_sequence_length = 2\<rparr>"
proof -
  have "encode_input demo_loaded default_options (lit ''x'') = Ok (demo_encoding [5, 6])"
    using demo_encode by (simp split: sum.splits)
  moreover have "tok_max_tokens (mf_tokenizer (lm_manifest demo_loaded)) = 8" by (simp add: demo_loaded_def demo_manifest_def)
  moreover have "enc_len (demo_encoding [5, 6]) = 2" by (simp add: enc_len_def demo_encoding_def)
  moreover have "validate_dimensions (lm_manifest demo_loaded) (opt_dimensions default_options) = Ok ()"
    by (simp add: validate_dimensions_def option_holds_def default_options_def)
  ultimately show ?thesis
    by (simp add: preflight_with_options_def demo_current checked_add_def word_limit_def cost_new_def checked_mul_def)
qed

theorem preflight_charges_executed_size_witness:
  "padded_tokens \<lparr>cost_items = 1, cost_tokens = 2, cost_max_sequence_length = 2\<rparr> = Ok (1 * batch_sequence [demo_encoding [5, 6]])"
  using preflight_charges_executed_size [OF onnx_demo_preflight] by (auto simp: demo_current demo_encode simp del: collect_results.simps)


section \<open>Epochs\<close>

text \<open>What other callers do between the two critical sections of a load.\<close>

datatype lifecycle_event = Begin_Load | Unload_Model | Publish "64 word" loaded_model

fun lifecycle_step :: "lifecycle_event \<Rightarrow> engine_state \<Rightarrow> engine_state" where
  "lifecycle_step Begin_Load s = fst (load_begin s)"
| "lifecycle_step Unload_Model s = fst (engine_unload s)"
| "lifecycle_step (Publish e m) s = fst (load_publish e m s)"

fun is_transition :: "lifecycle_event \<Rightarrow> bool" where
  "is_transition (Publish _ _) = False"
| "is_transition _ = True"

definition transitions :: "lifecycle_event list \<Rightarrow> nat" where
  "transitions events = length (filter is_transition events)"

lemmas lifecycle_defs = load_begin_def load_publish_def engine_unload_def lock_state_def reserve_transition_def accepts_def Let_def

lemma lifecycle_epoch:
  "\<not> es_poisoned s \<Longrightarrow> es_epoch (fold lifecycle_step events s) = es_epoch s + of_nat (transitions events) \<and>
     \<not> es_poisoned (fold lifecycle_step events s)"
proof (induction events arbitrary: s)
  case (Cons ev events)
  have "es_epoch (lifecycle_step ev s) = es_epoch s + of_nat (if is_transition ev then 1 else 0)" "\<not> es_poisoned (lifecycle_step ev s)"
    using Cons.prems by (cases ev; simp add: lifecycle_defs)+
  then show ?case using Cons.IH [of "lifecycle_step ev s"] by (simp add: transitions_def)
qed (simp add: transitions_def)

text \<open>
  A stale load never publishes. When a load that reserved its epoch comes to publish its model after
  any sequence of other loads, publications and unloads, it succeeds exactly when none of them began a
  load or unloaded in between, and otherwise changes nothing and fails; as long as fewer than \<open>2 ^ 64\<close>
  transitions happened meanwhile, the wrapping epoch counter cannot confuse them.
\<close>

theorem stale_load_never_publishes:
  assumes "load_begin s = (s1, Ok epoch)" and "s2 = fold lifecycle_step events s1" and "transitions events < 2 ^ 64"
  shows "load_publish epoch candidate s2 =
     (if transitions events = 0 then (s2\<lparr>es_loaded := Some candidate\<rparr>, Ok (lm_identity candidate))
      else (s2, Err (failure ModelUnavailable)))"
proof -
  from assms(1) have s1: "es_epoch s1 = epoch" "\<not> es_poisoned s1"
    by (auto simp: lifecycle_defs split: if_splits)
  have "epoch + of_nat (transitions events) = epoch \<longleftrightarrow> transitions events = 0"
  proof -
    have "epoch + of_nat (transitions events) = epoch \<longleftrightarrow> (of_nat (transitions events) :: 64 word) = 0" by simp
    also have "\<dots> \<longleftrightarrow> transitions events mod 2 ^ 64 = 0" by (simp add: word_unat_eq_iff unat_of_nat)
    finally show ?thesis using assms(3) by simp
  qed
  then show ?thesis using lifecycle_epoch [OF s1(2), of events] s1(1) assms(2) by (simp add: load_publish_def lock_state_def accepts_def)
qed

theorem stale_load_never_publishes_witness:
  "load_publish 1 demo_loaded (fold lifecycle_step [Begin_Load, Publish 2 demo_loaded] (fst (load_begin engine_new))) =
     (fold lifecycle_step [Begin_Load, Publish 2 demo_loaded] (fst (load_begin engine_new)), Err (failure ModelUnavailable))"
  using stale_load_never_publishes [of engine_new "fst (load_begin engine_new)" 1
      "fold lifecycle_step [Begin_Load, Publish 2 demo_loaded] (fst (load_begin engine_new))" "[Begin_Load, Publish 2 demo_loaded]" demo_loaded]
  by (simp add: transitions_def) (simp add: engine_new_def lifecycle_defs)

section \<open>Loading\<close>

lemma artifact_bytes_Ok:
  assumes "artifact_bytes sha m ob relative = Some (Inr bs)"
  shows "\<exists>art \<in> set (mf_artifacts m). art_path art = relative \<and> length bs = art_size art \<and> lower_hex (sha bs) = art_sha256 art"
  using assms
  by (auto simp: artifact_bytes_def result_simps find_Some_iff split: option.splits sum.splits if_splits intro!: bexI [OF _ nth_mem])

text \<open>
  A model runs only from verified bytes. When a load succeeds, the session was built from bytes that
  have the size and digest the manifest declares for the model file, those bytes decode to a graph without
  external tensors, the tokenizer comes from bytes verified in the same way, the session declares
  exactly the inputs and the output of the manifest's contract, and the identity is complete.
\<close>

theorem loaded_model_is_verified:
  assumes "load_candidate env libs m lo = Some (Ok lm)"
  shows "\<exists>model_bytes tokenizer_bytes tk model_file tokenizer_file probe.
     lm_manifest lm = m \<and> contract_of_manifest m = Ok (model_file, tokenizer_file, lm_contract lm) \<and>
     ol_session libs model_bytes = Ok (lm_session lm) \<and>
     (\<exists>art \<in> set (mf_artifacts m). art_path art = model_file \<and> length model_bytes = art_size art \<and>
        lower_hex (fe_sha256 env model_bytes) = art_sha256 art) \<and>
     ol_probe libs model_bytes = Ok probe \<and> \<not> model_external probe \<and>
     ol_tokenizer libs tokenizer_bytes = Ok tk \<and> lm_encode lm = tk_encode tk \<and>
     (\<exists>art \<in> set (mf_artifacts m). art_path art = tokenizer_file \<and> length tokenizer_bytes = art_size art \<and>
        lower_hex (fe_sha256 env tokenizer_bytes) = art_sha256 art) \<and>
     validate_graph_contract (lm_contract lm) (ss_inputs (lm_session lm)) (ss_outputs (lm_session lm)) (dim_native (mf_dimensions m)) = Ok () \<and>
     identity_is_complete (lm_identity lm)"
proof -
  from assms obtain model_file tokenizer_file contract model_bytes tokenizer_bytes tk trunc session semantic identity where
    c: "contract_of_manifest m = Inr (model_file, tokenizer_file, contract)"
    and mb: "safe_artifact_bytes env m (lo_model lo) model_file ''onnx'' = Some (Inr model_bytes)"
    and ext: "reject_external_data_graph (ol_probe libs) model_bytes = Inr ()"
    and tb: "safe_artifact_bytes env m (lo_tokenizer lo) tokenizer_file ''json'' = Some (Inr tokenizer_bytes)"
    and tk: "ol_tokenizer libs tokenizer_bytes = Inr tk" and ss: "ol_session libs model_bytes = Inr session"
    and graph: "validate_graph_contract contract (ss_inputs session) (ss_outputs session) (dim_native (mf_dimensions m)) = Inr ()"
    and id: "identity_new (mf_canonical_id m) (mf_revision m) engine_name (Manifest.artifact_fingerprint (fingerprints env) m) semantic = Inr identity"
    and lm: "lm = \<lparr>lm_manifest = m, lm_contract = contract, lm_encode = tk_encode tk, lm_encode_truncating = trunc, lm_session = session, lm_identity = identity\<rparr>"
    unfolding load_candidate_def Let_def by (auto simp: then_opt_eq_Ok map_err_eq_Inr split: if_split_asm)
  have bytes: "\<exists>art \<in> set (mf_artifacts m). art_path art = f \<and> length bs = art_size art \<and> lower_hex (fe_sha256 env bs) = art_sha256 art"
    if "safe_artifact_bytes env m ob f x = Some (Inr bs)" for ob f x bs
    using that by (intro artifact_bytes_Ok) (auto simp: safe_artifact_bytes_def map_err_eq_Inr split: if_split_asm)
  from ext obtain probe where p: "ol_probe libs model_bytes = Inr probe"
    by (cases "ol_probe libs model_bytes") (auto simp: reject_external_data_graph_def)
  have clean: "\<not> model_external probe" using reject_external_iff [of "ol_probe libs" model_bytes probe] p ext by (auto split: if_split_asm)
  have complete: "identity_is_complete identity"
    using id by (auto simp: identity_new_def identity_is_complete_def split: if_split_asm)
  show ?thesis
    using c bytes [OF mb] bytes [OF tb] p clean tk ss graph complete unfolding lm
    by (intro exI [of _ model_bytes] exI [of _ tokenizer_bytes] exI [of _ tk] exI [of _ model_file] exI [of _ tokenizer_file] exI [of _ probe]) simp
qed


text \<open>A load of the small manifest.\<close>

definition demo_outlet :: "string \<Rightarrow> element_type \<Rightarrow> outlet" where
  "demo_outlet name ty = \<lparr>ou_name = lit name, ou_type = Tensor ty [- 1, - 1]\<rparr>"

definition demo_libs :: onnx_libs where
  "demo_libs = \<lparr>ol_probe = (\<lambda>_. Ok \<lparr>mp_graph = None, mp_training = [], mp_functions = []\<rparr>),
     ol_tokenizer = (\<lambda>_. Ok \<lparr>tk_encode = (\<lambda>_. Ok (demo_encoding [5])), tk_added_tokens = None, tk_with_truncation = (\<lambda>_. Ok (\<lambda>_. Ok (demo_encoding [5])))\<rparr>),
     ol_session = (\<lambda>_. Ok (demo_session\<lparr>ss_inputs := [demo_outlet ''i'' Int64, demo_outlet ''m'' Int64], ss_outputs := [demo_outlet ''o'' Float32]\<rparr>))\<rparr>"

definition demo_load :: load_obs where
  "demo_load = (let whole = (so_manifest demo_status, so_artifacts demo_status) in
     \<lparr>lo_first = whole, lo_model = so_artifacts demo_status 0, lo_tokenizer = so_artifacts demo_status 1, lo_second = whole\<rparr>)"

lemma demo_revalidate: "revalidate demo_reads demo_manifest (so_manifest demo_status, so_artifacts demo_status) = Some (Ok ())"
proof -
  have "verify_artifacts (\<lambda>_. replicate 32 170) (so_artifacts demo_status) (\<lambda>_ _. False) 0 (mf_artifacts demo_manifest) = Some (Ok True)"
    unfolding verify_artifacts_True using demo_verified by (auto simp: demo_manifest_def less_Suc_eq)
  moreover have "fe_sha256 demo_reads = (\<lambda>_. replicate 32 170)" by (simp add: demo_reads_def)
  ultimately show ?thesis by (simp add: revalidate_def revalidate_integrity_def demo_record)
qed

lemma demo_artifact_bytes:
  assumes "f \<in> {lit ''m.onnx'', lit ''t.json''}"
  shows "artifact_bytes (\<lambda>_. replicate 32 170) demo_manifest (so_artifacts demo_status n) f = Some (Ok [1, 2, 3, 4, 5, 6, 7])"
proof -
  let ?h = "demo_handle [[1, 2, 3], [4, 5, 6, 7]]"
  have opened: "open_contained_regular_file (so_artifacts demo_status n) f 7 = Ok ?h"
    using assms
    by (auto simp: open_contained_regular_file_def validate_path_components_def reject_reparse_components_def demo_status_def
        securely_open_existing_file_def securely_open_unix_parent_def demo_components normal_component_def demo_observed_def
        demo_handle_def demo_meta_def)
  have read: "read_to_end 8 [] (hd_replies ?h) = Some (Ok [1, 2, 3, 4, 5, 6, 7])"
    using read_to_end_exact [of "[[1, 2, 3], [4, 5, 6, 7]]" "[]" 8 "[]"] by (simp add: demo_handle_def buffer_len_def)
  have found: "\<exists>a. find (\<lambda>a. art_path a = f) (mf_artifacts demo_manifest) = Some a \<and> art_size a = 7 \<and> art_sha256 a = replicate 64 97"
    using assms by (auto simp: demo_manifest_def demo_artifact_def)
  then show ?thesis
    using opened read demo_digest by (auto simp: artifact_bytes_def checked_add_def word_limit_def demo_handle_final demo_meta_def)
qed

lemma onnx_demo_loads: "\<exists>lm. load_candidate demo_reads demo_libs demo_manifest demo_load = Some (Ok lm)"
proof -
  have c: "contract_of_manifest demo_manifest = Ok (lit ''m.onnx'', lit ''t.json'', \<lparr>oc_inputs = \<lparr>in_input_ids = lit ''i'', in_attention_mask = Some (lit ''m''), in_token_type_ids = None\<rparr>,
       oc_output = lit ''o'', oc_pad_token_id = 0, oc_normalize = True\<rparr>)" (is "_ = Ok (_, _, ?c)")
    by (simp add: contract_of_manifest_def demo_manifest_def)
  have ext: "path_extension (lit ''m.onnx'') = Some (lit ''onnx'')" "path_extension (lit ''t.json'') = Some (lit ''json'')"
    by (simp_all add: path_extension_def demo_components Let_def) (simp_all add: lit_def)
  have sha: "fe_sha256 demo_reads = (\<lambda>_. replicate 32 170)" by (simp add: demo_reads_def)
  have bytes: "safe_artifact_bytes demo_reads demo_manifest (so_artifacts demo_status n) (lit ''m.onnx'') ''onnx'' = Some (Ok [1, 2, 3, 4, 5, 6, 7])"
    "safe_artifact_bytes demo_reads demo_manifest (so_artifacts demo_status n) (lit ''t.json'') ''json'' = Some (Ok [1, 2, 3, 4, 5, 6, 7])" for n
    by (simp_all add: safe_artifact_bytes_def ext sha demo_artifact_bytes)
  have probe: "reject_external_data_graph (ol_probe demo_libs) b = Ok ()" for b
    by (simp add: reject_external_data_graph_def demo_libs_def option_list_def)
  have graph: "validate_graph_contract ?c [demo_outlet ''i'' Int64, demo_outlet ''m'' Int64] [demo_outlet ''o'' Float32] 4 = Ok ()"
    by (simp add: validate_graph_contract_def demo_outlet_def required_inputs_def flatten_options_def int_matrix_def float_output_def option_holds_def)
  have dims: "dim_native (mf_dimensions demo_manifest) = 4" "tok_max_tokens (mf_tokenizer demo_manifest) = 8" by (simp_all add: demo_manifest_def)
  have nonblank: "trim (c # s) \<noteq> []" if "\<not> is_whitespace c" for c s using that by (simp add: trim_empty_iff)
  have "\<exists>i. identity_new (lit ''a/b'') (97 # replicate 39 97) (lit ''onnx-runtime@0.1.0'') (lit ''sha256:'' @ x) (lit ''sha256:'' @ y) = Ok i" for x y
    by (simp add: identity_new_def lit_def nonblank is_whitespace_def)
  from this [of _ "replicate 64 97"] have "\<exists>i. identity_new (mf_canonical_id demo_manifest) (mf_revision demo_manifest) engine_name
      (Manifest.artifact_fingerprint (fingerprints demo_reads) demo_manifest) (lit ''sha256:'' @ replicate 64 97) = Ok i"
    unfolding Manifest.artifact_fingerprint_def engine_name_def by (simp add: demo_manifest_def flip: replicate_Suc)
  then obtain i where i: "identity_new (mf_canonical_id demo_manifest) (mf_revision demo_manifest) engine_name
      (Manifest.artifact_fingerprint (fingerprints demo_reads) demo_manifest) (lit ''sha256:'' @ replicate 64 97) = Ok i" by blast
  show ?thesis
    unfolding load_candidate_def demo_load_def Let_def
    by (simp add: then_opt_def demo_revalidate c bytes probe dims demo_fingerprint i)
      (simp add: demo_libs_def graph then_opt_def demo_revalidate dims demo_fingerprint i)
qed

theorem loaded_model_is_verified_witness:
  "\<exists>lm. load_candidate demo_reads demo_libs demo_manifest demo_load = Some (Ok lm) \<and> lm_manifest lm = demo_manifest \<and>
     identity_is_complete (lm_identity lm)"
  using onnx_demo_loads loaded_model_is_verified [of demo_reads demo_libs demo_manifest demo_load] by blast

end
