(* ===== verification/Onnx_Runtime.thy ===== *)
theory Onnx_Runtime
  imports Onnx_Output
begin

text \<open>
  The ONNX engine inside the runtime. The interface \<open>faithful_engine\<close> is what the runtime's validation of
  native output relies on: token counts that preflight and the run agree on, one vector per input, the
  identity and the width of the contract. The ONNX engine keeps it for inputs that encode to at least one
  token; for others the runtime's check fails.
\<close>

locale faithful_engine =
  fixes en :: engine and model :: rstr and opts :: embed_options
    and count :: "rstr \<Rightarrow> nat" and counted :: "rstr \<Rightarrow> bool"
  assumes preflight_counts:
      "en_preflight en model inputs opts = Some (Ok cost) \<Longrightarrow> list_all counted inputs \<Longrightarrow> cost_tokens cost = sum_list (map count inputs)"
    and embed_counts:
      "en_embed en model inputs control opts = Some (Ok out) \<Longrightarrow>
         usage_input_tokens (out_usage out) = map count inputs \<and> length (out_vectors out) = length inputs \<and>
         sum_list (map count inputs) < word_limit \<and> inputs \<noteq> []"
    and counted_positive: "counted i \<Longrightarrow> 0 < count i"
    and embed_contract:
      "en_embed en model inputs control opts = Some (Ok out) \<Longrightarrow> en_contract en model = Some (Ok c) \<Longrightarrow>
         out_model out = rc_identity c \<and> identity_is_complete (rc_identity c) \<and>
         (\<forall>v \<in> set (out_vectors out). list_all f32_is_finite v \<and>
            length v = (case opt_dimensions opts of None \<Rightarrow> rc_native_dimensions c | Some d \<Rightarrow> d))"
begin

definition admitted :: "request \<Rightarrow> bool" where
  "admitted r \<longleftrightarrow> rq_options r = opts \<and> en_contract en model = Some (Ok (rq_contract r)) \<and>
     en_preflight en model (rq_inputs r) opts = Some (Ok (rq_cost r)) \<and> list_all counted (rq_inputs r)"

lemma valid_from_admitted:
  assumes "en_embed en model inputs control opts = Some (Ok out)"
    and "list_all admitted rs" and "inputs = before @ batch_inputs rs" and "length inputs < word_limit"
  shows "valid_from out (length inputs) (length before) (zip rs (input_sizes rs))"
  using assms(2,3)
proof (induction rs arbitrary: before)
  case Nil
  then show ?case by (simp add: batch_inputs_def input_sizes_def)
next
  case (Cons r rs)
  let ?n = "length (rq_inputs r)"
  from Cons.prems have r: "rq_options r = opts" "en_contract en model = Some (Ok (rq_contract r))"
    "en_preflight en model (rq_inputs r) opts = Some (Ok (rq_cost r))" "list_all counted (rq_inputs r)"
    by (simp_all add: admitted_def)
  have inputs: "inputs = before @ rq_inputs r @ batch_inputs rs" using Cons.prems(2) by (simp add: batch_inputs_def)
  note counts = embed_counts [OF assms(1)] and contract = embed_contract [OF assms(1) r(2)]
  have small: "sum_list (map count (rq_inputs r)) < word_limit"
    using counts by (simp add: inputs)
  have tokens: "slice (length before) (length before + ?n) (usage_input_tokens (out_usage out)) = Some (map count (rq_inputs r))"
    using counts by (simp add: slice_def inputs)
  obtain vs where vectors: "slice (length before) (length before + ?n) (out_vectors out) = Some vs" "set vs \<subseteq> set (out_vectors out)"
    using counts by (auto simp: slice_def inputs dest!: in_set_takeD in_set_dropD)
  have widths: "\<not> list_ex (\<lambda>v. length v \<noteq> expected_dimensions r \<or> \<not> list_all f32_is_finite v) vs"
    using contract vectors(2) r(1) by (auto simp: list_ex_iff expected_dimensions_def split: option.splits)
  have "valid_from out (length inputs) (length (before @ rq_inputs r)) (zip rs (input_sizes rs))"
    using Cons.prems by (intro Cons.IH) (simp_all add: batch_inputs_def)
  moreover have "checked_add (length before) ?n = Some (length before + ?n)"
    using assms(4) by (simp add: checked_add_def inputs)
  moreover have "checked_sum_from 0 (map count (rq_inputs r)) = Some (cost_tokens (rq_cost r))"
    using preflight_counts [OF r(3,4)] small by (simp add: checked_sum_from_eq)
  ultimately show ?case
    using contract tokens vectors(1) widths by (simp add: input_sizes_def)
qed

lemma length_le_sum_counts: "list_all counted inputs \<Longrightarrow> length inputs \<le> sum_list (map count inputs)"
  by (induction inputs) (auto dest: counted_positive)

lemma output_accepted:
  assumes "en_embed en model (batch_inputs rs) control opts = Some (Ok out)" and "list_all admitted rs"
  shows "valid_engine_output out rs (input_sizes rs)"
proof -
  note counts = embed_counts [OF assms(1)]
  have "list_all counted (batch_inputs rs)" using assms(2) by (auto simp: admitted_def batch_inputs_def list_all_iff)
  from length_le_sum_counts [OF this] counts have small: "length (batch_inputs rs) < word_limit" by linarith
  have total: "sum_list (input_sizes rs) = length (batch_inputs rs)"
    by (simp add: input_sizes_def batch_inputs_def length_concat comp_def)
  from counts obtain r where "r \<in> set rs" by (cases rs) (auto simp: batch_inputs_def)
  then have "identity_is_complete (out_model out)"
    using embed_contract [OF assms(1)] assms(2) by (auto simp: list_all_iff admitted_def)
  moreover have "valid_from out (length (batch_inputs rs)) 0 (zip rs (input_sizes rs))"
    using valid_from_admitted [OF assms(1,2), of "[]"] small by simp
  ultimately show ?thesis
    using counts small total by (simp add: valid_engine_output_def checked_sum_from_eq)
qed

end

section \<open>The ONNX engine is faithful\<close>

definition token_count :: "engine_state \<Rightarrow> embed_options \<Rightarrow> rstr \<Rightarrow> nat" where
  "token_count s opts input =
     (case es_loaded s of None \<Rightarrow> 0
      | Some m \<Rightarrow> (case encode_input m opts input of Inl _ \<Rightarrow> 0 | Inr e \<Rightarrow> enc_len e))"

lemma requested_current_loaded: "requested_current s model = Inr m \<Longrightarrow> es_loaded s = Some m"
  by (auto simp: requested_current_def current_model_def lock_state_def result_simps split: if_splits)

lemma collect_counts:
  "es_loaded s = Some m \<Longrightarrow> collect_results (encode_input m opts) inputs = Inr es \<Longrightarrow> map enc_len es = map (token_count s opts) inputs"
  by (auto simp: collect_results_Inr list_all2_conv_all_nth token_count_def intro!: nth_equalityI)

interpretation onnx: faithful_engine "onnx_engine s w1 w2 w3" model opts "token_count s opts" "\<lambda>i. 0 < token_count s opts i"
  for s w1 w2 w3 model opts
proof (unfold_locales, goal_cases)
  case (1 inputs cost)
  then have pre: "preflight_with_options s model inputs opts = Inr cost" by (simp add: onnx_engine_def)
  from preflight_Ok [OF pre] obtain m es where cur: "requested_current s model = Inr m"
    and es: "collect_results (encode_input m opts) inputs = Inr es" and cost: "cost_tokens cost = sum_list (map (\<lambda>e. max (enc_len e) 1) es)" by metis
  note counts = collect_counts [OF requested_current_loaded [OF cur] es]
  have "max (enc_len e) 1 = enc_len e" if "e \<in> set es" for e
  proof -
    from that have "enc_len e \<in> set (map (token_count s opts) inputs)" by (simp add: counts [symmetric])
    then show ?thesis using 1(2) by (auto simp: list_all_iff)
  qed
  then have "map (\<lambda>e. max (enc_len e) 1) es = map enc_len es" by simp
  then show ?case by (simp add: cost counts)
next
  case (2 inputs control out)
  then have run: "embed_with_options s model inputs control opts w1 w2 w3 = Some (Inr out)" by (simp add: onnx_engine_def)
  from embed_Ok [OF run] obtain m es l2 where cur: "requested_current s model = Inr m"
    and es: "collect_results (encode_input m opts) inputs = Inr es" and usage: "usage_new (map enc_len es) = Inr (out_usage out)"
    and vs: "model_run m es (opt_dimensions opts) l2 = Some (Inr (out_vectors out))" by metis
  note counts = collect_counts [OF requested_current_loaded [OF cur] es]
  have "usage_input_tokens (out_usage out) = map enc_len es" "wf_usage (out_usage out)" using usage by (auto simp: usage_new_Ok)
  moreover have "length es = length inputs" using collect_results_length [OF es] .
  ultimately show ?case using model_run_Ok [OF vs] counts by (auto simp: wf_usage_def)
next
  case (4 inputs control out c)
  then have run: "embed_with_options s model inputs control opts w1 w2 w3 = Some (Inr out)"
    and con: "and_then (resolved_model_contract s model) (\<lambda>(identity, dims). runtime_contract_new identity dims) = Inr c"
    by (simp_all add: onnx_engine_def)
  from embed_Ok [OF run] obtain m es l2 where cur: "requested_current s model = Inr m" and id: "out_model out = lm_identity m"
    and vs: "model_run m es (opt_dimensions opts) l2 = Some (Inr (out_vectors out))" by metis
  have c: "rc_identity c = lm_identity m" "rc_native_dimensions c = dim_native (mf_dimensions (lm_manifest m))" "identity_is_complete (rc_identity c)"
    using con cur by (auto simp: resolved_model_contract_def result_simps Let_def runtime_contract_new_def split: if_splits)
  then show ?case using model_run_Ok [OF vs] id by (auto simp: list_all_iff split: option.splits)
qed simp

text \<open>
  C34. The runtime accepts what the ONNX engine produces. For any batch of requests with the same options
  that this engine admitted by preflight and whose inputs encode to at least one token, an output of the
  engine on the combined inputs passes the runtime's validation: identity, sizes, token counts, widths and
  finiteness.
\<close>

theorem onnx_output_is_accepted:
  assumes "en_embed (onnx_engine s w1 w2 w3) model (batch_inputs rs) control opts = Some (Ok out)"
    and "\<And>r. r \<in> set rs \<Longrightarrow> rq_options r = opts"
    and "\<And>r. r \<in> set rs \<Longrightarrow> en_contract (onnx_engine s w1 w2 w3) model = Some (Ok (rq_contract r))"
    and "\<And>r. r \<in> set rs \<Longrightarrow> en_preflight (onnx_engine s w1 w2 w3) model (rq_inputs r) opts = Some (Ok (rq_cost r))"
    and "\<And>i. i \<in> set (batch_inputs rs) \<Longrightarrow> 0 < token_count s opts i"
  shows "valid_engine_output out rs (input_sizes rs)"
  using assms by (intro onnx.output_accepted) (auto simp: list_all_iff onnx.admitted_def batch_inputs_def)

definition onnx_request :: "batch_cost \<Rightarrow> request" where
  "onnx_request cost = \<lparr>rq_sequence = 0, rq_inputs = [lit ''x''], rq_cost = cost,
     rq_contract = \<lparr>rc_identity = lm_identity demo_loaded, rc_native_dimensions = 4\<rparr>, rq_options = default_options,
     rq_control = Control (Single 0) None None, rq_response = 0\<rparr>"

lemma demo_contract:
  "and_then (resolved_model_contract onnx_demo_engine (lit ''a/b'')) (\<lambda>(identity, dims). runtime_contract_new identity dims) =
     Ok \<lparr>rc_identity = lm_identity demo_loaded, rc_native_dimensions = 4\<rparr>"
proof -
  have "dim_native (mf_dimensions (lm_manifest demo_loaded)) = 4" by (simp add: demo_loaded_def demo_manifest_def)
  moreover have "identity_is_complete (lm_identity demo_loaded)"
    by (simp add: identity_is_complete_def demo_loaded_def lit_def trim_empty_iff is_whitespace_def)
  ultimately show ?thesis by (simp add: resolved_model_contract_def demo_current runtime_contract_new_def)
qed

theorem onnx_output_is_accepted_witness:
  "valid_engine_output \<lparr>out_vectors = [[1, 2, 3, 4]], out_model = lm_identity demo_loaded,
       out_usage = \<lparr>usage_input_tokens = [2], usage_total_tokens = 2\<rparr>\<rparr>
     [onnx_request \<lparr>cost_items = 1, cost_tokens = 2, cost_max_sequence_length = 2\<rparr>] [1]"
proof -
  let ?r = "onnx_request \<lparr>cost_items = 1, cost_tokens = 2, cost_max_sequence_length = 2\<rparr>"
  have count: "token_count onnx_demo_engine default_options (lit ''x'') = 2"
    using demo_encode by (auto simp: token_count_def onnx_demo_engine_def enc_len_def demo_encoding_def split: sum.splits)
  have "valid_engine_output \<lparr>out_vectors = [[1, 2, 3, 4]], out_model = lm_identity demo_loaded,
       out_usage = \<lparr>usage_input_tokens = [2], usage_total_tokens = 2\<rparr>\<rparr> [?r] (input_sizes [?r])"
    by (rule onnx_output_is_accepted [where s = onnx_demo_engine and ?w1.0 = idle_world and ?w2.0 = idle_world and ?w3.0 = idle_world
          and model = "lit ''a/b''" and opts = default_options and control = "Control (Single 0) None None"])
      (auto simp: onnx_engine_def onnx_request_def batch_inputs_def demo_embed demo_contract onnx_demo_preflight count)
  then show ?thesis by (simp add: input_sizes_def onnx_request_def)
qed

text \<open>
  An input that encodes to nothing is admitted by preflight, which counts one token for it, but then
  the runtime refuses the engine's output, because the reported usage counts none: the two token counts
  of a single request disagree.
\<close>

theorem empty_encoding_is_refused:
  assumes "en_embed (onnx_engine s w1 w2 w3) model (rq_inputs r) control opts = Some (Ok out)"
    and "en_preflight (onnx_engine s w1 w2 w3) model (rq_inputs r) opts = Some (Ok (rq_cost r))"
    and "i \<in> set (rq_inputs r)" and "token_count s opts i = 0"
  shows "valid_engine_output out [r] (input_sizes [r]) = False"
proof -
  have pre: "preflight_with_options s model (rq_inputs r) opts = Inr (rq_cost r)" using assms(2) by (simp add: onnx_engine_def)
  from preflight_Ok [OF pre] obtain m es where cur: "requested_current s model = Inr m"
    and es: "collect_results (encode_input m opts) (rq_inputs r) = Inr es"
    and cost: "cost_tokens (rq_cost r) = sum_list (map (\<lambda>e. max (enc_len e) 1) es)" by metis
  note counts = collect_counts [OF requested_current_loaded [OF cur] es]
  have "0 \<in> set (map enc_len es)" using assms(3,4) by (force simp: counts)
  then have "sum_list (map enc_len es) < sum_list (map (\<lambda>e. max (enc_len e) 1) es)"
  proof (induction es)
    case (Cons e es)
    have "sum_list (map enc_len es) \<le> sum_list (map (\<lambda>e. max (enc_len e) 1) es)" by (induction es) auto
    then show ?case using Cons by auto
  qed simp
  then have "sum_list (map (token_count s opts) (rq_inputs r)) \<noteq> cost_tokens (rq_cost r)" by (simp add: cost counts)
  then show ?thesis
    using onnx.embed_counts [OF assms(1)]
    by (auto simp: valid_engine_output_def input_sizes_def slice_def checked_sum_from_eq split: option.split if_split)
qed

definition blank_loaded :: loaded_model where
  "blank_loaded = demo_loaded\<lparr>lm_encode := (\<lambda>_. Ok (demo_encoding [])),
     lm_session := demo_session\<lparr>ss_run := (\<lambda>_. Ok (\<lambda>_. Some (Ok \<lparr>nd_shape = [1, 4], nd_data = [1, 2, 3, 4]\<rparr>)))\<rparr>\<rparr>"

definition blank_engine :: engine_state where
  "blank_engine = onnx_demo_engine\<lparr>es_loaded := Some blank_loaded\<rparr>"

lemma blank_run: "model_run blank_loaded [demo_encoding []] None False = Some (Ok [[1, 2, 3, 4]])"
proof -
  have finite: "list_all f32_is_finite [1, 2, 3, 4]"
    by (simp add: f32_is_finite_mag f32_mag_def f32_inf_def)
  show ?thesis
    by (simp add: model_run_def batch_sequence_def enc_len_def demo_encoding_def checked_mul_def word_limit_def then_opt_def run_padded_def)
      (simp add: blank_loaded_def demo_loaded_def demo_session_def then_opt_def tensor_error_def valid_runtime_output_shape_def
        demo_manifest_def finish_vector_def finite [simplified] output_vectors_def row_of_def nd_get_def nd_offset_def upt_rec)
qed

lemma blank_encode: "encode_input blank_loaded default_options (lit ''x'') = Ok (demo_encoding [])"
  by (simp add: encode_input_def model_encode_def default_options_def blank_loaded_def demo_loaded_def demo_manifest_def demo_encoding_def enc_len_def)

lemma blank_current: "requested_current blank_engine (lit ''a/b'') = Ok blank_loaded"
  by (simp add: requested_current_def current_model_def lock_state_def onnx_demo_engine_def blank_engine_def)
    (simp add: blank_loaded_def demo_loaded_def demo_manifest_def)

lemma blank_options: "opt_normalize default_options = None" "opt_dimensions default_options = None"
    "oc_normalize (lm_contract blank_loaded) = False" "validate_dimensions mf None = Ok ()"
    "tok_max_tokens (mf_tokenizer (lm_manifest blank_loaded)) = 8" "enc_len (demo_encoding []) = 0"
  by (simp_all add: default_options_def blank_loaded_def demo_loaded_def demo_manifest_def validate_dimensions_def option_holds_def
      enc_len_def demo_encoding_def)

lemma blank_embed:
  "embed_with_options blank_engine (lit ''a/b'') [lit ''x''] (Control (Single 0) None None) default_options idle_world idle_world idle_world =
     Some (Ok \<lparr>out_vectors = [[1, 2, 3, 4]], out_model = lm_identity blank_loaded,
       out_usage = \<lparr>usage_input_tokens = [0], usage_total_tokens = 0\<rparr>\<rparr>)"
proof -
  have "check_control idle_world (Control (Single 0) None None) = Ok ()"
    by (simp add: check_control_def idle_world_def flagged_def cell_at_def signal_default_def)
  then show ?thesis
    by (simp add: embed_with_options_def then_opt_def blank_current blank_encode blank_run blank_options usage_new_def checked_add_def)
qed

lemma blank_preflight: "preflight_with_options blank_engine (lit ''a/b'') [lit ''x''] default_options =
    Ok \<lparr>cost_items = 1, cost_tokens = 1, cost_max_sequence_length = 1\<rparr>"
  by (simp add: preflight_with_options_def blank_current blank_encode blank_options checked_add_def checked_mul_def cost_new_def word_limit_def)

lemma blank_count: "token_count blank_engine default_options (lit ''x'') = 0"
  by (simp add: token_count_def blank_engine_def blank_encode blank_options)

theorem empty_encoding_is_refused_witness:
  "valid_engine_output \<lparr>out_vectors = [[1, 2, 3, 4]], out_model = lm_identity blank_loaded,
       out_usage = \<lparr>usage_input_tokens = [0], usage_total_tokens = 0\<rparr>\<rparr>
     [onnx_request \<lparr>cost_items = 1, cost_tokens = 1, cost_max_sequence_length = 1\<rparr>]
     (input_sizes [onnx_request \<lparr>cost_items = 1, cost_tokens = 1, cost_max_sequence_length = 1\<rparr>]) = False"
  by (rule empty_encoding_is_refused [where s = blank_engine and ?w1.0 = idle_world and ?w2.0 = idle_world and ?w3.0 = idle_world
        and model = "lit ''a/b''" and opts = default_options and control = "Control (Single 0) None None" and i = "lit ''x''"])
    (simp_all add: onnx_engine_def onnx_request_def blank_embed blank_preflight [simplified] blank_count)

end
