(* ===== verification/Catalog.thy ===== *)
theory Catalog
  imports Manifest Registry
begin

text \<open>
  The model catalog of \<^verbatim>\<open>impossible-server/src/application.rs\<close>: ordered maps (\<^verbatim>\<open>BTreeMap\<close>) as sorted
  association lists, the construction of a catalog from manifests and aliases, and the resolution of
  a requested name. Strings are ordered by their bytes, which is the order of their scalar values.
\<close>

section \<open>Ordered maps\<close>

fun bt_insert :: "'k::linorder \<Rightarrow> 'v \<Rightarrow> ('k, 'v) registry \<Rightarrow> ('k, 'v) registry" where
  "bt_insert k v [] = [(k, v)]"
| "bt_insert k v ((k', v') # r) =
     (if k < k' then (k, v) # (k', v') # r
      else if k = k' then (k, v) # r
      else (k', v') # bt_insert k v r)"

definition bt_remove :: "'k::linorder \<Rightarrow> ('k, 'v) registry \<Rightarrow> ('k, 'v) registry" where
  "bt_remove k r = filter (\<lambda>kv. fst kv \<noteq> k) r"

definition bt_wf :: "('k::linorder, 'v) registry \<Rightarrow> bool" where
  "bt_wf r \<longleftrightarrow> sorted_wrt (<) (map fst r)"

lemma set_bt_insert: "bt_wf r \<Longrightarrow> set (bt_insert k v r) = insert (k, v) {kv \<in> set r. fst kv \<noteq> k}"
  by (induction k v r rule: bt_insert.induct) (auto simp: bt_wf_def)

lemma keys_bt_insert: "fst ` set (bt_insert k v r) = insert k (fst ` set r)"
  by (induction k v r rule: bt_insert.induct) auto

lemma bt_wf_insert: "bt_wf r \<Longrightarrow> bt_wf (bt_insert k v r)"
proof (induction k v r rule: bt_insert.induct)
  case (2 k v k' v' r)
  have "x \<in> fst ` set (bt_insert k v r) \<Longrightarrow> x = k \<or> x \<in> fst ` set r" for x
    by (simp add: keys_bt_insert)
  with 2 show ?case by (fastforce simp: bt_wf_def)
qed (simp add: bt_wf_def)

interpretation bt: keyed_registry bt_insert bt_remove reg_get "[]" bt_wf
proof unfold_locales
  show "reg_get (bt_insert k v r) k' = (if k' = k then Some v else reg_get r k')" for k k' :: 'a and v :: 'b and r
    by (induction k v r rule: bt_insert.induct) (auto simp: reg_get_def)
  show "reg_get (bt_remove k r) k' = (if k' = k then None else reg_get r k')" for k k' :: 'a and r :: "('a \<times> 'b) list"
    by (induction r) (auto simp: reg_get_def bt_remove_def)
  show "bt_wf (bt_remove k r)" if "bt_wf r" for k :: 'a and r :: "('a \<times> 'b) list"
    using that by (induction r) (auto simp: bt_wf_def bt_remove_def)
  show "bt_wf []" "reg_get [] k = None" for k :: 'a
    by (simp_all add: bt_wf_def reg_get_def)
qed (rule bt_wf_insert)

lemma bt_contains_insert [simp]: "reg_contains (bt_insert k v r) k' \<longleftrightarrow> k' = k \<or> reg_contains r k'"
  by (simp add: reg_contains_def bt.get_ins)

lemma bt_get_Some: "bt_wf r \<Longrightarrow> reg_get r k = Some v \<longleftrightarrow> (k, v) \<in> set r"
  by (simp add: reg_get_Some_iff reg_wf_def bt_wf_def strict_sorted_iff)

section \<open>Construction and resolution\<close>

definition max_model_name_bytes :: nat where
  "max_model_name_bytes = 512"

datatype catalog_error = Cat_InvalidEntry | Cat_NameCollision

record model_catalog =
  cat_manifests :: "(rstr, manifest) registry"
  cat_aliases :: "(rstr, rstr) registry"
  cat_aliases_by_model :: "(rstr, rstr list) registry"

definition valid_model_name :: "rstr \<Rightarrow> bool" where
  "valid_model_name value \<longleftrightarrow>
     value \<noteq> [] \<and> str_len value \<le> max_model_name_bytes \<and> trim value = value \<and> \<not> list_ex is_control value"

text \<open>The two loops of \<^verbatim>\<open>ModelCatalog::new\<close>.\<close>

fun insert_manifests ::
  "(rstr \<Rightarrow> url option) \<Rightarrow> manifest list \<Rightarrow> (rstr, manifest) registry \<Rightarrow> catalog_error + (rstr, manifest) registry" where
  "insert_manifests parse_url [] manifest_map = Ok manifest_map"
| "insert_manifests parse_url (m # ms) manifest_map =
     (if \<not> is_ok (manifest_validate parse_url m) then Err Cat_InvalidEntry
      else if \<not> valid_model_name (mf_canonical_id m) \<or> reg_contains manifest_map (mf_canonical_id m)
      then Err Cat_NameCollision
      else insert_manifests parse_url ms (bt_insert (mf_canonical_id m) m manifest_map))"

text \<open>\<^verbatim>\<open>aliases_by_model.entry(canonical).or_default().push(alias)\<close>.\<close>

definition push_alias :: "rstr \<Rightarrow> rstr \<Rightarrow> (rstr, rstr list) registry \<Rightarrow> (rstr, rstr list) registry" where
  "push_alias canonical alias by_model =
     bt_insert canonical ((case reg_get by_model canonical of None \<Rightarrow> [] | Some as \<Rightarrow> as) @ [alias]) by_model"

fun insert_aliases ::
  "(rstr, manifest) registry \<Rightarrow> (rstr \<times> rstr) list \<Rightarrow> (rstr, rstr) registry \<Rightarrow> (rstr, rstr list) registry \<Rightarrow>
   catalog_error + (rstr, rstr) registry \<times> (rstr, rstr list) registry" where
  "insert_aliases manifest_map [] alias_map by_model = Ok (alias_map, by_model)"
| "insert_aliases manifest_map ((alias, canonical) # as) alias_map by_model =
     (if \<not> valid_model_name alias \<or> reg_contains manifest_map alias
         \<or> \<not> reg_contains manifest_map canonical \<or> reg_contains alias_map alias
      then Err Cat_NameCollision
      else insert_aliases manifest_map as (bt_insert alias canonical alias_map)
             (push_alias canonical alias by_model))"

definition catalog_new ::
  "(rstr \<Rightarrow> url option) \<Rightarrow> manifest list \<Rightarrow> (rstr \<times> rstr) list \<Rightarrow> catalog_error + model_catalog" where
  "catalog_new parse_url manifests aliases =
     and_then (insert_manifests parse_url manifests []) (\<lambda>manifest_map.
     and_then (reject_if (manifest_map = []) Cat_InvalidEntry) (\<lambda>_.
     and_then (insert_aliases manifest_map aliases [] []) (\<lambda>(alias_map, by_model).
     Ok \<lparr>cat_manifests = manifest_map, cat_aliases = alias_map,
         cat_aliases_by_model = map (\<lambda>(k, as). (k, sort as)) by_model\<rparr>)))"

definition curated_aliases :: "(rstr \<times> rstr) list" where
  "curated_aliases =
     [(lit ''bge-small-en'', lit ''BAAI/bge-small-en-v1.5''),
      (lit ''bge-small-en-v1.5'', lit ''BAAI/bge-small-en-v1.5''),
      (lit ''multilingual-e5-small'', lit ''intfloat/multilingual-e5-small''),
      (lit ''nomic-embed-text'', lit ''nomic-ai/nomic-embed-text-v1.5''),
      (lit ''nomic-embed-text-v1.5'', lit ''nomic-ai/nomic-embed-text-v1.5'')]"

text \<open>The committed manifests are data decoded by the JSON library: the argument \<open>committed\<close>.\<close>

definition catalog_curated ::
  "(rstr \<Rightarrow> url option) \<Rightarrow> model_error + manifest list \<Rightarrow> catalog_error + model_catalog" where
  "catalog_curated parse_url committed =
     and_then (map_err (\<lambda>_. Cat_InvalidEntry) committed) (\<lambda>ms. catalog_new parse_url ms curated_aliases)"

definition catalog_resolve :: "model_catalog \<Rightarrow> rstr \<Rightarrow> manifest option" where
  "catalog_resolve c requested =
     (if \<not> valid_model_name requested then None
      else (case reg_get (cat_manifests c) requested of Some m \<Rightarrow> Some m
        | None \<Rightarrow> Option.bind (reg_get (cat_aliases c) requested) (reg_get (cat_manifests c))))"

definition catalog_iter :: "model_catalog \<Rightarrow> (rstr \<times> manifest) list" where
  "catalog_iter c = cat_manifests c"

definition aliases_for :: "model_catalog \<Rightarrow> rstr \<Rightarrow> rstr list" where
  "aliases_for c canonical = (case reg_get (cat_aliases_by_model c) canonical of None \<Rightarrow> [] | Some as \<Rightarrow> as)"

section \<open>What a catalog holds\<close>

text \<open>The names a listing shows for a model.\<close>

definition listed_names :: "model_catalog \<Rightarrow> manifest \<Rightarrow> rstr list" where
  "listed_names c m = mf_canonical_id m # aliases_for c (mf_canonical_id m)"

text \<open>The inputs that \<^verbatim>\<open>ModelCatalog::new\<close> accepts.\<close>

definition catalog_admissible :: "(rstr \<Rightarrow> url option) \<Rightarrow> manifest list \<Rightarrow> (rstr \<times> rstr) list \<Rightarrow> bool" where
  "catalog_admissible parse_url ms as \<longleftrightarrow>
     ms \<noteq> [] \<and> distinct (map mf_canonical_id ms @ map fst as) \<and>
     (\<forall>m \<in> set ms. is_ok (manifest_validate parse_url m) \<and> valid_model_name (mf_canonical_id m)) \<and>
     (\<forall>(a, i) \<in> set as. valid_model_name a \<and> i \<in> mf_canonical_id ` set ms)"

lemma insert_manifests_Ok:
  "insert_manifests parse_url ms acc = Inr r \<longleftrightarrow>
     (\<forall>m \<in> set ms. is_ok (manifest_validate parse_url m) \<and> valid_model_name (mf_canonical_id m) \<and>
        \<not> reg_contains acc (mf_canonical_id m)) \<and>
     distinct (map mf_canonical_id ms) \<and> r = fold (\<lambda>m. bt_insert (mf_canonical_id m) m) ms acc"
  by (induction ms arbitrary: acc) (auto simp: image_iff)

lemma insert_aliases_Ok:
  "insert_aliases mm as am bm = Inr r \<longleftrightarrow>
     (\<forall>(a, i) \<in> set as. valid_model_name a \<and> \<not> reg_contains mm a \<and> reg_contains mm i \<and> \<not> reg_contains am a) \<and>
     distinct (map fst as) \<and>
     r = (fold (\<lambda>(a, i). bt_insert a i) as am, fold (\<lambda>(a, i). push_alias i a) as bm)"
proof (induction as arbitrary: am bm)
  case (Cons p as)
  obtain a i where p: "p = (a, i)" by fastforce
  have "(\<forall>(a', i') \<in> set as. valid_model_name a' \<and> \<not> reg_contains mm a' \<and> reg_contains mm i' \<and>
        \<not> reg_contains (bt_insert a i am) a') \<longleftrightarrow>
      (\<forall>(a', i') \<in> set as. valid_model_name a' \<and> \<not> reg_contains mm a' \<and> reg_contains mm i' \<and>
        \<not> reg_contains am a') \<and> a \<notin> fst ` set as"
    by (fastforce simp: image_iff)
  then show ?case
    unfolding p insert_aliases.simps by (simp add: Cons.IH) blast
qed auto

lemma manifests_fold:
  assumes "distinct (map mf_canonical_id ms)" "\<forall>m \<in> set ms. \<not> reg_contains acc (mf_canonical_id m)"
  shows "reg_get (fold (\<lambda>m. bt_insert (mf_canonical_id m) m) ms acc) k = Some v \<longleftrightarrow>
     v \<in> set ms \<and> mf_canonical_id v = k \<or> reg_get acc k = Some v"
  using assms
proof (induction ms arbitrary: acc)
  case (Cons m ms)
  then have "\<forall>m' \<in> set ms. \<not> reg_contains (bt_insert (mf_canonical_id m) m acc) (mf_canonical_id m')"
    by (auto simp: image_iff)
  with Cons show ?case
    by (auto simp: bt.get_ins reg_contains_def)
qed simp

lemma aliases_fold:
  assumes "distinct (map fst as)" "\<forall>(a, i) \<in> set as. \<not> reg_contains acc a"
  shows "reg_get (fold (\<lambda>(a, i). bt_insert a i) as acc) k = Some v \<longleftrightarrow>
     (k, v) \<in> set as \<or> reg_get acc k = Some v"
  using assms
proof (induction as arbitrary: acc)
  case (Cons p as)
  obtain a i where p: "p = (a, i)" by fastforce
  have "\<forall>(a', i') \<in> set as. \<not> reg_contains (bt_insert a i acc) a'"
    using Cons.prems p by (fastforce simp: image_iff)
  then have "reg_get (fold (\<lambda>(a, i). bt_insert a i) as (bt_insert a i acc)) k = Some v \<longleftrightarrow>
      (k, v) \<in> set as \<or> (if k = a then v = i else reg_get acc k = Some v)"
    using Cons.IH [of "bt_insert a i acc"] Cons.prems(1) by (auto simp: bt.get_ins)
  moreover have "reg_get acc a = None" using Cons.prems(2) p by (simp add: reg_contains_def)
  ultimately show ?case
    unfolding p by (auto split: if_split_asm)
qed simp

text \<open>The names pushed for one model, in order.\<close>

lemma push_fold:
  "(case reg_get (fold (\<lambda>(a, i). push_alias i a) as bm) k of None \<Rightarrow> [] | Some xs \<Rightarrow> xs) =
     (case reg_get bm k of None \<Rightarrow> [] | Some xs \<Rightarrow> xs) @ map fst (filter (\<lambda>(a, i). i = k) as)"
  by (induction as arbitrary: bm) (auto simp: push_alias_def bt.get_ins)

lemma reg_get_sorted:
  "reg_get (map (\<lambda>(k, as). (k, sort as)) r) k = map_option sort (reg_get r k)"
  by (induction r) (auto simp: reg_get_def)

lemma bt_wf_fold: "bt_wf acc \<Longrightarrow> bt_wf (fold (\<lambda>x. bt_insert (f x) (g x)) xs acc)"
  by (induction xs arbitrary: acc) (simp_all add: bt_wf_insert)


text \<open>Everything a constructed catalog holds, in terms of its inputs.\<close>

lemma catalog_newE:
  assumes "catalog_new parse_url ms as = Inr c"
  shows catalog_new_admissible: "catalog_admissible parse_url ms as"
    and catalog_manifests: "reg_get (cat_manifests c) k = Some m \<longleftrightarrow> m \<in> set ms \<and> mf_canonical_id m = k"
    and catalog_aliases: "reg_get (cat_aliases c) k = Some i \<longleftrightarrow> (k, i) \<in> set as"
    and catalog_aliases_for: "aliases_for c i = sort (map fst (filter (\<lambda>(a, j). j = i) as))"
    and catalog_sorted: "bt_wf (cat_manifests c)"
proof -
  define mm where "mm = fold (\<lambda>m. bt_insert (mf_canonical_id m) m) ms []"
  define am where "am = fold (\<lambda>(a, i). bt_insert a i) as []"
  define bm where "bm = fold (\<lambda>(a, i). push_alias i a) as []"
  have ms: "\<forall>m \<in> set ms. is_ok (manifest_validate parse_url m) \<and> valid_model_name (mf_canonical_id m)"
      "distinct (map mf_canonical_id ms)" "mm \<noteq> []"
    and as: "\<forall>(a, i) \<in> set as. valid_model_name a \<and> \<not> reg_contains mm a \<and> reg_contains mm i" "distinct (map fst as)"
    and c: "c = \<lparr>cat_manifests = mm, cat_aliases = am, cat_aliases_by_model = map (\<lambda>(k, as). (k, sort as)) bm\<rparr>"
    using assms
    by (auto simp: catalog_new_def and_then_eq_Inr insert_manifests_Ok insert_aliases_Ok reject_if_eq_Inr
        mm_def am_def bm_def)
  have get: "reg_get mm k = Some v \<longleftrightarrow> v \<in> set ms \<and> mf_canonical_id v = k" for k v
    using manifests_fold [OF ms(2), of "[]" k v] by (simp add: mm_def reg_get_def)
  then have has: "reg_contains mm k \<longleftrightarrow> k \<in> mf_canonical_id ` set ms" for k
    unfolding reg_contains_def by (auto simp: image_iff simp flip: not_None_eq)
  show "reg_get (cat_manifests c) k = Some m \<longleftrightarrow> m \<in> set ms \<and> mf_canonical_id m = k"
    using get by (simp add: c)
  show "reg_get (cat_aliases c) k = Some i \<longleftrightarrow> (k, i) \<in> set as"
    using aliases_fold [OF as(2), of "[]" k i] by (simp add: c am_def reg_get_def)
  show "aliases_for c i = sort (map fst (filter (\<lambda>(a, j). j = i) as))"
  proof -
    have "(case reg_get bm i of None \<Rightarrow> [] | Some xs \<Rightarrow> xs) = map fst (filter (\<lambda>(a, j). j = i) as)"
      using push_fold [of as "[]" i] by (simp add: bm_def)
    then show ?thesis
      by (cases "reg_get bm i") (auto simp: aliases_for_def c reg_get_sorted)
  qed
  show "bt_wf (cat_manifests c)"
    by (simp add: c mm_def bt_wf_fold [where f = mf_canonical_id and g = "\<lambda>m. m"] bt.wf_emp)
  have "ms \<noteq> []" using ms(3) by (auto simp: mm_def)
  moreover have "mf_canonical_id ` set ms \<inter> fst ` set as = {}" using as(1) has by fastforce
  ultimately show "catalog_admissible parse_url ms as"
    using ms as has by (auto simp: catalog_admissible_def)
qed


lemma catalog_new_accepts:
  assumes "catalog_admissible parse_url ms as"
  shows "\<exists>c. catalog_new parse_url ms as = Inr c"
proof -
  define mm where "mm = fold (\<lambda>m. bt_insert (mf_canonical_id m) m) ms []"
  have ms: "distinct (map mf_canonical_id ms)" "ms \<noteq> []"
    using assms by (simp_all add: catalog_admissible_def)
  have get: "reg_get mm k = Some v \<longleftrightarrow> v \<in> set ms \<and> mf_canonical_id v = k" for k v
    using manifests_fold [OF ms(1), of "[]" k v] by (simp add: mm_def reg_get_def)
  then have has: "reg_contains mm k \<longleftrightarrow> k \<in> mf_canonical_id ` set ms" for k
    unfolding reg_contains_def by (auto simp: image_iff simp flip: not_None_eq)
  have "mm \<noteq> []" using get [of _ "hd ms"] ms(2) by (metis list.set_sel(1) option.distinct(1) bt.get_emp)
  moreover have "insert_manifests parse_url ms [] = Inr mm"
    using assms by (simp add: insert_manifests_Ok catalog_admissible_def mm_def)
  moreover have "\<exists>r. insert_aliases mm as [] [] = Inr r"
  proof -
    have "mf_canonical_id ` set ms \<inter> fst ` set as = {}" "distinct (map fst as)"
      and ok: "\<forall>(a, i) \<in> set as. valid_model_name a \<and> i \<in> mf_canonical_id ` set ms"
      using assms by (simp_all add: catalog_admissible_def)
    moreover from this have "\<forall>(a, i) \<in> set as. a \<notin> mf_canonical_id ` set ms" by force
    ultimately show ?thesis
      unfolding insert_aliases_Ok by (auto simp: has)
  qed
  ultimately show ?thesis
    by (auto simp: catalog_new_def)
qed

text \<open>
  The catalog is built exactly from a non-empty list of valid manifests whose canonical ids and
  aliases are acceptable names, all different, with every alias naming a listed id; anything else is
  refused.
\<close>

theorem catalog_accepts_exactly:
  "(\<exists>c. catalog_new parse_url ms as = Inr c) \<longleftrightarrow> catalog_admissible parse_url ms as"
  using catalog_new_accepts catalog_new_admissible by blast

lemma resolve_iff:
  assumes "catalog_new parse_url ms as = Inr c"
  shows "catalog_resolve c n = Some m \<longleftrightarrow>
     m \<in> set ms \<and> (n = mf_canonical_id m \<or> (n, mf_canonical_id m) \<in> set as)"
proof -
  note held = catalog_manifests [OF assms] catalog_aliases [OF assms]
  have adm: "catalog_admissible parse_url ms as" by (rule catalog_new_admissible [OF assms])
  have names: "x \<in> set ms \<Longrightarrow> valid_model_name (mf_canonical_id x)" "(a, i) \<in> set as \<Longrightarrow> valid_model_name a"
    "x \<in> set ms \<Longrightarrow> y \<in> set ms \<Longrightarrow> mf_canonical_id x = mf_canonical_id y \<Longrightarrow> x = y"
    for x y a i
    using adm by (auto simp: catalog_admissible_def distinct_map inj_on_def image_iff)
  have apart: "a \<noteq> mf_canonical_id x" if "(a, i) \<in> set as" "x \<in> set ms" for x a i
    using adm that by (force simp: catalog_admissible_def)
  show ?thesis
  proof (cases "reg_get (cat_manifests c) n")
    case None
    then have "mf_canonical_id x \<noteq> n" if "x \<in> set ms" for x using that held(1) [of n x] by auto
    then show ?thesis
      using None names(2) by (auto simp: catalog_resolve_def held bind_eq_Some_conv)
  next
    case (Some x)
    then have x: "x \<in> set ms" "mf_canonical_id x = n" using held(1) by auto
    then have "valid_model_name n" using names(1) by auto
    then show ?thesis
      using Some x names(3) by (auto simp: catalog_resolve_def dest: apart)
  qed
qed

text \<open>
  Names round-trip: the names listed for a model (its canonical id, then its aliases in order) are
  exactly the names that resolve to it, each listed once; the iteration shows every model once, in the
  order of the canonical ids.
\<close>

theorem listed_names_round_trip:
  assumes "catalog_new parse_url ms as = Inr c"
  shows "(\<forall>m n. catalog_resolve c n = Some m \<longleftrightarrow> m \<in> snd ` set (catalog_iter c) \<and> n \<in> set (listed_names c m)) \<and>
    (\<forall>m \<in> snd ` set (catalog_iter c). distinct (listed_names c m) \<and> sorted (tl (listed_names c m))) \<and>
    sorted_wrt (<) (map fst (catalog_iter c)) \<and> set (catalog_iter c) = (\<lambda>m. (mf_canonical_id m, m)) ` set ms"
proof -
  have adm: "catalog_admissible parse_url ms as" by (rule catalog_new_admissible [OF assms])
  have wf: "bt_wf (cat_manifests c)" by (rule catalog_sorted [OF assms])
  then have it: "set (catalog_iter c) = (\<lambda>m. (mf_canonical_id m, m)) ` set ms"
    using catalog_manifests [OF assms] by (fastforce simp: catalog_iter_def bt_get_Some)
  have ms: "snd ` set (catalog_iter c) = set ms" unfolding it by force
  have "catalog_resolve c n = Some m \<longleftrightarrow> m \<in> set ms \<and> n \<in> set (listed_names c m)" for m n
    by (auto simp: listed_names_def catalog_aliases_for [OF assms] resolve_iff [OF assms] image_iff)
  moreover have "distinct (listed_names c m) \<and> sorted (tl (listed_names c m))" if m: "m \<in> set ms" for m
  proof -
    have "distinct (map fst (filter (\<lambda>(a, j). j = mf_canonical_id m) as))"
      using adm by (simp add: catalog_admissible_def distinct_map_filter)
    moreover have "mf_canonical_id m \<notin> fst ` set as"
      using adm m by (auto simp: catalog_admissible_def)
    ultimately show ?thesis
      by (auto simp: listed_names_def catalog_aliases_for [OF assms])
  qed
  ultimately show ?thesis
    using wf it unfolding ms by (simp add: catalog_iter_def bt_wf_def)
qed

definition demo_catalog :: model_catalog where
  "demo_catalog = \<lparr>cat_manifests = [(lit ''a/b'', demo_manifest)], cat_aliases = [(lit ''b'', lit ''a/b'')],
     cat_aliases_by_model = [(lit ''a/b'', [lit ''b''])]\<rparr>"

lemma demo_names: "valid_model_name (lit ''a/b'')" "valid_model_name (lit ''b'')"
  by (simp_all add: valid_model_name_def lit_def str_len_def utf8_len_def max_model_name_bytes_def trim_def
      is_whitespace_def is_control_def)

lemma demo_catalog_new:
  "catalog_new (\<lambda>_. Some demo_url) [demo_manifest] [(lit ''b'', lit ''a/b'')] = Inr demo_catalog"
proof -
  have "mf_canonical_id demo_manifest = lit ''a/b''" by (simp add: demo_manifest_def)
  then show ?thesis
    by (simp add: catalog_new_def demo_manifest_valid demo_names demo_catalog_def reg_contains_def reg_get_def
        push_alias_def)
qed

theorem listed_names_round_trip_witness:
  "catalog_resolve demo_catalog (lit ''b'') = Some demo_manifest \<and>
   sorted_wrt (<) (map fst (catalog_iter demo_catalog))"
proof -
  have "lit ''b'' \<in> set (listed_names demo_catalog demo_manifest)"
    by (simp add: listed_names_def aliases_for_def demo_catalog_def demo_manifest_def reg_get_def)
  moreover have "demo_manifest \<in> snd ` set (catalog_iter demo_catalog)"
    by (simp add: catalog_iter_def demo_catalog_def)
  ultimately show ?thesis
    using listed_names_round_trip [OF demo_catalog_new] by blast
qed

end
