(* ===== verification/Application.thy ===== *)
theory Application
  imports Catalog Lifecycle Config
begin

text \<open>
  The application service of \<^verbatim>\<open>impossible-server/src/application.rs\<close>: its error taxonomy, the state shared
  by the transports, embedding, listing, install, load, unload, delete, preload with the strict
  transaction, and shutdown. An operation that suspends is cut at its suspension points, so that
  theory Application_Safety can interleave the pieces. What the model store answers is an argument.
\<close>

section \<open>Errors\<close>

datatype application_error_kind =
    AK_InvalidRequest | AK_ModelUnavailable | AK_Overloaded | AK_Cancelled | AK_DeadlineExceeded
  | AK_ShuttingDown | AK_Internal

record application_error =
  ae_kind :: application_error_kind
  ae_public :: public_error

definition application_error_new :: "application_error_kind \<Rightarrow> error_code \<Rightarrow> application_error" where
  "application_error_new kind code = \<lparr>ae_kind = kind, ae_public = for_code code\<rparr>"

definition application_error_display :: "application_error \<Rightarrow> rstr" where
  "application_error_display e = pe_message (ae_public e)"

definition from_engine_failure :: "engine_failure \<Rightarrow> application_error" where
  "from_engine_failure f =
     (let public = ef_public f;
          kind = (case pe_code public of
              InvalidRequest \<Rightarrow> AK_InvalidRequest
            | ModelUnavailable \<Rightarrow> AK_ModelUnavailable
            | QueueFull \<Rightarrow> AK_Overloaded
            | Cancelled \<Rightarrow> AK_Cancelled
            | DeadlineExceeded \<Rightarrow> AK_DeadlineExceeded
            | _ \<Rightarrow> AK_Internal)
      in \<lparr>ae_kind = kind, ae_public = public\<rparr>)"

fun from_lifecycle_error :: "lifecycle_error \<Rightarrow> application_error" where
  "from_lifecycle_error ShuttingDown = application_error_new AK_ShuttingDown ModelUnavailable"
| "from_lifecycle_error LE_NotFound = application_error_new AK_ModelUnavailable ModelUnavailable"
| "from_lifecycle_error LoadFailed = application_error_new AK_ModelUnavailable ModelUnavailable"
| "from_lifecycle_error InvalidPolicy = application_error_new AK_InvalidRequest InvalidRequest"
| "from_lifecycle_error AlreadyLoaded = application_error_new AK_InvalidRequest InvalidRequest"
| "from_lifecycle_error InUse = application_error_new AK_InvalidRequest InvalidRequest"
| "from_lifecycle_error InitializationFailed = application_error_new AK_Internal Internal"
| "from_lifecycle_error InstallFailed = application_error_new AK_Internal Internal"
| "from_lifecycle_error DeleteFailed = application_error_new AK_Internal Internal"

definition catalog_request_error :: application_error where
  "catalog_request_error = application_error_new AK_InvalidRequest InvalidRequest"

definition infrastructure_error :: application_error where
  "infrastructure_error = application_error_new AK_Internal Internal"

section \<open>State\<close>

text \<open>The hash sets behind their locks. The store and the installer are the arguments of the operations.\<close>

record application =
  ap_runtime :: runtime
  ap_catalog :: model_catalog
  ap_loaded :: "rstr set lock"
  ap_preload_pending :: "rstr set lock"
  ap_shutting_down :: bool
  ap_preload_models :: "rstr list"
  ap_startup_policy :: startup_policy
  ap_request_timeout :: nat
  ap_shutdown_timeout :: nat

text \<open>\<^verbatim>\<open>lock.read().is_ok_and(|set| set.contains(x))\<close>.\<close>

definition lock_contains :: "'a set lock \<Rightarrow> 'a \<Rightarrow> bool" where
  "lock_contains l x = (case lock_read l of None \<Rightarrow> False | Some s \<Rightarrow> x \<in> s)"

fun resolve_preloads ::
  "model_catalog \<Rightarrow> rstr list \<Rightarrow> rstr set \<Rightarrow> rstr list \<Rightarrow> application_error + rstr list" where
  "resolve_preloads catalog [] seen resolved = Ok resolved"
| "resolve_preloads catalog (requested # later) seen resolved =
     (case catalog_resolve catalog requested of None \<Rightarrow> Err catalog_request_error
      | Some m \<Rightarrow>
          if mf_canonical_id m \<in> seen then Err catalog_request_error
          else resolve_preloads catalog later (insert (mf_canonical_id m) seen) (resolved @ [mf_canonical_id m]))"

definition default_batch_wait :: nat where
  "default_batch_wait = 4"

text \<open>\<open>store_opens\<close> and \<open>installer_builds\<close>: the answers of \<^verbatim>\<open>ModelStore::new\<close> and \<^verbatim>\<open>Installer::new\<close>.\<close>

definition with_catalog ::
  "bool \<Rightarrow> bool \<Rightarrow> server_config \<Rightarrow> model_catalog \<Rightarrow> application_error + application" where
  "with_catalog store_opens installer_builds config catalog =
     and_then (resolve_preloads catalog (sc_preload_models config) {} []) (\<lambda>resolved.
     and_then (reject_if (\<not> store_opens) infrastructure_error) (\<lambda>_.
     and_then (reject_if (\<not> installer_builds) infrastructure_error) (\<lambda>_.
     and_then (map_err from_lifecycle_error
         (runtime_new (policy_from_limits (sc_limits config) default_batch_wait))) (\<lambda>rt.
     Ok \<lparr>ap_runtime = rt, ap_catalog = catalog, ap_loaded = Held_By_Nobody {},
         ap_preload_pending = Held_By_Nobody {}, ap_shutting_down = False, ap_preload_models = resolved,
         ap_startup_policy = sc_startup_policy config,
         ap_request_timeout = lim_request_timeout (sc_limits config),
         ap_shutdown_timeout = lim_shutdown_timeout (sc_limits config)\<rparr>))))"

definition application_new ::
  "(rstr \<Rightarrow> url option) \<Rightarrow> model_error + manifest list \<Rightarrow> bool \<Rightarrow> bool \<Rightarrow> server_config \<Rightarrow>
   application_error + application" where
  "application_new parse_url committed store_opens installer_builds config =
     and_then (map_err (\<lambda>_. catalog_request_error) (validate parse_url config)) (\<lambda>_.
     and_then (map_err (\<lambda>_. infrastructure_error) (catalog_curated parse_url committed)) (\<lambda>catalog.
     with_catalog store_opens installer_builds config catalog))"

definition resolve_owned :: "application \<Rightarrow> rstr \<Rightarrow> application_error + manifest" where
  "resolve_owned app requested = ok_or catalog_request_error (catalog_resolve (ap_catalog app) requested)"

definition app_is_loaded :: "application \<Rightarrow> rstr \<Rightarrow> bool" where
  "app_is_loaded app canonical \<longleftrightarrow>
     \<not> ap_shutting_down app \<and> \<not> lock_contains (ap_preload_pending app) canonical
     \<and> lock_contains (ap_loaded app) canonical"

definition ensure_running :: "application \<Rightarrow> application_error + unit" where
  "ensure_running app = reject_if (ap_shutting_down app) (from_lifecycle_error ShuttingDown)"

section \<open>Embedding\<close>

record embed_command =
  cmd_model :: rstr
  cmd_input :: "rstr list"
  cmd_options :: embed_options
  cmd_cancellation :: token
  cmd_timeout :: "nat option"

text \<open>
  \<^verbatim>\<open>embed\<close> up to the queue: the clock counts nanoseconds, the configured timeout is in milliseconds,
  and \<open>instant_add\<close> is \<^verbatim>\<open>Instant::checked_add\<close>. The rest of the call waits for the ticket's answer and
  maps its failure with \<open>from_engine_failure\<close>.
\<close>

definition embed_timeout :: "nat option \<Rightarrow> nat \<Rightarrow> nat" where
  "embed_timeout requested request_timeout =
     min (case requested of None \<Rightarrow> request_timeout * 1000000 | Some t \<Rightarrow> t) (request_timeout * 1000000)"

definition app_embed ::
  "(nat \<Rightarrow> nat \<Rightarrow> nat option) \<Rightarrow> nat \<Rightarrow> embed_command \<Rightarrow> application \<Rightarrow>
   application \<times> (application_error + embed_ticket)" where
  "app_embed instant_add now command app =
     (case catalog_resolve (ap_catalog app) (cmd_model command) of
        None \<Rightarrow> (app, Err catalog_request_error)
      | Some m \<Rightarrow>
        if ap_shutting_down app
        then (app, Err (application_error_new AK_ModelUnavailable ModelUnavailable))
        else (case lock_read (ap_preload_pending app) of None \<Rightarrow> (app, Err infrastructure_error)
        | Some pending \<Rightarrow>
        if mf_canonical_id m \<in> pending
        then (app, Err (application_error_new AK_ModelUnavailable ModelUnavailable))
        else let timeout = embed_timeout (cmd_timeout command) (ap_request_timeout app) in
        if timeout = 0 then (app, Err catalog_request_error)
        else (case instant_add now timeout of None \<Rightarrow> (app, Err infrastructure_error)
        | Some deadline \<Rightarrow>
        (case embed_admit now (mf_canonical_id m) (cmd_input command) (cmd_options command)
            (cmd_cancellation command) (Some deadline) (ap_runtime app) of
          (rt, r) \<Rightarrow> (app\<lparr>ap_runtime := rt\<rparr>, map_err from_engine_failure r)))))"

section \<open>Listing\<close>

datatype semantic_status = Sem_Verified | Sem_Unverified
datatype runtime_status = Run_CatalogOnly | Run_Onnx
datatype load_status = Unloaded | Loaded

record model_info =
  mi_canonical_id :: rstr
  mi_revision :: rstr
  mi_aliases :: "rstr list"
  mi_native_dimensions :: nat
  mi_dimensions :: "nat list"
  mi_semantic_status :: semantic_status
  mi_installation_status :: model_verification_status
  mi_runtime_status :: runtime_status
  mi_load_status :: load_status

text \<open>\<open>status\<close> answers \<^verbatim>\<open>ModelStore::status\<close>.\<close>

definition app_model_info ::
  "(manifest \<Rightarrow> model_error + model_verification_status) \<Rightarrow> application \<Rightarrow> manifest \<Rightarrow>
   application_error + model_info" where
  "app_model_info status app m =
     and_then (map_err (\<lambda>_. infrastructure_error) (status m)) (\<lambda>installation_status.
     Ok \<lparr>mi_canonical_id = mf_canonical_id m,
         mi_revision = mf_revision m,
         mi_aliases = aliases_for (ap_catalog app) (mf_canonical_id m),
         mi_native_dimensions = dim_native (mf_dimensions m),
         mi_dimensions = dim_matryoshka (mf_dimensions m),
         mi_semantic_status =
           (case mf_semantic_verification m of Verified _ \<Rightarrow> Sem_Verified | Unverified _ \<Rightarrow> Sem_Unverified),
         mi_installation_status = installation_status,
         mi_runtime_status = (case mf_runtime m of CatalogOnly \<Rightarrow> Run_CatalogOnly | Onnx _ _ _ _ _ _ \<Rightarrow> Run_Onnx),
         mi_load_status = (if app_is_loaded app (mf_canonical_id m) then Loaded else Unloaded)\<rparr>)"

definition list_models ::
  "(manifest \<Rightarrow> model_error + model_verification_status) \<Rightarrow> application \<Rightarrow> application_error + model_info list" where
  "list_models status app =
     collect_results (\<lambda>(_, m). app_model_info status app m) (catalog_iter (ap_catalog app))"

section \<open>Install, load, unload and delete\<close>

text \<open>
  The four handlers resolve the name and check for shutdown, wait for the lifecycle mutex, and check
  again. \<open>lifecycle_begin\<close> is the part before the mutex.
\<close>

definition lifecycle_begin :: "application \<Rightarrow> rstr \<Rightarrow> application_error + manifest" where
  "lifecycle_begin app model =
     and_then (resolve_owned app model) (\<lambda>m. and_then (ensure_running app) (\<lambda>_. Ok m))"

text \<open>
  \<^verbatim>\<open>install\<close> under the mutex, before and after the wait for \<^verbatim>\<open>install_model\<close>, whose answer is \<open>result\<close>.
\<close>

definition install_start :: "application \<Rightarrow> application \<times> (application_error + nat)" where
  "install_start app =
     (case ensure_running app of Inl e \<Rightarrow> (app, Err e)
      | Inr _ \<Rightarrow> (case begin_install (ap_runtime app) of (rt, r) \<Rightarrow>
          (app\<lparr>ap_runtime := rt\<rparr>, map_err from_lifecycle_error r)))"

definition install_finish ::
  "(manifest \<Rightarrow> model_error + model_verification_status) \<Rightarrow> nat \<Rightarrow> lifecycle_error + unit \<Rightarrow> manifest \<Rightarrow>
   application \<Rightarrow> application \<times> (application_error + model_info)" where
  "install_finish status operation result m app =
     (let app1 = app\<lparr>ap_runtime := drop_work_permit (registration_drop operation (ap_runtime app))\<rparr> in
      (app1, and_then (map_err from_lifecycle_error result) (\<lambda>_. app_model_info status app1 m)))"

text \<open>
  \<^verbatim>\<open>load_locked\<close>, cut at the wait inside \<^verbatim>\<open>load_onnx\<close>: the reservation, the end of \<^verbatim>\<open>load_with\<close> once its
  worker answered (or the pool, the forced stop or the dropped sender did), and the publication.
\<close>

definition load_locked_start ::
  "bool \<Rightarrow> manifest \<Rightarrow> application \<Rightarrow> application \<times> (application_error + nat)" where
  "load_locked_start executor m app =
     (if app_is_loaded app (mf_canonical_id m) then (app, Err (from_lifecycle_error AlreadyLoaded))
      else (case load_reserve executor (mf_canonical_id m) (ap_runtime app) of (rt, r) \<Rightarrow>
          (app\<lparr>ap_runtime := rt\<rparr>, map_err from_lifecycle_error r)))"

text \<open>\<open>Engine_Ready started task_alive\<close>: the engine was loaded, and what \<^verbatim>\<open>register_reserved_engine\<close> sees of its scheduler.\<close>

datatype load_event = Load_Failed lifecycle_error | Engine_Ready bool bool

definition load_abandon :: "rstr \<Rightarrow> nat \<Rightarrow> runtime \<Rightarrow> runtime" where
  "load_abandon model_id key rt = drop_work_permit (reservation_drop model_id key rt)"

definition load_with_end ::
  "load_event \<Rightarrow> rstr \<Rightarrow> nat \<Rightarrow> runtime \<Rightarrow> runtime \<times> (lifecycle_error + unit)" where
  "load_with_end ev model_id key rt =
     (case ev of
        Load_Failed e \<Rightarrow> (load_abandon model_id key rt, Err e)
      | Engine_Ready started task_alive \<Rightarrow>
          (case register_reserved started task_alive model_id key rt of
             (rt1, Inl e) \<Rightarrow> (load_abandon model_id key rt1, Err e)
           | (rt1, Inr _) \<Rightarrow> (drop_work_permit rt1, Ok ())))"

definition load_locked_finish ::
  "manifest \<Rightarrow> lifecycle_error + unit \<Rightarrow> application \<Rightarrow> application \<times> (application_error + unit)" where
  "load_locked_finish m result app =
     (case result of Inl e \<Rightarrow> (app, Err (from_lifecycle_error e))
      | Inr _ \<Rightarrow>
     (case lock_read (ap_loaded app) of None \<Rightarrow> (app, Err infrastructure_error)
      | Some loaded \<Rightarrow>
          if ap_shutting_down app
          then (app\<lparr>ap_runtime := fst (unload (mf_canonical_id m) (ap_runtime app))\<rparr>,
                Err (from_lifecycle_error ShuttingDown))
          else (app\<lparr>ap_loaded := Held_By_Nobody (insert (mf_canonical_id m) loaded)\<rparr>, Ok ())))"

text \<open>\<^verbatim>\<open>unload\<close> under the mutex: the runtime first, then the set of loaded models.\<close>

definition unload_start :: "manifest \<Rightarrow> application \<Rightarrow> application \<times> (application_error + unit)" where
  "unload_start m app =
     (case ensure_running app of Inl e \<Rightarrow> (app, Err e)
      | Inr _ \<Rightarrow> (case unload (mf_canonical_id m) (ap_runtime app) of (rt, r) \<Rightarrow>
          (app\<lparr>ap_runtime := rt\<rparr>, map_err from_lifecycle_error r)))"

definition unload_finish ::
  "(manifest \<Rightarrow> model_error + model_verification_status) \<Rightarrow> manifest \<Rightarrow> application \<Rightarrow>
   application \<times> (application_error + model_info)" where
  "unload_finish status m app =
     (case lock_read (ap_loaded app) of None \<Rightarrow> (app, Err infrastructure_error)
      | Some loaded \<Rightarrow>
          let app1 = app\<lparr>ap_loaded := Held_By_Nobody (loaded - {mf_canonical_id m})\<rparr> in
          (app1, app_model_info status app1 m))"

text \<open>\<^verbatim>\<open>delete\<close> under the mutex; \<open>store_answer\<close> is what \<^verbatim>\<open>ModelStore::delete\<close> returns when the runtime calls it.\<close>

definition app_delete_locked ::
  "(manifest \<Rightarrow> model_error + model_verification_status) \<Rightarrow> unit + bool \<Rightarrow> manifest \<Rightarrow> application \<Rightarrow>
   application_error + model_info" where
  "app_delete_locked status store_answer m app =
     and_then (ensure_running app) (\<lambda>_.
     and_then (map_err from_lifecycle_error
         (delete_model (mf_canonical_id m) (mf_canonical_id m) store_answer (ap_runtime app))) (\<lambda>_.
     app_model_info status app m))"

section \<open>Preload\<close>

record strict_transaction =
  tx_gated :: "rstr list"
  tx_newly_loaded :: "rstr list"
  tx_committed :: bool

definition tx_begin :: "application \<Rightarrow> application \<times> (application_error + strict_transaction)" where
  "tx_begin app =
     (case lock_read (ap_loaded app) of None \<Rightarrow> (app, Err infrastructure_error)
      | Some loaded \<Rightarrow>
          let gated = filter (\<lambda>c. c \<notin> loaded) (ap_preload_models app) in
     (case lock_read (ap_preload_pending app) of None \<Rightarrow> (app, Err infrastructure_error)
      | Some pending \<Rightarrow>
          (app\<lparr>ap_preload_pending := Held_By_Nobody (pending \<union> set gated)\<rparr>,
           Ok \<lparr>tx_gated = gated, tx_newly_loaded = [], tx_committed = False\<rparr>)))"

definition tx_record_loaded :: "rstr \<Rightarrow> strict_transaction \<Rightarrow> strict_transaction" where
  "tx_record_loaded canonical tx = tx\<lparr>tx_newly_loaded := tx_newly_loaded tx @ [canonical]\<rparr>"

definition unload_all :: "rstr list \<Rightarrow> runtime \<Rightarrow> runtime" where
  "unload_all names rt = fold (\<lambda>c rt. fst (unload c rt)) names rt"

definition tx_drop :: "strict_transaction \<Rightarrow> application \<Rightarrow> application" where
  "tx_drop tx app =
     (let app1 = (if tx_committed tx then app
                  else app\<lparr>ap_runtime := unload_all (rev (tx_newly_loaded tx)) (ap_runtime app),
                           ap_loaded := lock_update (\<lambda>loaded. loaded - set (tx_newly_loaded tx)) (ap_loaded app)\<rparr>)
      in app1\<lparr>ap_preload_pending := lock_update (\<lambda>pending. pending - set (tx_gated tx)) (ap_preload_pending app1)\<rparr>)"

text \<open>\<^verbatim>\<open>commit\<close> consumes the transaction, so its drop follows on both paths.\<close>

definition tx_commit :: "strict_transaction \<Rightarrow> application \<Rightarrow> application \<times> (application_error + unit)" where
  "tx_commit tx app =
     (case lock_read (ap_preload_pending app) of
        None \<Rightarrow> (tx_drop tx app, Err infrastructure_error)
      | Some pending \<Rightarrow>
          (tx_drop (tx\<lparr>tx_committed := True\<rparr>)
             (app\<lparr>ap_preload_pending := Held_By_Nobody (pending - set (tx_gated tx))\<rparr>), Ok ()))"

record preload_outcome =
  po_canonical_id :: rstr
  po_loaded :: bool
  po_error :: "application_error_kind option"

text \<open>The state of the loop of \<^verbatim>\<open>preload\<close>: the models still to visit, the report and the transaction.\<close>

record preload_job =
  pj_rest :: "rstr list"
  pj_outcomes :: "preload_outcome list"
  pj_tx :: "strict_transaction option"

datatype preload_progress =
    Turn preload_job
  | Await preload_job manifest nat
  | Finished "application_error + preload_outcome list"

definition preload_begin :: "application \<Rightarrow> application \<times> (application_error + preload_job)" where
  "preload_begin app =
     (case ensure_running app of Inl e \<Rightarrow> (app, Err e)
      | Inr _ \<Rightarrow>
          let job = \<lparr>pj_rest = ap_preload_models app, pj_outcomes = [], pj_tx = None\<rparr> in
          if ap_startup_policy app = Strict
          then (case tx_begin app of (app1, r) \<Rightarrow> (app1, and_then r (\<lambda>tx. Ok (job\<lparr>pj_tx := Some tx\<rparr>))))
          else (app, Ok job))"

text \<open>Leaving the function drops the transaction.\<close>

definition preload_fail :: "preload_job \<Rightarrow> application \<Rightarrow> application" where
  "preload_fail job app = (case pj_tx job of None \<Rightarrow> app | Some tx \<Rightarrow> tx_drop tx app)"

definition push_outcome :: "rstr \<Rightarrow> bool \<Rightarrow> application_error_kind option \<Rightarrow> preload_job \<Rightarrow> preload_job" where
  "push_outcome canonical loaded error job =
     job\<lparr>pj_rest := tl (pj_rest job),
         pj_outcomes := pj_outcomes job @ [\<lparr>po_canonical_id = canonical, po_loaded = loaded, po_error = error\<rparr>]\<rparr>"

text \<open>The match on the result of \<^verbatim>\<open>load_locked\<close> for the model at the head of the loop.\<close>

definition preload_result ::
  "preload_job \<Rightarrow> rstr \<Rightarrow> application_error + unit \<Rightarrow> application \<Rightarrow> application \<times> preload_progress" where
  "preload_result job canonical result app =
     (case result of
        Inr _ \<Rightarrow> (app, Turn (push_outcome canonical True None
                   (job\<lparr>pj_tx := map_option (tx_record_loaded canonical) (pj_tx job)\<rparr>)))
      | Inl e \<Rightarrow>
          if ap_startup_policy app = BestEffort
          then (app, Turn (push_outcome canonical False (Some (ae_kind e)) job))
          else (preload_fail job app, Finished (Err e)))"

definition preload_turn :: "bool \<Rightarrow> preload_job \<Rightarrow> application \<Rightarrow> application \<times> preload_progress" where
  "preload_turn executor job app =
     (case pj_rest job of
        [] \<Rightarrow>
          (case pj_tx job of None \<Rightarrow> (app, Finished (Ok (pj_outcomes job)))
           | Some tx \<Rightarrow> (case tx_commit tx app of (app1, r) \<Rightarrow>
               (app1, Finished (and_then r (\<lambda>_. Ok (pj_outcomes job))))))
      | canonical # _ \<Rightarrow>
          (case catalog_resolve (ap_catalog app) canonical of
             None \<Rightarrow> (preload_fail job app, Finished (Err infrastructure_error))
           | Some m \<Rightarrow>
               if app_is_loaded app canonical then (app, Turn (push_outcome canonical True None job))
               else (case load_locked_start executor m app of
                   (app1, Inr key) \<Rightarrow> (app1, Await job m key)
                 | (app1, Inl e) \<Rightarrow> preload_result job canonical (Err e) app1)))"

section \<open>Shutdown\<close>

text \<open>
  \<^verbatim>\<open>shutdown_with_timeout\<close>: the fence, the shutdown of the runtime (\<open>shutdown_request\<close> with the bounded
  timeout, the drain and \<open>finish_shutdown\<close>), and the clearing of both sets.
\<close>

definition shutdown_bound :: "application \<Rightarrow> nat \<Rightarrow> nat" where
  "shutdown_bound app timeout = min timeout (ap_shutdown_timeout app)"

definition shutdown_fence :: "application \<Rightarrow> application" where
  "shutdown_fence app = app\<lparr>ap_shutting_down := True\<rparr>"

definition shutdown_clear_loaded :: "application \<Rightarrow> application" where
  "shutdown_clear_loaded app = app\<lparr>ap_loaded := lock_update (\<lambda>_. {}) (ap_loaded app)\<rparr>"

definition shutdown_clear_pending :: "application \<Rightarrow> application" where
  "shutdown_clear_pending app = app\<lparr>ap_preload_pending := lock_update (\<lambda>_. {}) (ap_preload_pending app)\<rparr>"

end
