(* ===== verification/Application_Safety.thy ===== *)
theory Application_Safety
  imports Application
begin

text \<open>
  The operations of theory Application interleaved: embedding and installation traffic, one lifecycle
  operation at a time (the owner of the lifecycle mutex), cancelled futures and shutdown, in any order;
  the invariant of the service and what load, strict preload, embedding and shutdown guarantee.
\<close>

section \<open>Steps\<close>

text \<open>
  What the owner of the lifecycle mutex is doing; the optional preload is the caller of the load.
\<close>

datatype job =
    Free
  | Ready preload_job
  | Waits "preload_job option" manifest nat
  | Returned "preload_job option" manifest "lifecycle_error + unit"
  | Unregistered manifest

text \<open>
  \<open>wd_cleared\<close> and \<open>wd_answer\<close> are history: that a shutdown cleared the loaded set, and what the last step
  answered to the caller of preload.
\<close>

record app_world =
  wd_app :: application
  wd_job :: job
  wd_cleared :: bool
  wd_answer :: "(application_error + preload_outcome list) option"

definition world_init :: "application \<Rightarrow> app_world" where
  "world_init app = \<lparr>wd_app = app, wd_job = Free, wd_cleared = False, wd_answer = None\<rparr>"

fun job_of :: "preload_progress \<Rightarrow> job" where
  "job_of (Turn job) = Ready job"
| "job_of (Await job m key) = Waits (Some job) m key"
| "job_of (Finished r) = Free"

fun answer_of :: "preload_progress \<Rightarrow> (application_error + preload_outcome list) option" where
  "answer_of (Finished r) = Some r"
| "answer_of _ = None"

fun job_preload :: "job \<Rightarrow> preload_job option" where
  "job_preload (Ready job) = Some job"
| "job_preload (Waits caller m key) = caller"
| "job_preload (Returned caller m r) = caller"
| "job_preload _ = None"

text \<open>Embedding requests and installations leave the registered names and the draining flag alone.\<close>

definition same_names :: "runtime \<Rightarrow> runtime \<Rightarrow> bool" where
  "same_names rt rt' \<longleftrightarrow> rt_models rt' = rt_models rt \<and> rt_draining rt' = rt_draining rt"

text \<open>
  A check of \<open>ensure_running\<close> may be arbitrarily old when the next piece of its operation runs, so the
  steps do not rely on it. A future may be dropped wherever it waits.
\<close>

inductive app_step :: "app_world \<Rightarrow> app_world \<Rightarrow> bool" where
  do_traffic: "same_names (ap_runtime (wd_app w)) rt \<Longrightarrow>
     app_step w (w\<lparr>wd_app := (wd_app w)\<lparr>ap_runtime := rt\<rparr>, wd_answer := None\<rparr>)"
| do_load_start: "wd_job w = Free \<Longrightarrow> catalog_resolve (ap_catalog (wd_app w)) name = Some m \<Longrightarrow>
     load_locked_start executor m (wd_app w) = (app, r) \<Longrightarrow>
     app_step w (w\<lparr>wd_app := app, wd_answer := None,
       wd_job := (case r of Inl _ \<Rightarrow> Free | Inr key \<Rightarrow> Waits None m key)\<rparr>)"
| do_load_event: "wd_job w = Waits caller m key \<Longrightarrow>
     load_with_end ev (mf_canonical_id m) key (ap_runtime (wd_app w)) = (rt, r) \<Longrightarrow>
     app_step w (w\<lparr>wd_app := (wd_app w)\<lparr>ap_runtime := rt\<rparr>, wd_answer := None, wd_job := Returned caller m r\<rparr>)"
| do_load_finish: "wd_job w = Returned None m r \<Longrightarrow> load_locked_finish m r (wd_app w) = (app, answer) \<Longrightarrow>
     app_step w (w\<lparr>wd_app := app, wd_answer := None, wd_job := Free\<rparr>)"
| do_load_dropped: "wd_job w = Waits None m key \<Longrightarrow>
     app_step w (w\<lparr>wd_app := (wd_app w)\<lparr>ap_runtime := load_abandon (mf_canonical_id m) key (ap_runtime (wd_app w))\<rparr>,
       wd_answer := None, wd_job := Free\<rparr>)"
| do_preload_start: "wd_job w = Free \<Longrightarrow> preload_begin (wd_app w) = (app, r) \<Longrightarrow>
     app_step w (w\<lparr>wd_app := app, wd_answer := None,
       wd_job := (case r of Inl _ \<Rightarrow> Free | Inr job \<Rightarrow> Ready job)\<rparr>)"
| do_preload_turn: "wd_job w = Ready job \<Longrightarrow> preload_turn executor job (wd_app w) = (app, p) \<Longrightarrow>
     app_step w (w\<lparr>wd_app := app, wd_answer := answer_of p, wd_job := job_of p\<rparr>)"
| do_preload_result: "wd_job w = Returned (Some job) m r \<Longrightarrow> load_locked_finish m r (wd_app w) = (app1, r1) \<Longrightarrow>
     preload_result job (mf_canonical_id m) r1 app1 = (app, p) \<Longrightarrow>
     app_step w (w\<lparr>wd_app := app, wd_answer := answer_of p, wd_job := job_of p\<rparr>)"
| do_preload_dropped: "wd_job w = Waits (Some job) m key \<Longrightarrow>
     app_step w (w\<lparr>wd_app := preload_fail job
         ((wd_app w)\<lparr>ap_runtime := load_abandon (mf_canonical_id m) key (ap_runtime (wd_app w))\<rparr>),
       wd_answer := None, wd_job := Free\<rparr>)"
| do_unload: "wd_job w = Free \<Longrightarrow> unload_start m (wd_app w) = (app, r) \<Longrightarrow>
     app_step w (w\<lparr>wd_app := app, wd_answer := None, wd_job := (if is_ok r then Unregistered m else Free)\<rparr>)"
| do_unload_finish: "wd_job w = Unregistered m \<Longrightarrow> unload_finish status m (wd_app w) = (app, r) \<Longrightarrow>
     app_step w (w\<lparr>wd_app := app, wd_answer := None, wd_job := Free\<rparr>)"
| do_fence: "app_step w (w\<lparr>wd_app := shutdown_fence (wd_app w), wd_answer := None\<rparr>)"
| do_runtime_shutdown: "ap_shutting_down (wd_app w) \<Longrightarrow>
     shutdown_request executor requested (ap_runtime (wd_app w)) = (rt, answer) \<Longrightarrow>
     app_step w (w\<lparr>wd_app := (wd_app w)\<lparr>ap_runtime := rt\<rparr>, wd_answer := None\<rparr>)"
| do_runtime_finish: "rt_draining (ap_runtime (wd_app w)) \<Longrightarrow>
     app_step w (w\<lparr>wd_app := (wd_app w)\<lparr>ap_runtime := finish_shutdown now was_drained (ap_runtime (wd_app w))\<rparr>,
       wd_answer := None\<rparr>)"
| do_clear_loaded: "ap_shutting_down (wd_app w) \<Longrightarrow>
     app_step w (w\<lparr>wd_app := shutdown_clear_loaded (wd_app w), wd_answer := None, wd_cleared := True\<rparr>)"
| do_clear_pending: "ap_shutting_down (wd_app w) \<Longrightarrow>
     app_step w (w\<lparr>wd_app := shutdown_clear_pending (wd_app w), wd_answer := None\<rparr>)"

inductive_cases app_stepE: "app_step w w'"

inductive app_reachable :: "application \<Rightarrow> app_world \<Rightarrow> bool" for app :: application where
  app_start: "app_reachable app (world_init app)"
| app_next: "app_reachable app w \<Longrightarrow> app_step w w' \<Longrightarrow> app_reachable app w'"

section \<open>What the operations keep\<close>

definition registered :: "runtime \<Rightarrow> rstr set" where
  "registered rt = (case lock_read (rt_models rt) of None \<Rightarrow> {} | Some models \<Rightarrow> {m. reg_contains models m})"

definition lock_set :: "'a set lock \<Rightarrow> 'a set" where
  "lock_set l = (case lock_read l of None \<Rightarrow> {} | Some s \<Rightarrow> s)"

lemma lock_set_simps [simp]:
  "lock_set (Held_By_Nobody s) = s" "lock_contains l x \<longleftrightarrow> x \<in> lock_set l"
  "lock_set (lock_update (\<lambda>s. s - d) l) = lock_set l - d" "lock_set (lock_update (\<lambda>_. {}) l) = {}"
  by (simp_all add: lock_set_def lock_contains_def lock_read_update split: option.split)

lemma lock_set_read: "lock_read l = Some s \<Longrightarrow> lock_set l = s"
  by (simp add: lock_set_def)

lemma same_names_refl [simp]: "same_names rt rt"
  by (simp add: same_names_def)

lemma same_names_registered: "same_names rt rt' \<Longrightarrow> registered rt' = registered rt"
  by (simp add: same_names_def registered_def)

lemma drop_work_permit_names [simp]: "rt_models (drop_work_permit rt) = rt_models rt"
    "rt_draining (drop_work_permit rt) = rt_draining rt"
  by (simp_all add: drop_work_permit_def)

lemma reservation_drop_names [simp]: "rt_models (reservation_drop m k rt) = rt_models rt"
    "rt_draining (reservation_drop m k rt) = rt_draining rt"
  by (simp_all add: reservation_drop_def)

lemma load_abandon_names [simp]: "rt_models (load_abandon m k rt) = rt_models rt"
    "rt_draining (load_abandon m k rt) = rt_draining rt" "registered (load_abandon m k rt) = registered rt"
  by (simp_all add: load_abandon_def registered_def)

lemma load_reserve_names: "load_reserve e m rt = (rt', r) \<Longrightarrow> same_names rt rt'"
  unfolding load_reserve_def Let_def same_names_def
  by (auto dest: admit_work_frame split: if_split_asm option.split_asm prod.split_asm bool.split_asm)

lemma register_reserved_names:
  assumes "register_reserved s a m key rt = (rt', r)"
  shows "rt_draining rt' = rt_draining rt" and "r = Inl e \<Longrightarrow> rt' = rt"
    and "r = Inr () \<Longrightarrow> registered rt' = insert m (registered rt)"
  using assms unfolding register_reserved_def Let_def registered_def
  by (auto split: if_split_asm option.split_asm simp: lock_read_Some)

lemma unload_names:
  assumes "unload m rt = (rt', r)"
  shows "rt_draining rt' = rt_draining rt" and "r = Inl e \<Longrightarrow> rt' = rt"
    and "r = Inr () \<Longrightarrow> registered rt' = registered rt - {m}"
  using assms unfolding unload_def Let_def registered_def
  by (auto split: if_split_asm option.split_asm simp: lock_read_Some)

lemma unload_all_names:
  "rt_draining (unload_all ms rt) = rt_draining rt \<and> registered (unload_all ms rt) \<subseteq> registered rt \<and>
   registered rt - set ms \<subseteq> registered (unload_all ms rt)"
proof (induction ms arbitrary: rt)
  case (Cons m ms)
  obtain rt' r where u: "unload m rt = (rt', r)" by fastforce
  have "registered rt' = registered rt \<or> registered rt' = registered rt - {m}"
    using unload_names [OF u] by (cases r) auto
  with Cons.IH [of rt'] unload_names(1) [OF u] show ?case
    by (auto simp: unload_all_def u)
qed (simp add: unload_all_def)

lemma load_with_end_names:
  assumes "load_with_end ev m key rt = (rt', r)"
  shows "rt_draining rt' = rt_draining rt" and "registered rt \<subseteq> registered rt'"
    and "r = Inr () \<Longrightarrow> m \<in> registered rt'"
proof -
  have d [simp]: "registered (drop_work_permit rt0) = registered rt0" for rt0 by (simp add: registered_def)
  have "rt_draining rt' = rt_draining rt \<and> registered rt \<subseteq> registered rt' \<and> (r = Inr () \<longrightarrow> m \<in> registered rt')"
  proof (cases ev)
    case (Load_Failed e)
    with assms show ?thesis by (auto simp: load_with_end_def)
  next
    case (Engine_Ready s a)
    obtain rt1 r1 where g: "register_reserved s a m key rt = (rt1, r1)" by fastforce
    show ?thesis
      using assms register_reserved_names [OF g] by (cases r1) (auto simp: load_with_end_def Engine_Ready g)
  qed
  then show "rt_draining rt' = rt_draining rt" "registered rt \<subseteq> registered rt'"
    "r = Inr () \<Longrightarrow> m \<in> registered rt'" by auto
qed

section \<open>The invariant\<close>

text \<open>
  The loop of preload: the report and the rest are the configured models in order; a strict
  transaction gates the models it has still to commit, and what it loaded itself.
\<close>

definition tx_inv :: "application \<Rightarrow> strict_transaction \<Rightarrow> bool" where
  "tx_inv app tx \<longleftrightarrow>
     \<not> tx_committed tx \<and> set (tx_newly_loaded tx) \<subseteq> set (tx_gated tx) \<and>
     lock_set (ap_preload_pending app) \<subseteq> set (tx_gated tx) \<and>
     (\<not> ap_shutting_down app \<longrightarrow>
        lock_set (ap_preload_pending app) = set (tx_gated tx) \<and>
        lock_set (ap_loaded app) \<inter> set (tx_gated tx) = set (tx_newly_loaded tx) \<and>
        set (ap_preload_models app) - set (tx_gated tx) \<subseteq> lock_set (ap_loaded app))"

definition preload_inv :: "application \<Rightarrow> preload_job \<Rightarrow> bool" where
  "preload_inv app job \<longleftrightarrow>
     map po_canonical_id (pj_outcomes job) @ pj_rest job = ap_preload_models app \<and>
     (\<not> ap_shutting_down app \<longrightarrow>
        (\<forall>oc \<in> set (pj_outcomes job). po_loaded oc \<longrightarrow> po_canonical_id oc \<in> lock_set (ap_loaded app))) \<and>
     (\<forall>oc \<in> set (pj_outcomes job). po_loaded oc \<longleftrightarrow> po_error oc = None) \<and>
     (case pj_tx job of
        None \<Rightarrow> ap_startup_policy app = BestEffort \<and> lock_set (ap_preload_pending app) = {}
      | Some tx \<Rightarrow> ap_startup_policy app = Strict \<and> tx_inv app tx \<and> (\<forall>oc \<in> set (pj_outcomes job). po_loaded oc))"

text \<open>The model a preload waits for is the next one of its loop, and gated if the policy is strict.\<close>

definition awaits :: "application \<Rightarrow> preload_job \<Rightarrow> manifest \<Rightarrow> bool" where
  "awaits app job m \<longleftrightarrow>
     (\<exists>rest. pj_rest job = mf_canonical_id m # rest) \<and>
     (\<not> ap_shutting_down app \<longrightarrow> (\<forall>tx. pj_tx job = Some tx \<longrightarrow> mf_canonical_id m \<in> set (tx_gated tx)))"

definition job_inv :: "application \<Rightarrow> job \<Rightarrow> bool" where
  "job_inv app job \<longleftrightarrow>
     (case job_preload job of
        None \<Rightarrow> lock_set (ap_preload_pending app) = {}
      | Some pj \<Rightarrow> preload_inv app pj) \<and>
     (case job of
        Waits (Some pj) m _ \<Rightarrow> awaits app pj m
      | Returned (Some pj) m _ \<Rightarrow> awaits app pj m
      | _ \<Rightarrow> True) \<and>
     (case job of
        Returned _ m (Inr _) \<Rightarrow> \<not> ap_shutting_down app \<longrightarrow> mf_canonical_id m \<in> registered (ap_runtime app)
      | _ \<Rightarrow> True)"

definition leaving :: "job \<Rightarrow> rstr set" where
  "leaving job = (case job of Unregistered m \<Rightarrow> {mf_canonical_id m} | _ \<Rightarrow> {})"

text \<open>The part that does not look at the operation in progress, except for the model being unloaded.\<close>

definition base_inv :: "application \<Rightarrow> bool \<Rightarrow> rstr set \<Rightarrow> bool" where
  "base_inv app cleared gone \<longleftrightarrow>
     (rt_draining (ap_runtime app) \<longrightarrow> ap_shutting_down app) \<and>
     (cleared \<longrightarrow> ap_shutting_down app \<and> lock_set (ap_loaded app) = {}) \<and>
     (\<forall>c \<in> set (ap_preload_models app). \<exists>m. catalog_resolve (ap_catalog app) c = Some m \<and> mf_canonical_id m = c) \<and>
     (\<not> ap_shutting_down app \<longrightarrow> lock_set (ap_loaded app) \<subseteq> registered (ap_runtime app) \<union> gone)"

definition world_inv :: "app_world \<Rightarrow> bool" where
  "world_inv w \<longleftrightarrow> base_inv (wd_app w) (wd_cleared w) (leaving (wd_job w)) \<and> job_inv (wd_app w) (wd_job w)"

text \<open>A change of the runtime that keeps the registered names and the flag.\<close>

lemma base_inv_runtime:
  assumes "base_inv app cleared gone" and "rt_draining rt \<longrightarrow> rt_draining (ap_runtime app) \<or> ap_shutting_down app"
    and "\<not> ap_shutting_down app \<Longrightarrow> registered (ap_runtime app) \<subseteq> registered rt"
  shows "base_inv (app\<lparr>ap_runtime := rt\<rparr>) cleared gone"
  using assms by (auto simp: base_inv_def)

lemma preload_inv_runtime [simp]: "preload_inv (app\<lparr>ap_runtime := rt\<rparr>) pj \<longleftrightarrow> preload_inv app pj"
  by (cases "pj_tx pj") (simp_all add: preload_inv_def tx_inv_def)

lemma awaits_runtime [simp]: "awaits (app\<lparr>ap_runtime := rt\<rparr>) pj m \<longleftrightarrow> awaits app pj m"
  by (simp add: awaits_def)

lemma job_inv_runtime:
  assumes "job_inv app job" and "\<not> ap_shutting_down app \<Longrightarrow> registered (ap_runtime app) \<subseteq> registered rt"
  shows "job_inv (app\<lparr>ap_runtime := rt\<rparr>) job"
  using assms by (auto simp: job_inv_def split: job.split option.split sum.split)


lemma load_locked_start_effect:
  assumes "load_locked_start executor m app = (app', r)"
  obtains rt where "app' = app\<lparr>ap_runtime := rt\<rparr>" "same_names (ap_runtime app) rt"
proof (cases "app_is_loaded app (mf_canonical_id m)")
  case True
  then show ?thesis using assms that [of "ap_runtime app"] by (auto simp: load_locked_start_def)
next
  case False
  obtain rt r0 where l: "load_reserve executor (mf_canonical_id m) (ap_runtime app) = (rt, r0)" by fastforce
  then show ?thesis
    using False assms that [of rt] load_reserve_names [OF l] by (auto simp: load_locked_start_def)
qed

lemma load_locked_finish_effect:
  assumes "load_locked_finish m r app = (app', r')"
  obtains
    (refused) e rt where "r' = Inl e" "app' = app\<lparr>ap_runtime := rt\<rparr>"
      "rt_draining rt = rt_draining (ap_runtime app)" "\<not> ap_shutting_down app \<Longrightarrow> rt = ap_runtime app"
  | (published) "r' = Inr ()" "r = Inr ()" "\<not> ap_shutting_down app"
      "app' = app\<lparr>ap_loaded := Held_By_Nobody (insert (mf_canonical_id m) (lock_set (ap_loaded app)))\<rparr>"
proof -
  have same: "app\<lparr>ap_runtime := ap_runtime app\<rparr> = app" by simp
  obtain rt ru where u: "unload (mf_canonical_id m) (ap_runtime app) = (rt, ru)" by fastforce
  consider e where "r = Inl e" | "r = Inr ()" "lock_read (ap_loaded app) = None"
    | s where "r = Inr ()" "lock_read (ap_loaded app) = Some s" "ap_shutting_down app"
    | s where "r = Inr ()" "lock_read (ap_loaded app) = Some s" "\<not> ap_shutting_down app"
    by (cases r; cases "lock_read (ap_loaded app)"; cases "ap_shutting_down app") auto
  then show ?thesis
  proof cases
    case 1
    with assms same show ?thesis by (intro refused [of _ "ap_runtime app"]) (auto simp: load_locked_finish_def)
  next
    case 2
    with assms same show ?thesis by (intro refused [of _ "ap_runtime app"]) (auto simp: load_locked_finish_def)
  next
    case 3
    with assms u unload_names(1) [OF u] show ?thesis
      by (intro refused [of _ rt]) (auto simp: load_locked_finish_def)
  next
    case 4
    with assms show ?thesis by (intro published) (auto simp: load_locked_finish_def lock_set_read)
  qed
qed

lemma base_inv_published:
  assumes "base_inv app cleared {}" "\<not> ap_shutting_down app" "c \<in> registered (ap_runtime app)"
  shows "base_inv (app\<lparr>ap_loaded := Held_By_Nobody (insert c (lock_set (ap_loaded app)))\<rparr>) cleared {}"
  using assms by (auto simp: base_inv_def)

lemma job_inv_Free: "job_inv app Free \<longleftrightarrow> lock_set (ap_preload_pending app) = {}"
  by (simp add: job_inv_def)

lemma leaving_simps [simp]:
  "leaving Free = {}" "leaving (Ready pj) = {}" "leaving (Waits c m k) = {}" "leaving (Returned c m r) = {}"
  "leaving (Unregistered m) = {mf_canonical_id m}" "leaving (job_of p) = {}"
  by (simp_all add: leaving_def) (cases p; simp)

text \<open>Ending a preload without a commit: the names it loaded go, the gate opens.\<close>

lemma preload_fail_inv:
  assumes b: "base_inv app cleared {}" and j: "preload_inv app pj"
  shows "base_inv (preload_fail pj app) cleared {}" "job_inv (preload_fail pj app) Free"
    and "\<not> ap_shutting_down app \<Longrightarrow> pj_tx pj = Some tx \<Longrightarrow>
      lock_set (ap_loaded (preload_fail pj app)) = lock_set (ap_loaded app) - set (tx_gated tx)"
proof -
  show "base_inv (preload_fail pj app) cleared {}"
  proof (cases "pj_tx pj")
    case None
    then show ?thesis using b by (simp add: preload_fail_def)
  next
    case (Some tx)
    with j have "\<not> tx_committed tx" by (simp add: preload_inv_def tx_inv_def)
    then show ?thesis
      using b Some unload_all_names [of "rev (tx_newly_loaded tx)" "ap_runtime app"]
      by (auto simp: base_inv_def preload_fail_def tx_drop_def)
  qed
  show "job_inv (preload_fail pj app) Free"
    using j unfolding job_inv_Free preload_inv_def
    by (cases "pj_tx pj") (auto simp: preload_fail_def tx_drop_def tx_inv_def Let_def)
  show "lock_set (ap_loaded (preload_fail pj app)) = lock_set (ap_loaded app) - set (tx_gated tx)"
    if "\<not> ap_shutting_down app" "pj_tx pj = Some tx"
    using j that by (auto simp: preload_inv_def tx_inv_def preload_fail_def tx_drop_def)
qed


lemma preload_begin_inv:
  assumes b: "base_inv app cleared {}" and j: "job_inv app Free" and e: "preload_begin app = (app', r)"
  shows "base_inv app' cleared {} \<and> job_inv app' (case r of Inl _ \<Rightarrow> Free | Inr pj \<Rightarrow> Ready pj)"
proof -
  have p: "lock_set (ap_preload_pending app) = {}" using j by (simp add: job_inv_Free)
  consider (none) err where "app' = app" "r = Inl err"
    | (lenient) "app' = app" "ap_startup_policy app = BestEffort"
        "r = Inr \<lparr>pj_rest = ap_preload_models app, pj_outcomes = [], pj_tx = None\<rparr>"
    | (strict) gated where "gated = filter (\<lambda>c. c \<notin> lock_set (ap_loaded app)) (ap_preload_models app)"
        "app' = app\<lparr>ap_preload_pending := Held_By_Nobody (set gated)\<rparr>" "ap_startup_policy app = Strict"
        "r = Inr \<lparr>pj_rest = ap_preload_models app, pj_outcomes = [],
           pj_tx = Some \<lparr>tx_gated = gated, tx_newly_loaded = [], tx_committed = False\<rparr>\<rparr>"
  proof (cases "ensure_running app")
    case (Inr u)
    show ?thesis
    proof (cases "ap_startup_policy app")
      case BestEffort
      with Inr e lenient show ?thesis by (auto simp: preload_begin_def)
    next
      case Strict
      show ?thesis
        using Inr e p Strict none strict
        by (auto simp: preload_begin_def tx_begin_def Let_def lock_set_def split: option.split_asm)
    qed
  qed (use e none in \<open>auto simp: preload_begin_def\<close>)
  then show ?thesis
  proof cases
    case strict
    then show ?thesis using b p by (auto simp: base_inv_def job_inv_def preload_inv_def tx_inv_def)
  qed (use b j p in \<open>auto simp: job_inv_def preload_inv_def\<close>)
qed

lemma preload_inv_push:
  assumes "preload_inv app pj" "pj_rest pj = c # rest" "\<not> ap_shutting_down app \<longrightarrow> c \<in> lock_set (ap_loaded app)"
  shows "preload_inv app (push_outcome c True None pj)"
  using assms by (cases "pj_tx pj") (auto simp: preload_inv_def push_outcome_def)

text \<open>\<^verbatim>\<open>load_locked\<close> returned an error for the model at the head of the loop.\<close>

lemma preload_refused_inv:
  assumes b: "base_inv app cleared {}" and j: "preload_inv app pj" and a: "awaits app pj m"
    and e: "preload_result pj (mf_canonical_id m) (Inl err) app = (app', p)"
  shows "base_inv app' cleared {} \<and> job_inv app' (job_of p)"
proof (cases "ap_startup_policy app")
  case BestEffort
  then have app': "app' = app" "p = Turn (push_outcome (mf_canonical_id m) False (Some (ae_kind err)) pj)"
    using e by (simp_all add: preload_result_def)
  have tx: "pj_tx pj = None" using j BestEffort by (auto simp: preload_inv_def split: option.split_asm)
  have "preload_inv app (push_outcome (mf_canonical_id m) False (Some (ae_kind err)) pj)"
    using a tx j by (auto simp: preload_inv_def push_outcome_def awaits_def)
  then show ?thesis using b app' by (simp add: job_inv_def)
next
  case Strict
  then show ?thesis using e preload_fail_inv [OF b j] by (auto simp: preload_result_def)
qed

lemma preload_result_inv:
  assumes b: "base_inv app1 cleared {}" and j: "preload_inv app pj" and a: "awaits app pj m"
    and f: "load_locked_finish m r app = (app1, r1)" and e: "preload_result pj (mf_canonical_id m) r1 app1 = (app', p)"
  shows "base_inv app' cleared {} \<and> job_inv app' (job_of p)"
  using f
proof (cases rule: load_locked_finish_effect)
  case (refused err rt)
  have "preload_inv app1 pj" "awaits app1 pj m" using refused j a by simp_all
  then show ?thesis using preload_refused_inv [OF b] e refused by blast
next
  case published
  let ?c = "mf_canonical_id m"
  have app': "app' = app1" "p = Turn (push_outcome ?c True None
      (pj\<lparr>pj_tx := map_option (tx_record_loaded ?c) (pj_tx pj)\<rparr>))"
    using e published by (auto simp: preload_result_def)
  have "preload_inv app1 (push_outcome ?c True None (pj\<lparr>pj_tx := map_option (tx_record_loaded ?c) (pj_tx pj)\<rparr>))"
  proof (cases "pj_tx pj")
    case None
    then show ?thesis using j a published by (auto simp: preload_inv_def push_outcome_def awaits_def)
  next
    case (Some tx)
    then show ?thesis
      using j a published
      by (auto simp: preload_inv_def push_outcome_def awaits_def tx_inv_def tx_record_loaded_def)
  qed
  then show ?thesis using b app' by (simp add: job_inv_def)
qed


lemma preload_turn_inv:
  assumes b: "base_inv app cleared {}" and j: "preload_inv app pj" and e: "preload_turn executor pj app = (app', p)"
  shows "base_inv app' cleared {} \<and> job_inv app' (job_of p)"
proof (cases "pj_rest pj")
  case Nil
  show ?thesis
  proof (cases "pj_tx pj")
    case None
    then show ?thesis using Nil b j e by (auto simp: preload_turn_def job_inv_Free preload_inv_def)
  next
    case (Some tx)
    show ?thesis
    proof (cases "lock_read (ap_preload_pending app)")
      case None
      then have "app' = preload_fail pj app" "job_of p = Free"
        using Nil Some e by (auto simp: preload_turn_def tx_commit_def preload_fail_def)
      then show ?thesis using preload_fail_inv [OF b j] by simp
    next
      case (Some pending)
      then have "app' = app\<lparr>ap_preload_pending := Held_By_Nobody (pending - set (tx_gated tx))\<rparr>" "job_of p = Free"
        using Nil \<open>pj_tx pj = Some tx\<close> e by (auto simp: preload_turn_def tx_commit_def tx_drop_def Let_def)
      moreover have "pending \<subseteq> set (tx_gated tx)"
        using j \<open>pj_tx pj = Some tx\<close> Some by (simp add: preload_inv_def tx_inv_def lock_set_def)
      ultimately show ?thesis using b by (simp add: base_inv_def job_inv_Free)
    qed
  qed
next
  case (Cons c rest)
  then have "map po_canonical_id (pj_outcomes pj) @ c # rest = ap_preload_models app"
    using j by (simp add: preload_inv_def)
  from this [symmetric] have c: "c \<in> set (ap_preload_models app)" by simp
  then obtain m where m: "catalog_resolve (ap_catalog app) c = Some m" "mf_canonical_id m = c"
    using b by (auto simp: base_inv_def)
  show ?thesis
  proof (cases "app_is_loaded app c")
    case True
    then have "app' = app" "p = Turn (push_outcome c True None pj)"
      using Cons e m by (simp_all add: preload_turn_def)
    then show ?thesis
      using b preload_inv_push [OF j Cons] True by (simp add: job_inv_def app_is_loaded_def)
  next
    case False
    obtain app1 r where l: "load_locked_start executor m app = (app1, r)" by fastforce
    obtain rt where rt: "app1 = app\<lparr>ap_runtime := rt\<rparr>" "same_names (ap_runtime app) rt"
      using load_locked_start_effect [OF l] .
    have b1: "base_inv app1 cleared {}"
      unfolding rt(1) using b rt(2)
      by (intro base_inv_runtime) (auto simp: same_names_registered, simp add: same_names_def)
    have gated: "c \<in> set (tx_gated tx)" if "\<not> ap_shutting_down app" "pj_tx pj = Some tx" for tx
      using j that c False by (auto simp: preload_inv_def tx_inv_def app_is_loaded_def)
    have a1: "awaits app1 pj m" using Cons m gated rt by (auto simp: awaits_def)
    have j1: "preload_inv app1 pj" using rt j by simp
    show ?thesis
    proof (cases r)
      case (Inl err)
      then show ?thesis
        using preload_refused_inv [OF b1 j1 a1, of err app' p] Cons e m False l Inl by (simp add: preload_turn_def)
    next
      case (Inr key)
      then have "app' = app1" "p = Await pj m key"
        using Cons e m False l by (simp_all add: preload_turn_def)
      then show ?thesis using b1 j1 a1 by (simp add: job_inv_def)
    qed
  qed
qed


lemma unload_start_inv:
  assumes b: "base_inv app cleared {}" and j: "job_inv app Free" and e: "unload_start m app = (app', r)"
  shows "base_inv app' cleared (leaving (if is_ok r then Unregistered m else Free)) \<and>
    job_inv app' (if is_ok r then Unregistered m else Free)"
proof (cases "ensure_running app")
  case (Inl err)
  then have "app' = app" "r = Inl err" using e by (simp_all add: unload_start_def)
  then show ?thesis using b j by simp
next
  case (Inr u)
  obtain rt r0 where u: "unload (mf_canonical_id m) (ap_runtime app) = (rt, r0)" by fastforce
  then have "app' = app\<lparr>ap_runtime := rt\<rparr>" "r = map_err from_lifecycle_error r0"
    using e Inr by (auto simp: unload_start_def)
  then show ?thesis
    using b j unload_names [OF u] by (cases r0) (auto simp: base_inv_def job_inv_def)
qed

lemma unload_finish_inv:
  assumes b: "base_inv app cleared {mf_canonical_id m}" and j: "job_inv app (Unregistered m)"
    and e: "unload_finish status m app = (app', r)"
  shows "base_inv app' cleared {} \<and> job_inv app' Free"
  using assms
  by (cases "lock_read (ap_loaded app)")
    (auto simp: unload_finish_def base_inv_def job_inv_def lock_set_def Let_def)

text \<open>Raising the fence only weakens what has to hold.\<close>

lemma fence_inv:
  assumes "base_inv app cleared gone" and "job_inv app job"
  shows "base_inv (shutdown_fence app) cleared gone \<and> job_inv (shutdown_fence app) job"
proof
  show "base_inv (shutdown_fence app) cleared gone"
    using assms(1) by (auto simp: base_inv_def shutdown_fence_def)
  have "preload_inv app pj \<Longrightarrow> preload_inv (shutdown_fence app) pj" for pj
    by (cases "pj_tx pj") (auto simp: preload_inv_def tx_inv_def shutdown_fence_def)
  moreover have "awaits app pj m \<Longrightarrow> awaits (shutdown_fence app) pj m" for pj m
    by (auto simp: awaits_def shutdown_fence_def)
  ultimately show "job_inv (shutdown_fence app) job"
    using assms(2) by (cases job) (auto simp: job_inv_def shutdown_fence_def split: option.splits sum.splits)
qed

lemma clear_inv:
  assumes "base_inv app cleared gone" and "job_inv app job" and d: "ap_shutting_down app"
  shows "base_inv (shutdown_clear_loaded app) True gone \<and> job_inv (shutdown_clear_loaded app) job"
    and "base_inv (shutdown_clear_pending app) cleared gone \<and> job_inv (shutdown_clear_pending app) job"
proof -
  have "preload_inv app pj \<Longrightarrow> preload_inv (shutdown_clear_loaded app) pj \<and> preload_inv (shutdown_clear_pending app) pj" for pj
    using d by (cases "pj_tx pj")
      (auto simp: preload_inv_def tx_inv_def shutdown_clear_loaded_def shutdown_clear_pending_def)
  then show "base_inv (shutdown_clear_loaded app) True gone \<and> job_inv (shutdown_clear_loaded app) job"
    "base_inv (shutdown_clear_pending app) cleared gone \<and> job_inv (shutdown_clear_pending app) job"
    using assms
    by (auto simp: base_inv_def job_inv_def awaits_def shutdown_clear_loaded_def shutdown_clear_pending_def
        split: job.splits option.splits sum.splits)
qed

lemma shutdown_request_names: "shutdown_request e q rt = (rt', x) \<Longrightarrow> rt_models rt' = rt_models rt"
  by (auto simp: shutdown_request_def Let_def split: if_split_asm option.split_asm)

text \<open>A step of the runtime under a raised fence, or one that keeps the names.\<close>

lemma world_inv_runtime:
  assumes "world_inv w" and "rt_draining rt \<longrightarrow> rt_draining (ap_runtime (wd_app w)) \<or> ap_shutting_down (wd_app w)"
    and "\<not> ap_shutting_down (wd_app w) \<Longrightarrow> registered (ap_runtime (wd_app w)) \<subseteq> registered rt"
  shows "base_inv ((wd_app w)\<lparr>ap_runtime := rt\<rparr>) (wd_cleared w) (leaving (wd_job w))"
    and "job_inv ((wd_app w)\<lparr>ap_runtime := rt\<rparr>) (wd_job w)"
  using assms by (simp_all add: world_inv_def base_inv_runtime job_inv_runtime)

lemma world_inv_step:
  assumes i: "world_inv w" and s: "app_step w w'"
  shows "world_inv w'"
  using s
proof (cases rule: app_step.cases)
  case (do_traffic rt)
  then show ?thesis
    using world_inv_runtime [OF i, of rt] by (simp add: world_inv_def same_names_def registered_def)
next
  case (do_load_start name m executor app r)
  obtain rt where rt: "app = (wd_app w)\<lparr>ap_runtime := rt\<rparr>" "same_names (ap_runtime (wd_app w)) rt"
    using load_locked_start_effect [OF do_load_start(4)] .
  then show ?thesis
    using do_load_start world_inv_runtime [OF i, of rt]
    by (cases r) (simp_all add: world_inv_def same_names_def registered_def job_inv_def)
next
  case (do_load_event caller m key ev rt r)
  then show ?thesis
    using load_with_end_names [OF do_load_event(3)] world_inv_runtime [OF i, of rt]
    by (auto simp: world_inv_def job_inv_def split: sum.split option.splits)
next
  case (do_load_finish m r app answer)
  have b: "base_inv (wd_app w) (wd_cleared w) {}" and j: "job_inv (wd_app w) (Returned None m r)"
    using i do_load_finish by (simp_all add: world_inv_def)
  from do_load_finish(3) show ?thesis
  proof (cases rule: load_locked_finish_effect)
    case (refused e rt)
    then show ?thesis
      using b j do_load_finish base_inv_runtime [OF b, of rt] by (simp add: world_inv_def job_inv_def)
  next
    case published
    then show ?thesis
      using b j do_load_finish base_inv_published [OF b, of "mf_canonical_id m"]
      by (simp add: world_inv_def job_inv_def)
  qed
next
  case (do_load_dropped m key)
  then show ?thesis
    using world_inv_runtime [OF i, of "load_abandon (mf_canonical_id m) key (ap_runtime (wd_app w))"]
    by (simp add: world_inv_def job_inv_def)
next
  case (do_preload_start app r)
  then show ?thesis
    using i preload_begin_inv [of "wd_app w" "wd_cleared w" app r] by (cases r) (simp_all add: world_inv_def)
next
  case (do_preload_turn job executor app p)
  then show ?thesis
    using i preload_turn_inv [of "wd_app w" "wd_cleared w" job executor app p]
    by (simp add: world_inv_def job_inv_def [of _ "Ready job"])
next
  case (do_preload_result job m r app1 r1 app p)
  have b: "base_inv (wd_app w) (wd_cleared w) {}" and j: "job_inv (wd_app w) (Returned (Some job) m r)"
    using i do_preload_result by (simp_all add: world_inv_def)
  from do_preload_result(3) have "base_inv app1 (wd_cleared w) {}"
  proof (cases rule: load_locked_finish_effect)
    case (refused e rt)
    then show ?thesis using base_inv_runtime [OF b, of rt] by simp
  next
    case published
    then show ?thesis using b j base_inv_published [OF b, of "mf_canonical_id m"] by (simp add: job_inv_def)
  qed
  with j do_preload_result show ?thesis
    using preload_result_inv [of app1 "wd_cleared w" "wd_app w" job m r r1 app p]
    by (simp add: world_inv_def job_inv_def [of _ "Returned (Some job) m r"])
next
  case (do_preload_dropped job m key)
  let ?app = "(wd_app w)\<lparr>ap_runtime := load_abandon (mf_canonical_id m) key (ap_runtime (wd_app w))\<rparr>"
  have "base_inv ?app (wd_cleared w) {}" "preload_inv ?app job"
    using i do_preload_dropped(2)
      world_inv_runtime(1) [OF i, of "load_abandon (mf_canonical_id m) key (ap_runtime (wd_app w))"]
    by (simp_all add: world_inv_def job_inv_def)
  then show ?thesis using preload_fail_inv do_preload_dropped by (simp add: world_inv_def)
next
  case (do_unload m app r)
  then show ?thesis
    using i unload_start_inv [of "wd_app w" "wd_cleared w" m app r] by (simp add: world_inv_def)
next
  case (do_unload_finish m status app r)
  then show ?thesis
    using i unload_finish_inv [of "wd_app w" "wd_cleared w" m status app r] by (simp add: world_inv_def)
next
  case do_fence
  then show ?thesis using i fence_inv [of "wd_app w" "wd_cleared w" "leaving (wd_job w)" "wd_job w"] by (simp add: world_inv_def)
next
  case (do_runtime_shutdown executor requested rt answer)
  then show ?thesis
    using world_inv_runtime [OF i, of rt] by (simp add: world_inv_def)
next
  case (do_runtime_finish now was_drained)
  moreover have "ap_shutting_down (wd_app w)"
    using i do_runtime_finish by (simp add: world_inv_def base_inv_def)
  ultimately show ?thesis
    using world_inv_runtime [OF i, of "finish_shutdown now was_drained (ap_runtime (wd_app w))"]
    by (simp add: world_inv_def)
next
  case do_clear_loaded
  then show ?thesis using i clear_inv(1) [of "wd_app w" "wd_cleared w" "leaving (wd_job w)" "wd_job w"] by (simp add: world_inv_def)
next
  case do_clear_pending
  then show ?thesis using i clear_inv(2) [of "wd_app w" "wd_cleared w" "leaving (wd_job w)" "wd_job w"] by (simp add: world_inv_def)
qed


lemma resolve_preloads_names:
  assumes "resolve_preloads catalog names seen acc = Inr resolved"
  shows "\<exists>ms. resolved = acc @ map mf_canonical_id ms \<and> list_all2 (\<lambda>n m. catalog_resolve catalog n = Some m) names ms \<and>
    distinct (map mf_canonical_id ms) \<and> mf_canonical_id ` set ms \<inter> seen = {}"
  using assms
proof (induction names arbitrary: seen acc)
  case (Cons n names)
  from Cons.prems obtain m where m: "catalog_resolve catalog n = Some m" "mf_canonical_id m \<notin> seen"
    "resolve_preloads catalog names (insert (mf_canonical_id m) seen) (acc @ [mf_canonical_id m]) = Inr resolved"
    by (auto split: option.split_asm if_split_asm)
  from Cons.IH [OF m(3)] obtain ms where "resolved = (acc @ [mf_canonical_id m]) @ map mf_canonical_id ms"
    "list_all2 (\<lambda>n m. catalog_resolve catalog n = Some m) names ms" "distinct (map mf_canonical_id ms)"
    "mf_canonical_id ` set ms \<inter> insert (mf_canonical_id m) seen = {}" by blast
  with m show ?case by (intro exI [of _ "m # ms"]) auto
qed simp

text \<open>A service over a constructed catalog, as \<^verbatim>\<open>EmbeddingApplication::new\<close> builds it.\<close>

definition built :: "application \<Rightarrow> bool" where
  "built app \<longleftrightarrow> (\<exists>parse_url ms as catalog config.
     catalog_new parse_url ms as = Inr catalog \<and> with_catalog True True config catalog = Inr app)"

lemma world_inv_init:
  assumes "built app"
  shows "world_inv (world_init app)"
proof -
  obtain parse_url ms as catalog config where c: "catalog_new parse_url ms as = Inr catalog"
    and w: "with_catalog True True config catalog = Inr app"
    using assms by (auto simp: built_def)
  obtain resolved rt where r: "resolve_preloads catalog (sc_preload_models config) {} [] = Inr resolved"
    and rt: "runtime_new (policy_from_limits (sc_limits config) default_batch_wait) = Inr rt"
    and app: "ap_runtime app = rt" "ap_catalog app = catalog" "ap_loaded app = Held_By_Nobody {}"
      "ap_preload_pending app = Held_By_Nobody {}" "ap_preload_models app = resolved"
    using w by (auto simp: with_catalog_def and_then_eq_Inr map_err_eq_Inr)
  obtain ms' where "resolved = map mf_canonical_id ms'" "list_all2 (\<lambda>n m. catalog_resolve catalog n = Some m) (sc_preload_models config) ms'"
    using resolve_preloads_names [OF r] by auto
  then have "\<forall>x \<in> set resolved. \<exists>m. catalog_resolve catalog x = Some m \<and> mf_canonical_id m = x"
    using resolve_iff [OF c] by (fastforce simp: list_all2_conv_all_nth set_conv_nth)
  moreover have "\<not> rt_draining rt" using rt by (auto simp: runtime_new_def and_then_eq_Inr)
  ultimately show ?thesis
    using app by (simp add: world_init_def world_inv_def base_inv_def job_inv_def)
qed

lemma reachable_inv: "app_reachable app w \<Longrightarrow> built app \<Longrightarrow> world_inv w"
  by (induction rule: app_reachable.induct) (auto simp: world_inv_init intro: world_inv_step)


section \<open>Guarantees\<close>

text \<open>
  The two registries of loaded models agree: as long as no shutdown has begun, every model the
  service reports as loaded is registered with the runtime, whatever is in progress (a model whose
  unload is half done is the only exception), and no model is gated outside a preload.
\<close>

theorem loaded_models_are_registered:
  assumes "built app" and "app_reachable app w" and "\<not> ap_shutting_down (wd_app w)"
  shows "lock_set (ap_loaded (wd_app w)) \<subseteq> registered (ap_runtime (wd_app w)) \<union> leaving (wd_job w) \<and>
    (job_preload (wd_job w) = None \<longrightarrow> lock_set (ap_preload_pending (wd_app w)) = {})"
  using reachable_inv [OF assms(2,1)] assms(3) by (auto simp: world_inv_def base_inv_def job_inv_def)

lemma preload_ends:
  assumes s: "app_step w w'" and j: "job_preload (wd_job w) = Some pj" and f: "job_preload (wd_job w') = None"
  obtains
    (done_ok) outs where "wd_answer w' = Some (Inr outs)"
  | (failed) rt where "wd_app w' = preload_fail pj ((wd_app w)\<lparr>ap_runtime := rt\<rparr>)"
      "\<not> (\<exists>outs. wd_answer w' = Some (Inr outs))"
  using s
proof (cases rule: app_step.cases)
  case (do_preload_turn job executor app p)
  have pj: "pj = job" using do_preload_turn j by simp
  have same: "(wd_app w)\<lparr>ap_runtime := ap_runtime (wd_app w)\<rparr> = wd_app w" by simp
  obtain r where p: "p = Finished r" using do_preload_turn f by (cases p) auto
  show ?thesis
  proof (cases r)
    case (Inr outs)
    then show ?thesis using do_preload_turn p done_ok by simp
  next
    case (Inl e)
    have "\<exists>rt. app = preload_fail pj ((wd_app w)\<lparr>ap_runtime := rt\<rparr>)"
    proof (cases "pj_rest job")
      case Nil
      then have "app = preload_fail pj (wd_app w)"
        using do_preload_turn(3) p Inl pj
        by (auto simp: preload_turn_def tx_commit_def preload_fail_def split: option.split_asm)
      then show ?thesis using same by metis
    next
      case (Cons c rest)
      show ?thesis
      proof (cases "catalog_resolve (ap_catalog (wd_app w)) c")
        case None
        then have "app = preload_fail pj (wd_app w)" using do_preload_turn(3) Cons pj by (simp add: preload_turn_def)
        then show ?thesis using same by metis
      next
        case (Some m)
        obtain app1 r1 where l: "load_locked_start executor m (wd_app w) = (app1, r1)" by fastforce
        obtain rt where "app1 = (wd_app w)\<lparr>ap_runtime := rt\<rparr>" using load_locked_start_effect [OF l] .
        then have "app = preload_fail pj ((wd_app w)\<lparr>ap_runtime := rt\<rparr>)"
          using do_preload_turn(3) Cons Some l p Inl pj
          by (auto simp: preload_turn_def preload_result_def split: if_split_asm sum.split_asm)
        then show ?thesis ..
      qed
    qed
    then show ?thesis using do_preload_turn p Inl failed by auto
  qed
next
  case (do_preload_result job m r app1 r1 app p)
  obtain r' where p: "p = Finished r'" using do_preload_result f by (cases p) auto
  then obtain e where e: "r1 = Inl e" "app = preload_fail job app1" "r' = Inl e"
    using do_preload_result(4) by (auto simp: preload_result_def split: sum.split_asm if_split_asm)
  from do_preload_result(3) e(1) obtain rt where "app1 = (wd_app w)\<lparr>ap_runtime := rt\<rparr>"
    by (cases rule: load_locked_finish_effect) auto
  then show ?thesis using do_preload_result e p j failed by auto
next
  case (do_preload_dropped job m key)
  then show ?thesis using j failed by auto
qed (use j f in auto)



text \<open>
  The startup report is complete and honest: a preload that succeeds reports every configured model
  exactly once, in configuration order; an outcome carries an error exactly when its model was not
  loaded; under the strict policy every model is loaded; and, unless a shutdown has begun, every model
  reported as loaded is in the loaded set.
\<close>

theorem startup_report_is_complete:
  assumes "built app" and "app_reachable app w" and "app_step w w'" and "wd_answer w' = Some (Inr outs)"
  shows "map po_canonical_id outs = ap_preload_models (wd_app w) \<and>
    (\<forall>oc \<in> set outs. po_loaded oc \<longleftrightarrow> po_error oc = None) \<and>
    (ap_startup_policy (wd_app w) = Strict \<longrightarrow> (\<forall>oc \<in> set outs. po_loaded oc)) \<and>
    (\<not> ap_shutting_down (wd_app w) \<longrightarrow>
      (\<forall>oc \<in> set outs. po_loaded oc \<longrightarrow> po_canonical_id oc \<in> lock_set (ap_loaded (wd_app w'))))"
proof -
  have w: "world_inv w" by (rule reachable_inv [OF assms(2,1)])
  from assms(3) show ?thesis
  proof (cases rule: app_step.cases)
    case (do_preload_turn pj executor app p)
    have p: "p = Finished (Inr outs)" using do_preload_turn(1) assms(4) by (cases p) auto
    have j: "preload_inv (wd_app w) pj" using w do_preload_turn(2) by (simp add: world_inv_def job_inv_def)
    have rest: "pj_rest pj = []"
      using do_preload_turn(3) p
      by (auto simp: preload_turn_def preload_result_def neq_Nil_conv
          split: list.split_asm option.split_asm if_split_asm prod.split_asm sum.split_asm)
    then have "outs = pj_outcomes pj \<and> ap_loaded app = ap_loaded (wd_app w)"
      using do_preload_turn(3) p
      by (auto simp: preload_turn_def tx_commit_def tx_drop_def Let_def split: option.split_asm)
    then show ?thesis
      using j rest do_preload_turn(1) by (auto simp: preload_inv_def split: option.split_asm)
  next
    case (do_preload_result job m r app1 r1 app p)
    then show ?thesis using assms(4) by (cases p) (auto simp: preload_result_def split: sum.split_asm if_split_asm)
  qed (use assms(4) in auto)
qed

lemma app_embed_Ok:
  assumes "app_embed instant_add now command app = (app', Inr ticket)"
  obtains m deadline rt where "catalog_resolve (ap_catalog app) (cmd_model command) = Some m"
    "\<not> ap_shutting_down app" "mf_canonical_id m \<notin> lock_set (ap_preload_pending app)"
    "embed_timeout (cmd_timeout command) (ap_request_timeout app) \<noteq> 0"
    "instant_add now (embed_timeout (cmd_timeout command) (ap_request_timeout app)) = Some deadline"
    "embed_admit now (mf_canonical_id m) (cmd_input command) (cmd_options command)
       (cmd_cancellation command) (Some deadline) (ap_runtime app) = (rt, Inr ticket)"
  using assms unfolding app_embed_def Let_def
  by (auto simp: lock_set_def map_err_eq_Inr split: option.split_asm if_split_asm prod.split_asm)

text \<open>
  Work is accepted only for a model that is open for service: a request that gets a ticket named a
  catalogued model that no strict preload in progress gates, so nothing an uncommitted preload has
  loaded serves, and no shutdown had begun.
\<close>

theorem gated_models_do_not_serve:
  assumes "built app" and "app_reachable app w"
    and "app_embed instant_add now command (wd_app w) = (app', Inr ticket)"
  shows "\<not> ap_shutting_down (wd_app w) \<and>
    (\<exists>m. catalog_resolve (ap_catalog (wd_app w)) (cmd_model command) = Some m \<and>
      (\<forall>pj tx. job_preload (wd_job w) = Some pj \<longrightarrow> pj_tx pj = Some tx \<longrightarrow>
         mf_canonical_id m \<notin> set (tx_gated tx) \<union> set (tx_newly_loaded tx)))"
proof -
  have w: "world_inv w" by (rule reachable_inv [OF assms(2,1)])
  from assms(3) obtain m where m: "catalog_resolve (ap_catalog (wd_app w)) (cmd_model command) = Some m"
      "\<not> ap_shutting_down (wd_app w)" "mf_canonical_id m \<notin> lock_set (ap_preload_pending (wd_app w))"
    by (rule app_embed_Ok)
  have "mf_canonical_id m \<notin> set (tx_gated tx) \<union> set (tx_newly_loaded tx)"
    if "job_preload (wd_job w) = Some pj" "pj_tx pj = Some tx" for pj tx
    using w that m(2,3) by (auto simp: world_inv_def job_inv_def preload_inv_def tx_inv_def)
  with m show ?thesis by blast
qed

lemma cleared_stays: "app_step w w' \<Longrightarrow> wd_cleared w \<Longrightarrow> wd_cleared w'"
  by (cases rule: app_step.cases) auto

lemma steps_reachable: "app_step\<^sup>*\<^sup>* w w' \<Longrightarrow> app_reachable app w \<Longrightarrow> app_reachable app w'"
  by (induction rule: rtranclp_induct) (auto intro: app_next)

lemma steps_cleared: "app_step\<^sup>*\<^sup>* w w' \<Longrightarrow> wd_cleared w \<Longrightarrow> wd_cleared w'"
  by (induction rule: rtranclp_induct) (auto intro: cleared_stays)

text \<open>
  C24. Shutdown is final: once it has cleared the loaded models, no later step of any operation, not even
  a load that was already on its way, makes a model loaded again, and no request is accepted.
\<close>

theorem shutdown_is_final:
  assumes "built app" and "app_reachable app w" and "wd_cleared w" and "app_step\<^sup>*\<^sup>* w w'"
  shows "lock_set (ap_loaded (wd_app w')) = {} \<and> \<not> app_is_loaded (wd_app w') c \<and>
    \<not> is_ok (ensure_running (wd_app w')) \<and> \<not> is_ok (snd (app_embed instant_add now command (wd_app w')))"
proof -
  have "world_inv w'" "wd_cleared w'"
    using reachable_inv [OF steps_reachable [OF assms(4,2)] assms(1)] steps_cleared [OF assms(4,3)] by blast+
  then have "lock_set (ap_loaded (wd_app w')) = {}" "ap_shutting_down (wd_app w')"
    by (auto simp: world_inv_def base_inv_def)
  then show ?thesis
    by (auto simp: app_is_loaded_def ensure_running_def app_embed_def split: option.split)
qed


section \<open>Deadlines\<close>

text \<open>
  Timeouts only shorten: an accepted request runs under a deadline that is neither later than the caller's own timeout nor later than the server's request timeout.
\<close>

theorem embed_deadline_is_bounded:
  assumes "app_embed instant_add now command app = (app', Inr ticket)"
    and "\<And>t d. instant_add now t = Some d \<Longrightarrow> d = now + t"
  shows "\<exists>token deadline. pp_control (tk_plan ticket) = control_new token (Some deadline) \<and>
    deadline \<le> now + ap_request_timeout app * 1000000 \<and>
    (\<forall>t. cmd_timeout command = Some t \<longrightarrow> deadline \<le> now + t)"
proof -
  let ?t = "embed_timeout (cmd_timeout command) (ap_request_timeout app)"
  from assms(1) obtain m :: manifest and rt deadline where d: "instant_add now ?t = Some deadline"
    and e: "embed_admit now (mf_canonical_id m) (cmd_input command) (cmd_options command)
       (cmd_cancellation command) (Some deadline) (ap_runtime app) = (rt, Inr ticket)"
    by (rule app_embed_Ok) blast
  obtain token where c: "pp_control (tk_plan ticket) = control_new token
      (Some (effective_deadline (Some deadline) (now + pol_request_timeout (rt_policy (ap_runtime app)) * 1000000)))"
    using e unfolding embed_admit_def Let_def
    by (fastforce split: prod.split_asm bool.split_asm if_split_asm sum.split_asm option.split_asm)
  have "deadline = now + ?t" using assms(2) [OF d] .
  then have "effective_deadline (Some deadline) (now + pol_request_timeout (rt_policy (ap_runtime app)) * 1000000) \<le> now + ?t"
    by (simp add: effective_deadline_def)
  then show ?thesis
    using c by (fastforce simp: embed_timeout_def)
qed

section \<open>A rollback under load\<close>

text \<open>
  A model that a request has leased when its strict preload fails stays registered with the runtime, while
  the service forgets that it is loaded and opens its gate: the error of the rollback's unload is ignored.
\<close>

theorem leased_model_survives_rollback:
  assumes "rt_models (ap_runtime app) = Held_By_Nobody models" and "reg_get models c = Some i"
    and "sl_leases (rt_slots (ap_runtime app) ! i) \<noteq> 0"
    and "tx = \<lparr>tx_gated = [c], tx_newly_loaded = [c], tx_committed = False\<rparr>"
  shows "c \<in> registered (ap_runtime (tx_drop tx app)) \<and> c \<notin> lock_set (ap_loaded (tx_drop tx app)) \<and>
    c \<notin> lock_set (ap_preload_pending (tx_drop tx app))"
proof -
  have "fst (unload c (ap_runtime app)) = ap_runtime app"
    using assms(1-3) by (simp add: unload_def)
  then show ?thesis
    using assms by (simp add: tx_drop_def unload_all_def registered_def reg_contains_def)
qed

section \<open>Examples\<close>

definition demo_service_config :: "startup_policy \<Rightarrow> server_config" where
  "demo_service_config policy = server_config_default\<lparr>sc_preload_models := [lit ''b''], sc_startup_policy := policy\<rparr>"

definition demo_app :: "startup_policy \<Rightarrow> application" where
  "demo_app policy = \<lparr>ap_runtime = demo_runtime\<lparr>rt_policy := policy_from_limits limits_default 4\<rparr>, ap_catalog = demo_catalog,
     ap_loaded = Held_By_Nobody {}, ap_preload_pending = Held_By_Nobody {}, ap_shutting_down = False,
     ap_preload_models = [lit ''a/b''], ap_startup_policy = policy, ap_request_timeout = 30000, ap_shutdown_timeout = 20000\<rparr>"

lemma demo_resolve:
  "catalog_resolve demo_catalog (lit ''b'') = Some demo_manifest"
  "catalog_resolve demo_catalog (lit ''a/b'') = Some demo_manifest"
  by (simp_all add: catalog_resolve_def demo_names) (simp_all add: demo_catalog_def reg_get_def)

lemma demo_id [simp]: "mf_canonical_id demo_manifest = lit ''a/b''"
  by (simp add: demo_manifest_def)

lemma demo_app_new: "with_catalog True True (demo_service_config policy) demo_catalog = Inr (demo_app policy)"
  by (simp add: with_catalog_def demo_service_config_def demo_resolve server_config_default_def runtime_new_def policy_validate_def
      policy_from_limits_def limits_default_def default_batch_wait_def demo_app_def demo_runtime_def policy_default_def)

lemma demo_built: "built (demo_app policy)"
  unfolding built_def using demo_catalog_new demo_app_new by blast

text \<open>The worlds of a load through the alias: reserved, published, and in the loaded set.\<close>

definition demo_waiting :: app_world where
  "demo_waiting = (world_init (demo_app Strict))\<lparr>
     wd_app := fst (load_locked_start True demo_manifest (demo_app Strict)), wd_job := Waits None demo_manifest 1\<rparr>"

definition demo_returned :: app_world where
  "demo_returned = demo_waiting\<lparr>
     wd_app := (wd_app demo_waiting)\<lparr>ap_runtime := fst (load_with_end (Engine_Ready True True) (lit ''a/b'') 1
       (ap_runtime (wd_app demo_waiting)))\<rparr>, wd_job := Returned None demo_manifest (Inr ())\<rparr>"

definition demo_serving :: app_world where
  "demo_serving = demo_returned\<lparr>
     wd_app := fst (load_locked_finish demo_manifest (Inr ()) (wd_app demo_returned)), wd_job := Free\<rparr>"

lemma demo_app_fields [simp]:
  "ap_loaded (demo_app p) = Held_By_Nobody {}" "ap_shutting_down (demo_app p) = False"
  "ap_catalog (demo_app p) = demo_catalog" "ap_startup_policy (demo_app p) = p"
  "ap_preload_models (demo_app p) = [lit ''a/b'']" "ap_preload_pending (demo_app p) = Held_By_Nobody {}"
  by (simp_all add: demo_app_def)

lemma demo_start: "load_locked_start True demo_manifest (demo_app Strict) = (wd_app demo_waiting, Inr 1)"
  by (simp add: load_locked_start_def app_is_loaded_def demo_waiting_def load_reserve_def admit_work_def admit_work_locked_def
     demo_app_def admit.simps coordinator_default_def Let_def)

lemma demo_waiting_fields:
  "rt_models (ap_runtime (wd_app demo_waiting)) = Held_By_Nobody []"
  "rt_draining (ap_runtime (wd_app demo_waiting)) = False"
  "rt_admin (ap_runtime (wd_app demo_waiting)) = Held_By_Nobody ()"
  "rt_loading (ap_runtime (wd_app demo_waiting)) = Held_By_Nobody [(lit ''a/b'', 1)]"
  "rt_schedulers (ap_runtime (wd_app demo_waiting)) = Held_By_Nobody []"
  by (simp_all add: load_locked_start_def app_is_loaded_def demo_waiting_def load_reserve_def admit_work_def admit_work_locked_def
     demo_app_def admit.simps coordinator_default_def Let_def reg_insert_def)

lemma demo_event:
  "load_with_end (Engine_Ready True True) (lit ''a/b'') 1 (ap_runtime (wd_app demo_waiting)) =
     (ap_runtime (wd_app demo_returned), Inr ())"
  by (simp add: demo_returned_def load_with_end_def register_reserved_def demo_waiting_fields Let_def reg_get_def reg_contains_def)

lemma demo_finish: "load_locked_finish demo_manifest (Inr ()) (wd_app demo_returned) = (wd_app demo_serving, Inr ())"
  by (simp add: demo_serving_def demo_returned_def load_locked_finish_def demo_waiting_def load_locked_start_def app_is_loaded_def
    split: prod.split)

lemma demo_serving_reachable: "app_reachable (demo_app Strict) demo_serving"
proof -
  have w: "wd_job (world_init (demo_app Strict)) = Free" "wd_app (world_init (demo_app Strict)) = demo_app Strict"
    by (simp_all add: world_init_def)
  have "demo_waiting = (world_init (demo_app Strict))\<lparr>wd_app := wd_app demo_waiting, wd_answer := None,
      wd_job := (case Inr 1 :: application_error + nat of Inl _ \<Rightarrow> Free | Inr key \<Rightarrow> Waits None demo_manifest key)\<rparr>"
    by (simp add: demo_waiting_def world_init_def)
  then have 1: "app_step (world_init (demo_app Strict)) demo_waiting"
    using do_load_start [OF w(1), unfolded w, of "lit ''b''" demo_manifest True, OF _ demo_start] demo_resolve by simp
  have 2: "app_step demo_waiting demo_returned"
    using do_load_event [of demo_waiting None demo_manifest 1 "Engine_Ready True True"] demo_event
    by (simp add: demo_waiting_def demo_returned_def world_init_def)
  have 3: "app_step demo_returned demo_serving"
    using do_load_finish [of demo_returned demo_manifest "Inr ()"] demo_finish
    by (simp add: demo_returned_def demo_serving_def demo_waiting_def world_init_def)
  show ?thesis
    by (rule app_next [OF app_next [OF app_next [OF app_start 1] 2] 3])
qed

lemma demo_serving_fields:
  "rt_models (ap_runtime (wd_app demo_serving)) = Held_By_Nobody [(lit ''a/b'', 0)]"
  "ap_loaded (wd_app demo_serving) = Held_By_Nobody {lit ''a/b''}"
  "ap_preload_pending (wd_app demo_serving) = Held_By_Nobody {}" "ap_shutting_down (wd_app demo_serving) = False"
  "wd_job demo_serving = Free" "ap_catalog (wd_app demo_serving) = demo_catalog"
  "ap_request_timeout (wd_app demo_serving) = 30000"
  by (simp_all add: demo_serving_def demo_returned_def load_locked_finish_def demo_waiting_def load_locked_start_def app_is_loaded_def
     load_with_end_def register_reserved_def load_reserve_def admit_work_def admit_work_locked_def
     demo_app_def admit.simps coordinator_default_def Let_def reg_insert_def reg_get_def reg_contains_def publish_slot_def new_slot_def
     token_default_def)

theorem loaded_models_are_registered_witness:
  "lit ''a/b'' \<in> registered (ap_runtime (wd_app demo_serving))"
  using loaded_models_are_registered [OF demo_built demo_serving_reachable] by (simp add: demo_serving_fields)

definition demo_command :: embed_command where
  "demo_command = \<lparr>cmd_model = lit ''b'', cmd_input = [[104, 105]], cmd_options = default_options,
     cmd_cancellation = Single 0, cmd_timeout = Some 5\<rparr>"


lemma demo_serving_runtime:
  "rt_slots (ap_runtime (wd_app demo_serving)) =
     [\<lparr>sl_key = 1, sl_leases = 0, sl_accepting = True, sl_cancellation = Single 0, sl_queued = 0\<rparr>]"
  "rt_heap (ap_runtime (wd_app demo_serving)) = \<lparr>cells = [signal_default], woken = []\<rparr>"
  "rt_admin (ap_runtime (wd_app demo_serving)) = Held_By_Nobody ()"
  "rt_draining (ap_runtime (wd_app demo_serving)) = False"
  "rt_policy (ap_runtime (wd_app demo_serving)) = policy_from_limits limits_default 4"
  "\<exists>c. admit (rt_shutdown (ap_runtime (wd_app demo_serving))) = (c, True)"
  by (simp_all add: demo_serving_def demo_returned_def load_locked_finish_def demo_waiting_def load_locked_start_def app_is_loaded_def
     load_with_end_def register_reserved_def load_reserve_def admit_work_def admit_work_locked_def
     demo_app_def admit.simps coordinator_default_def Let_def reg_insert_def reg_get_def reg_contains_def publish_slot_def new_slot_def
     token_default_def drop_work_permit_def drop_permit_def drop_locked_def saturating_add_def word_limit_def)

lemma demo_tokens:
  "ensure_active (fst (token_any 0 \<lparr>cells = [signal_default, signal_default], woken = []\<rparr> [Single 0, Single 1, Single 0])) 0
     (control_new (snd (token_any 0 \<lparr>cells = [signal_default, signal_default], woken = []\<rparr> [Single 0, Single 1, Single 0])) (Some 5)) = Inr ()"
proof -
  have f: "\<not> flagged \<lparr>cells = [signal_default, signal_default, signal_default], woken = []\<rparr> i" if "i < 3" for i
    using that by (auto simp: flagged_def cell_at_def signal_default_def less_Suc_eq numeral_3_eq_3)
  show ?thesis
    using f [of 0] f [of 1] f [of 2]
    by (simp add: token_any_def control_new_def signal_register_dependent_def Let_def numeral_2_eq_2)
qed

lemma demo_app_embed:
  obtains app' t where "app_embed (\<lambda>a b. Some (a + b)) 0 demo_command (wd_app demo_serving) = (app', Inr t)"
proof -
  let ?rt = "ap_runtime (wd_app demo_serving)"
  obtain c where c: "admit (rt_shutdown ?rt) = (c, True)" using demo_serving_runtime(6) ..
  have v: "validate_raw_inputs [[104, 105]] 262144 1048576 = Inr ()"
    by (simp add: validate_raw_inputs_def str_len_def utf8_len_def checked_add_def word_limit_def)
  have m: "requested_model_new (lit ''a/b'') = Inr (lit ''a/b'')"
    by (simp add: requested_model_new_def trim_def is_whitespace_def lit_def)
  obtain h t where act: "token_any 0 \<lparr>cells = [signal_default, signal_default], woken = []\<rparr> [Single 0, Single (Suc 0), Single 0] = (h, t)"
    "ensure_active h 0 (control_new t (Some 5)) = Inr ()"
    using demo_tokens by (metis One_nat_def prod.collapse)
  have "\<exists>t. snd (embed_admit 0 (lit ''a/b'') [[104, 105]] default_options (Single 0) (Some 5) ?rt) = Inr t"
    using c act v m unfolding embed_admit_def admit_work_def admit_work_locked_def
    by (simp add: demo_serving_runtime demo_serving_fields Let_def policy_from_limits_def limits_default_def
      reg_get_def lease_def upd_slot_def token_default_def queue_acquire_def effective_deadline_def)
  then obtain rt t where "embed_admit 0 (lit ''a/b'') [[104, 105]] default_options (Single 0) (Some 5) ?rt = (rt, Inr t)"
    by (metis prod.collapse)
  then have "app_embed (\<lambda>a b. Some (a + b)) 0 demo_command (wd_app demo_serving) =
      ((wd_app demo_serving)\<lparr>ap_runtime := rt\<rparr>, Inr t)"
    by (simp add: app_embed_def demo_command_def demo_serving_fields demo_resolve embed_timeout_def)
  then show thesis by (rule that)
qed

theorem gated_models_do_not_serve_witness:
  "\<not> ap_shutting_down (wd_app demo_serving) \<and> is_ok (snd (app_embed (\<lambda>a b. Some (a + b)) 0 demo_command (wd_app demo_serving)))"
proof -
  obtain app' t where e: "app_embed (\<lambda>a b. Some (a + b)) 0 demo_command (wd_app demo_serving) = (app', Inr t)"
    by (rule demo_app_embed)
  then show ?thesis
    using gated_models_do_not_serve [OF demo_built demo_serving_reachable e] by simp
qed

text \<open>A strict preload that cannot start its load outside an executor, and a shutdown.\<close>

definition demo_gated :: app_world where
  "demo_gated = (world_init (demo_app Strict))\<lparr>wd_app := (demo_app Strict)\<lparr>ap_preload_pending := Held_By_Nobody {lit ''a/b''}\<rparr>,
     wd_job := Ready \<lparr>pj_rest = [lit ''a/b''], pj_outcomes = [],
       pj_tx = Some \<lparr>tx_gated = [lit ''a/b''], tx_newly_loaded = [], tx_committed = False\<rparr>\<rparr>\<rparr>"

definition demo_failed :: app_world where
  "demo_failed = (world_init (demo_app Strict))\<lparr>wd_answer := Some (Inl (from_lifecycle_error LoadFailed))\<rparr>"

lemma demo_gated_reachable: "app_reachable (demo_app Strict) demo_gated"
  using app_next [OF app_start do_preload_start [of "world_init (demo_app Strict)"]]
  by (simp add: world_init_def preload_begin_def ensure_running_def tx_begin_def demo_gated_def demo_app_def Let_def)

lemma demo_gated_fails: "app_step demo_gated demo_failed"
proof -
  have "load_locked_start False demo_manifest (wd_app demo_gated) = (wd_app demo_gated, Inl (from_lifecycle_error LoadFailed))"
    by (simp add: load_locked_start_def demo_gated_def app_is_loaded_def load_reserve_def)
  then have "preload_turn False \<lparr>pj_rest = [lit ''a/b''], pj_outcomes = [],
       pj_tx = Some \<lparr>tx_gated = [lit ''a/b''], tx_newly_loaded = [], tx_committed = False\<rparr>\<rparr> (wd_app demo_gated) =
     (demo_app Strict, Finished (Inl (from_lifecycle_error LoadFailed)))"
    by (simp add: preload_turn_def demo_gated_def demo_resolve app_is_loaded_def preload_result_def preload_fail_def
      tx_drop_def unload_all_def demo_app_def Let_def)
  from do_preload_turn [OF _ this] show ?thesis
    by (simp add: demo_gated_def demo_failed_def world_init_def)
qed


definition demo_reported :: app_world where
  "demo_reported = (world_init (demo_app BestEffort))\<lparr>wd_job := Ready \<lparr>pj_rest = [],
     pj_outcomes = [\<lparr>po_canonical_id = lit ''a/b'', po_loaded = False, po_error = Some AK_ModelUnavailable\<rparr>],
     pj_tx = None\<rparr>\<rparr>"

lemma demo_reported_reachable: "app_reachable (demo_app BestEffort) demo_reported"
proof -
  let ?job = "\<lparr>pj_rest = [lit ''a/b''], pj_outcomes = [], pj_tx = None\<rparr>"
  let ?w = "(world_init (demo_app BestEffort))\<lparr>wd_job := Ready ?job\<rparr>"
  have r: "app_reachable (demo_app BestEffort) ?w"
    using app_next [OF app_start do_preload_start [of "world_init (demo_app BestEffort)"]]
    by (simp add: world_init_def preload_begin_def ensure_running_def Let_def)
  have "preload_turn False ?job (demo_app BestEffort) = (demo_app BestEffort, Turn \<lparr>pj_rest = [],
     pj_outcomes = [\<lparr>po_canonical_id = lit ''a/b'', po_loaded = False, po_error = Some AK_ModelUnavailable\<rparr>], pj_tx = None\<rparr>)"
    by (simp add: preload_turn_def load_locked_start_def app_is_loaded_def load_reserve_def preload_result_def push_outcome_def
        application_error_new_def demo_resolve)
  then have "app_step ?w demo_reported"
    using do_preload_turn [of ?w ?job False "demo_app BestEffort"] by (simp add: world_init_def demo_reported_def)
  from app_next [OF r this] show ?thesis
    by (simp add: world_init_def demo_reported_def)
qed

theorem startup_report_is_complete_witness:
  "map po_canonical_id [\<lparr>po_canonical_id = lit ''a/b'', po_loaded = False, po_error = Some AK_ModelUnavailable\<rparr>]
     = ap_preload_models (demo_app BestEffort)"
proof -
  let ?outs = "[\<lparr>po_canonical_id = lit ''a/b'', po_loaded = False, po_error = Some AK_ModelUnavailable\<rparr>]"
  have "app_step demo_reported (demo_reported\<lparr>wd_answer := Some (Inr ?outs), wd_job := Free\<rparr>)"
    using do_preload_turn [of demo_reported "\<lparr>pj_rest = [], pj_outcomes = ?outs, pj_tx = None\<rparr>" False "demo_app BestEffort"
        "Finished (Inr ?outs)"]
    by (simp add: demo_reported_def preload_turn_def world_init_def)
  from startup_report_is_complete [OF demo_built demo_reported_reachable this, of ?outs] show ?thesis
    by (simp add: demo_reported_def world_init_def)
qed

definition demo_down :: app_world where
  "demo_down = (world_init (demo_app Strict))\<lparr>wd_app := (demo_app Strict)\<lparr>ap_shutting_down := True\<rparr>, wd_cleared := True\<rparr>"

lemma demo_down_reachable: "app_reachable (demo_app Strict) demo_down"
  using app_next [OF app_next [OF app_start do_fence] do_clear_loaded, of "demo_app Strict"]
  by (simp add: world_init_def shutdown_fence_def shutdown_clear_loaded_def demo_down_def demo_app_def)

theorem shutdown_is_final_witness: "\<not> app_is_loaded (wd_app demo_down) (lit ''a/b'')"
proof -
  have "wd_cleared demo_down" by (simp add: demo_down_def)
  then show ?thesis
    using shutdown_is_final [OF demo_built demo_down_reachable _ rtranclp.rtrancl_refl, of "lit ''a/b''"] by blast
qed

theorem embed_deadline_is_bounded_witness:
  "\<exists>app' ticket token deadline. app_embed (\<lambda>a b. Some (a + b)) 0 demo_command (wd_app demo_serving) = (app', Inr ticket) \<and>
     pp_control (tk_plan ticket) = control_new token (Some deadline) \<and> deadline \<le> 5"
proof -
  obtain app' t where e: "app_embed (\<lambda>a b. Some (a + b)) 0 demo_command (wd_app demo_serving) = (app', Inr t)"
    by (rule demo_app_embed)
  have "cmd_timeout demo_command = Some 5" by (simp add: demo_command_def)
  then show ?thesis
    using embed_deadline_is_bounded [OF e] e by fastforce
qed

end
