(* ===== verification/App_State.thy ===== *)
theory App_State
  imports Application Security
begin

text \<open>
  The state cloned into the transports (\<^verbatim>\<open>AppState\<close> of \<^verbatim>\<open>impossible-server/src/application.rs\<close>): credentials,
  the source of request ids, and the one-way shutdown trigger.
\<close>

section \<open>Request ids\<close>

text \<open>\<^verbatim>\<open>RequestIdSource::next\<close>: the counter after the call and the id.\<close>

function request_id_next :: "64 word \<Rightarrow> 64 word \<times> 64 word" where
  "request_id_next counter =
     (let value = counter + 1 in if value \<noteq> 0 then (value, value) else request_id_next value)"
  by pat_completeness auto
termination
proof (relation "measure (\<lambda>n :: 64 word. if n = - 1 then 1 else 0)")
  fix counter v :: "64 word"
  assume "v = counter + 1" "\<not> v \<noteq> 0"
  then have "counter = - 1" "v = 0" by (simp_all add: eq_neg_iff_add_eq_0)
  then show "(v, counter) \<in> measure (\<lambda>n :: 64 word. if n = - 1 then 1 else 0)" by simp
qed simp

declare request_id_next.simps [simp del]

fun request_ids :: "nat \<Rightarrow> 64 word \<Rightarrow> (64 word) list" where
  "request_ids 0 counter = []"
| "request_ids (Suc k) counter = (case request_id_next counter of (counter', i) \<Rightarrow> i # request_ids k counter')"

text \<open>The ids of a cycle: every value but zero.\<close>

abbreviation id_cycle :: nat where
  "id_cycle \<equiv> 2 ^ 64 - 1"

lemma request_id_next_cases:
  "request_id_next counter = (if counter = - 1 then (1, 1) else (counter + 1, counter + 1))"
proof (cases "counter = - 1")
  case True
  then have "request_id_next counter = request_id_next 0" by (subst request_id_next.simps) simp
  also have "\<dots> = (1, 1)" by (subst request_id_next.simps) simp
  finally show ?thesis using True by simp
next
  case False
  then have "counter + 1 \<noteq> 0" by (simp add: eq_neg_iff_add_eq_0)
  then show ?thesis using False by (subst request_id_next.simps) (simp add: Let_def)
qed

lemma unat_all_ones: "unat (- 1 :: 64 word) = id_cycle"
  by (simp add: unsigned_minus_1_eq_mask mask_eq_exp_minus_1)

lemma shifted_mod: "(1 + c mod n + j) mod n = (c + Suc j) mod (n :: nat)"
proof -
  have "1 + c mod n + j = c mod n + Suc j" by simp
  then show ?thesis by (simp only: mod_add_left_eq)
qed

lemma mod_window: "(a + x) mod n = (a + y) mod n \<Longrightarrow> x < n \<Longrightarrow> y < n \<Longrightarrow> x = (y :: nat)"
proof (induction x y rule: linorder_wlog)
  case (le x y)
  then have "n dvd (a + y) - (a + x)" by (subst mod_eq_dvd_iff_nat [symmetric]) simp_all
  then show ?case using le by (auto dest: dvd_imp_le)
qed simp

lemma request_id_next_unat:
  "request_id_next counter = (v, i) \<Longrightarrow> v = i \<and> unat i = 1 + unat counter mod id_cycle"
proof -
  assume r: "request_id_next counter = (v, i)"
  show ?thesis
  proof (cases "counter = - 1")
    case True
    then have "unat counter = id_cycle" by (simp only: unat_all_ones)
    then show ?thesis using r True by (auto simp: request_id_next_cases)
  next
    case False
    then have "unat counter \<noteq> id_cycle" using unat_all_ones by (metis unsigned_word_eqI)
    moreover have "unat counter < 2 ^ 64" using unsigned_less [of counter] by simp
    ultimately have "unat counter < id_cycle" by linarith
    moreover from this have "unat (counter + 1) = unat counter + 1" by (simp add: unat_word_ariths)
    ultimately show ?thesis using r False by (auto simp: request_id_next_cases)
  qed
qed

lemma request_ids_unat:
  "map unat (request_ids k counter) = map (\<lambda>j. 1 + (unat counter + j) mod id_cycle) [0..<k]"
proof (induction k arbitrary: counter)
  case (Suc k)
  obtain v i where r: "request_id_next counter = (v, i)" by fastforce
  have i: "v = i" "unat i = 1 + unat counter mod id_cycle" using request_id_next_unat [OF r] by auto
  have "(unat i + j) mod id_cycle = (unat counter + Suc j) mod id_cycle" for j
    unfolding i by (rule shifted_mod)
  then show ?case
    using i by (simp add: r Suc.IH map_upt_Suc del: upt_Suc)
qed simp

text \<open>
  Request ids are unique: the call always returns, never returns zero, and any \<open>2 ^ 64 - 1\<close>
  consecutive ids are different, also across the wrap-around of the counter.
\<close>

theorem request_ids_are_unique:
  assumes "k \<le> 2 ^ 64 - 1"
  shows "distinct (request_ids k counter) \<and> 0 \<notin> set (request_ids k counter) \<and> length (request_ids k counter) = k"
proof -
  have "inj_on (\<lambda>j. 1 + (unat counter + j) mod id_cycle) {0..<k}"
  proof (rule inj_onI)
    fix x y assume xy: "x \<in> {0..<k}" "y \<in> {0..<k}"
      "1 + (unat counter + x) mod id_cycle = 1 + (unat counter + y) mod id_cycle"
    then have "(unat counter + x) mod id_cycle = (unat counter + y) mod id_cycle" by (simp only: add_left_cancel)
    moreover have "x < id_cycle" "y < id_cycle" using xy(1,2) assms by auto
    ultimately show "x = y" by (rule mod_window)
  qed
  then have "distinct (map unat (request_ids k counter))"
    unfolding request_ids_unat by (simp add: distinct_map)
  moreover have "0 \<notin> unat ` set (request_ids k counter)"
    unfolding set_map [symmetric] request_ids_unat by auto
  moreover have "length (request_ids k counter) = k"
    using arg_cong [OF request_ids_unat, of length] by simp
  ultimately show ?thesis
    by (auto simp: distinct_map image_iff)
qed


theorem request_ids_are_unique_witness: "distinct (request_ids 3 (- 2)) \<and> request_ids 3 (- 2) = [- 1, 1, 2]"
proof -
  have "request_ids 3 (- 2) = [- 1, 1, 2]"
    by (simp add: numeral_3_eq_3 request_id_next_cases)
  then show ?thesis using request_ids_are_unique [of 3 "- 2"] by simp
qed

section \<open>The shutdown trigger\<close>

text \<open>
  One \<^verbatim>\<open>cancelled()\<close> call: at the head of its loop, enabled (registered with \<^verbatim>\<open>Notify\<close>) and about to read
  the flag, parked, or returned. \<^verbatim>\<open>notify_waiters\<close> reaches every call that is enabled or parked and
  leaves nothing for later ones.
\<close>

datatype waiter = At_Head | Enabled bool | Parked bool | Returned_Now

record trigger_state =
  tg_triggered :: bool
  tg_notifying :: bool
  tg_waiters :: "waiter list"

definition trigger_init :: "nat \<Rightarrow> trigger_state" where
  "trigger_init n = \<lparr>tg_triggered = False, tg_notifying = False, tg_waiters = replicate n At_Head\<rparr>"

text \<open>\<^verbatim>\<open>trigger\<close>: the swap, and the notification by the caller that saw the old value false.\<close>

definition trigger_swap :: "trigger_state \<Rightarrow> trigger_state" where
  "trigger_swap s = (if tg_triggered s then s else s\<lparr>tg_triggered := True, tg_notifying := True\<rparr>)"

fun notify_one :: "waiter \<Rightarrow> waiter" where
  "notify_one (Enabled _) = Enabled True"
| "notify_one (Parked _) = Parked True"
| "notify_one w = w"

definition trigger_notify :: "trigger_state \<Rightarrow> trigger_state" where
  "trigger_notify s = s\<lparr>tg_notifying := False, tg_waiters := map notify_one (tg_waiters s)\<rparr>"

text \<open>The next step of a call by itself; a parked call that was not notified has none.\<close>

fun waiter_turn :: "bool \<Rightarrow> waiter \<Rightarrow> waiter" where
  "waiter_turn triggered At_Head = Enabled False"
| "waiter_turn triggered (Enabled notified) = (if triggered then Returned_Now else Parked notified)"
| "waiter_turn triggered (Parked notified) = (if notified then At_Head else Parked notified)"
| "waiter_turn triggered Returned_Now = Returned_Now"

inductive trigger_step :: "trigger_state \<Rightarrow> trigger_state \<Rightarrow> bool" where
  tg_swap: "trigger_step s (trigger_swap s)"
| tg_notify: "tg_notifying s \<Longrightarrow> trigger_step s (trigger_notify s)"
| tg_turn: "i < length (tg_waiters s) \<Longrightarrow>
     trigger_step s (s\<lparr>tg_waiters := (tg_waiters s)[i := waiter_turn (tg_triggered s) (tg_waiters s ! i)]\<rparr>)"

inductive trigger_reachable :: "nat \<Rightarrow> trigger_state \<Rightarrow> bool" for n :: nat where
  tg_start: "trigger_reachable n (trigger_init n)"
| tg_next: "trigger_reachable n s \<Longrightarrow> trigger_step s s' \<Longrightarrow> trigger_reachable n s'"

definition trigger_inv :: "trigger_state \<Rightarrow> bool" where
  "trigger_inv s \<longleftrightarrow> (tg_notifying s \<longrightarrow> tg_triggered s) \<and>
     (\<forall>w \<in> set (tg_waiters s). (w = Returned_Now \<longrightarrow> tg_triggered s) \<and>
        (w = Parked False \<longrightarrow> \<not> tg_triggered s \<or> tg_notifying s))"

lemma notify_one_iff [simp]:
  "notify_one w = Returned_Now \<longleftrightarrow> w = Returned_Now" "notify_one w \<noteq> Parked False"
  by (cases w; simp)+

lemma waiter_turn_parked:
  "waiter_turn t w = Parked False \<Longrightarrow> w = Parked False \<or> \<not> t"
  "waiter_turn t w = Returned_Now \<Longrightarrow> w = Returned_Now \<or> t"
  by (cases w; auto split: if_split_asm)+

lemma trigger_inv_step: "trigger_step s s' \<Longrightarrow> trigger_inv s \<Longrightarrow> trigger_inv s'"
proof (induction rule: trigger_step.induct)
  case (tg_turn i s)
  have "w \<in> set ((tg_waiters s)[i := x]) \<Longrightarrow> w = x \<or> w \<in> set (tg_waiters s)" for w x
    using set_update_subset_insert by fast
  moreover have "tg_waiters s ! i \<in> set (tg_waiters s)" using tg_turn.hyps by simp
  ultimately show ?case
    using tg_turn.prems waiter_turn_parked [of "tg_triggered s" "tg_waiters s ! i"]
    unfolding trigger_inv_def by simp metis
qed (auto simp: trigger_inv_def trigger_swap_def trigger_notify_def)

lemma trigger_reachable_inv: "trigger_reachable n s \<Longrightarrow> trigger_inv s"
proof (induction rule: trigger_reachable.induct)
  case tg_start
  show ?case by (simp add: trigger_inv_def trigger_init_def)
qed (rule trigger_inv_step)

text \<open>
  C27. No shutdown request is missed: whatever the interleaving, once the trigger call has finished every
  pending wait returns after at most three steps of its own; and a wait returns only if shutdown was
  requested.
\<close>

theorem shutdown_wait_is_not_missed:
  assumes "trigger_reachable n s" and "w \<in> set (tg_waiters s)"
  shows "(tg_triggered s \<and> \<not> tg_notifying s \<longrightarrow> (waiter_turn True ^^ 3) w = Returned_Now) \<and>
    (w = Returned_Now \<longrightarrow> tg_triggered s)"
proof -
  have i: "trigger_inv s" by (rule trigger_reachable_inv [OF assms(1)])
  show ?thesis
    using i assms(2) by (cases w) (auto simp: trigger_inv_def numeral_3_eq_3)
qed

theorem shutdown_wait_is_not_missed_witness:
  "(waiter_turn True ^^ 3) (Parked True) = Returned_Now"
proof -
  let ?s0 = "trigger_init 1"
  let ?s1 = "?s0\<lparr>tg_waiters := [Enabled False]\<rparr>"
  let ?s2 = "?s1\<lparr>tg_waiters := [Parked False]\<rparr>"
  have "trigger_reachable 1 ?s1" using tg_next [OF tg_start tg_turn [of 0 ?s0]] by (simp add: trigger_init_def)
  then have "trigger_reachable 1 ?s2" using tg_next [OF _ tg_turn [of 0 ?s1]] by (simp add: trigger_init_def)
  then have "trigger_reachable 1 (trigger_swap ?s2)" by (rule tg_next [OF _ tg_swap])
  then have "trigger_reachable 1 (trigger_notify (trigger_swap ?s2))"
    by (rule tg_next [OF _ tg_notify]) (simp add: trigger_swap_def trigger_init_def)
  from shutdown_wait_is_not_missed [OF this, of "Parked True"] show ?thesis
    by (simp add: trigger_notify_def trigger_swap_def trigger_init_def)
qed


section \<open>Shared state\<close>

record app_state =
  as_application :: application
  as_public_credential :: "secret option"
  as_admin_credential :: "secret option"
  as_origins :: origin_policy
  as_request_ids :: "64 word"
  as_limits :: limits
  as_admin_api_enabled :: bool

datatype app_state_error =
    ASE_Configuration
  | ASE_Credential credential_error
  | ASE_Application application_error

fun app_state_error_display :: "app_state_error \<Rightarrow> string" where
  "app_state_error_display ASE_Configuration = ''server configuration is invalid''"
| "app_state_error_display (ASE_Credential _) = ''server credential configuration is invalid''"
| "app_state_error_display (ASE_Application _) = ''embedding application initialization failed''"

text \<open>\<^verbatim>\<open>source.as_ref().map(load_credential).transpose()\<close>.\<close>

definition load_optional ::
  "(rstr \<Rightarrow> rstr option) \<Rightarrow> (rstr \<Rightarrow> open_error + file_handle) \<Rightarrow> credential_source option \<Rightarrow>
   app_state_error + secret option" where
  "load_optional var_os open_file source =
     (case source of None \<Rightarrow> Ok None
      | Some src \<Rightarrow> (case load_credential var_os open_file src of
          Inl e \<Rightarrow> Err (ASE_Credential e) | Inr s \<Rightarrow> Ok (Some s)))"

definition app_state_new ::
  "(rstr \<Rightarrow> url option) \<Rightarrow> (rstr \<Rightarrow> rstr option) \<Rightarrow> (rstr \<Rightarrow> open_error + file_handle) \<Rightarrow>
   model_error + manifest list \<Rightarrow> bool \<Rightarrow> bool \<Rightarrow> server_config \<Rightarrow> app_state_error + app_state" where
  "app_state_new parse_url var_os open_file committed store_opens installer_builds config =
     and_then (map_err (\<lambda>_. ASE_Configuration) (validate parse_url config)) (\<lambda>_.
     and_then (load_optional var_os open_file (sc_auth config)) (\<lambda>public_credential.
     and_then (load_optional var_os open_file (sc_admin_auth config)) (\<lambda>admin_credential.
     and_then (case (public_credential, admin_credential) of
         (Some public, Some admin) \<Rightarrow> map_err ASE_Credential (verify_distinct_credentials public admin)
       | _ \<Rightarrow> Ok ()) (\<lambda>_.
     and_then (map_err ASE_Application
         (application_new parse_url committed store_opens installer_builds config)) (\<lambda>app.
     Ok \<lparr>as_application = app, as_public_credential = public_credential,
         as_admin_credential = admin_credential, as_origins = sc_allowed_origins config,
         as_request_ids = 0, as_limits = sc_limits config,
         as_admin_api_enabled = sc_admin_api_enabled config\<rparr>)))))"

definition next_request_id :: "app_state \<Rightarrow> app_state \<times> 64 word" where
  "next_request_id st =
     (case request_id_next (as_request_ids st) of (counter, i) \<Rightarrow> (st\<lparr>as_request_ids := counter\<rparr>, i))"

definition public_auth_required :: "app_state \<Rightarrow> bool" where
  "public_auth_required st \<longleftrightarrow> as_public_credential st \<noteq> None"

definition admin_auth_required :: "app_state \<Rightarrow> bool" where
  "admin_auth_required st \<longleftrightarrow> as_admin_credential st \<noteq> None"

definition metrics_credential :: "app_state \<Rightarrow> secret option" where
  "metrics_credential st =
     (case as_admin_credential st of Some s \<Rightarrow> Some s | None \<Rightarrow> as_public_credential st)"

definition metrics_auth_required :: "app_state \<Rightarrow> bool" where
  "metrics_auth_required st \<longleftrightarrow> metrics_credential st \<noteq> None"

text \<open>\<^verbatim>\<open>Option::is_none_or\<close>.\<close>

definition verify_with :: "secret option \<Rightarrow> bytes \<Rightarrow> bool" where
  "verify_with credential candidate =
     (case credential of None \<Rightarrow> True | Some s \<Rightarrow> secret_verify s candidate)"

definition verify_public_token :: "app_state \<Rightarrow> bytes \<Rightarrow> bool" where
  "verify_public_token st = verify_with (as_public_credential st)"

definition verify_admin_token :: "app_state \<Rightarrow> bytes \<Rightarrow> bool" where
  "verify_admin_token st = verify_with (as_admin_credential st)"

definition verify_metrics_token :: "app_state \<Rightarrow> bytes \<Rightarrow> bool" where
  "verify_metrics_token st = verify_with (metrics_credential st)"

lemma load_optional_Ok:
  "load_optional var_os open_file src = Inr c \<Longrightarrow> (c = None \<longleftrightarrow> src = None) \<and>
     (\<forall>s. c = Some s \<longrightarrow> secret_bytes s \<noteq> [] \<and> length (secret_bytes s) \<le> max_credential_bytes)"
  by (auto simp: load_optional_def dest: load_credential_bounds split: option.split_asm sum.split_asm)

lemma app_state_newE:
  assumes "app_state_new parse_url var_os open_file committed so ib config = Inr st"
  obtains public admin where "validate parse_url config = Inr ()"
    "load_optional var_os open_file (sc_auth config) = Inr public"
    "load_optional var_os open_file (sc_admin_auth config) = Inr admin"
    "\<forall>p a. public = Some p \<longrightarrow> admin = Some a \<longrightarrow> \<not> secret_verify p (secret_bytes a)"
    "as_public_credential st = public" "as_admin_credential st = admin"
proof -
  from assms obtain public admin where *: "validate parse_url config = Inr ()"
    "load_optional var_os open_file (sc_auth config) = Inr public"
    "load_optional var_os open_file (sc_admin_auth config) = Inr admin"
    "(case (public, admin) of (Some p, Some a) \<Rightarrow> map_err ASE_Credential (verify_distinct_credentials p a)
       | _ \<Rightarrow> Ok ()) = Inr ()"
    "as_public_credential st = public" "as_admin_credential st = admin"
    by (auto simp: app_state_new_def and_then_eq_Inr map_err_eq_Inr)
  then show thesis
    by (intro that [of public admin]) (auto simp: verify_distinct_credentials_def map_err_def split: if_split_asm)
qed



text \<open>A state for a server that listens on every address with two secrets, and three manifests for the aliases.\<close>

definition named_manifest :: "string \<Rightarrow> manifest" where
  "named_manifest name = demo_manifest\<lparr>mf_canonical_id := lit name\<rparr>"

definition exposed_config :: server_config where
  "exposed_config = server_config_default\<lparr>sc_http_bind := socket_addr_new (V4 0 0 0 0) 8080,
     sc_auth := Some (Environment (lit ''PUBLIC'')), sc_admin_auth := Some (Environment (lit ''ADMIN''))\<rparr>"

abbreviation curated_names :: "string list" where
  "curated_names \<equiv> [''BAAI/bge-small-en-v1.5'', ''intfloat/multilingual-e5-small'', ''nomic-ai/nomic-embed-text-v1.5'']"

lemma renamed_valid:
  "manifest_validate p m = Inr () \<Longrightarrow> validate_id i = Inr () \<Longrightarrow>
   manifest_validate p (m\<lparr>mf_canonical_id := i\<rparr>) = Inr ()"
  by (simp add: manifest_validate_def validate_bounded_fields_def and_then_eq_Inr)

lemma curated_names_valid:
  "n \<in> set curated_names \<Longrightarrow> validate_id (lit n) = Inr () \<and> valid_model_name (lit n)"
  by (auto simp: validate_id_def reject_if_eq_Inr lit_def str_len_def utf8_len_def bytes_all_portable portable_byte_def
      is_ascii_alphanumeric_def valid_model_name_def max_model_name_bytes_def trim_def is_whitespace_def is_control_def)

lemma curated_admissible:
  "catalog_admissible (\<lambda>_. Some demo_url) (map named_manifest curated_names) curated_aliases"
proof -
  have "valid_model_name a" if "(a, i) \<in> set curated_aliases" for a i
    using that
    by (auto simp: curated_aliases_def lit_def str_len_def utf8_len_def valid_model_name_def max_model_name_bytes_def
        trim_def is_whitespace_def is_control_def)
  moreover have "is_ok (manifest_validate (\<lambda>_. Some demo_url) (named_manifest n)) \<and> valid_model_name (lit n)"
    if "n \<in> set curated_names" for n
    using curated_names_valid [OF that] renamed_valid [OF demo_manifest_valid] by (simp add: named_manifest_def)
  ultimately show ?thesis
    by (auto simp: catalog_admissible_def named_manifest_def curated_aliases_def)
qed

lemma exposed_state_built:
  obtains st where "app_state_new (\<lambda>_. Some demo_url) two_keys (\<lambda>_. Inl Eloop) (Inr (map named_manifest curated_names)) True True
      exposed_config = Inr st" "as_public_credential st = Some (Secret (as_bytes (lit ''one'')))"
    "as_admin_credential st = Some (Secret (as_bytes (lit ''two'')))" "as_origins st = []" "as_admin_api_enabled st"
    "as_limits st = limits_default"
proof -
  obtain c where c: "catalog_new (\<lambda>_. Some demo_url) (map named_manifest curated_names) curated_aliases = Inr c"
    using catalog_new_accepts [OF curated_admissible] ..
  have v: "validate (\<lambda>_. Some demo_url) exposed_config = Inr ()"
    unfolding validate_Ok
    by (simp add: exposed_config_def server_config_default_def socket_addr_new_def remotely_exposed_def
        limits_in_bounds_def limits_default_def)
  have a: "\<exists>app. application_new (\<lambda>_. Some demo_url) (Inr (map named_manifest curated_names)) True True exposed_config = Inr app"
    using v c
    by (simp add: application_new_def catalog_curated_def with_catalog_def exposed_config_def server_config_default_def
        runtime_new_def policy_validate_def policy_from_limits_def limits_default_def default_batch_wait_def)
  have k: "load_optional two_keys (\<lambda>_. Inl Eloop) (sc_auth exposed_config) = Inr (Some (Secret (as_bytes (lit ''one''))))"
    "load_optional two_keys (\<lambda>_. Inl Eloop) (sc_admin_auth exposed_config) = Inr (Some (Secret (as_bytes (lit ''two''))))"
    by (simp_all add: load_optional_def exposed_config_def two_keys_def loading_simps evaluation_simps)
  have "\<not> secret_verify (Secret (as_bytes (lit ''one''))) (as_bytes (lit ''two''))"
    by (subst secret_verify_iff) (simp_all add: evaluation_simps)
  then obtain st where "app_state_new (\<lambda>_. Some demo_url) two_keys (\<lambda>_. Inl Eloop)
      (Inr (map named_manifest curated_names)) True True exposed_config = Inr st"
    "as_public_credential st = Some (Secret (as_bytes (lit ''one'')))"
    "as_admin_credential st = Some (Secret (as_bytes (lit ''two'')))" "as_origins st = sc_allowed_origins exposed_config"
    "as_admin_api_enabled st = sc_admin_api_enabled exposed_config" "as_limits st = sc_limits exposed_config"
    using v a k by (auto simp: app_state_new_def verify_distinct_credentials_def)
  then show ?thesis
    by (intro that [of st]) (simp_all add: exposed_config_def server_config_default_def)
qed


end
