(* ===== verification/Transport.thy ===== *)
theory Transport
  imports App_State
begin

text \<open>
  What the HTTP, gRPC and MCP adapters share: JSON values, HTTP messages, and the application as they call it. The
  operations of the application are a record of functions over a state, with the interface locale
  \<open>service_contract\<close>; \<open>application_service\<close> is that record for the model of \<^verbatim>\<open>application.rs\<close>.
\<close>

section \<open>JSON values\<close>

text \<open>
  \<^verbatim>\<open>serde_json::Value\<close>. A number made from an \<^verbatim>\<open>f32\<close> is kept as that \<^verbatim>\<open>f32\<close> (the conversion to \<^verbatim>\<open>f64\<close> is exact); any other
  floating-point number is its 64-bit pattern. An object lists its fields.
\<close>

datatype json =
    J_Null
  | J_Bool bool
  | J_Pos nat
  | J_Neg int
  | J_Single f32
  | J_Double "64 word"
  | J_Str rstr
  | J_Arr "json list"
  | J_Obj "(rstr \<times> json) list"

text \<open>\<^verbatim>\<open>Value::from(f32)\<close>, and indexing by a key (a missing key and a value that is no object read as null).\<close>

definition json_f32 :: "f32 \<Rightarrow> json" where
  "json_f32 x = (if f32_is_finite x then J_Single x else J_Null)"

fun json_get :: "json \<Rightarrow> string \<Rightarrow> json" where
  "json_get (J_Obj entries) k = (case map_of entries (lit k) of None \<Rightarrow> J_Null | Some v \<Rightarrow> v)"
| "json_get _ k = J_Null"

abbreviation field :: "string \<Rightarrow> json \<Rightarrow> rstr \<times> json" where
  "field k v \<equiv> (lit k, v)"

section \<open>HTTP messages\<close>

datatype http_method = GET | POST | OPTIONS | Other_Method rstr

fun method_as_str :: "http_method \<Rightarrow> rstr" where
  "method_as_str GET = lit ''GET''"
| "method_as_str POST = lit ''POST''"
| "method_as_str OPTIONS = lit ''OPTIONS''"
| "method_as_str (Other_Method m) = m"

text \<open>Header names are lower case. A body is a stream that fails or brings bytes.\<close>

record http_request =
  rq_method :: http_method
  rq_path :: rstr
  rq_headers :: "(rstr \<times> bytes) list"
  rq_body :: "unit + bytes"

definition get_all :: "(rstr \<times> bytes) list \<Rightarrow> string \<Rightarrow> bytes list" where
  "get_all headers name = map snd (filter (\<lambda>(n, _). n = lit name) headers)"

definition contains_key :: "(rstr \<times> bytes) list \<Rightarrow> string \<Rightarrow> bool" where
  "contains_key headers name \<longleftrightarrow> get_all headers name \<noteq> []"

definition header_insert :: "string \<Rightarrow> bytes \<Rightarrow> (rstr \<times> bytes) list \<Rightarrow> (rstr \<times> bytes) list" where
  "header_insert name v headers = (lit name, v) # filter (\<lambda>(n, _). n \<noteq> lit name) headers"

text \<open>\<^verbatim>\<open>axum::body::to_bytes\<close>: fails beyond the limit.\<close>

definition to_bytes :: "unit + bytes \<Rightarrow> nat \<Rightarrow> bytes option" where
  "to_bytes body limit = (case body of Inl _ \<Rightarrow> None | Inr bs \<Rightarrow> if limit < length bs then None else Some bs)"

definition eq_ignore_ascii_case :: "rstr \<Rightarrow> rstr \<Rightarrow> bool" where
  "eq_ignore_ascii_case a b \<longleftrightarrow> to_ascii_lowercase a = to_ascii_lowercase b"

lemma get_all_insert [simp]:
  "get_all (header_insert n v hs) m = (if n = m then [v] else get_all hs m)"
  by (induction hs) (auto simp: get_all_def header_insert_def)

section \<open>The application as the adapters call it\<close>

datatype admin_action = Install_Model | Load_Model | Unload_Model | Delete_Model

text \<open>
  \<open>sv_embed\<close> answers \<open>None\<close> when the caller's future is dropped while it waits. \<open>sv_observe\<close> takes its own reading of the
  elapsed time.
\<close>

record 's service =
  sv_new_token :: "'s \<Rightarrow> 's \<times> token"
  sv_cancel :: "token \<Rightarrow> 's \<Rightarrow> 's"
  sv_embed :: "embed_command \<Rightarrow> 's \<Rightarrow> 's \<times> (application_error + embedding_output) option"
  sv_list_models :: "'s \<Rightarrow> 's \<times> (application_error + model_info list)"
  sv_admin :: "admin_action \<Rightarrow> rstr \<Rightarrow> 's \<Rightarrow> 's \<times> (application_error + model_info)"
  sv_observe :: "operation \<Rightarrow> outcome \<Rightarrow> 's \<Rightarrow> 's"
  sv_live :: "'s \<Rightarrow> bool"
  sv_readiness :: "'s \<Rightarrow> readiness"
  sv_counts :: "'s \<Rightarrow> nat \<times> nat"
  sv_render :: "'s \<Rightarrow> rstr"

locale service_contract =
  fixes sv :: "'s service" and keeps :: "'s \<Rightarrow> bool"
  assumes keeps_new_token: "keeps s \<Longrightarrow> keeps (fst (sv_new_token sv s))"
    and keeps_cancel: "keeps s \<Longrightarrow> keeps (sv_cancel sv t s)"
    and keeps_embed: "keeps s \<Longrightarrow> keeps (fst (sv_embed sv cmd s))"
    and keeps_list: "keeps s \<Longrightarrow> keeps (fst (sv_list_models sv s))"
    and keeps_admin: "keeps s \<Longrightarrow> keeps (fst (sv_admin sv a model s))"
    and keeps_observe: "keeps s \<Longrightarrow> keeps (sv_observe sv op oc s)"
begin

lemmas keeps_all = keeps_new_token keeps_cancel keeps_embed keeps_list keeps_admin keeps_observe

end


section \<open>The application behind the interface\<close>

text \<open>
  A call that runs without interruption: its segments in their order, with what each wait brings as an arbitrary
  argument. \<open>wt_embedded\<close>, \<open>wt_installed\<close> and \<open>wt_loaded\<close> also say what became of the runtime during the wait.
\<close>

record waits =
  wt_now :: nat
  wt_instant_add :: "nat \<Rightarrow> nat \<Rightarrow> nat option"
  wt_status :: "manifest \<Rightarrow> model_error + model_verification_status"
  wt_embedded :: "embed_ticket \<Rightarrow> runtime \<Rightarrow> runtime \<times> (engine_failure + embedding_output) option"
  wt_installed :: "manifest \<Rightarrow> runtime \<Rightarrow> runtime \<times> (lifecycle_error + unit)"
  wt_executor :: bool
  wt_loaded :: "manifest \<Rightarrow> runtime \<Rightarrow> runtime \<times> load_event"
  wt_deleted :: "unit + bool"
  wt_elapsed :: nat

definition embed_call ::
  "waits \<Rightarrow> embed_command \<Rightarrow> application \<Rightarrow> application \<times> (application_error + embedding_output) option" where
  "embed_call wt cmd app =
     (case app_embed (wt_instant_add wt) (wt_now wt) cmd app of
        (app1, Inl e) \<Rightarrow> (app1, Some (Err e))
      | (app1, Inr ticket) \<Rightarrow> (case wt_embedded wt ticket (ap_runtime app1) of (rt, r) \<Rightarrow>
          (app1\<lparr>ap_runtime := rt\<rparr>, map_option (map_err from_engine_failure) r)))"

definition install_call :: "waits \<Rightarrow> rstr \<Rightarrow> application \<Rightarrow> application \<times> (application_error + model_info)" where
  "install_call wt model app =
     (case lifecycle_begin app model of Inl e \<Rightarrow> (app, Err e) | Inr m \<Rightarrow>
     (case install_start app of
        (app1, Inl e) \<Rightarrow> (app1, Err e)
      | (app1, Inr operation) \<Rightarrow> (case wt_installed wt m (ap_runtime app1) of (rt, r) \<Rightarrow>
          install_finish (wt_status wt) operation r m (app1\<lparr>ap_runtime := rt\<rparr>))))"

definition load_call :: "waits \<Rightarrow> rstr \<Rightarrow> application \<Rightarrow> application \<times> (application_error + model_info)" where
  "load_call wt model app =
     (case lifecycle_begin app model of Inl e \<Rightarrow> (app, Err e) | Inr m \<Rightarrow>
     (case ensure_running app of Inl e \<Rightarrow> (app, Err e) | Inr _ \<Rightarrow>
     (case load_locked_start (wt_executor wt) m app of
        (app1, Inl e) \<Rightarrow> (app1, Err e)
      | (app1, Inr key) \<Rightarrow> (case wt_loaded wt m (ap_runtime app1) of (rt, ev) \<Rightarrow>
          (case load_with_end ev (mf_canonical_id m) key rt of (rt', r) \<Rightarrow>
          (case load_locked_finish m r (app1\<lparr>ap_runtime := rt'\<rparr>) of
             (app2, Inl e) \<Rightarrow> (app2, Err e)
           | (app2, Inr _) \<Rightarrow> (app2, app_model_info (wt_status wt) app2 m)))))))"

definition unload_call :: "waits \<Rightarrow> rstr \<Rightarrow> application \<Rightarrow> application \<times> (application_error + model_info)" where
  "unload_call wt model app =
     (case lifecycle_begin app model of Inl e \<Rightarrow> (app, Err e) | Inr m \<Rightarrow>
     (case unload_start m app of
        (app1, Inl e) \<Rightarrow> (app1, Err e)
      | (app1, Inr _) \<Rightarrow> unload_finish (wt_status wt) m app1))"

definition delete_call :: "waits \<Rightarrow> rstr \<Rightarrow> application \<Rightarrow> application \<times> (application_error + model_info)" where
  "delete_call wt model app =
     (case lifecycle_begin app model of Inl e \<Rightarrow> (app, Err e) | Inr m \<Rightarrow>
       (app, app_delete_locked (wt_status wt) (wt_deleted wt) m app))"

definition over_runtime :: "(runtime \<Rightarrow> runtime) \<Rightarrow> application \<Rightarrow> application" where
  "over_runtime f app = app\<lparr>ap_runtime := f (ap_runtime app)\<rparr>"

definition application_service :: "waits \<Rightarrow> application service" where
  "application_service wt =
     \<lparr>sv_new_token = (\<lambda>app. case token_default (rt_heap (ap_runtime app)) of (h, t) \<Rightarrow>
        (over_runtime (\<lambda>rt. rt\<lparr>rt_heap := h\<rparr>) app, t)),
      sv_cancel = (\<lambda>t. over_runtime (\<lambda>rt. rt\<lparr>rt_heap := token_cancel (wt_now wt) (rt_heap rt) t\<rparr>)),
      sv_embed = embed_call wt,
      sv_list_models = (\<lambda>app. (app, list_models (wt_status wt) app)),
      sv_admin = (\<lambda>a model app. case a of
          Install_Model \<Rightarrow> install_call wt model app
        | Load_Model \<Rightarrow> load_call wt model app
        | Unload_Model \<Rightarrow> unload_call wt model app
        | Delete_Model \<Rightarrow> delete_call wt model app),
      sv_observe = (\<lambda>op oc. over_runtime (\<lambda>rt. rt\<lparr>rt_metrics := observe op oc (wt_elapsed wt) (rt_metrics rt)\<rparr>)),
      sv_live = (\<lambda>app. is_live (rt_health (ap_runtime app))),
      sv_readiness = (\<lambda>app. health_readiness (rt_health (ap_runtime app))),
      sv_counts = (\<lambda>app. model_counts (rt_health (ap_runtime app))),
      sv_render = (\<lambda>app. render (rt_metrics (ap_runtime app)))\<rparr>"

text \<open>The application without its metrics and its cancellation tokens.\<close>

definition durable :: "application \<Rightarrow> application" where
  "durable app = over_runtime (\<lambda>rt. rt\<lparr>rt_metrics := Poisoned, rt_heap := \<lparr>cells = [], woken = []\<rparr>\<rparr>) app"

definition stopped_as :: "application \<Rightarrow> application \<Rightarrow> bool" where
  "stopped_as app0 app \<longleftrightarrow> ap_shutting_down app \<and> durable app = durable app0"

lemma stopped_refuses:
  assumes "ap_shutting_down app"
  shows "fst (embed_call wt cmd app) = app" "fst (install_call wt model app) = app" "fst (load_call wt model app) = app"
    "fst (unload_call wt model app) = app" "fst (delete_call wt model app) = app"
proof -
  have r: "ensure_running app = Err (from_lifecycle_error ShuttingDown)"
    using assms by (simp add: ensure_running_def reject_if_def)
  then have "\<exists>e. lifecycle_begin app model = Err e"
    by (cases "resolve_owned app model") (simp_all add: lifecycle_begin_def)
  then show "fst (install_call wt model app) = app" "fst (load_call wt model app) = app"
    "fst (unload_call wt model app) = app" "fst (delete_call wt model app) = app"
    by (auto simp: install_call_def load_call_def unload_call_def delete_call_def)
  show "fst (embed_call wt cmd app) = app"
    using assms by (simp add: embed_call_def app_embed_def split: option.split)
qed

interpretation stopped: service_contract "application_service wt" "stopped_as app0" for wt app0
proof (unfold_locales, goal_cases)
  case (1 s)
  then show ?case
    by (simp add: application_service_def stopped_as_def token_default_def) (simp add: durable_def over_runtime_def)
next
  case (5 s a model)
  then show ?case by (cases a) (simp_all add: application_service_def stopped_as_def stopped_refuses)
qed (simp_all add: application_service_def stopped_as_def stopped_refuses,
    simp_all add: durable_def over_runtime_def)

end
