(* ===== verification/Mcp.thy ===== *)
theory Mcp
  imports Transport "HOL-Library.Sublist"
begin

text \<open>
  The MCP adapter \<^verbatim>\<open>impossible-server/src/mcp.rs\<close>: the JSON-RPC dispatcher with its initialisation phases, the two tools, the
  stateless HTTP handler and the newline-delimited stdio transport. The decoding of frames and parameters into the
  structures below, the JSON encoder and the text of a header value are arguments.
\<close>

section \<open>Structures\<close>

datatype phase = AwaitInitialize | AwaitInitialized | Phase_Ready | Stateless

record envelope =
  ev_jsonrpc :: rstr
  ev_id :: "json option"
  ev_method :: rstr
  ev_params :: "json option"

datatype wire_item = Incoming_Envelope envelope | Invalid_Item json

datatype wire_frame = Batch "wire_item list" | Single_Item wire_item

record incoming =
  inc_id :: "json option"
  inc_method :: rstr
  inc_params :: "json option"

record initialize_params =
  ip_protocol_version :: rstr
  ip_client_name :: rstr
  ip_client_version :: rstr

record call_tool_params =
  ct_name :: rstr
  ct_arguments :: "json option"

datatype embed_input = One rstr | Many "rstr list"

record embed_arguments =
  ea_model :: rstr
  ea_input :: embed_input
  ea_task :: embedding_task
  ea_truncation :: truncation
  ea_dimensions :: "nat option"
  ea_normalize :: "bool option"

record rpc_failure =
  rf_code :: int
  rf_message :: rstr

datatype dispatch_result = Response json | Notification

text \<open>
  What the adapter takes from its libraries: \<open>mc_list_tools\<close> decodes the cursor, \<open>mc_empty\<close> and \<open>mc_no_arguments\<close> say whether
  a value decodes to the empty structures.
\<close>

record mcp_env =
  mc_frame :: "bytes \<Rightarrow> wire_frame option"
  mc_initialize :: "json \<Rightarrow> initialize_params option"
  mc_empty :: "json \<Rightarrow> bool"
  mc_list_tools :: "json \<Rightarrow> rstr option option"
  mc_call_tool :: "json \<Rightarrow> call_tool_params option"
  mc_embed :: "json \<Rightarrow> embed_arguments option"
  mc_no_arguments :: "json \<Rightarrow> bool"
  mc_to_string :: "json \<Rightarrow> rstr option"
  mc_to_vec :: "json \<Rightarrow> bytes option"
  mc_to_str :: "bytes \<Rightarrow> rstr option"
  mc_parse_f32 :: "rstr \<Rightarrow> f32 option"
  mc_version :: rstr

section \<open>Requests and responses\<close>

fun valid_id :: "json \<Rightarrow> bool" where
  "valid_id (J_Str _) = True"
| "valid_id (J_Pos _) = True"
| "valid_id (J_Neg _) = True"
| "valid_id _ = False"

fun into_incoming :: "wire_item \<Rightarrow> incoming option" where
  "into_incoming (Invalid_Item v) = None"
| "into_incoming (Incoming_Envelope ev) =
     (if ev_jsonrpc ev \<noteq> lit ''2.0'' \<or> ev_method ev = []
         \<or> (case ev_id ev of None \<Rightarrow> False | Some v \<Rightarrow> \<not> valid_id v)
      then None
      else Some \<lparr>inc_id = ev_id ev, inc_method = ev_method ev, inc_params = ev_params ev\<rparr>)"

definition rpc_failure_new :: "int \<Rightarrow> string \<Rightarrow> rpc_failure" where
  "rpc_failure_new code message = \<lparr>rf_code = code, rf_message = lit message\<rparr>"

definition invalid_params :: rpc_failure where
  "invalid_params = rpc_failure_new (- 32602) ''Invalid params''"

definition json_int :: "int \<Rightarrow> json" where
  "json_int i = (if 0 \<le> i then J_Pos (nat i) else J_Neg i)"

definition json_str :: "string \<Rightarrow> json" where
  "json_str s = J_Str (lit s)"

definition rpc_success :: "json \<Rightarrow> json \<Rightarrow> json" where
  "rpc_success rid r = J_Obj [field ''jsonrpc'' (json_str ''2.0''), field ''id'' rid, field ''result'' r]"

definition rpc_error :: "json \<Rightarrow> int \<Rightarrow> rstr \<Rightarrow> json" where
  "rpc_error rid code message =
     J_Obj [field ''jsonrpc'' (json_str ''2.0''), field ''id'' rid,
       field ''error'' (J_Obj [field ''code'' (json_int code), field ''message'' (J_Str message)])]"

definition parse_params :: "(json \<Rightarrow> 'a option) \<Rightarrow> json option \<Rightarrow> rpc_failure + 'a" where
  "parse_params decode params = and_then (ok_or invalid_params params) (\<lambda>v. ok_or invalid_params (decode v))"

definition parse_arguments :: "(json \<Rightarrow> 'a option) \<Rightarrow> json option \<Rightarrow> rpc_failure + 'a" where
  "parse_arguments decode arguments =
     ok_or invalid_params (decode (case arguments of None \<Rightarrow> J_Obj [] | Some v \<Rightarrow> v))"

definition parse_empty :: "mcp_env \<Rightarrow> json option \<Rightarrow> rpc_failure + unit" where
  "parse_empty env params =
     (case params of None \<Rightarrow> Ok () | Some v \<Rightarrow> reject_if (\<not> mc_empty env v) invalid_params)"

section \<open>Tools\<close>

definition json_nats :: "nat list \<Rightarrow> json" where
  "json_nats ns = J_Arr (map J_Pos ns)"

definition tool_annotations :: json where
  "tool_annotations =
     J_Obj [field ''readOnlyHint'' (J_Bool True), field ''destructiveHint'' (J_Bool False),
       field ''idempotentHint'' (J_Bool True), field ''openWorldHint'' (J_Bool False)]"

definition embed_properties :: json where
  "embed_properties =
     J_Obj [field ''model'' (J_Obj [field ''type'' (json_str ''string''), field ''minLength'' (J_Pos 1)]),
       field ''input'' (J_Obj [field ''oneOf'' (J_Arr
         [J_Obj [field ''type'' (json_str ''string'')],
          J_Obj [field ''type'' (json_str ''array''), field ''minItems'' (J_Pos 1),
            field ''items'' (J_Obj [field ''type'' (json_str ''string'')])]])]),
       field ''task'' (J_Obj [field ''type'' (json_str ''string''),
         field ''enum'' (J_Arr [json_str ''query'', json_str ''document'']), field ''default'' (json_str ''document'')]),
       field ''truncation'' (J_Obj [field ''type'' (json_str ''string''),
         field ''enum'' (J_Arr [json_str ''reject'', json_str ''truncate'']), field ''default'' (json_str ''reject'')]),
       field ''dimensions'' (J_Obj [field ''type'' (json_str ''integer''), field ''minimum'' (J_Pos 1)]),
       field ''normalize'' (J_Obj [field ''type'' (json_str ''boolean'')])]"

definition tools_listing :: json where
  "tools_listing =
     J_Obj [field ''tools'' (J_Arr
       [J_Obj [field ''name'' (json_str ''embed''),
          field ''description'' (json_str ''Create dense embeddings with a locally loaded open model.''),
          field ''inputSchema'' (J_Obj [field ''type'' (json_str ''object''), field ''additionalProperties'' (J_Bool False),
            field ''required'' (J_Arr [json_str ''model'', json_str ''input'']), field ''properties'' embed_properties]),
          field ''annotations'' tool_annotations],
        J_Obj [field ''name'' (json_str ''list_models''),
          field ''description'' (json_str ''List local model availability without revealing paths or host details.''),
          field ''inputSchema'' (J_Obj [field ''type'' (json_str ''object''), field ''additionalProperties'' (J_Bool False)]),
          field ''annotations'' tool_annotations]])]"

definition list_tools :: "mcp_env \<Rightarrow> json option \<Rightarrow> rpc_failure + json" where
  "list_tools env params =
     and_then (case params of None \<Rightarrow> Ok ()
       | Some v \<Rightarrow> and_then (ok_or invalid_params (mc_list_tools env v)) (\<lambda>cursor.
           reject_if (cursor \<noteq> None) invalid_params)) (\<lambda>_. Ok tools_listing)"

definition embedding_value :: "embedding_output \<Rightarrow> json" where
  "embedding_value out =
     (let total_tokens = usage_total_tokens (out_usage out); model = out_model out in
      J_Obj [field ''embeddings'' (J_Arr (map (\<lambda>v. J_Arr (map json_f32 v)) (out_vectors out))),
        field ''model'' (J_Obj [field ''canonical_id'' (J_Str (canonical_id model)), field ''revision'' (J_Str (revision model)),
          field ''runtime'' (J_Str (runtime_name model)), field ''artifact_fingerprint'' (J_Str (artifact_fingerprint model)),
          field ''semantic_fingerprint'' (J_Str (semantic_fingerprint model))]),
        field ''usage'' (J_Obj [field ''prompt_tokens'' (J_Pos total_tokens), field ''total_tokens'' (J_Pos total_tokens),
          field ''input_tokens'' (json_nats (usage_input_tokens (out_usage out)))])])"

definition model_value :: "model_info \<Rightarrow> json" where
  "model_value m =
     J_Obj [field ''model'' (J_Str (mi_canonical_id m)), field ''revision'' (J_Str (mi_revision m)),
       field ''aliases'' (J_Arr (map J_Str (mi_aliases m))), field ''native_dimensions'' (J_Pos (mi_native_dimensions m)),
       field ''dimensions'' (json_nats (mi_dimensions m)),
       field ''semantic_status'' (json_str (case mi_semantic_status m of Sem_Verified \<Rightarrow> ''verified'' | Sem_Unverified \<Rightarrow> ''unverified'')),
       field ''installation_status'' (json_str (case mi_installation_status m of Missing \<Rightarrow> ''missing'' | Invalid \<Rightarrow> ''invalid''
         | IntegrityVerified \<Rightarrow> ''integrity_verified'' | Loadable \<Rightarrow> ''loadable'')),
       field ''runtime_status'' (json_str (case mi_runtime_status m of Run_CatalogOnly \<Rightarrow> ''catalog_only'' | Run_Onnx \<Rightarrow> ''onnx'')),
       field ''load_status'' (json_str (case mi_load_status m of Unloaded \<Rightarrow> ''unloaded'' | Loaded \<Rightarrow> ''loaded''))]"

definition tool_result :: "mcp_env \<Rightarrow> json \<Rightarrow> bool \<Rightarrow> json" where
  "tool_result env v is_error =
     (let text' = (case mc_to_string env v of Some t \<Rightarrow> t
        | None \<Rightarrow> lit ''{\"error\":{\"code\":\"internal\",\"message\":\"Internal server error\",\"retryable\":false}}'') in
      J_Obj [field ''content'' (J_Arr [J_Obj [field ''type'' (json_str ''text''), field ''text'' (J_Str text')]]),
        field ''isError'' (J_Bool is_error)])"

definition tool_success :: "mcp_env \<Rightarrow> json \<Rightarrow> json" where
  "tool_success env v = tool_result env v False"

definition tool_error :: "mcp_env \<Rightarrow> application_error \<Rightarrow> json" where
  "tool_error env e =
     (let public = ae_public e in
      tool_result env (J_Obj [field ''error'' (J_Obj [field ''code'' (J_Str (error_code_as_str (pe_code public))),
        field ''message'' (J_Str (pe_message public)),
        field ''retryable'' (J_Bool (pe_retryability public = Retryable))])]) True)"

text \<open>The command of an \<^verbatim>\<open>embed\<close> call, before its token; on a 64-bit machine the conversion of the dimensions cannot fail.\<close>

definition embed_request :: "mcp_env \<Rightarrow> json option \<Rightarrow> rpc_failure + (token \<Rightarrow> embed_command)" where
  "embed_request env arguments =
     and_then (parse_arguments (mc_embed env) arguments) (\<lambda>a.
     and_then (reject_if (ea_model a = []) invalid_params) (\<lambda>_.
     and_then (case ea_input a of One i \<Rightarrow> Ok [i] | Many is \<Rightarrow> if is \<noteq> [] then Ok is else Err invalid_params) (\<lambda>input.
     and_then (reject_if (ea_dimensions a = Some 0) invalid_params) (\<lambda>_.
     Ok (\<lambda>t. \<lparr>cmd_model = ea_model a, cmd_input = input,
       cmd_options = \<lparr>opt_task = ea_task a, opt_truncation = ea_truncation a, opt_dimensions = ea_dimensions a,
         opt_normalize = ea_normalize a\<rparr>,
       cmd_cancellation = t, cmd_timeout = None\<rparr>)))))"

text \<open>\<open>None\<close>: the future of the whole call was dropped.\<close>

definition mcp_embed ::
  "mcp_env \<Rightarrow> 's service \<Rightarrow> json option \<Rightarrow> 's \<Rightarrow> 's \<times> (rpc_failure + json) option" where
  "mcp_embed env sv arguments s =
     (case embed_request env arguments of Inl e \<Rightarrow> (s, Some (Err e))
      | Inr command \<Rightarrow>
     (case sv_new_token sv s of (s1, t) \<Rightarrow>
     (case sv_embed sv (command t) s1 of (s2, r) \<Rightarrow>
       (s2, map_option (\<lambda>r. Ok (case r of Inl e \<Rightarrow> tool_error env e | Inr out \<Rightarrow> tool_success env (embedding_value out))) r))))"

definition mcp_list_models :: "mcp_env \<Rightarrow> 's service \<Rightarrow> json option \<Rightarrow> 's \<Rightarrow> 's \<times> (rpc_failure + json)" where
  "mcp_list_models env sv arguments s =
     (case parse_arguments (\<lambda>v. if mc_no_arguments env v then Some () else None) arguments of
        Inl e \<Rightarrow> (s, Err e)
      | Inr _ \<Rightarrow> (case sv_list_models sv s of (s1, r) \<Rightarrow>
          (s1, Ok (case r of Inl e \<Rightarrow> tool_error env e
             | Inr models \<Rightarrow> tool_success env (J_Obj [field ''models'' (J_Arr (map model_value models))])))))"

definition call_tool ::
  "mcp_env \<Rightarrow> 's service \<Rightarrow> json option \<Rightarrow> 's \<Rightarrow> 's \<times> (rpc_failure + json) option" where
  "call_tool env sv params s =
     (case parse_params (mc_call_tool env) params of Inl e \<Rightarrow> (s, Some (Err e))
      | Inr request \<Rightarrow>
          if ct_name request = lit ''embed'' then mcp_embed env sv (ct_arguments request) s
          else if ct_name request = lit ''list_models''
          then (case mcp_list_models env sv (ct_arguments request) s of (s1, r) \<Rightarrow> (s1, Some r))
          else (s, Some (Err invalid_params)))"

section \<open>Dispatch\<close>

definition phase_ready :: "phase \<Rightarrow> bool" where
  "phase_ready ph \<longleftrightarrow> ph = Phase_Ready \<or> ph = Stateless"

definition initialize_result :: "mcp_env \<Rightarrow> json" where
  "initialize_result env =
     J_Obj [field ''protocolVersion'' (json_str ''2025-03-26''),
       field ''capabilities'' (J_Obj [field ''tools'' (J_Obj [field ''listChanged'' (J_Bool False)])]),
       field ''serverInfo'' (J_Obj [field ''name'' (json_str ''impossible-embedding''), field ''version'' (J_Str (mc_version env))]),
       field ''instructions''
         (json_str ''Local embedding inference and model discovery. No model administration is exposed.'')]"

definition initialize :: "mcp_env \<Rightarrow> json option \<Rightarrow> phase \<Rightarrow> phase \<times> (rpc_failure + json)" where
  "initialize env params ph =
     (if ph \<noteq> AwaitInitialize \<and> ph \<noteq> Stateless then (ph, Err (rpc_failure_new (- 32600) ''Invalid Request''))
      else (case parse_params (mc_initialize env) params of Inl e \<Rightarrow> (ph, Err e)
        | Inr p \<Rightarrow>
            if trim (ip_protocol_version p) = [] \<or> trim (ip_client_name p) = [] \<or> trim (ip_client_version p) = []
            then (ph, Err invalid_params)
            else (if ph = AwaitInitialize then AwaitInitialized else ph, Ok (initialize_result env))))"

definition initialized :: "mcp_env \<Rightarrow> json option \<Rightarrow> phase \<Rightarrow> phase" where
  "initialized env params ph =
     (if is_ok (parse_empty env params) \<and> ph = AwaitInitialized then Phase_Ready else ph)"

definition not_initialized :: rpc_failure where
  "not_initialized = rpc_failure_new (- 32002) ''Server not initialized''"

text \<open>The match on the method of a request.\<close>

definition request_result ::
  "mcp_env \<Rightarrow> 's service \<Rightarrow> incoming \<Rightarrow> phase \<times> 's \<Rightarrow> (phase \<times> 's) \<times> (rpc_failure + json) option" where
  "request_result env sv inc d =
     (case d of (ph, s) \<Rightarrow>
      if inc_method inc = lit ''initialize'' then
        (case initialize env (inc_params inc) ph of (ph1, r) \<Rightarrow> ((ph1, s), Some r))
      else if inc_method inc = lit ''ping'' then
        (d, Some (and_then (parse_empty env (inc_params inc)) (\<lambda>_. Ok (J_Obj []))))
      else if inc_method inc = lit ''tools/list'' then
        (d, Some (if phase_ready ph then list_tools env (inc_params inc) else Err not_initialized))
      else if inc_method inc = lit ''tools/call'' then
        if phase_ready ph
        then (case call_tool env sv (inc_params inc) s of (s1, r) \<Rightarrow> ((ph, s1), r))
        else (d, Some (Err not_initialized))
      else (d, Some (Err (rpc_failure_new (- 32601) ''Method not found''))))"

definition dispatch_incoming ::
  "mcp_env \<Rightarrow> 's service \<Rightarrow> incoming \<Rightarrow> phase \<times> 's \<Rightarrow> (phase \<times> 's) \<times> dispatch_result option" where
  "dispatch_incoming env sv inc d =
     (case inc_id inc of
        None \<Rightarrow>
          (if inc_method inc = lit ''notifications/initialized''
           then (initialized env (inc_params inc) (fst d), snd d) else d, Some Notification)
      | Some rid \<Rightarrow>
          (case request_result env sv inc d of (d1, r) \<Rightarrow>
            (d1, map_option (\<lambda>r. Response (case r of Inl e \<Rightarrow> rpc_error rid (rf_code e) (rf_message e)
               | Inr v \<Rightarrow> rpc_success rid v)) r)))"

definition invalid_request :: "json \<Rightarrow> dispatch_result" where
  "invalid_request rid = Response (rpc_error rid (- 32600) (lit ''Invalid Request''))"

text \<open>One item of a batch, in which \<^verbatim>\<open>initialize\<close> is refused.\<close>

definition dispatch_batch_item ::
  "mcp_env \<Rightarrow> 's service \<Rightarrow> wire_item \<Rightarrow> phase \<times> 's \<Rightarrow> (phase \<times> 's) \<times> dispatch_result option" where
  "dispatch_batch_item env sv item d =
     (case into_incoming item of
        None \<Rightarrow> (d, Some (invalid_request J_Null))
      | Some inc \<Rightarrow>
          if inc_method inc = lit ''initialize''
          then (d, Some (case inc_id inc of None \<Rightarrow> Notification | Some rid \<Rightarrow> invalid_request rid))
          else dispatch_incoming env sv inc d)"

fun dispatch_items ::
  "mcp_env \<Rightarrow> 's service \<Rightarrow> wire_item list \<Rightarrow> json list \<Rightarrow> phase \<times> 's \<Rightarrow> (phase \<times> 's) \<times> json list option" where
  "dispatch_items env sv [] responses d = (d, Some responses)"
| "dispatch_items env sv (item # items) responses d =
     (case dispatch_batch_item env sv item d of
        (d1, None) \<Rightarrow> (d1, None)
      | (d1, Some (Response r)) \<Rightarrow> dispatch_items env sv items (responses @ [r]) d1
      | (d1, Some Notification) \<Rightarrow> dispatch_items env sv items responses d1)"

definition max_mcp_batch_items :: nat where
  "max_mcp_batch_items = 128"

definition dispatch ::
  "mcp_env \<Rightarrow> 's service \<Rightarrow> bytes \<Rightarrow> phase \<times> 's \<Rightarrow> (phase \<times> 's) \<times> dispatch_result option" where
  "dispatch env sv frame d =
     (case mc_frame env frame of
        None \<Rightarrow> (d, Some (Response (rpc_error J_Null (- 32700) (lit ''Parse error''))))
      | Some (Single_Item item) \<Rightarrow>
          (case into_incoming item of
             None \<Rightarrow> (d, Some (invalid_request J_Null))
           | Some inc \<Rightarrow> dispatch_incoming env sv inc d)
      | Some (Batch items) \<Rightarrow>
          if items = [] \<or> max_mcp_batch_items < length items then (d, Some (invalid_request J_Null))
          else (case dispatch_items env sv items [] d of
              (d1, None) \<Rightarrow> (d1, None)
            | (d1, Some responses) \<Rightarrow>
                (d1, Some (if responses = [] then Notification else Response (J_Arr responses)))))"

section \<open>Streamable HTTP\<close>

definition has_json_content_type :: "mcp_env \<Rightarrow> (rstr \<times> bytes) list \<Rightarrow> bool" where
  "has_json_content_type env headers \<longleftrightarrow>
     (case get_all headers ''content-type'' of
        [v] \<Rightarrow> (case mc_to_str env v of None \<Rightarrow> False
          | Some t \<Rightarrow> eq_ignore_ascii_case (trim (hd (split_on 59 t))) (lit ''application/json''))
      | _ \<Rightarrow> False)"

text \<open>
  The parameters of one media range. On bit patterns, \<^verbatim>\<open>(0.0..=1.0).contains\<close> holds of negative zero and of the patterns up to
  that of one, none of which is infinite or NaN.
\<close>

definition unit_f32 :: "f32 \<Rightarrow> bool" where
  "unit_f32 q \<longleftrightarrow> q = 0x80000000 \<or> q \<le> 0x3F800000"

definition positive_f32 :: "f32 \<Rightarrow> bool" where
  "positive_f32 q \<longleftrightarrow> q \<noteq> 0 \<and> q < 0x80000000"

fun media_parameters :: "mcp_env \<Rightarrow> rstr list \<Rightarrow> bool \<Rightarrow> f32 \<Rightarrow> f32 option" where
  "media_parameters env [] saw_quality quality = Some quality"
| "media_parameters env (p # ps) saw_quality quality =
     (if 61 \<notin> set p then None
      else let name = before_first 61 p; v = drop (Suc (length name)) p in
        if \<not> eq_ignore_ascii_case (trim name) (lit ''q'') then media_parameters env ps saw_quality quality
        else if saw_quality then None
        else (case mc_parse_f32 env (trim v) of None \<Rightarrow> None
          | Some q \<Rightarrow> if \<not> f32_is_finite q \<or> \<not> unit_f32 q then None else media_parameters env ps True q))"

definition acceptable_media_range :: "mcp_env \<Rightarrow> rstr \<Rightarrow> (rstr \<times> bool) option" where
  "acceptable_media_range env v =
     (case split_on 59 v of
        [] \<Rightarrow> None
      | first # parameters \<Rightarrow>
          let media = trim first in
          if media = [] then None
          else map_option (\<lambda>q. (media, positive_f32 q)) (media_parameters env parameters False 0x3F800000))"

fun accept_ranges :: "mcp_env \<Rightarrow> rstr list \<Rightarrow> bool \<times> bool \<Rightarrow> (bool \<times> bool) option" where
  "accept_ranges env [] found = Some found"
| "accept_ranges env (part # parts) (json_ok, events_ok) =
     (case acceptable_media_range env part of None \<Rightarrow> None
      | Some (media, acceptable) \<Rightarrow>
          if \<not> acceptable then accept_ranges env parts (json_ok, events_ok)
          else if eq_ignore_ascii_case media (lit ''application/json'') then accept_ranges env parts (True, events_ok)
          else if eq_ignore_ascii_case media (lit ''text/event-stream'') then accept_ranges env parts (json_ok, True)
          else accept_ranges env parts (json_ok, events_ok))"

fun accept_values :: "mcp_env \<Rightarrow> bytes list \<Rightarrow> bool \<times> bool \<Rightarrow> bool" where
  "accept_values env [] found = (fst found \<and> snd found)"
| "accept_values env (v # vs) found =
     (case mc_to_str env v of None \<Rightarrow> False
      | Some t \<Rightarrow> (case accept_ranges env (split_on 44 t) found of None \<Rightarrow> False
          | Some found' \<Rightarrow> accept_values env vs found'))"

definition accepts_streamable_http :: "mcp_env \<Rightarrow> (rstr \<times> bytes) list \<Rightarrow> bool" where
  "accepts_streamable_http env headers = accept_values env (get_all headers ''accept'') (False, False)"

definition valid_content_length :: "mcp_env \<Rightarrow> (rstr \<times> bytes) list \<Rightarrow> nat \<Rightarrow> bool" where
  "valid_content_length env headers limit \<longleftrightarrow>
     (case get_all headers ''content-length'' of
        [] \<Rightarrow> True
      | [v] \<Rightarrow> (case Option.bind (mc_to_str env v) parse_unsigned of None \<Rightarrow> False | Some n \<Rightarrow> n \<le> limit)
      | _ \<Rightarrow> False)"

text \<open>The status and the JSON body, if any; \<open>None\<close> when the future was dropped.\<close>

definition http_rpc_response :: "mcp_env \<Rightarrow> nat \<Rightarrow> json \<Rightarrow> nat \<times> json option" where
  "http_rpc_response env status v = (case mc_to_vec env v of Some _ \<Rightarrow> (status, Some v) | None \<Rightarrow> (500, None))"

definition mcp_http_handler ::
  "mcp_env \<Rightarrow> 's service \<Rightarrow> nat \<Rightarrow> http_request \<Rightarrow> 's \<Rightarrow> 's \<times> (nat \<times> json option) option" where
  "mcp_http_handler env sv max_body_bytes request s =
     (if contains_key (rq_headers request) ''mcp-session-id''
      then (s, Some (http_rpc_response env 400 (rpc_error J_Null (- 32600) (lit ''Sessions are not supported''))))
      else if \<not> accepts_streamable_http env (rq_headers request) then (s, Some (406, None))
      else if \<not> has_json_content_type env (rq_headers request) then (s, Some (415, None))
      else if \<not> valid_content_length env (rq_headers request) max_body_bytes then (s, Some (413, None))
      else (case to_bytes (rq_body request) max_body_bytes of None \<Rightarrow> (s, Some (413, None))
        | Some body \<Rightarrow>
            (case dispatch env sv body (Stateless, s) of
               ((_, s1), None) \<Rightarrow> (s1, None)
             | ((_, s1), Some Notification) \<Rightarrow> (s1, Some (202, None))
             | ((_, s1), Some (Response v)) \<Rightarrow>
                 let code = json_get (json_get v ''error'') ''code'' in
                 (s1, Some (http_rpc_response env
                    (if code = J_Neg (- 32700) \<or> code = J_Neg (- 32600) then 400 else 200) v)))))"

section \<open>Stdio\<close>

datatype line_result = Frame bytes | Oversized | Eof

text \<open>
  The reader is the list of what the next calls of \<^verbatim>\<open>fill_buf\<close> bring; consuming part of a buffer leaves its rest at the
  front. An empty buffer, like the end of the list, is the end of the input.
\<close>

definition finish_line :: "bool \<times> bytes \<Rightarrow> line_result" where
  "finish_line st = (case st of (oversized, line) \<Rightarrow> if oversized then Oversized else Frame (pop_if_last 13 line))"

definition grow_line :: "nat \<Rightarrow> bytes \<Rightarrow> bool \<times> bytes \<Rightarrow> bool \<times> bytes" where
  "grow_line limit payload st =
     (case st of (oversized, line) \<Rightarrow>
      if oversized then (True, line)
      else if limit < saturating_add (length line) (length payload) then (True, [])
      else (False, line @ payload))"

fun read_capped ::
  "nat \<Rightarrow> bool \<Rightarrow> bool \<times> bytes \<Rightarrow> (io_error + bytes) list \<Rightarrow> (io_error + bytes) list \<times> (io_error + line_result)" where
  "read_capped limit saw_bytes st [] = ([], Ok (if saw_bytes then finish_line st else Eof))"
| "read_capped limit saw_bytes st (Inl e # rest) = (rest, Err e)"
| "read_capped limit saw_bytes st (Inr buffer # rest) =
     (if buffer = [] then (rest, Ok (if saw_bytes then finish_line st else Eof))
      else if 10 \<notin> set buffer then read_capped limit True (grow_line limit buffer st) rest
      else let payload = takeWhile (\<lambda>b. b \<noteq> 10) buffer; remaining = drop (Suc (length payload)) buffer in
        ((if remaining = [] then rest else Inr remaining # rest), Ok (finish_line (grow_line limit payload st))))"

definition read_capped_line :: "nat \<Rightarrow> (io_error + bytes) list \<Rightarrow> (io_error + bytes) list \<times> (io_error + line_result)" where
  "read_capped_line limit reader = read_capped limit False (False, []) reader"

text \<open>\<open>wr\<close> is the failure of writing or flushing, if any; \<^verbatim>\<open>io::Error::other\<close> stands for a value that does not encode.\<close>

definition write_frame :: "mcp_env \<Rightarrow> io_error option \<Rightarrow> json \<Rightarrow> io_error + unit" where
  "write_frame env wr v =
     (case mc_to_vec env v of None \<Rightarrow> Err \<lparr>io_kind = lit ''Other'', io_text = []\<rparr>
      | Some _ \<Rightarrow> (case wr of None \<Rightarrow> Ok () | Some e \<Rightarrow> Err e))"

definition reader_size :: "(io_error + bytes) list \<Rightarrow> nat" where
  "reader_size reader = sum_list (map (\<lambda>r. case r of Inl _ \<Rightarrow> 1 | Inr b \<Rightarrow> Suc (length b)) reader)"

lemma reader_size_simps [simp]:
  "reader_size [] = 0" "reader_size (Inl e # r) = Suc (reader_size r)" "reader_size (Inr b # r) = Suc (length b + reader_size r)"
  by (simp_all add: reader_size_def)

lemma short_payload: "x \<in> set xs \<Longrightarrow> length (takeWhile (\<lambda>b. b \<noteq> x) xs) < length xs"
  by (induction xs) auto

lemma read_capped_consumes:
  "reader_size (fst (read_capped limit saw st reader)) \<le> reader_size reader - 1"
proof (induction reader arbitrary: saw st)
  case (Cons r rest)
  show ?case
  proof (cases r)
    case (Inr buffer)
    show ?thesis
      using Cons.IH [of True "grow_line limit buffer st"] short_payload [of 10 buffer]
      by (auto simp: Inr Let_def)
  qed simp
qed simp

lemma read_line_smaller:
  "read_capped_line limit reader = (reader', Ok res) \<Longrightarrow> res \<noteq> Eof \<Longrightarrow> reader_size reader' < reader_size reader"
  using read_capped_consumes [of limit False "(False, [])" reader]
  by (cases reader; cases "hd reader") (auto simp: read_capped_line_def)

text \<open>
  \<^verbatim>\<open>run_stdio\<close>: \<open>stop n\<close> says whether turn \<open>n\<close> of the loop takes the branch of the shutdown trigger, \<open>wr n\<close> whether its write
  fails. Besides the dispatcher the state has the frames written.
\<close>

function run_stdio ::
  "mcp_env \<Rightarrow> 's service \<Rightarrow> nat \<Rightarrow> (nat \<Rightarrow> bool) \<Rightarrow> (nat \<Rightarrow> io_error option) \<Rightarrow> io_error + unit \<Rightarrow> nat \<Rightarrow>
   (phase \<times> 's) \<times> json list \<Rightarrow> (io_error + bytes) list \<Rightarrow> ((phase \<times> 's) \<times> json list) \<times> (io_error + unit) option" where
  "run_stdio env sv limit stop wr flush n (d, written) reader =
     (if stop n then ((d, written), Some flush)
      else (case read_capped_line limit reader of
          (reader', Inl e) \<Rightarrow> ((d, written), Some (Err e))
        | (reader', Inr Eof) \<Rightarrow> ((d, written), Some flush)
        | (reader', Inr Oversized) \<Rightarrow>
            let v = rpc_error J_Null (- 32600) (lit ''Invalid Request'') in
            (case write_frame env (wr n) v of
               Inl e \<Rightarrow> ((d, written), Some (Err e))
             | Inr _ \<Rightarrow> run_stdio env sv limit stop wr flush (Suc n) (d, written @ [v]) reader')
        | (reader', Inr (Frame line)) \<Rightarrow>
            (case dispatch env sv line d of
               (d1, None) \<Rightarrow> ((d1, written), None)
             | (d1, Some Notification) \<Rightarrow> run_stdio env sv limit stop wr flush (Suc n) (d1, written) reader'
             | (d1, Some (Response v)) \<Rightarrow>
                 (case write_frame env (wr n) v of
                    Inl e \<Rightarrow> ((d1, written), Some (Err e))
                  | Inr _ \<Rightarrow> run_stdio env sv limit stop wr flush (Suc n) (d1, written @ [v]) reader'))))"
  by pat_completeness auto
termination
  by (relation "measure (\<lambda>(env, sv, limit, stop, wr, flush, n, st, reader). reader_size reader)")
     (auto dest: read_line_smaller [OF sym])

declare run_stdio.simps [simp del]

section \<open>Framing\<close>

text \<open>
  What reading a line means on the whole stream: everything up to the next newline, whatever the buffers it
  arrives in.
\<close>

definition stream_line :: "nat \<Rightarrow> bytes \<Rightarrow> line_result" where
  "stream_line limit stream =
     (let line = takeWhile (\<lambda>b. b \<noteq> 10) stream in
      if stream = [] then Eof else if limit < length line then Oversized else Frame (pop_if_last 13 line))"

definition stream_of :: "(io_error + bytes) list \<Rightarrow> bytes" where
  "stream_of reader = concat (map (\<lambda>r. case r of Inl _ \<Rightarrow> [] | Inr b \<Rightarrow> b) reader)"

definition sound_reader :: "(io_error + bytes) list \<Rightarrow> bool" where
  "sound_reader reader \<longleftrightarrow> list_all (\<lambda>r. case r of Inl _ \<Rightarrow> False | Inr b \<Rightarrow> b \<noteq> []) reader"

text \<open>Inside a line: \<open>seen\<close> is the part of it read so far.\<close>

definition line_so_far :: "nat \<Rightarrow> bytes \<Rightarrow> bool \<times> bytes" where
  "line_so_far limit seen = (if limit < length seen then (True, []) else (False, seen))"

lemma grow_line_so_far:
  "limit < word_limit - 1 \<Longrightarrow> grow_line limit payload (line_so_far limit seen) = line_so_far limit (seen @ payload)"
  by (auto simp: grow_line_def line_so_far_def saturating_add_def)

lemma read_capped_spec:
  assumes "sound_reader reader" and "limit < word_limit - 1"
  shows "\<exists>reader'. read_capped limit saw (line_so_far limit seen) reader =
      (reader', Ok (if \<not> saw \<and> reader = [] then Eof
        else finish_line (line_so_far limit (seen @ takeWhile (\<lambda>b. b \<noteq> 10) (stream_of reader))))) \<and>
      sound_reader reader' \<and>
      stream_of reader' = drop (Suc (length (takeWhile (\<lambda>b. b \<noteq> 10) (stream_of reader)))) (stream_of reader)"
  using assms
proof (induction reader arbitrary: saw seen)
  case Nil
  then show ?case by (simp add: stream_of_def sound_reader_def)
next
  case (Cons r rest)
  from Cons.prems(1) obtain buffer where r: "r = Inr buffer" and b: "buffer \<noteq> []" and rest: "sound_reader rest"
    by (auto simp: sound_reader_def split: sum.split_asm)
  let ?payload = "takeWhile (\<lambda>b. b \<noteq> 10) buffer"
  let ?remaining = "drop (Suc (length ?payload)) buffer"
  have stream: "stream_of (Inr buffer # rest) = buffer @ stream_of rest" by (simp add: stream_of_def)
  show ?case
  proof (cases "10 \<in> set buffer")
    case False
    then have "takeWhile (\<lambda>b. b \<noteq> 10) (buffer @ stream_of rest) = buffer @ takeWhile (\<lambda>b. b \<noteq> 10) (stream_of rest)"
      by (intro takeWhile_append2) auto
    then show ?thesis
      using Cons.IH [OF rest Cons.prems(2), of True "seen @ buffer"]
      by (simp add: r stream b False grow_line_so_far [OF Cons.prems(2)])
  next
    case True
    have "stream_of (if ?remaining = [] then rest else Inr ?remaining # rest) = ?remaining @ stream_of rest"
      "sound_reader (if ?remaining = [] then rest else Inr ?remaining # rest)"
      using rest by (simp_all add: stream_of_def sound_reader_def)
    moreover have "takeWhile (\<lambda>b. b \<noteq> 10) (buffer @ stream_of rest) = ?payload"
      using True by (intro takeWhile_append1) auto
    ultimately show ?thesis
      using short_payload [OF True]
      by (simp add: r stream b True grow_line_so_far [OF Cons.prems(2)] Let_def)
  qed
qed

text \<open>
  C13. Framing does not depend on how the input is cut into buffers: reading a capped line from a stream
  gives its next line without the newline and without a final carriage return, or "oversized" exactly when the line
  is longer than the limit, and leaves the rest of the stream after the newline.
\<close>

theorem framing_is_independent_of_buffers:
  assumes "sound_reader reader" and "limit < word_limit - 1"
  shows "\<exists>reader'. read_capped_line limit reader = (reader', Ok (stream_line limit (stream_of reader))) \<and>
    sound_reader reader' \<and>
    stream_of reader' = drop (Suc (length (takeWhile (\<lambda>b. b \<noteq> 10) (stream_of reader)))) (stream_of reader)"
proof -
  have "stream_line limit (stream_of reader) = (if reader = [] then Eof
      else finish_line (line_so_far limit ([] @ takeWhile (\<lambda>b. b \<noteq> 10) (stream_of reader))))"
    using assms(1)
    by (cases reader) (auto simp: stream_line_def stream_of_def sound_reader_def finish_line_def line_so_far_def split: sum.split_asm)
  then show ?thesis
    using read_capped_spec [OF assms, of False "[]"] by (simp add: read_capped_line_def line_so_far_def [of limit "[]"])
qed

theorem framing_is_independent_of_buffers_witness:
  "\<exists>reader'. read_capped_line 10 [Inr [97], Inr [98, 13, 10, 99]] = (reader', Ok (Frame [97, 98])) \<and> stream_of reader' = [99]"
proof -
  have "stream_of [Inr [97], Inr [98, 13, 10, 99]] = [97, 98, 13, 10, 99]" by (simp add: stream_of_def)
  then show ?thesis
    using framing_is_independent_of_buffers [where reader = "[Inr [97], Inr [98, 13, 10, 99]]" and limit = 10]
    by (auto simp: sound_reader_def word_limit_def stream_line_def pop_if_last_def)
qed

section \<open>The handshake\<close>

definition initialize_request :: "incoming \<Rightarrow> bool" where
  "initialize_request inc \<longleftrightarrow> inc_id inc \<noteq> None \<and> inc_method inc = lit ''initialize''"

definition initialized_notification :: "incoming \<Rightarrow> bool" where
  "initialized_notification inc \<longleftrightarrow> inc_id inc = None \<and> inc_method inc = lit ''notifications/initialized''"

definition tool_request :: "incoming \<Rightarrow> bool" where
  "tool_request inc \<longleftrightarrow> inc_id inc \<noteq> None \<and> inc_method inc = lit ''tools/call''"

text \<open>The messages of a frame that the dispatcher considers, and the dispatch of a sequence of frames.\<close>

definition frame_incomings :: "mcp_env \<Rightarrow> bytes \<Rightarrow> incoming list" where
  "frame_incomings env frame =
     (case mc_frame env frame of
        None \<Rightarrow> []
      | Some (Single_Item item) \<Rightarrow> List.map_filter into_incoming [item]
      | Some (Batch items) \<Rightarrow> List.map_filter into_incoming items)"

fun dispatch_frames :: "mcp_env \<Rightarrow> 's service \<Rightarrow> bytes list \<Rightarrow> phase \<times> 's \<Rightarrow> phase \<times> 's" where
  "dispatch_frames env sv [] d = d"
| "dispatch_frames env sv (frame # frames) d = dispatch_frames env sv frames (fst (dispatch env sv frame d))"

text \<open>What the phases say about the messages seen so far, for a connection that began with the service in \<open>s0\<close>.\<close>

definition handshake_inv :: "'s \<Rightarrow> incoming list \<Rightarrow> phase \<times> 's \<Rightarrow> bool" where
  "handshake_inv s0 seen d \<longleftrightarrow>
     (case d of (ph, s) \<Rightarrow>
       ph \<noteq> Stateless \<and>
       (ph = AwaitInitialized \<longrightarrow> (\<exists>a. subseq [a] seen \<and> initialize_request a)) \<and>
       (ph = Phase_Ready \<longrightarrow> (\<exists>a b. subseq [a, b] seen \<and> initialize_request a \<and> initialized_notification b)) \<and>
       (s \<noteq> s0 \<longrightarrow> ph = Phase_Ready \<and>
         (\<exists>a b c. subseq [a, b, c] seen \<and> initialize_request a \<and> initialized_notification b \<and> tool_request c)))"

lemma handshake_inv_more: "handshake_inv s0 seen d \<Longrightarrow> handshake_inv s0 (seen @ later) d"
  unfolding handshake_inv_def by (auto simp: split_beta intro: subseq_rev_drop_many)

lemma subseq_snoc:
  "subseq [x] (seen @ [x])" "subseq [a] seen \<Longrightarrow> subseq [a, x] (seen @ [x])"
  "subseq [a, b] seen \<Longrightarrow> subseq [a, b, x] (seen @ [x])"
  using list_emb_append_mono [of "(=)" "[]" seen "[x]" "[x]"] list_emb_append_mono [of "(=)" "[a]" seen "[x]" "[x]"]
    list_emb_append_mono [of "(=)" "[a, b]" seen "[x]" "[x]"] by simp_all

lemma handshake_step:
  assumes "handshake_inv s0 seen (ph, s)"
    and phases: "ph' = ph \<or> ph = AwaitInitialize \<and> ph' = AwaitInitialized \<and> initialize_request inc \<or>
      ph = AwaitInitialized \<and> ph' = Phase_Ready \<and> initialized_notification inc"
    and "s' = s \<or> ph = Phase_Ready \<and> ph' = ph \<and> tool_request inc"
  shows "handshake_inv s0 (seen @ [inc]) (ph', s')"
proof -
  have more: "handshake_inv s0 (seen @ [inc]) (ph, s)" by (rule handshake_inv_more [OF assms(1)])
  from phases consider "ph' = ph" | "ph = AwaitInitialize" "ph' = AwaitInitialized" "initialize_request inc"
    | "ph = AwaitInitialized" "ph' = Phase_Ready" "initialized_notification inc" by blast
  then show ?thesis
  proof cases
    case 1
    show ?thesis
    proof (cases "s' = s")
      case False
      then have ready: "ph = Phase_Ready" "tool_request inc" using assms(3) by simp_all
      then obtain a b where "subseq [a, b] seen" "initialize_request a" "initialized_notification b"
        using assms(1) by (auto simp: handshake_inv_def)
      then show ?thesis
        using 1 ready more subseq_snoc(3) [of a b seen inc] by (auto simp: handshake_inv_def)
    qed (use 1 more in simp)
  next
    case 2
    then show ?thesis
      using assms(1,3) subseq_snoc(1) [of inc seen] by (auto simp: handshake_inv_def)
  next
    case 3
    then obtain a where "subseq [a] seen" "initialize_request a" using assms(1) by (auto simp: handshake_inv_def)
    then show ?thesis
      using 3 assms(1,3) subseq_snoc(2) [of a seen inc] by (auto simp: handshake_inv_def)
  qed
qed

lemma request_result_phases:
  assumes "request_result env sv inc (ph, s) = ((ph', s'), r)"
  shows "(ph' = ph \<or> ph = AwaitInitialize \<and> ph' = AwaitInitialized \<and> inc_method inc = lit ''initialize'') \<and>
    (s' = s \<or> phase_ready ph \<and> ph' = ph \<and> inc_method inc = lit ''tools/call'')"
  using assms
  by (auto simp: request_result_def initialize_def split: if_split_asm prod.split_asm sum.split_asm)

lemma dispatch_incoming_inv:
  assumes "handshake_inv s0 seen d"
  shows "handshake_inv s0 (seen @ [inc]) (fst (dispatch_incoming env sv inc d))"
proof (cases d)
  case (Pair ph s)
  have inv: "handshake_inv s0 seen (ph, s)" using assms by (simp add: Pair)
  show ?thesis
  proof (cases "inc_id inc")
    case None
    then have "fst (dispatch_incoming env sv inc d) =
        (if inc_method inc = lit ''notifications/initialized'' then initialized env (inc_params inc) ph else ph, s)"
      by (simp add: dispatch_incoming_def Pair)
    then show ?thesis
      using None by (simp only:) (rule handshake_step [OF inv], auto simp: initialized_def initialized_notification_def)
  next
    case (Some rid)
    obtain ph' s' r where step: "request_result env sv inc (ph, s) = ((ph', s'), r)"
      by (metis prod.exhaust)
    have "ph \<noteq> Stateless" using inv by (simp add: handshake_inv_def)
    moreover have "fst (dispatch_incoming env sv inc d) = (ph', s')"
      by (simp add: dispatch_incoming_def Some Pair step)
    ultimately show ?thesis
      using request_result_phases [OF step] Some
      by (simp only:) (rule handshake_step [OF inv], auto simp: phase_ready_def initialize_request_def tool_request_def)
  qed
qed

lemma dispatch_items_inv:
  "handshake_inv s0 seen d \<Longrightarrow>
     handshake_inv s0 (seen @ List.map_filter into_incoming items) (fst (dispatch_items env sv items responses d))"
proof (induction items arbitrary: seen responses d)
  case Nil
  then show ?case by (simp add: List.map_filter_simps)
next
  case (Cons item items)
  let ?new = "List.map_filter into_incoming [item]"
  obtain d1 r where step: "dispatch_batch_item env sv item d = (d1, r)" by fastforce
  have d1: "handshake_inv s0 (seen @ ?new) d1"
  proof (cases "into_incoming item")
    case None
    then show ?thesis using step Cons.prems by (simp add: dispatch_batch_item_def List.map_filter_simps)
  next
    case (Some inc)
    then show ?thesis
      using step dispatch_incoming_inv [OF Cons.prems, of inc env sv] handshake_inv_more [OF Cons.prems, of "[inc]"]
      by (cases "inc_method inc = lit ''initialize''") (simp_all add: dispatch_batch_item_def List.map_filter_simps)
  qed
  have new: "seen @ List.map_filter into_incoming (item # items) = (seen @ ?new) @ List.map_filter into_incoming items"
    by (simp add: List.map_filter_simps split: option.split)
  show ?case
    unfolding new using Cons.IH [OF d1] handshake_inv_more [OF d1]
    by (auto simp: step split: option.split dispatch_result.split)
qed

lemma dispatch_inv:
  assumes "handshake_inv s0 seen d"
  shows "handshake_inv s0 (seen @ frame_incomings env frame) (fst (dispatch env sv frame d))"
proof -
  note item = dispatch_incoming_inv [OF assms] and items = dispatch_items_inv [OF assms] and more = handshake_inv_more [OF assms]
  show ?thesis
  proof (cases "mc_frame env frame")
    case None
    then show ?thesis using assms by (simp add: dispatch_def frame_incomings_def)
  next
    case (Some f)
    show ?thesis
    proof (cases f)
      case (Batch its)
      then show ?thesis
        using more items [of its env sv "[]"] Some
        by (auto simp: dispatch_def frame_incomings_def split_beta split: option.split)
    next
      case (Single_Item it)
      then show ?thesis
        using assms more item Some by (auto simp: dispatch_def frame_incomings_def List.map_filter_simps split: option.split)
    qed
  qed
qed

lemma dispatch_frames_inv:
  "handshake_inv s0 seen d \<Longrightarrow>
     handshake_inv s0 (seen @ concat (map (frame_incomings env) frames)) (dispatch_frames env sv frames d)"
proof (induction frames arbitrary: seen d)
  case (Cons frame frames)
  from Cons.IH [OF dispatch_inv [OF Cons.prems, of env frame sv]] show ?case by simp
qed simp

lemma run_stdio_turn:
  assumes res: "run_stdio env sv limit stop wr flush n (d, w) reader = res"
  shows "(\<exists>frames. fst (fst res) = dispatch_frames env sv frames d) \<or>
    (\<exists>frames w' reader'. reader_size reader' < reader_size reader \<and>
       res = run_stdio env sv limit stop wr flush (Suc n) (dispatch_frames env sv frames d, w') reader')"
proof -
  have same: ?thesis if "fst (fst res) = d" using that by (intro disjI1 exI [of _ "[]"]) simp
  obtain reader' r where read: "read_capped_line limit reader = (reader', r)" by fastforce
  consider "stop n" | e where "\<not> stop n" "r = Inl e" | "\<not> stop n" "r = Inr Eof" | "\<not> stop n" "r = Inr Oversized"
    | l where "\<not> stop n" "r = Inr (Frame l)"
    by (metis line_result.exhaust sum.exhaust)
  then show ?thesis
  proof cases
    case 4
    let ?v = "rpc_error J_Null (- 32600) (lit ''Invalid Request'')"
    have next': "fst (fst res) = d \<or> res = run_stdio env sv limit stop wr flush (Suc n) (d, w @ [?v]) reader'"
      using 4 read res by (subst (asm) run_stdio.simps) (auto simp: Let_def split: sum.split_asm)
    moreover have "reader_size reader' < reader_size reader" using read_line_smaller read 4 by blast
    ultimately show ?thesis using same by (metis dispatch_frames.simps(1))
  next
    case (5 l)
    have next': "fst (fst res) = fst (dispatch env sv l d) \<or>
        (\<exists>w'. res = run_stdio env sv limit stop wr flush (Suc n) (fst (dispatch env sv l d), w') reader')"
      using 5 read res
      by (subst (asm) run_stdio.simps) (auto split: prod.split_asm option.split_asm dispatch_result.split_asm sum.split_asm)
    moreover have "reader_size reader' < reader_size reader" using read_line_smaller read 5 by blast
    moreover have "fst (dispatch env sv l d) = dispatch_frames env sv [l] d" by simp
    ultimately show ?thesis by metis
  next
    case 1
    show ?thesis by (rule same) (use 1 res in \<open>auto simp: run_stdio.simps\<close>)
  next
    case 2
    show ?thesis by (rule same) (use 2 read res in \<open>auto simp: run_stdio.simps\<close>)
  next
    case 3
    show ?thesis by (rule same) (use 3 read res in \<open>auto simp: run_stdio.simps\<close>)
  qed
qed

lemma dispatch_frames_append:
  "dispatch_frames env sv (xs @ ys) d = dispatch_frames env sv ys (dispatch_frames env sv xs d)"
  by (induction xs arbitrary: d) simp_all

lemma run_stdio_frames:
  "\<exists>frames. fst (fst (run_stdio env sv limit stop wr flush n (d, w) reader)) = dispatch_frames env sv frames d"
proof (induction "reader_size reader" arbitrary: n d w reader rule: less_induct)
  case less
  from run_stdio_turn [OF refl, of env sv limit stop wr flush n d w reader] show ?case
    using less by (metis dispatch_frames_append)
qed


section \<open>Answers\<close>

text \<open>The ids a batch must answer, in order: that of every request, and null for every item that is no message.\<close>

definition expected_ids :: "wire_item list \<Rightarrow> json list" where
  "expected_ids items = concat (map (\<lambda>item. case into_incoming item of
       None \<Rightarrow> [J_Null]
     | Some inc \<Rightarrow> (case inc_id inc of None \<Rightarrow> [] | Some rid \<Rightarrow> [rid])) items)"

lemma rpc_ids [simp]:
  "json_get (rpc_success rid v) ''id'' = rid" "json_get (rpc_error rid code m) ''id'' = rid"
  by (simp_all add: rpc_success_def rpc_error_def lit_def)

lemma dispatch_batch_item_ids:
  assumes "dispatch_batch_item env sv item d = (d1, Some r)"
  shows "expected_ids [item] = (case r of Notification \<Rightarrow> [] | Response v \<Rightarrow> [json_get v ''id''])"
  using assms
  by (auto simp: dispatch_batch_item_def dispatch_incoming_def invalid_request_def expected_ids_def
      split: option.split_asm if_split_asm prod.split_asm sum.split)

lemma dispatch_items_ids:
  "dispatch_items env sv items responses d = (d', Some rs) \<Longrightarrow>
     map (\<lambda>r. json_get r ''id'') rs = map (\<lambda>r. json_get r ''id'') responses @ expected_ids items"
proof (induction items arbitrary: responses d)
  case (Cons item items)
  obtain d1 r where step: "dispatch_batch_item env sv item d = (d1, r)" by fastforce
  with Cons.prems obtain res where r: "r = Some res" by (cases r) auto
  have "expected_ids (item # items) = expected_ids [item] @ expected_ids items" by (simp add: expected_ids_def)
  with Cons.IH Cons.prems dispatch_batch_item_ids [OF step [unfolded r]] show ?case
    by (cases res) (auto simp: step r)
qed (simp add: expected_ids_def)

text \<open>
  C18. A batch is answered message by message: the responses carry, in order, the id of every request of
  the batch and null for every malformed item; notifications get none, and a batch of notifications gets no answer at
  all.
\<close>

theorem batch_answers_match_requests:
  assumes "mc_frame env frame = Some (Batch items)" and "items \<noteq> []" and "length items \<le> max_mcp_batch_items"
    and "dispatch env sv frame d = (d', Some answer)"
  shows "if expected_ids items = [] then answer = Notification
    else \<exists>rs. answer = Response (J_Arr rs) \<and> map (\<lambda>r. json_get r ''id'') rs = expected_ids items"
proof -
  from assms obtain rs where rs: "dispatch_items env sv items [] d = (d', Some rs)"
    and answer: "answer = (if rs = [] then Notification else Response (J_Arr rs))"
    by (auto simp: dispatch_def split: prod.split_asm option.split_asm)
  from dispatch_items_ids [OF rs] answer show ?thesis by auto
qed

section \<open>What the adapter may do\<close>

lemma call_tool_admin [simp]: "call_tool env (sv\<lparr>sv_admin := f\<rparr>) params s = call_tool env sv params s"
  by (simp add: call_tool_def mcp_embed_def mcp_list_models_def split: sum.split)

lemma dispatch_incoming_admin [simp]: "dispatch_incoming env (sv\<lparr>sv_admin := f\<rparr>) inc d = dispatch_incoming env sv inc d"
proof -
  have "request_result env (sv\<lparr>sv_admin := f\<rparr>) inc d = request_result env sv inc d"
    by (simp add: request_result_def split_beta)
  then show ?thesis by (cases "inc_id inc") (simp_all add: dispatch_incoming_def)
qed

lemma dispatch_items_admin [simp]: "dispatch_items env (sv\<lparr>sv_admin := f\<rparr>) items rs d = dispatch_items env sv items rs d"
proof (induction items arbitrary: rs d)
  case (Cons item items)
  have "dispatch_batch_item env (sv\<lparr>sv_admin := f\<rparr>) item d = dispatch_batch_item env sv item d"
    unfolding dispatch_batch_item_def dispatch_incoming_admin ..
  then show ?case using Cons.IH by (simp split: prod.split option.split dispatch_result.split)
qed simp

lemma dispatch_admin: "dispatch env (sv\<lparr>sv_admin := f\<rparr>) frame d = dispatch env sv frame d"
  unfolding dispatch_def dispatch_incoming_admin dispatch_items_admin ..

lemma mcp_http_handler_admin:
  "mcp_http_handler env (sv\<lparr>sv_admin := f\<rparr>) limit request s = mcp_http_handler env sv limit request s"
  unfolding mcp_http_handler_def dispatch_admin ..

text \<open>
  MCP exposes no administration: neither dispatching a frame nor serving an HTTP request depends on
  what the administrative operations of the application would do.
\<close>

theorem mcp_never_administers:
  "dispatch env (sv\<lparr>sv_admin := f\<rparr>) frame d = dispatch env sv frame d \<and>
   mcp_http_handler env (sv\<lparr>sv_admin := f\<rparr>) limit request s = mcp_http_handler env sv limit request s"
  by (simp add: dispatch_admin mcp_http_handler_admin)

text \<open>Whatever the operations of the application keep, the adapter keeps.\<close>

context service_contract
begin

lemma call_tool_keeps: "keeps s \<Longrightarrow> keeps (fst (call_tool env sv params s))"
  using keeps_list [of s] keeps_embed [OF keeps_new_token [of s]]
  by (simp add: call_tool_def mcp_embed_def mcp_list_models_def split_beta split: sum.split)

lemma dispatch_incoming_keeps: "keeps (snd d) \<Longrightarrow> keeps (snd (fst (dispatch_incoming env sv inc d)))"
  using call_tool_keeps [of "snd d" env "inc_params inc"]
  by (auto simp: dispatch_incoming_def request_result_def split_beta split: option.split)

lemma dispatch_items_keeps: "keeps (snd d) \<Longrightarrow> keeps (snd (fst (dispatch_items env sv items rs d)))"
proof (induction items arbitrary: rs d)
  case (Cons item items)
  have "keeps (snd (fst (dispatch_batch_item env sv item d)))"
    using Cons.prems dispatch_incoming_keeps [OF Cons.prems] by (auto simp: dispatch_batch_item_def split: option.split)
  then show ?case using Cons.IH by (auto split: prod.split option.split dispatch_result.split)
qed simp

lemma dispatch_keeps: "keeps (snd d) \<Longrightarrow> keeps (snd (fst (dispatch env sv frame d)))"
  using dispatch_incoming_keeps [of d] dispatch_items_keeps [of d]
  by (auto simp: dispatch_def split_beta split: option.split wire_frame.split)

lemma dispatch_frames_keeps: "keeps (snd d) \<Longrightarrow> keeps (snd (dispatch_frames env sv frames d))"
  by (induction frames arbitrary: d) (simp_all add: dispatch_keeps)

lemma run_stdio_keeps:
  "keeps (snd d) \<Longrightarrow> keeps (snd (fst (fst (run_stdio env sv limit stop wr flush n (d, w) reader))))"
  using run_stdio_frames [of env sv limit stop wr flush n d w reader] dispatch_frames_keeps by metis

lemma mcp_http_handler_keeps: "keeps s \<Longrightarrow> keeps (fst (mcp_http_handler env sv limit request s))"
  using dispatch_keeps [of "(Stateless, s)" env]
  by (auto simp: mcp_http_handler_def split_beta Let_def split: option.split dispatch_result.split)

end

section \<open>Instances\<close>

text \<open>A service that counts its embeddings, and a codec in which a frame is one byte.\<close>

definition counting_service :: "nat service" where
  "counting_service =
     \<lparr>sv_new_token = (\<lambda>n. (n, Single 0)), sv_cancel = (\<lambda>_ n. n),
      sv_embed = (\<lambda>_ n. (Suc n, Some (Err catalog_request_error))),
      sv_list_models = (\<lambda>n. (n, Ok [])), sv_admin = (\<lambda>_ _ n. (n, Err catalog_request_error)),
      sv_observe = (\<lambda>_ _ n. n), sv_live = (\<lambda>_. True),
      sv_readiness = (\<lambda>_. \<lparr>rd_state = LC_Ready, rd_reason_code = None\<rparr>), sv_counts = (\<lambda>_. (0, 0)), sv_render = (\<lambda>_. [])\<rparr>"

definition demo_message :: "json option \<Rightarrow> string \<Rightarrow> json option \<Rightarrow> wire_item" where
  "demo_message rid method params =
     Incoming_Envelope \<lparr>ev_jsonrpc = lit ''2.0'', ev_id = rid, ev_method = lit method, ev_params = params\<rparr>"

definition demo_mcp :: mcp_env where
  "demo_mcp =
     \<lparr>mc_frame = (\<lambda>f.
        if f = [1] then Some (Single_Item (demo_message (Some (J_Pos 1)) ''initialize'' (Some J_Null)))
        else if f = [2] then Some (Single_Item (demo_message None ''notifications/initialized'' None))
        else if f = [3] then Some (Single_Item (demo_message (Some (J_Pos 2)) ''tools/call'' (Some J_Null)))
        else Some (Batch [demo_message (Some (J_Pos 7)) ''ping'' None, demo_message None ''x'' None, Invalid_Item J_Null])),
      mc_initialize = (\<lambda>_. Some \<lparr>ip_protocol_version = lit ''v'', ip_client_name = lit ''c'', ip_client_version = lit ''1''\<rparr>),
      mc_empty = (\<lambda>_. True), mc_list_tools = (\<lambda>_. Some None),
      mc_call_tool = (\<lambda>_. Some \<lparr>ct_name = lit ''embed'', ct_arguments = None\<rparr>),
      mc_embed = (\<lambda>_. Some \<lparr>ea_model = lit ''m'', ea_input = One (lit ''x''), ea_task = Document, ea_truncation = Reject,
        ea_dimensions = None, ea_normalize = None\<rparr>),
      mc_no_arguments = (\<lambda>_. True), mc_to_string = (\<lambda>_. Some []), mc_to_vec = (\<lambda>_. Some []), mc_to_str = (\<lambda>_. None),
      mc_parse_f32 = (\<lambda>_. None), mc_version = []\<rparr>"

lemma demo_dispatch:
  "fst (dispatch demo_mcp counting_service [1] (AwaitInitialize, n)) = (AwaitInitialized, n)"
  "\<exists>v. snd (dispatch demo_mcp counting_service [1] (AwaitInitialize, n)) = Some (Response v)"
  "dispatch demo_mcp counting_service [2] (AwaitInitialized, n) = ((Phase_Ready, n), Some Notification)"
  "fst (dispatch demo_mcp counting_service [3] (Phase_Ready, n)) = (Phase_Ready, Suc n)"
  "\<exists>v. snd (dispatch demo_mcp counting_service [3] (Phase_Ready, n)) = Some (Response v)"
  by (simp_all add: dispatch_def demo_mcp_def demo_message_def dispatch_incoming_def request_result_def initialize_def
      parse_params_def initialized_def parse_empty_def trim_empty_iff lit_def is_whitespace_def call_tool_def mcp_embed_def
      embed_request_def parse_arguments_def phase_ready_def counting_service_def is_ok_def ok_or_def)

lemma demo_connection_run:
  "snd (fst (fst (run_stdio demo_mcp counting_service 10 (\<lambda>_. False) (\<lambda>_. None) (Ok ()) 0 ((AwaitInitialize, 0), [])
     [Inr [1, 10], Inr [2, 10, 3, 10]]))) = 1"
proof -
  obtain u v where u: "dispatch demo_mcp counting_service [1] (AwaitInitialize, 0) = ((AwaitInitialized, 0), Some (Response u))"
    and v: "dispatch demo_mcp counting_service [3] (Phase_Ready, 0) = ((Phase_Ready, 1), Some (Response v))"
    using demo_dispatch(1,2,4,5) by (metis One_nat_def prod.collapse)
  have w: "write_frame demo_mcp None x = Ok ()" for x by (simp add: write_frame_def demo_mcp_def)
  show ?thesis
    by (subst run_stdio.simps, simp add: read_capped_line_def finish_line_def grow_line_def saturating_add_def word_limit_def
        pop_if_last_def u w,
        subst run_stdio.simps, simp add: read_capped_line_def finish_line_def grow_line_def saturating_add_def word_limit_def
        pop_if_last_def demo_dispatch(3) w,
        subst run_stdio.simps, simp add: read_capped_line_def finish_line_def grow_line_def saturating_add_def word_limit_def
        pop_if_last_def v w,
        subst run_stdio.simps, simp add: read_capped_line_def)
qed


theorem batch_answers_match_requests_witness:
  "\<exists>rs. snd (dispatch demo_mcp counting_service [9] (Phase_Ready, 0)) = Some (Response (J_Arr rs)) \<and>
     map (\<lambda>r. json_get r ''id'') rs = [J_Pos 7, J_Null]"
proof -
  let ?items = "[demo_message (Some (J_Pos 7)) ''ping'' None, demo_message None ''x'' None, Invalid_Item J_Null]"
  have frame: "mc_frame demo_mcp [9] = Some (Batch ?items)" by (simp add: demo_mcp_def)
  have ids: "expected_ids ?items = [J_Pos 7, J_Null]" by (simp add: expected_ids_def demo_message_def lit_def)
  obtain d' answer where d: "dispatch demo_mcp counting_service [9] (Phase_Ready, 0) = (d', Some answer)"
    by (simp add: dispatch_def frame max_mcp_batch_items_def dispatch_batch_item_def demo_message_def lit_def dispatch_incoming_def
        request_result_def parse_empty_def invalid_request_def)
  from batch_answers_match_requests [OF frame _ _ d] show ?thesis
    by (simp add: ids d max_mcp_batch_items_def)
qed

end
