(* ===== verification/Http.thy ===== *)
theory Http
  imports Mcp
begin

text \<open>
  The HTTP adapter \<^verbatim>\<open>impossible-server/src/http.rs\<close>: the route table with its guards, the origin layer with CORS preflight,
  body decoding, the handlers and their responses. Request bodies are decoded and responses encoded by the JSON
  library, and requests are matched against the route table by the web framework: these are arguments.
\<close>

section \<open>Messages\<close>

record openai_request =
  oa_model :: rstr
  oa_input :: embed_input
  oa_dimensions :: "nat option"

record native_request =
  nr_model :: rstr
  nr_input :: "rstr list"
  nr_task :: embedding_task
  nr_truncation :: truncation
  nr_dimensions :: "nat option"
  nr_normalize :: "bool option"

datatype error_flavor = Native | Compatibility

record error_body =
  eb_code :: rstr
  eb_message :: rstr
  eb_retryable :: bool

record compatibility_error_body =
  ce_message :: rstr
  ce_type :: rstr
  ce_param :: "rstr option"
  ce_code :: rstr

record openai_embedding =
  oe_index :: nat
  oe_embedding :: "f32 list"

record openai_response =
  or_data :: "openai_embedding list"
  or_model :: rstr
  or_prompt_tokens :: nat
  or_total_tokens :: nat

record native_response =
  nv_embeddings :: "f32 list list"
  nv_model :: resolved_identity
  nv_prompt_tokens :: nat
  nv_total_tokens :: nat
  nv_input_tokens :: "nat list"

record model_summary =
  ms_model :: rstr
  ms_state :: rstr

datatype json_body =
    JB_Error error_body
  | JB_Compatibility compatibility_error_body
  | JB_OpenAi openai_response
  | JB_Native native_response
  | JB_Models "model_summary list"
  | JB_Model model_summary
  | JB_Health rstr "rstr option"
  | JB_Rpc json

datatype http_body = Body_Empty | Body_Json json_body | Body_Text rstr | Body_Html rstr | Body_Openapi

text \<open>\<open>No_Reply\<close>: the handler was dropped with its connection, or does not return.\<close>

datatype http_response = Reply nat "(rstr \<times> bytes) list" http_body | No_Reply

datatype guard = Unguarded | Public_Auth | Admin_Auth | Metrics_Auth

datatype endpoint =
    E_OpenAi | E_Native | E_Models | E_Mcp | E_Status | E_Live | E_Ready | E_Openapi | E_Metrics
  | E_Admin admin_action

record route =
  rte_method :: http_method
  rte_path :: rstr
  rte_guard :: guard
  rte_endpoint :: endpoint

text \<open>
  \<open>he_header_value\<close> is \<^verbatim>\<open>HeaderValue::from_str\<close>, \<open>he_encode\<close> the JSON encoder, \<open>he_select\<close> the framework's choice of an entry
  of a table of methods and paths, and \<open>he_unmatched\<close> its answer when there is none.
\<close>

record http_env =
  he_mcp :: mcp_env
  he_header_value :: "rstr \<Rightarrow> bytes option"
  he_encode :: "json_body \<Rightarrow> bytes option"
  he_openai :: "bytes \<Rightarrow> openai_request option"
  he_native :: "bytes \<Rightarrow> native_request option"
  he_command :: "bytes \<Rightarrow> rstr option"
  he_select :: "(http_method \<times> rstr) list \<Rightarrow> http_method \<Rightarrow> rstr \<Rightarrow> nat option"
  he_unmatched :: "http_request \<Rightarrow> http_response"

abbreviation he_to_str :: "http_env \<Rightarrow> bytes \<Rightarrow> rstr option" where
  "he_to_str env \<equiv> mc_to_str (he_mcp env)"

section \<open>Responses\<close>

text \<open>
  A value that does not encode is answered by the internal error; when that does not encode either, the two functions
  call each other for ever.
\<close>

definition error_body_of :: "public_error \<Rightarrow> json_body" where
  "error_body_of e =
     JB_Error \<lparr>eb_code = error_code_as_str (pe_code e), eb_message = pe_message e, eb_retryable = (pe_retryability e = Retryable)\<rparr>"

definition json_response :: "http_env \<Rightarrow> nat \<Rightarrow> json_body \<Rightarrow> http_response" where
  "json_response env status v =
     (let headers = [(lit ''content-type'', as_bytes (lit ''application/json''))];
          internal = error_body_of (for_code Internal) in
      if he_encode env v \<noteq> None then Reply status headers (Body_Json v)
      else if he_encode env internal \<noteq> None then Reply 500 headers (Body_Json internal)
      else No_Reply)"

definition wire_error :: "http_env \<Rightarrow> nat \<Rightarrow> error_code \<Rightarrow> http_response" where
  "wire_error env status code = json_response env status (error_body_of (for_code code))"

definition compatibility_error :: "http_env \<Rightarrow> nat \<Rightarrow> error_code \<Rightarrow> http_response" where
  "compatibility_error env status code =
     json_response env status (JB_Compatibility
       \<lparr>ce_message = pe_message (for_code code),
        ce_type = (if code = InvalidRequest then lit ''invalid_request_error'' else lit ''server_error''),
        ce_param = None, ce_code = error_code_as_str code\<rparr>)"

fun error_response :: "http_env \<Rightarrow> error_flavor \<Rightarrow> nat \<Rightarrow> error_code \<Rightarrow> http_response" where
  "error_response env Native status code = wire_error env status code"
| "error_response env Compatibility status code = compatibility_error env status code"

definition flavor_for_path :: "rstr \<Rightarrow> error_flavor" where
  "flavor_for_path path = (if path = lit ''/v1/embeddings'' then Compatibility else Native)"

fun application_status :: "application_error_kind \<Rightarrow> nat" where
  "application_status AK_InvalidRequest = 400"
| "application_status AK_ModelUnavailable = 503"
| "application_status AK_ShuttingDown = 503"
| "application_status AK_Overloaded = 429"
| "application_status AK_Cancelled = 499"
| "application_status AK_DeadlineExceeded = 408"
| "application_status AK_Internal = 500"

definition http_application_error :: "http_env \<Rightarrow> application_error \<Rightarrow> error_flavor \<Rightarrow> http_response" where
  "http_application_error env e flavor =
     (case flavor of
        Native \<Rightarrow> json_response env (application_status (ae_kind e)) (error_body_of (ae_public e))
      | Compatibility \<Rightarrow> compatibility_error env (application_status (ae_kind e)) (pe_code (ae_public e)))"

definition outcome_of :: "application_error + 'a \<Rightarrow> outcome" where
  "outcome_of r =
     (case r of Inr _ \<Rightarrow> OC_Ok
      | Inl e \<Rightarrow> (case ae_kind e of
          AK_InvalidRequest \<Rightarrow> OC_Invalid
        | AK_Overloaded \<Rightarrow> OC_Overloaded
        | AK_Cancelled \<Rightarrow> OC_Cancelled
        | AK_DeadlineExceeded \<Rightarrow> OC_Cancelled
        | _ \<Rightarrow> OC_Failed))"

definition openai_response_of :: "embedding_output \<Rightarrow> openai_response" where
  "openai_response_of out =
     \<lparr>or_data = map (\<lambda>(i, v). \<lparr>oe_index = i, oe_embedding = v\<rparr>) (enumerate 0 (out_vectors out)),
      or_model = canonical_id (out_model out),
      or_prompt_tokens = usage_total_tokens (out_usage out), or_total_tokens = usage_total_tokens (out_usage out)\<rparr>"

definition native_response_of :: "embedding_output \<Rightarrow> native_response" where
  "native_response_of out =
     \<lparr>nv_embeddings = out_vectors out, nv_model = out_model out,
      nv_prompt_tokens = usage_total_tokens (out_usage out), nv_total_tokens = usage_total_tokens (out_usage out),
      nv_input_tokens = usage_input_tokens (out_usage out)\<rparr>"

definition model_summary_of :: "model_info \<Rightarrow> model_summary" where
  "model_summary_of m =
     \<lparr>ms_model = mi_canonical_id m,
      ms_state = (if mi_load_status m = Loaded then lit ''ready''
        else (case mi_installation_status m of Missing \<Rightarrow> lit ''missing'' | Invalid \<Rightarrow> lit ''invalid''
          | IntegrityVerified \<Rightarrow> lit ''installed'' | Loadable \<Rightarrow> lit ''installed''))\<rparr>"

section \<open>Headers and guards\<close>

definition single_header :: "(rstr \<times> bytes) list \<Rightarrow> string \<Rightarrow> bytes option" where
  "single_header headers name = (case get_all headers name of [v] \<Rightarrow> Some v | _ \<Rightarrow> None)"

definition apply_origin :: "http_env \<Rightarrow> rstr option \<Rightarrow> http_response \<Rightarrow> http_response" where
  "apply_origin env origin response =
     (case Option.bind origin (he_header_value env) of
        None \<Rightarrow> response
      | Some v \<Rightarrow> (case response of No_Reply \<Rightarrow> No_Reply
          | Reply status headers body \<Rightarrow>
              Reply status (header_insert ''vary'' (as_bytes (lit ''Origin''))
                (header_insert ''access-control-allow-origin'' v headers)) body))"

definition apply_preflight :: "http_env \<Rightarrow> rstr \<Rightarrow> http_method \<Rightarrow> http_response" where
  "apply_preflight env origin method =
     (case apply_origin env (Some origin) (Reply 204 [] Body_Empty) of No_Reply \<Rightarrow> No_Reply
      | Reply status headers body \<Rightarrow>
          Reply status (header_insert ''access-control-allow-headers'' (as_bytes (lit ''Authorization, Content-Type''))
            (header_insert ''access-control-allow-methods''
              (case he_header_value env (method_as_str method) of Some v \<Rightarrow> v | None \<Rightarrow> as_bytes (lit ''GET'')) headers)) body)"

definition route_method :: "rstr \<Rightarrow> bool \<Rightarrow> http_method option" where
  "route_method path admin_enabled =
     (if path \<in> {lit ''/'', lit ''/v1/models'', lit ''/health/live'', lit ''/health/ready'', lit ''/metrics'', lit ''/openapi.json''}
      then Some GET
      else if path \<in> {lit ''/v1/embeddings'', lit ''/v1/embed'', lit ''/mcp''} then Some POST
      else if path \<in> {lit ''/v1/admin/models/install'', lit ''/v1/admin/models/load'', lit ''/v1/admin/models/unload'',
          lit ''/v1/admin/models/delete''} \<and> admin_enabled
      then Some POST else None)"

definition preflight_headers_allowed :: "http_env \<Rightarrow> (rstr \<times> bytes) list \<Rightarrow> bool" where
  "preflight_headers_allowed env headers \<longleftrightarrow>
     (case get_all headers ''access-control-request-headers'' of
        [] \<Rightarrow> True
      | [v] \<Rightarrow> (case he_to_str env v of None \<Rightarrow> False
          | Some t \<Rightarrow> list_all (\<lambda>h. to_ascii_lowercase (trim h) \<in> {lit ''authorization'', lit ''content-type''}) (split_on 44 t))
      | _ \<Rightarrow> False)"

text \<open>\<^verbatim>\<open>strip_prefix\<close> on byte slices.\<close>

definition strip_bytes :: "bytes \<Rightarrow> bytes \<Rightarrow> bytes option" where
  "strip_bytes p v = (if take (length p) v = p then Some (drop (length p) v) else None)"

definition bearer_candidate :: "(rstr \<times> bytes) list \<Rightarrow> bytes option" where
  "bearer_candidate headers =
     Option.bind (single_header headers ''authorization'') (\<lambda>v.
     Option.bind (strip_bytes (as_bytes (lit ''Bearer '')) v) (\<lambda>c. if c = [] then None else Some c))"

definition candidate_verified :: "(bytes \<Rightarrow> bool) \<Rightarrow> (rstr \<times> bytes) list \<Rightarrow> bool" where
  "candidate_verified verify headers = (case bearer_candidate headers of None \<Rightarrow> False | Some c \<Rightarrow> verify c)"

text \<open>The three middlewares: the refusal, if any.\<close>

fun check_guard :: "http_env \<Rightarrow> app_state \<Rightarrow> guard \<Rightarrow> http_request \<Rightarrow> http_response option" where
  "check_guard env st Unguarded request = None"
| "check_guard env st Public_Auth request =
     (if public_auth_required st \<and> \<not> candidate_verified (verify_public_token st) (rq_headers request)
      then Some (error_response env (flavor_for_path (rq_path request)) 401 InvalidRequest) else None)"
| "check_guard env st Admin_Auth request =
     (if admin_auth_required st \<and> \<not> candidate_verified (verify_admin_token st) (rq_headers request)
      then Some (wire_error env 401 InvalidRequest) else None)"
| "check_guard env st Metrics_Auth request =
     (if metrics_auth_required st \<and> \<not> candidate_verified (verify_metrics_token st) (rq_headers request)
      then Some (wire_error env 401 InvalidRequest) else None)"

section \<open>Handlers\<close>

definition decode_json ::
  "http_env \<Rightarrow> app_state \<Rightarrow> (bytes \<Rightarrow> 'a option) \<Rightarrow> error_flavor \<Rightarrow> http_request \<Rightarrow> http_response + 'a" where
  "decode_json env st decode flavor request =
     and_then (reject_if (case Option.bind (single_header (rq_headers request) ''content-type'') (he_to_str env) of
           None \<Rightarrow> True
         | Some v \<Rightarrow> \<not> eq_ignore_ascii_case (trim (hd (split_on 59 v))) (lit ''application/json''))
       (error_response env flavor 415 InvalidRequest)) (\<lambda>_.
     and_then (if \<not> contains_key (rq_headers request) ''content-length'' then Ok ()
       else (case Option.bind (Option.bind (single_header (rq_headers request) ''content-length'') (he_to_str env)) parse_unsigned of
           None \<Rightarrow> Err (error_response env flavor 400 InvalidRequest)
         | Some n \<Rightarrow> reject_if (lim_max_body_bytes (as_limits st) < n) (error_response env flavor 413 InvalidRequest))) (\<lambda>_.
     and_then (ok_or (error_response env flavor 413 InvalidRequest)
       (to_bytes (rq_body request) (lim_max_body_bytes (as_limits st)))) (\<lambda>body.
     ok_or (error_response env flavor 400 InvalidRequest) (decode body))))"

fun input_bytes :: "nat \<Rightarrow> nat \<Rightarrow> rstr list \<Rightarrow> nat option" where
  "input_bytes limit acc [] = Some acc"
| "input_bytes limit acc (i # is) =
     (if limit < str_len i then None
      else (case checked_add acc (str_len i) of None \<Rightarrow> None | Some acc' \<Rightarrow> input_bytes limit acc' is))"

definition validate_inputs ::
  "http_env \<Rightarrow> app_state \<Rightarrow> rstr \<Rightarrow> rstr list \<Rightarrow> error_flavor \<Rightarrow> http_response + unit" where
  "validate_inputs env st model inputs flavor =
     and_then (reject_if (model = [] \<or> inputs = [] \<or> lim_max_items (as_limits st) < length inputs)
       (error_response env flavor 400 InvalidRequest)) (\<lambda>_.
     reject_if (case input_bytes (lim_max_input_bytes (as_limits st)) 0 inputs of None \<Rightarrow> True
         | Some n \<Rightarrow> lim_max_request_bytes (as_limits st) < n)
       (error_response env flavor 413 InvalidRequest))"

text \<open>\<^verbatim>\<open>run_embed\<close>: the guard cancels the token when the handler is dropped.\<close>

definition run_embed ::
  "'s service \<Rightarrow> rstr \<Rightarrow> rstr list \<Rightarrow> embed_options \<Rightarrow> 's \<Rightarrow> 's \<times> (application_error + embedding_output) option" where
  "run_embed sv model input options s =
     (case sv_new_token sv s of (s1, t) \<Rightarrow>
     (case sv_embed sv \<lparr>cmd_model = model, cmd_input = input, cmd_options = options, cmd_cancellation = t, cmd_timeout = None\<rparr> s1 of
        (s2, None) \<Rightarrow> (sv_cancel sv t s2, None)
      | (s2, Some r) \<Rightarrow> (s2, Some r)))"

definition answer_embed ::
  "http_env \<Rightarrow> error_flavor \<Rightarrow> (embedding_output \<Rightarrow> json_body) \<Rightarrow> 's \<times> (application_error + embedding_output) option \<Rightarrow>
   's \<times> http_response" where
  "answer_embed env flavor encode r =
     (case r of
        (s, None) \<Rightarrow> (s, No_Reply)
      | (s, Some (Inl e)) \<Rightarrow> (s, http_application_error env e flavor)
      | (s, Some (Inr out)) \<Rightarrow> (s, json_response env 200 (encode out)))"

definition openai_embeddings :: "http_env \<Rightarrow> app_state \<Rightarrow> 's service \<Rightarrow> http_request \<Rightarrow> 's \<Rightarrow> 's \<times> http_response" where
  "openai_embeddings env st sv request s =
     (case and_then (decode_json env st (he_openai env) Compatibility request) (\<lambda>r.
           let inputs = (case oa_input r of One v \<Rightarrow> [v] | Many vs \<Rightarrow> vs) in
           and_then (validate_inputs env st (oa_model r) inputs Compatibility) (\<lambda>_. Ok (r, inputs))) of
        Inl response \<Rightarrow> (s, response)
      | Inr (r, inputs) \<Rightarrow>
          answer_embed env Compatibility (\<lambda>out. JB_OpenAi (openai_response_of out))
            (run_embed sv (oa_model r) inputs (default_options\<lparr>opt_dimensions := oa_dimensions r\<rparr>) s))"

definition native_embeddings :: "http_env \<Rightarrow> app_state \<Rightarrow> 's service \<Rightarrow> http_request \<Rightarrow> 's \<Rightarrow> 's \<times> http_response" where
  "native_embeddings env st sv request s =
     (case and_then (decode_json env st (he_native env) Native request) (\<lambda>r.
           and_then (validate_inputs env st (nr_model r) (nr_input r) Native) (\<lambda>_. Ok r)) of
        Inl response \<Rightarrow> (s, response)
      | Inr r \<Rightarrow>
          answer_embed env Native (\<lambda>out. JB_Native (native_response_of out))
            (run_embed sv (nr_model r) (nr_input r)
              \<lparr>opt_task = nr_task r, opt_truncation = nr_truncation r, opt_dimensions = nr_dimensions r, opt_normalize = nr_normalize r\<rparr> s))"

definition http_list_models :: "http_env \<Rightarrow> 's service \<Rightarrow> 's \<Rightarrow> 's \<times> http_response" where
  "http_list_models env sv s =
     (case sv_list_models sv s of (s1, r) \<Rightarrow>
       (sv_observe sv ListModels (outcome_of r) s1,
        case r of Inl e \<Rightarrow> http_application_error env e Native
        | Inr models \<Rightarrow> json_response env 200 (JB_Models (map model_summary_of models))))"

definition admin_command ::
  "http_env \<Rightarrow> app_state \<Rightarrow> 's service \<Rightarrow> admin_action \<Rightarrow> http_request \<Rightarrow> 's \<Rightarrow> 's \<times> http_response" where
  "admin_command env st sv action request s =
     (case and_then (decode_json env st (he_command env) Native request) (\<lambda>model.
           and_then (reject_if (model = []) (wire_error env 400 InvalidRequest)) (\<lambda>_. Ok model)) of
        Inl response \<Rightarrow> (s, response)
      | Inr model \<Rightarrow>
     (case sv_admin sv action model s of (s1, r) \<Rightarrow>
       (sv_observe sv AdminModel (outcome_of r) s1,
        case r of Inl e \<Rightarrow> http_application_error env e Native
        | Inr info \<Rightarrow> json_response env (if action = Install_Model then 202 else 200) (JB_Model (model_summary_of info)))))"

definition health_answer :: "http_env \<Rightarrow> 's service \<Rightarrow> bool \<Rightarrow> rstr option \<Rightarrow> 's \<Rightarrow> 's \<times> http_response" where
  "health_answer env sv good reason s =
     (sv_observe sv Health_Probe (if good then OC_Ok else OC_Failed) s,
      json_response env (if good then 200 else 503) (JB_Health (if good then lit ''ok'' else lit ''unavailable'') reason))"

definition live_health :: "http_env \<Rightarrow> 's service \<Rightarrow> 's \<Rightarrow> 's \<times> http_response" where
  "live_health env sv s = health_answer env sv (sv_live sv s) None s"

definition ready_health :: "http_env \<Rightarrow> 's service \<Rightarrow> 's \<Rightarrow> 's \<times> http_response" where
  "ready_health env sv s =
     (let readiness = sv_readiness sv s in
      health_answer env sv (is_ready readiness) (map_option readiness_reason_code (rd_reason_code readiness)) s)"

definition metrics_answer :: "'s service \<Rightarrow> 's \<Rightarrow> http_response" where
  "metrics_answer sv s =
     Reply 200 [(lit ''content-type'', as_bytes (lit ''text/plain; version=0.0.4; charset=utf-8''))] (Body_Text (sv_render sv s))"

definition openapi_answer :: http_response where
  "openapi_answer = Reply 200 [(lit ''content-type'', as_bytes (lit ''application/json''))] Body_Openapi"

definition status_page :: "http_env \<Rightarrow> 's service \<Rightarrow> 's \<Rightarrow> http_response" where
  "status_page env sv s =
     (let readiness = sv_readiness sv s; (ready_models, total_models) = sv_counts sv s;
          status = (if is_ready readiness then lit ''Ready'' else lit ''Unavailable'');
          reason = (case rd_reason_code readiness of None \<Rightarrow> lit ''none'' | Some r \<Rightarrow> readiness_reason_code r) in
      Reply 200 [(lit ''content-type'', as_bytes (lit ''text/html; charset=utf-8''))] (Body_Html
        (lit ''<!doctype html><html lang=\"en\"><head><meta charset=\"utf-8\"><meta name=\"viewport\" content=\"width=device-width,initial-scale=1\"><title>Impossible Embedding</title><style>body{font:16px system-ui;margin:3rem;max-width:48rem;background:#101416;color:#edf7f4}main{border-left:.4rem solid #ff746c;padding:1rem 1.5rem;background:#182023}dt{color:#9cb0aa}dd{margin:0 0 1rem}</style></head><body><main><h1>Impossible Embedding</h1><dl><dt>Status</dt><dd>''
         @ status @ lit ''</dd><dt>Reason</dt><dd>'' @ reason @ lit ''</dd><dt>Ready models</dt><dd>'' @ decimal ready_models
         @ lit '' of '' @ decimal total_models @ lit ''</dd><dt>Version</dt><dd>'' @ mc_version (he_mcp env)
         @ lit ''</dd></dl></main></body></html>'')))"

definition mcp_answer :: "http_env \<Rightarrow> app_state \<Rightarrow> 's service \<Rightarrow> http_request \<Rightarrow> 's \<Rightarrow> 's \<times> http_response" where
  "mcp_answer env st sv request s =
     (case mcp_http_handler (he_mcp env) sv (lim_max_body_bytes (as_limits st)) request s of
        (s1, None) \<Rightarrow> (s1, No_Reply)
      | (s1, Some (status, None)) \<Rightarrow> (s1, Reply status [] Body_Empty)
      | (s1, Some (status, Some v)) \<Rightarrow>
          (s1, Reply status [(lit ''content-type'', as_bytes (lit ''application/json''))] (Body_Json (JB_Rpc v))))"

fun handle_endpoint :: "http_env \<Rightarrow> app_state \<Rightarrow> 's service \<Rightarrow> endpoint \<Rightarrow> http_request \<Rightarrow> 's \<Rightarrow> 's \<times> http_response" where
  "handle_endpoint env st sv E_OpenAi request s = openai_embeddings env st sv request s"
| "handle_endpoint env st sv E_Native request s = native_embeddings env st sv request s"
| "handle_endpoint env st sv E_Models request s = http_list_models env sv s"
| "handle_endpoint env st sv E_Mcp request s = mcp_answer env st sv request s"
| "handle_endpoint env st sv E_Status request s = (s, status_page env sv s)"
| "handle_endpoint env st sv E_Live request s = live_health env sv s"
| "handle_endpoint env st sv E_Ready request s = ready_health env sv s"
| "handle_endpoint env st sv E_Openapi request s = (s, openapi_answer)"
| "handle_endpoint env st sv E_Metrics request s = (s, metrics_answer sv s)"
| "handle_endpoint env st sv (E_Admin action) request s = admin_command env st sv action request s"

section \<open>Routes\<close>

abbreviation route_of :: "http_method \<Rightarrow> string \<Rightarrow> guard \<Rightarrow> endpoint \<Rightarrow> route" where
  "route_of method path guard endpoint \<equiv>
     \<lparr>rte_method = method, rte_path = lit path, rte_guard = guard, rte_endpoint = endpoint\<rparr>"

definition router :: "app_state \<Rightarrow> route list" where
  "router st =
     [route_of GET ''/'' Unguarded E_Status,
      route_of GET ''/health/live'' Unguarded E_Live,
      route_of GET ''/health/ready'' Unguarded E_Ready,
      route_of GET ''/openapi.json'' Unguarded E_Openapi,
      route_of POST ''/v1/embeddings'' Public_Auth E_OpenAi,
      route_of POST ''/v1/embed'' Public_Auth E_Native,
      route_of GET ''/v1/models'' Public_Auth E_Models,
      route_of POST ''/mcp'' Public_Auth E_Mcp,
      route_of GET ''/metrics'' Metrics_Auth E_Metrics]
     @ (if as_admin_api_enabled st then
          [route_of POST ''/v1/admin/models/install'' Admin_Auth (E_Admin Install_Model),
           route_of POST ''/v1/admin/models/load'' Admin_Auth (E_Admin Load_Model),
           route_of POST ''/v1/admin/models/unload'' Admin_Auth (E_Admin Unload_Model),
           route_of POST ''/v1/admin/models/delete'' Admin_Auth (E_Admin Delete_Model)] else [])"

definition run_route :: "http_env \<Rightarrow> app_state \<Rightarrow> 's service \<Rightarrow> http_request \<Rightarrow> 's \<Rightarrow> 's \<times> http_response" where
  "run_route env st sv request s =
     (case he_select env (map (\<lambda>r. (rte_method r, rte_path r)) (router st)) (rq_method request) (rq_path request) of
        None \<Rightarrow> (s, he_unmatched env request)
      | Some i \<Rightarrow>
          (case check_guard env st (rte_guard (router st ! i)) request of
             Some refusal \<Rightarrow> (s, refusal)
           | None \<Rightarrow> handle_endpoint env st sv (rte_endpoint (router st ! i)) request s))"

text \<open>The request's origin: \<open>Err\<close> when there are several or it is not text.\<close>

definition request_origin :: "http_env \<Rightarrow> http_request \<Rightarrow> unit + rstr option" where
  "request_origin env request =
     (case get_all (rq_headers request) ''origin'' of
        [] \<Rightarrow> Ok None
      | [v] \<Rightarrow> (case he_to_str env v of None \<Rightarrow> Err () | Some t \<Rightarrow> Ok (Some t))
      | _ \<Rightarrow> Err ())"

definition preflight :: "http_env \<Rightarrow> app_state \<Rightarrow> rstr option \<Rightarrow> http_request \<Rightarrow> http_response" where
  "preflight env st origin request =
     (let refused = error_response env (flavor_for_path (rq_path request)) 403 InvalidRequest in
      case origin of None \<Rightarrow> refused
      | Some o' \<Rightarrow>
     (case route_method (rq_path request) (as_admin_api_enabled st) of None \<Rightarrow> Reply 404 [] Body_Empty
      | Some expected \<Rightarrow>
     (case Option.bind (single_header (rq_headers request) ''access-control-request-method'') (he_to_str env) of None \<Rightarrow> refused
      | Some requested \<Rightarrow>
          if requested \<noteq> method_as_str expected \<or> \<not> preflight_headers_allowed env (rq_headers request) then refused
          else apply_preflight env o' expected)))"

text \<open>\<^verbatim>\<open>origin_layer\<close> around the router: the whole service.\<close>

definition serve_http :: "http_env \<Rightarrow> app_state \<Rightarrow> 's service \<Rightarrow> http_request \<Rightarrow> 's \<Rightarrow> 's \<times> http_response" where
  "serve_http env st sv request s =
     (let refused = error_response env (flavor_for_path (rq_path request)) 403 InvalidRequest in
      case request_origin env request of Inl _ \<Rightarrow> (s, refused)
      | Inr origin \<Rightarrow>
          if \<not> origin_allows (as_origins st) origin then (s, refused)
          else let allowed = response_origin (as_origins st) origin in
            if rq_method request = OPTIONS then (s, preflight env st allowed request)
            else (case run_route env st sv request s of (s1, response) \<Rightarrow> (s1, apply_origin env allowed response)))"

section \<open>Authorisation\<close>

text \<open>What is known of the framework: an entry it selects exists and has the path of the request.\<close>

definition selects_path :: "http_env \<Rightarrow> bool" where
  "selects_path env \<longleftrightarrow> (\<forall>table m p i. he_select env table m p = Some i \<longrightarrow> i < length table \<and> snd (table ! i) = p)"

text \<open>The credential that the documentation of \<^verbatim>\<open>router\<close> assigns to a path.\<close>

definition required_credential :: "app_state \<Rightarrow> rstr \<Rightarrow> secret option" where
  "required_credential st path =
     (if path \<in> lit ` {''/v1/embeddings'', ''/v1/embed'', ''/v1/models'', ''/mcp''} then as_public_credential st
      else if path \<in> lit ` {''/v1/admin/models/install'', ''/v1/admin/models/load'', ''/v1/admin/models/unload'',
          ''/v1/admin/models/delete''} then as_admin_credential st
      else if path = lit ''/metrics'' then metrics_credential st
      else None)"

fun guard_credential :: "app_state \<Rightarrow> guard \<Rightarrow> secret option" where
  "guard_credential st Unguarded = None"
| "guard_credential st Public_Auth = as_public_credential st"
| "guard_credential st Admin_Auth = as_admin_credential st"
| "guard_credential st Metrics_Auth = metrics_credential st"

lemma router_guards: "r \<in> set (router st) \<Longrightarrow> guard_credential st (rte_guard r) = required_credential st (rte_path r)"
  by (auto simp: router_def required_credential_def split: if_split_asm)

lemma bearer_candidate_Some:
  "bearer_candidate headers = Some c \<longleftrightarrow> c \<noteq> [] \<and> get_all headers ''authorization'' = [as_bytes (lit ''Bearer '') @ c]"
proof -
  have "strip_bytes p v = Some c \<longleftrightarrow> v = p @ c" for p v
    by (auto simp: strip_bytes_def) (metis append_take_drop_id)
  then show ?thesis
    by (auto simp: bearer_candidate_def single_header_def bind_eq_Some_conv split: list.split)
qed

lemma guard_refuses:
  assumes "guard_credential st g = Some secret" and "check_guard env st g request = None"
  shows "\<exists>c. get_all (rq_headers request) ''authorization'' = [as_bytes (lit ''Bearer '') @ c] \<and> secret_verify secret c"
proof -
  have "candidate_verified (verify_with (Some secret)) (rq_headers request)"
    using assms
    by (cases g) (auto simp: public_auth_required_def admin_auth_required_def metrics_auth_required_def verify_public_token_def
        verify_admin_token_def verify_metrics_token_def split: if_split_asm)
  then show ?thesis
    by (auto simp: candidate_verified_def verify_with_def bearer_candidate_Some split: option.split_asm)
qed

lemma required_credential_bounded:
  assumes "app_state_new parse_url var_os open_file committed so ib config = Inr st"
    and "required_credential st path = Some secret"
  shows "length (secret_bytes secret) \<le> max_credential_bytes"
proof -
  obtain public admin where "load_optional var_os open_file (sc_auth config) = Inr public"
    "load_optional var_os open_file (sc_admin_auth config) = Inr admin"
    "as_public_credential st = public" "as_admin_credential st = admin"
    using app_state_newE [OF assms(1)] by metis
  with assms(2) show ?thesis
    by (auto simp: required_credential_def metrics_credential_def dest!: load_optional_Ok split: if_split_asm option.split_asm)
qed

lemma run_route_unauthorised:
  assumes "selects_path env" and "required_credential st (rq_path request) = Some secret"
    and "\<And>c. get_all (rq_headers request) ''authorization'' = [as_bytes (lit ''Bearer '') @ c] \<Longrightarrow> \<not> secret_verify secret c"
  shows "\<exists>response. \<forall>sv s. run_route env st sv request s = (s, response)"
proof (cases "he_select env (map (\<lambda>r. (rte_method r, rte_path r)) (router st)) (rq_method request) (rq_path request)")
  case None
  then show ?thesis by (simp add: run_route_def)
next
  case (Some i)
  then have i: "i < length (router st)" "rte_path (router st ! i) = rq_path request"
    using assms(1) by (auto simp: selects_path_def dest!: spec)
  then have "guard_credential st (rte_guard (router st ! i)) = Some secret"
    using router_guards [OF nth_mem [OF i(1)]] assms(2) by simp
  then have "check_guard env st (rte_guard (router st ! i)) request \<noteq> None"
    using guard_refuses assms(3) by blast
  then show ?thesis by (auto simp: run_route_def Some)
qed

text \<open>The origin layer either answers by itself or decorates the answer of the route.\<close>

lemma serve_http_cases:
  "(\<exists>response. \<forall>sv s. serve_http env st sv request s = (s, response)) \<or>
   (\<exists>allowed. \<forall>sv s. serve_http env st sv request s =
      (fst (run_route env st sv request s), apply_origin env allowed (snd (run_route env st sv request s))))"
proof (cases "request_origin env request")
  case (Inr origin)
  show ?thesis
  proof (cases "origin_allows (as_origins st) origin \<and> rq_method request \<noteq> OPTIONS")
    case True
    then show ?thesis by (intro disjI2) (simp add: serve_http_def Inr Let_def split_beta, blast)
  next
    case False
    then show ?thesis by (intro disjI1) (auto simp: serve_http_def Inr Let_def)
  qed
qed (simp add: serve_http_def)

text \<open>
  C11. Guarded routes need their credential: on a path to which a credential is assigned, a request that
  does not carry exactly one authorization header with exactly that secret leaves the application as it is and gets an
  answer that depends neither on the application nor on its state.
\<close>

theorem guarded_routes_need_their_credential:
  assumes "app_state_new parse_url var_os open_file committed so ib config = Inr st"
    and "selects_path env" and "required_credential st (rq_path request) = Some secret"
    and "\<forall>v \<in> set (get_all (rq_headers request) ''authorization''). length v < word_limit"
    and "get_all (rq_headers request) ''authorization'' \<noteq> [as_bytes (lit ''Bearer '') @ secret_bytes secret]"
  shows "\<exists>response. \<forall>(sv :: 's service) s. serve_http env st sv request s = (s, response)"
proof -
  have "\<not> secret_verify secret c"
    if "get_all (rq_headers request) ''authorization'' = [as_bytes (lit ''Bearer '') @ c]" for c
    using that assms(4,5) secret_verify_iff [OF required_credential_bounded [OF assms(1,3)], of c] by auto
  then obtain response where route: "\<forall>(sv :: 's service) s. run_route env st sv request s = (s, response)"
    using run_route_unauthorised [OF assms(2,3)] by blast
  from serve_http_cases [of env st request] show ?thesis
  proof
    assume "\<exists>allowed. \<forall>(sv :: 's service) s. serve_http env st sv request s =
      (fst (run_route env st sv request s), apply_origin env allowed (snd (run_route env st sv request s)))"
    then obtain allowed where "\<forall>(sv :: 's service) s. serve_http env st sv request s =
      (fst (run_route env st sv request s), apply_origin env allowed (snd (run_route env st sv request s)))" ..
    then show ?thesis using route by (intro exI [of _ "apply_origin env allowed response"]) simp
  qed
qed

lemma run_embed_admin: "run_embed (sv\<lparr>sv_admin := f\<rparr>) model input options s = run_embed sv model input options s"
  by (simp add: run_embed_def split: prod.split option.split)

lemma handle_admin:
  "\<not> (\<exists>a. e = E_Admin a) \<Longrightarrow> handle_endpoint env st (sv\<lparr>sv_admin := f\<rparr>) e request s = handle_endpoint env st sv e request s"
  by (cases e; simp only: handle_endpoint.simps openai_embeddings_def native_embeddings_def run_embed_admin mcp_answer_def mcp_http_handler_admin)
     (simp_all add: http_list_models_def live_health_def ready_health_def health_answer_def status_page_def metrics_answer_def
       split: prod.split)

text \<open>
  The administrative interface can be switched off: without it no request's outcome depends on what the
  administrative operations would do.
\<close>

theorem disabled_admin_is_unreachable:
  assumes "selects_path env" and "\<not> as_admin_api_enabled st"
  shows "serve_http env st (sv\<lparr>sv_admin := f\<rparr>) request s = serve_http env st sv request s"
proof -
  have "\<not> (\<exists>a. rte_endpoint (router st ! i) = E_Admin a)" if "i < length (router st)" for i
    using nth_mem [OF that] assms(2) by (auto simp: router_def)
  then have "run_route env st (sv\<lparr>sv_admin := f\<rparr>) request s = run_route env st sv request s"
    using assms(1) by (auto simp: run_route_def selects_path_def handle_admin split: option.split) (metis handle_admin length_map)
  then show ?thesis using serve_http_cases [of env st request] by metis
qed

text \<open>
  Preflight and routing agree: the method that a CORS preflight announces for a path is the method of
  the one route with that path, and a path without a route is not announced.
\<close>

theorem preflight_agrees_with_routes:
  "route_method path (as_admin_api_enabled st) = Some m \<longleftrightarrow> (m, path) \<in> set (map (\<lambda>r. (rte_method r, rte_path r)) (router st))"
proof (cases "as_admin_api_enabled st")
  case True
  then show ?thesis unfolding route_method_def router_def by simp blast
next
  case False
  then show ?thesis unfolding route_method_def router_def by simp blast
qed

section \<open>Limits\<close>

definition within_limits :: "limits \<Rightarrow> embed_command \<Rightarrow> bool" where
  "within_limits lim cmd \<longleftrightarrow>
     cmd_model cmd \<noteq> [] \<and> cmd_input cmd \<noteq> [] \<and> length (cmd_input cmd) \<le> lim_max_items lim \<and>
     list_all (\<lambda>i. str_len i \<le> lim_max_input_bytes lim) (cmd_input cmd) \<and>
     sum_list (map str_len (cmd_input cmd)) \<le> lim_max_request_bytes lim"

lemma input_bytes_Some:
  "input_bytes limit acc is = Some n \<Longrightarrow> list_all (\<lambda>i. str_len i \<le> limit) is \<and> n = acc + sum_list (map str_len is)"
proof (induction "is" arbitrary: acc)
  case (Cons i "is")
  then have "input_bytes limit (acc + str_len i) is = Some n" "str_len i \<le> limit"
    by (auto simp: checked_add_def split: if_split_asm)
  with Cons.IH [of "acc + str_len i"] show ?case by simp
qed simp

lemma validate_inputs_Ok:
  "validate_inputs env st model inputs flavor = Ok () \<Longrightarrow> cmd_model cmd = model \<Longrightarrow> cmd_input cmd = inputs \<Longrightarrow>
     within_limits (as_limits st) cmd"
  by (auto simp: validate_inputs_def within_limits_def result_simps dest: input_bytes_Some split: option.split_asm)

lemma run_embed_same:
  assumes "\<And>t s. sv_embed sv \<lparr>cmd_model = model, cmd_input = input, cmd_options = options, cmd_cancellation = t, cmd_timeout = None\<rparr> s =
      g \<lparr>cmd_model = model, cmd_input = input, cmd_options = options, cmd_cancellation = t, cmd_timeout = None\<rparr> s"
  shows "run_embed (sv\<lparr>sv_embed := g\<rparr>) model input options s = run_embed sv model input options s"
  using assms by (simp add: run_embed_def split: prod.split option.split)

text \<open>
  C16. Only bounded requests reach the application: the outcome of both embedding endpoints depends on the
  application's embedding operation only at commands with a model name and with at least one and at most the configured
  number of inputs, each and all together within the configured numbers of bytes.
\<close>

theorem embedding_requests_are_bounded:
  assumes "\<forall>cmd s. within_limits (as_limits st) cmd \<longrightarrow> sv_embed sv cmd s = g cmd s"
  shows "openai_embeddings env st (sv\<lparr>sv_embed := g\<rparr>) request s = openai_embeddings env st sv request s \<and>
    native_embeddings env st (sv\<lparr>sv_embed := g\<rparr>) request s = native_embeddings env st sv request s"
proof -
  have run: "run_embed (sv\<lparr>sv_embed := g\<rparr>) model inputs options s = run_embed sv model inputs options s"
    if "validate_inputs env st model inputs flavor = Ok ()" for model inputs options flavor
    using assms validate_inputs_Ok [OF that] by (intro run_embed_same) simp
  then show ?thesis
    unfolding openai_embeddings_def native_embeddings_def
    by (auto simp: and_then_eq_Inr Let_def split: sum.split)
qed


section \<open>Every request keeps the contract of the service\<close>

context service_contract
begin

lemma run_embed_keeps: "keeps s \<Longrightarrow> keeps (fst (run_embed sv model input options s))"
  using keeps_all by (fastforce simp: run_embed_def split_beta split: option.split)

lemma answer_embed_fst: "fst (answer_embed env flavor encode r) = fst r"
  by (auto simp: answer_embed_def split: prod.split option.split sum.split)

lemma handle_keeps: "keeps s \<Longrightarrow> keeps (fst (handle_endpoint env st sv e request s))"
proof (cases e)
  case E_Mcp
  then show "keeps s \<Longrightarrow> keeps (fst (handle_endpoint env st sv e request s))"
    using mcp_http_handler_keeps [of s "he_mcp env" "lim_max_body_bytes (as_limits st)" request]
    by (auto simp: mcp_answer_def split: prod.split option.split)
qed (auto simp: openai_embeddings_def native_embeddings_def answer_embed_fst run_embed_keeps http_list_models_def
    live_health_def ready_health_def health_answer_def admin_command_def Let_def split_beta keeps_all split: sum.split)

lemma serve_http_keeps: "keeps s \<Longrightarrow> keeps (fst (serve_http env st sv request s))"
  using handle_keeps
  by (auto simp: serve_http_def run_route_def Let_def split_beta split: sum.split option.split)

end

text \<open>
  C17. Requests after shutdown change nothing: once the application has set its shutdown flag, no sequence
  of HTTP requests and no MCP connection changes it, metrics and cancellation tokens apart.
\<close>

theorem requests_after_shutdown_change_nothing:
  "durable (fold (\<lambda>(wt, env, request) app. fst (serve_http env st (application_service wt) request app)) requests (shutdown_fence app))
     = durable (shutdown_fence app) \<and>
   durable (snd (fst (fst (run_stdio menv (application_service wt) limit stop wr flush n ((phase, shutdown_fence app), w) reader))))
     = durable (shutdown_fence app)"
proof -
  have start: "stopped_as (shutdown_fence app) (shutdown_fence app)" by (simp add: stopped_as_def shutdown_fence_def)
  have "stopped_as app0 a \<Longrightarrow>
      stopped_as app0 (fold (\<lambda>(wt, env, request) app. fst (serve_http env st (application_service wt) request app)) requests a)" for app0 a
    by (induction requests arbitrary: a) (auto simp: stopped.serve_http_keeps)
  with start stopped.run_stdio_keeps [of "shutdown_fence app" "(phase, shutdown_fence app)"] show ?thesis
    by (auto simp: stopped_as_def)
qed

section \<open>Instances\<close>

text \<open>A framework that compares methods and paths, and decoders for two fixed bodies.\<close>

definition demo_select :: "(http_method \<times> rstr) list \<Rightarrow> http_method \<Rightarrow> rstr \<Rightarrow> nat option" where
  "demo_select table m p =
     (case filter (\<lambda>i. table ! i = (m, p)) [0..<length table] of [] \<Rightarrow> None | i # _ \<Rightarrow> Some i)"

definition demo_http :: http_env where
  "demo_http =
     \<lparr>he_mcp = demo_mcp\<lparr>mc_to_str := \<lambda>v. if v = as_bytes (lit ''application/json'') then Some (lit ''application/json'') else None\<rparr>,
      he_header_value = (\<lambda>v. Some (as_bytes v)), he_encode = (\<lambda>_. Some []),
      he_openai = (\<lambda>b. Some \<lparr>oa_model = lit ''m'', oa_input = One (lit ''x''), oa_dimensions = None\<rparr>),
      he_native = (\<lambda>b. Some \<lparr>nr_model = lit ''m'', nr_input = [], nr_task = Query, nr_truncation = Truncate, nr_dimensions = None,
        nr_normalize = None\<rparr>),
      he_command = (\<lambda>b. Some (lit ''m'')), he_select = demo_select, he_unmatched = (\<lambda>_. Reply 404 [] Body_Empty)\<rparr>"

definition demo_request :: "http_method \<Rightarrow> string \<Rightarrow> bytes \<Rightarrow> http_request" where
  "demo_request m p auth =
     \<lparr>rq_method = m, rq_path = lit p,
      rq_headers = [(lit ''authorization'', auth), (lit ''content-type'', as_bytes (lit ''application/json''))], rq_body = Ok []\<rparr>"

lemma demo_selects_path: "selects_path demo_http"
proof -
  have "demo_select table m p = Some i \<Longrightarrow> i < length table \<and> snd (table ! i) = p" for table m p i
  proof -
    assume "demo_select table m p = Some i"
    then obtain rest where "filter (\<lambda>i. table ! i = (m, p)) [0..<length table] = i # rest"
      by (auto simp: demo_select_def split: list.split_asm)
    then have "i \<in> set (filter (\<lambda>i. table ! i = (m, p)) [0..<length table])" by (metis list.set_intros(1))
    then show ?thesis by auto
  qed
  then show ?thesis by (simp add: selects_path_def demo_http_def)
qed

theorem guarded_routes_need_their_credential_witness:
  "\<exists>st response. as_public_credential st = Some (Secret (as_bytes (lit ''one''))) \<and>
     serve_http demo_http st counting_service (demo_request POST ''/v1/embeddings'' (as_bytes (lit ''Bearer two''))) 0 = (0, response)"
proof -
  obtain st where st: "app_state_new (\<lambda>_. Some demo_url) two_keys (\<lambda>_. Inl Eloop) (Inr (map named_manifest curated_names)) True True
      exposed_config = Inr st" "as_public_credential st = Some (Secret (as_bytes (lit ''one'')))"
    by (rule exposed_state_built)
  let ?rq = "demo_request POST ''/v1/embeddings'' (as_bytes (lit ''Bearer two''))"
  have auth: "get_all (rq_headers ?rq) ''authorization'' = [as_bytes (lit ''Bearer two'')]"
    by (simp add: get_all_def demo_request_def)
  have "required_credential st (rq_path ?rq) = Some (Secret (as_bytes (lit ''one'')))"
    by (simp add: required_credential_def demo_request_def st(2))
  moreover have "as_bytes (lit ''Bearer two'') \<noteq> as_bytes (lit ''Bearer '') @ as_bytes (lit ''one'')" "length (as_bytes (lit ''Bearer two'')) < word_limit"
    by (simp_all add: evaluation_simps word_limit_def)
  ultimately show ?thesis
    using guarded_routes_need_their_credential [OF st(1) demo_selects_path, of ?rq, where 's = nat] st(2)
    by (fastforce simp: auth)
qed

theorem disabled_admin_is_unreachable_witness:
  "\<exists>st. \<not> as_admin_api_enabled st \<and>
     serve_http demo_http st (counting_service\<lparr>sv_admin := \<lambda>_ _ n. (n + 7, Err catalog_request_error)\<rparr>)
       (demo_request POST ''/v1/admin/models/delete'' []) 0 =
     serve_http demo_http st counting_service (demo_request POST ''/v1/admin/models/delete'' []) 0"
proof -
  obtain st :: app_state where off: "\<not> as_admin_api_enabled st"
    by (rule that [of "undefined\<lparr>as_admin_api_enabled := False\<rparr>"]) simp
  show ?thesis by (intro exI [of _ st] conjI off disabled_admin_is_unreachable [OF demo_selects_path off])
qed

theorem embedding_requests_are_bounded_witness:
  "\<exists>st :: app_state. as_limits st = limits_default \<and>
     native_embeddings demo_http st (counting_service\<lparr>sv_embed := \<lambda>cmd n.
         if cmd_input cmd = [] then (n + 9, None) else sv_embed counting_service cmd n\<rparr>) (demo_request POST ''/v1/embed'' []) 0
       = native_embeddings demo_http st counting_service (demo_request POST ''/v1/embed'' []) 0"
proof -
  obtain st :: app_state where st: "as_limits st = limits_default" by (rule exposed_state_built) blast
  let ?g = "\<lambda>cmd n. if cmd_input cmd = [] then (n + 9, None) else sv_embed counting_service cmd n"
  have "\<forall>cmd s. within_limits (as_limits st) cmd \<longrightarrow> sv_embed counting_service cmd s = ?g cmd s"
    by (simp add: within_limits_def)
  from embedding_requests_are_bounded [OF this] st show ?thesis by (intro exI [of _ st] conjI) simp_all
qed

end
