(* ===== verification/Grpc.thy ===== *)
theory Grpc
  imports Http
begin

text \<open>
  The gRPC adapter \<^verbatim>\<open>impossible-server/src/grpc.rs\<close> and the conversions of \<^verbatim>\<open>impossible-protocol/src/lib.rs\<close>: authentication,
  the \<^verbatim>\<open>grpc-timeout\<close> grammar, the embedding call with its deadline, statuses, and the published health. Metadata values
  become text through an argument (\<^verbatim>\<open>MetadataValue::to_str\<close>); durations are in nanoseconds, the configured ones in
  milliseconds.
\<close>

section \<open>Statuses\<close>

datatype grpc_code =
    G_InvalidArgument | G_Unavailable | G_ResourceExhausted | G_Cancelled | G_DeadlineExceeded | G_Internal
  | G_Unauthenticated | G_Unknown

fun grpc_status_code :: "error_code \<Rightarrow> grpc_code" where
  "grpc_status_code InvalidRequest = G_InvalidArgument"
| "grpc_status_code ModelUnavailable = G_Unavailable"
| "grpc_status_code QueueFull = G_ResourceExhausted"
| "grpc_status_code Cancelled = G_Cancelled"
| "grpc_status_code DeadlineExceeded = G_DeadlineExceeded"
| "grpc_status_code InferenceFailed = G_Internal"
| "grpc_status_code Internal = G_Internal"

text \<open>The numbers of the protobuf enumerations.\<close>

fun proto_error_code :: "error_code \<Rightarrow> int" where
  "proto_error_code InvalidRequest = 1"
| "proto_error_code ModelUnavailable = 2"
| "proto_error_code QueueFull = 3"
| "proto_error_code Cancelled = 4"
| "proto_error_code DeadlineExceeded = 5"
| "proto_error_code InferenceFailed = 6"
| "proto_error_code Internal = 7"

fun proto_retryability :: "retryability \<Rightarrow> int" where
  "proto_retryability Never = 1"
| "proto_retryability Retryable = 2"
| "proto_retryability Unknown = 3"

record error_detail =
  ed_code :: int
  ed_retryability :: int
  ed_message :: rstr

definition public_error_detail :: "public_error \<Rightarrow> error_detail" where
  "public_error_detail e =
     \<lparr>ed_code = proto_error_code (pe_code e), ed_retryability = proto_retryability (pe_retryability e), ed_message = pe_message e\<rparr>"

text \<open>The detail travels encoded as bytes; it is kept as the message.\<close>

record grpc_status =
  gs_code :: grpc_code
  gs_message :: rstr
  gs_details :: "error_detail option"

definition status_for_public :: "public_error \<Rightarrow> grpc_status" where
  "status_for_public e =
     \<lparr>gs_code = grpc_status_code (pe_code e), gs_message = pe_message e, gs_details = Some (public_error_detail e)\<rparr>"

definition status_for_application :: "application_error \<Rightarrow> grpc_status" where
  "status_for_application e = status_for_public (ae_public e)"

definition invalid_request_status :: grpc_status where
  "invalid_request_status = status_for_public (for_code InvalidRequest)"

definition unauthenticated :: grpc_status where
  "unauthenticated = \<lparr>gs_code = G_Unauthenticated, gs_message = lit ''authentication required'', gs_details = None\<rparr>"

section \<open>Requests and responses\<close>

record grpc_request =
  gq_model :: rstr
  gq_input :: "rstr list"
  gq_task :: int
  gq_truncation :: int
  gq_dimensions :: "32 word option"
  gq_normalize :: "bool option"

record grpc_response =
  gp_embeddings :: "f32 list list"
  gp_model :: resolved_identity
  gp_prompt_tokens :: nat
  gp_total_tokens :: nat
  gp_input_tokens :: "nat list"

definition decode_options :: "grpc_request \<Rightarrow> grpc_status + embed_options" where
  "decode_options request =
     and_then (if gq_task request = 0 \<or> gq_task request = 2 then Ok Document
       else if gq_task request = 1 then Ok Query else Err invalid_request_status) (\<lambda>task.
     and_then (if gq_truncation request = 0 \<or> gq_truncation request = 1 then Ok Reject
       else if gq_truncation request = 2 then Ok Truncate else Err invalid_request_status) (\<lambda>truncation.
     Ok \<lparr>opt_task = task, opt_truncation = truncation, opt_dimensions = map_option unat (gq_dimensions request),
         opt_normalize = gq_normalize request\<rparr>))"

definition encode_response :: "embedding_output \<Rightarrow> grpc_response" where
  "encode_response out =
     \<lparr>gp_embeddings = out_vectors out, gp_model = out_model out,
      gp_prompt_tokens = usage_total_tokens (out_usage out), gp_total_tokens = usage_total_tokens (out_usage out),
      gp_input_tokens = usage_input_tokens (out_usage out)\<rparr>"

section \<open>Authentication and deadlines\<close>

definition authorize :: "(bytes \<Rightarrow> rstr option) \<Rightarrow> app_state \<Rightarrow> (rstr \<times> bytes) list \<Rightarrow> grpc_status + unit" where
  "authorize to_str st metadata =
     and_then (reject_if (contains_key metadata ''authorization-bin'') unauthenticated) (\<lambda>_.
     case get_all metadata ''authorization'' of
       [] \<Rightarrow> reject_if (public_auth_required st) unauthenticated
     | [v] \<Rightarrow>
         and_then (ok_or unauthenticated (to_str v)) (\<lambda>t.
         and_then (ok_or unauthenticated (strip_prefix (lit ''Bearer '') t)) (\<lambda>token.
         reject_if (token = [] \<or> (public_auth_required st \<and> \<not> verify_public_token st (as_bytes token))) unauthenticated))
     | _ \<Rightarrow> Err unauthenticated)"

definition saturating_mul :: "nat \<Rightarrow> nat \<Rightarrow> nat" where
  "saturating_mul a b = min (a * b) (word_limit - 1)"

text \<open>The units H, M, S, m, u and n. The text is ASCII, so its last byte is its last character.\<close>

definition timeout_of_unit :: "nat \<Rightarrow> nat \<Rightarrow> nat option" where
  "timeout_of_unit amount unit =
     (if unit = of_char (CHR ''H'') then Some (saturating_mul amount 3600 * 1000000000)
      else if unit = of_char (CHR ''M'') then Some (saturating_mul amount 60 * 1000000000)
      else if unit = of_char (CHR ''S'') then Some (amount * 1000000000)
      else if unit = of_char (CHR ''m'') then Some (amount * 1000000)
      else if unit = of_char (CHR ''u'') then Some (amount * 1000)
      else if unit = of_char (CHR ''n'') then Some amount
      else None)"

definition parse_grpc_timeout :: "(bytes \<Rightarrow> rstr option) \<Rightarrow> (rstr \<times> bytes) list \<Rightarrow> grpc_status + nat option" where
  "parse_grpc_timeout to_str metadata =
     and_then (reject_if (contains_key metadata ''grpc-timeout-bin'') invalid_request_status) (\<lambda>_.
     case get_all metadata ''grpc-timeout'' of
       [] \<Rightarrow> Ok None
     | [v] \<Rightarrow>
         and_then (ok_or invalid_request_status (to_str v)) (\<lambda>t.
         and_then (reject_if (str_len t < 2 \<or> 9 < str_len t) invalid_request_status) (\<lambda>_.
         let digits = butlast t; unit = last t in
         and_then (reject_if (8 < str_len digits \<or> \<not> list_all is_digit digits) invalid_request_status) (\<lambda>_.
         and_then (ok_or invalid_request_status (parse_unsigned digits)) (\<lambda>amount.
         and_then (ok_or invalid_request_status (timeout_of_unit amount unit)) (\<lambda>d. Ok (Some d))))))
     | _ \<Rightarrow> Err invalid_request_status)"

definition effective_timeout :: "nat option \<Rightarrow> nat \<Rightarrow> nat" where
  "effective_timeout caller server = min (case caller of None \<Rightarrow> server | Some t \<Rightarrow> t) server"

section \<open>The embedding call\<close>

text \<open>
  When the application's future does not finish, either the timer did (\<open>expired\<close> at the effective timeout) or the call was
  dropped with its connection (answer \<open>None\<close>). The guard is disarmed only by success and by the timer, which cancels itself.
\<close>

definition grpc_embed ::
  "(bytes \<Rightarrow> rstr option) \<Rightarrow> app_state \<Rightarrow> 's service \<Rightarrow> (nat \<Rightarrow> bool) \<Rightarrow> (rstr \<times> bytes) list \<Rightarrow> grpc_request \<Rightarrow> 's \<Rightarrow>
   's \<times> (grpc_status + grpc_response) option" where
  "grpc_embed to_str st sv expired metadata request s =
     (case and_then (parse_grpc_timeout to_str metadata) (\<lambda>caller_timeout.
           and_then (reject_if (caller_timeout = Some 0) (status_for_public (for_code DeadlineExceeded))) (\<lambda>_.
           and_then (decode_options request) (\<lambda>options. Ok (caller_timeout, options)))) of
        Inl e \<Rightarrow> (s, Some (Err e))
      | Inr (caller_timeout, options) \<Rightarrow>
     (case sv_new_token sv s of (s1, t) \<Rightarrow>
     (case sv_embed sv \<lparr>cmd_model = gq_model request, cmd_input = gq_input request, cmd_options = options,
             cmd_cancellation = t, cmd_timeout = caller_timeout\<rparr> s1 of
        (s2, Some (Inr out)) \<Rightarrow> (s2, Some (Ok (encode_response out)))
      | (s2, Some (Inl e)) \<Rightarrow> (sv_cancel sv t s2, Some (Err (status_for_application e)))
      | (s2, None) \<Rightarrow>
          (sv_cancel sv t s2,
           if expired (effective_timeout caller_timeout (lim_request_timeout (as_limits st) * 1000000))
           then Some (Err (status_for_public (for_code DeadlineExceeded))) else None))))"

text \<open>The interceptor around the service.\<close>

definition grpc_call ::
  "(bytes \<Rightarrow> rstr option) \<Rightarrow> app_state \<Rightarrow> 's service \<Rightarrow> (nat \<Rightarrow> bool) \<Rightarrow> (rstr \<times> bytes) list \<Rightarrow> grpc_request \<Rightarrow> 's \<Rightarrow>
   's \<times> (grpc_status + grpc_response) option" where
  "grpc_call to_str st sv expired metadata request s =
     (case authorize to_str st metadata of
        Inl e \<Rightarrow> (s, Some (Err e))
      | Inr _ \<Rightarrow> grpc_embed to_str st sv expired metadata request s)"

section \<open>Health\<close>

datatype serving_status = Serving | NotServing

definition embedding_service_name :: rstr where
  "embedding_service_name = lit ''impossible.embedding.v1.EmbeddingService''"

text \<open>The statuses set, in their order.\<close>

definition publish_health :: "bool \<Rightarrow> (rstr \<times> serving_status) list" where
  "publish_health ready =
     (let status = (if ready then Serving else NotServing) in [([], status), (embedding_service_name, status)])"

text \<open>What the loop of \<^verbatim>\<open>track_health\<close> sees: a shutdown, or a tick with the readiness then.\<close>

datatype health_event = Stop_Seen | Tick bool

fun track_health :: "bool \<Rightarrow> health_event list \<Rightarrow> (rstr \<times> serving_status) list" where
  "track_health last_ready [] = []"
| "track_health last_ready (Stop_Seen # _) = publish_health False"
| "track_health last_ready (Tick ready # events) =
     (if ready \<noteq> last_ready then publish_health ready else []) @ track_health ready events"

text \<open>A watch channel: values as they change, \<open>None\<close> when the sender is gone. The result says whether the wait is over.\<close>

fun wait_for_shutdown :: "bool \<Rightarrow> bool option list \<Rightarrow> bool" where
  "wait_for_shutdown True changes = True"
| "wait_for_shutdown False [] = False"
| "wait_for_shutdown False (None # _) = True"
| "wait_for_shutdown False (Some v # changes) = wait_for_shutdown v changes"

section \<open>The host\<close>

datatype grpc_server_error = GE_Reflection | GE_Transport | GE_Join | GE_ShutdownTimeout

fun show_grpc_server_error :: "grpc_server_error \<Rightarrow> rstr" where
  "show_grpc_server_error GE_Reflection = lit ''gRPC reflection initialization failed''"
| "show_grpc_server_error GE_Transport = lit ''gRPC transport failed''"
| "show_grpc_server_error GE_Join = lit ''gRPC transport task failed''"
| "show_grpc_server_error GE_ShutdownTimeout = lit ''gRPC shutdown timed out''"

record 'a grpc_handle =
  gh_local_addr :: 'a
  gh_shutdown_timeout :: nat
  gh_shutdown :: bool
  gh_join :: bool

text \<open>
  \<open>readiness\<close> is the reading at the first publication; the results of the listener's address and of the reflection builder are
  arguments. The first component lists the statuses set.
\<close>

definition spawn_grpc_server ::
  "unit + 'a \<Rightarrow> bool \<Rightarrow> unit + unit \<Rightarrow> app_state \<Rightarrow> (rstr \<times> serving_status) list \<times> (grpc_server_error + 'a grpc_handle)" where
  "spawn_grpc_server local_addr readiness reflection st =
     (case local_addr of Inl _ \<Rightarrow> ([], Err GE_Transport)
      | Inr addr \<Rightarrow>
     (publish_health readiness,
      (case reflection of Inl _ \<Rightarrow> Err GE_Reflection
       | Inr _ \<Rightarrow> Ok \<lparr>gh_local_addr = addr, gh_shutdown_timeout = lim_shutdown_timeout (as_limits st), gh_shutdown = False,
           gh_join = True\<rparr>)))"

text \<open>The spawned task: the first reading of \<^verbatim>\<open>track_health\<close>, its events, and the end of the server.\<close>

definition grpc_task ::
  "bool \<Rightarrow> health_event list \<Rightarrow> unit + unit \<Rightarrow> (rstr \<times> serving_status) list \<times> (grpc_server_error + unit)" where
  "grpc_task first events server_result = (track_health first events, map_err (\<lambda>_. GE_Transport) server_result)"

text \<open>What \<^verbatim>\<open>timeout\<close> on a join handle brings.\<close>

datatype 'e joined = Task_Ended "'e + unit" | Join_Failed | Timed_Out

definition grpc_handle_shutdown ::
  "(nat \<Rightarrow> grpc_server_error joined) \<Rightarrow> 'a grpc_handle \<Rightarrow> 'a grpc_handle \<times> (grpc_server_error + unit)" where
  "grpc_handle_shutdown wait h =
     (let h1 = h\<lparr>gh_shutdown := True\<rparr> in
      if \<not> gh_join h then (h1, Ok ())
      else (h1\<lparr>gh_join := False\<rparr>,
        (case wait (gh_shutdown_timeout h) of
           Task_Ended r \<Rightarrow> r
         | Join_Failed \<Rightarrow> Err GE_Join
         | Timed_Out \<Rightarrow> Err GE_ShutdownTimeout)))"

text \<open>\<^verbatim>\<open>is_finished\<close> and the destructor.\<close>

definition grpc_is_finished :: "bool \<Rightarrow> 'a grpc_handle \<Rightarrow> bool" where
  "grpc_is_finished task_finished h \<longleftrightarrow> (gh_join h \<longrightarrow> task_finished)"

definition grpc_handle_drop :: "'a grpc_handle \<Rightarrow> 'a grpc_handle" where
  "grpc_handle_drop h = h\<lparr>gh_shutdown := True, gh_join := False\<rparr>"

section \<open>Text of metadata\<close>

text \<open>The documented behaviour of \<^verbatim>\<open>to_str\<close>: text is a value of tabs and visible ASCII characters.\<close>

definition visible_ascii :: "8 word \<Rightarrow> bool" where
  "visible_ascii b \<longleftrightarrow> 32 \<le> unat b \<and> unat b < 127 \<or> unat b = 9"

definition reads_visible_ascii :: "(bytes \<Rightarrow> rstr option) \<Rightarrow> bool" where
  "reads_visible_ascii to_str \<longleftrightarrow> (\<forall>v. to_str v = (if list_all visible_ascii v then Some (map unat v) else None))"

lemma as_bytes_append [simp]: "as_bytes (s @ t) = as_bytes s @ as_bytes t"
  by (simp add: as_bytes_def)

lemma as_bytes_visible: "list_all visible_ascii v \<Longrightarrow> as_bytes (map unat v) = v"
  by (induction v) (auto simp: as_bytes_def utf8_char_def visible_ascii_def byte_def word_unat_eq_iff)

lemma str_len_visible: "list_all visible_ascii v \<Longrightarrow> str_len (map unat v) = length v"
  using as_bytes_length [of "map unat v"] by (simp add: as_bytes_visible)

lemma bearer_bytes: "as_bytes (lit ''Bearer '') = map of_char ''Bearer ''"
  by (simp add: as_bytes_def utf8_char_def lit_def byte_def)

lemma bearer_text:
  "strip_prefix (lit ''Bearer '') (map unat v) = Some token \<longleftrightarrow> (\<exists>c. v = as_bytes (lit ''Bearer '') @ c \<and> token = map unat c)"
proof -
  have "lit ''Bearer '' = map unat us \<longleftrightarrow> us = as_bytes (lit ''Bearer '')" for us :: bytes
  proof -
    have "lit ''Bearer '' = map unat (as_bytes (lit ''Bearer ''))" unfolding bearer_bytes by (simp add: lit_def)
    moreover have "inj (unat :: 8 word \<Rightarrow> nat)" by (simp add: inj_def word_unat_eq_iff)
    ultimately show ?thesis by (metis inj_map_eq_map)
  qed
  then show ?thesis by (simp add: strip_prefix_Some map_eq_append_conv)
qed

lemma authorize_visible:
  assumes "reads_visible_ascii to_str" and "get_all metadata ''authorization'' = [v]"
    and "\<not> contains_key metadata ''authorization-bin''"
  shows "authorize to_str st metadata = Ok () \<longleftrightarrow>
    (\<exists>c. list_all visible_ascii v \<and> c \<noteq> [] \<and> v = as_bytes (lit ''Bearer '') @ c \<and>
       (public_auth_required st \<longrightarrow> verify_public_token st c))"
proof (cases "list_all visible_ascii v")
  case True
  then have "to_str v = Some (map unat v)" using assms(1) by (simp add: reads_visible_ascii_def)
  then have "authorize to_str st metadata = Ok () \<longleftrightarrow> (\<exists>c. c \<noteq> [] \<and> v = as_bytes (lit ''Bearer '') @ c \<and>
      (public_auth_required st \<longrightarrow> verify_public_token st (as_bytes (map unat c))))"
    by (auto simp: authorize_def assms result_simps bearer_text)
  moreover have "as_bytes (map unat c) = c" if "v = as_bytes (lit ''Bearer '') @ c" for c
    using True that by (intro as_bytes_visible) simp
  ultimately show ?thesis using True by auto
next
  case False
  then have "to_str v = None" using assms(1) by (simp add: reads_visible_ascii_def)
  then show ?thesis using False by (simp add: authorize_def assms result_simps)
qed

lemma authorize_Ok_single:
  "authorize to_str st metadata = Ok () \<Longrightarrow> public_auth_required st \<Longrightarrow>
     \<not> contains_key metadata ''authorization-bin'' \<and> (\<exists>v. get_all metadata ''authorization'' = [v])"
  by (auto simp: authorize_def result_simps split: list.split_asm)

lemma authorize_Err: "authorize to_str st metadata = Ok () \<or> authorize to_str st metadata = Err unauthenticated"
proof (cases "contains_key metadata ''authorization-bin''")
  case False
  then show ?thesis
    by (auto simp: authorize_def reject_if_def ok_or_def split: list.split option.split)
qed (simp add: authorize_def)

text \<open>
  C14. gRPC calls need the public credential: when one is configured, a call whose metadata is not exactly
  one authorization value with that secret, or which has a binary authorization value, is answered by the
  unauthenticated status and does not reach the application.
\<close>

theorem grpc_calls_need_the_public_credential:
  assumes "app_state_new parse_url var_os open_file committed so ib config = Inr st"
    and "reads_visible_ascii to_str" and "as_public_credential st = Some secret"
    and "\<forall>v \<in> set (get_all metadata ''authorization''). length v < word_limit"
    and "get_all metadata ''authorization'' \<noteq> [as_bytes (lit ''Bearer '') @ secret_bytes secret] \<or>
      contains_key metadata ''authorization-bin''"
  shows "grpc_call to_str st sv expired metadata request s = (s, Some (Err unauthenticated))"
proof -
  have need: "public_auth_required st" by (simp add: public_auth_required_def assms(3))
  have bound: "length (secret_bytes secret) \<le> max_credential_bytes"
    using required_credential_bounded [OF assms(1), of "lit ''/mcp''"] assms(3) by (simp add: required_credential_def)
  have "authorize to_str st metadata \<noteq> Ok ()"
  proof
    assume ok: "authorize to_str st metadata = Ok ()"
    then obtain v where v: "get_all metadata ''authorization'' = [v]" and bin: "\<not> contains_key metadata ''authorization-bin''"
      using authorize_Ok_single [OF _ need] by blast
    from ok obtain c where c: "v = as_bytes (lit ''Bearer '') @ c" "verify_public_token st c"
      using need by (auto simp: authorize_visible [OF assms(2) v bin])
    then have "secret_verify secret c" by (simp add: verify_public_token_def verify_with_def assms(3))
    moreover have "length c < word_limit" using assms(4) by (auto simp: v c)
    ultimately show False using assms(5) secret_verify_iff [OF bound] by (auto simp: v c(1) bin)
  qed
  then show ?thesis using authorize_Err [of to_str st metadata] by (auto simp: grpc_call_def)
qed

lemma verified_candidate: "candidate_verified f hs \<longleftrightarrow> (\<exists>c. bearer_candidate hs = Some c \<and> f c)"
  by (simp add: candidate_verified_def split: option.split)

text \<open>
  gRPC and HTTP authenticate alike: with a configured public credential, one header of visible characters
  is accepted by the gRPC interceptor if and only if the guard of the HTTP routes accepts it.
\<close>

theorem grpc_and_http_authenticate_alike:
  assumes "reads_visible_ascii to_str" and "public_auth_required st" and "\<not> contains_key (rq_headers request) ''authorization-bin''"
    and "\<forall>v \<in> set (get_all (rq_headers request) ''authorization''). list_all visible_ascii v"
  shows "authorize to_str st (rq_headers request) = Ok () \<longleftrightarrow> check_guard env st Public_Auth request = None"
proof (cases "\<exists>v. get_all (rq_headers request) ''authorization'' = [v]")
  case True
  then obtain v where v: "get_all (rq_headers request) ''authorization'' = [v]" ..
  have "candidate_verified (verify_public_token st) (rq_headers request) \<longleftrightarrow>
      (\<exists>c. c \<noteq> [] \<and> v = as_bytes (lit ''Bearer '') @ c \<and> verify_public_token st c)"
    using verified_candidate [of "verify_public_token st" "rq_headers request"] by (simp add: bearer_candidate_Some v)
  then show ?thesis
    using assms(2,4) by (auto simp: authorize_visible [OF assms(1) v assms(3)] v)
next
  case False
  then have "bearer_candidate (rq_headers request) = None"
    using bearer_candidate_Some [of "rq_headers request"] by (metis option.exhaust)
  moreover have "authorize to_str st (rq_headers request) \<noteq> Ok ()"
    using False authorize_Ok_single [OF _ assms(2)] by blast
  ultimately show ?thesis using assms(2) by (simp add: candidate_verified_def)
qed

section \<open>Timeouts\<close>

definition digits_number :: "rstr \<Rightarrow> nat" where
  "digits_number digits = foldl (\<lambda>n c. n * 10 + (c - 48)) 0 digits"

definition unit_nanoseconds :: "nat \<Rightarrow> nat option" where
  "unit_nanoseconds unit = map_of (zip (lit ''HMSmun'') [3600 * 1000000000, 60 * 1000000000, 1000000000, 1000000, 1000, 1]) unit"

lemma digits_foldl:
  assumes "list_all is_digit digits" and "acc < 10 ^ k" and "length digits + k \<le> 19"
  shows "digits_value acc digits = Some (foldl (\<lambda>n c. n * 10 + (c - 48)) acc digits) \<and>
    foldl (\<lambda>n c. n * 10 + (c - 48)) acc digits < 10 ^ (k + length digits)"
  using assms
proof (induction digits arbitrary: acc k)
  case (Cons c digits)
  have c: "is_digit c" "c - 48 < 10" using Cons.prems(1) by (auto simp: is_digit_def)
  have next_lt: "acc * 10 + (c - 48) < 10 ^ Suc k"
    using Cons.prems(2) c(2) by simp
  also have "(10 :: nat) ^ Suc k \<le> 10 ^ 19" using Cons.prems(3) by (intro power_increasing) simp_all
  also have "(10 :: nat) ^ 19 < word_limit" by (simp add: word_limit_def)
  finally have "checked_mul acc 10 = Some (acc * 10)" "checked_add (acc * 10) (c - 48) = Some (acc * 10 + (c - 48))"
    by (simp_all add: checked_mul_def checked_add_def)
  with Cons.IH [OF _ next_lt] Cons.prems(1,3) c(1) show ?case by simp
qed simp

lemma digits_parse:
  assumes "digits \<noteq> []" "list_all is_digit digits" "length digits \<le> 8"
  shows "parse_unsigned digits = Some (digits_number digits)" "digits_number digits < 10 ^ 8"
proof -
  have v: "digits_value 0 digits = Some (digits_number digits)" and "digits_number digits < 10 ^ (0 + length digits)"
    using digits_foldl [of digits 0 0] assms by (simp_all add: digits_number_def)
  moreover have "(10 :: nat) ^ (0 + length digits) \<le> 10 ^ 8" using assms(3) by (intro power_increasing) simp_all
  ultimately show "digits_number digits < 10 ^ 8" by linarith
  obtain c r where cr: "digits = c # r" using assms(1) by (cases digits) simp_all
  then have "c \<noteq> 43" "c \<noteq> 45" using assms(2) by (auto simp: is_digit_def)
  then show "parse_unsigned digits = Some (digits_number digits)" using v by (simp add: parse_unsigned_def cr)
qed

lemma timeout_of_unit_exact:
  "n < 10 ^ 8 \<Longrightarrow> timeout_of_unit n unit = map_option (\<lambda>k. n * k) (unit_nanoseconds unit)"
  by (simp add: timeout_of_unit_def unit_nanoseconds_def lit_def saturating_mul_def word_limit_def min_def)

lemma parse_grpc_timeout_visible:
  assumes "reads_visible_ascii to_str" and "\<not> contains_key metadata ''grpc-timeout-bin''"
    and "get_all metadata ''grpc-timeout'' = [v]"
  shows "parse_grpc_timeout to_str metadata = Ok r \<longleftrightarrow>
    list_all visible_ascii v \<and> 2 \<le> length v \<and> length v \<le> 9 \<and> list_all is_digit (butlast (map unat v)) \<and>
    (\<exists>k. unit_nanoseconds (unat (last v)) = Some k \<and> r = Some (digits_number (butlast (map unat v)) * k))"
proof (cases "list_all visible_ascii v \<and> 2 \<le> length v \<and> length v \<le> 9 \<and> list_all is_digit (butlast (map unat v))")
  case True
  then have t: "to_str v = Some (map unat v)" using assms(1) by (simp add: reads_visible_ascii_def)
  have ne: "butlast v \<noteq> []" "v \<noteq> []" using True by (auto simp: length_butlast simp flip: length_greater_0_conv)
  have butlast: "list_all visible_ascii (butlast v)" using True by (auto simp: list_all_iff dest: in_set_butlastD)
  from True ne butlast have d: "parse_unsigned (butlast (map unat v)) = Some (digits_number (butlast (map unat v)))"
    "digits_number (butlast (map unat v)) < 10 ^ 8"
    using digits_parse [of "butlast (map unat v)"] by (simp_all add: map_butlast [symmetric] le_diff_conv)
  have "str_len (butlast (map unat v)) \<le> 8"
    using True butlast by (simp add: map_butlast [symmetric] str_len_visible le_diff_conv)
  then show ?thesis
    using True ne
    by (auto simp: parse_grpc_timeout_def assms t d(1) str_len_visible result_simps Let_def last_map
        timeout_of_unit_exact [OF d(2)])
next
  case False
  then show ?thesis
    using assms(1)
    by (auto simp: parse_grpc_timeout_def assms(2,3) reads_visible_ascii_def str_len_visible result_simps Let_def)
qed

text \<open>
  The gRPC timeout grammar: a single timeout value is accepted if and only if it consists of one to
  eight digits and one of the six units, and then it stands for exactly the number times the unit, without saturation.
\<close>

theorem grpc_timeout_grammar:
  assumes "reads_visible_ascii to_str" and "\<not> contains_key metadata ''grpc-timeout-bin''"
    and "get_all metadata ''grpc-timeout'' = [v]"
  shows "parse_grpc_timeout to_str metadata = Ok r \<longleftrightarrow>
    (\<exists>digits unit k. map unat v = digits @ [unit] \<and> digits \<noteq> [] \<and> length digits \<le> 8 \<and> list_all is_digit digits \<and>
       unit_nanoseconds unit = Some k \<and> r = Some (digits_number digits * k))" (is "_ \<longleftrightarrow> ?grammar")
proof -
  have visible: "list_all visible_ascii v" if "map unat v = digits @ [unit]" "list_all is_digit digits" "unit_nanoseconds unit = Some k"
    for digits unit k
  proof -
    have "unit \<in> set (lit ''HMSmun'')" using that(3) by (auto simp: unit_nanoseconds_def dest: map_of_SomeD set_zip_leftD)
    then have "32 \<le> unit \<and> unit < 127" by (auto simp: lit_def)
    then have "\<forall>c \<in> set (map unat v). 32 \<le> c \<and> c < 127" using that(1,2) by (auto simp: list_all_iff is_digit_def)
    then show ?thesis by (simp add: list_all_iff visible_ascii_def)
  qed
  have shape: "map unat v = digits @ [unit] \<longleftrightarrow> v \<noteq> [] \<and> digits = butlast (map unat v) \<and> unit = unat (last v)" for digits unit
    by (cases v rule: rev_cases) auto
  show ?thesis
  proof
    assume "parse_grpc_timeout to_str metadata = Ok r"
    then show ?grammar
      unfolding parse_grpc_timeout_visible [OF assms] shape by (cases v rule: rev_cases) auto
  next
    assume ?grammar
    then show "parse_grpc_timeout to_str metadata = Ok r"
      using visible unfolding parse_grpc_timeout_visible [OF assms] by (cases v rule: rev_cases) (auto simp: Suc_le_eq)
  qed
qed

text \<open>The timer of the adapter and the deadline of the application are the same bound.\<close>

lemma effective_timeout_is_embed_timeout: "effective_timeout caller (t * 1000000) = embed_timeout caller t"
  by (simp add: effective_timeout_def embed_timeout_def)

section \<open>Calls\<close>

context service_contract
begin

lemma grpc_call_keeps: "keeps s \<Longrightarrow> keeps (fst (grpc_call to_str st sv expired metadata request s))"
  using keeps_all
  by (fastforce simp: grpc_call_def grpc_embed_def split_beta split: sum.split option.split)

end

text \<open>
  gRPC calls after shutdown change nothing: once the application has set its shutdown flag, no
  sequence of gRPC calls changes it, metrics and cancellation tokens apart.
\<close>

theorem grpc_after_shutdown_changes_nothing:
  "durable (fold (\<lambda>(wt, expired, metadata, request) app. fst (grpc_call to_str st (application_service wt) expired metadata request app))
     calls (shutdown_fence app)) = durable (shutdown_fence app)"
proof -
  have "stopped_as app0 a \<Longrightarrow> stopped_as app0 (fold (\<lambda>(wt, expired, metadata, request) app.
      fst (grpc_call to_str st (application_service wt) expired metadata request app)) calls a)" for app0 a
    by (induction calls arbitrary: a) (auto simp: stopped.grpc_call_keeps)
  from this [of "shutdown_fence app" "shutdown_fence app"] show ?thesis by (simp add: stopped_as_def shutdown_fence_def)
qed

text \<open>
  A gRPC call that does not succeed cancels its work: a call that was handed to the application and ends with an
  error, by its deadline or with its connection cancels the token it was made with.
\<close>

theorem unsuccessful_grpc_calls_cancel:
  assumes "grpc_embed to_str st sv expired metadata request s = (s', answer)" and "\<not> (\<exists>response. answer = Some (Ok response))"
  shows "(s' = s \<and> (\<exists>e. answer = Some (Err e))) \<or> (\<exists>s2. s' = sv_cancel sv (snd (sv_new_token sv s)) s2)"
  using assms
  by (fastforce simp: grpc_embed_def split: sum.split_asm option.split_asm prod.split_asm)

text \<open>The numbers of a task and of a truncation in a gRPC request.\<close>

definition task_number :: "embedding_task \<Rightarrow> int" where
  "task_number t = (case t of Query \<Rightarrow> 1 | Document \<Rightarrow> 2)"

definition truncation_number :: "truncation \<Rightarrow> int" where
  "truncation_number t = (case t of Reject \<Rightarrow> 1 | Truncate \<Rightarrow> 2)"

definition grpc_form :: "native_request \<Rightarrow> grpc_request" where
  "grpc_form r =
     \<lparr>gq_model = nr_model r, gq_input = nr_input r, gq_task = task_number (nr_task r), gq_truncation = truncation_number (nr_truncation r),
      gq_dimensions = map_option of_nat (nr_dimensions r), gq_normalize = nr_normalize r\<rparr>"

lemma decode_grpc_form:
  assumes "\<forall>d. nr_dimensions r = Some d \<longrightarrow> d < 2 ^ 32"
  shows "decode_options (grpc_form r) =
    Ok \<lparr>opt_task = nr_task r, opt_truncation = nr_truncation r, opt_dimensions = nr_dimensions r, opt_normalize = nr_normalize r\<rparr>"
proof -
  have "map_option unat (map_option (of_nat :: nat \<Rightarrow> 32 word) (nr_dimensions r)) = nr_dimensions r"
    using assms by (cases "nr_dimensions r") (simp_all add: unat_of_nat)
  then show ?thesis
    by (simp add: decode_options_def grpc_form_def task_number_def truncation_number_def split: embedding_task.split truncation.split)
qed


section \<open>Published health\<close>

text \<open>The status a client of the health service reads: the last one set.\<close>

definition reported :: "rstr \<Rightarrow> (rstr \<times> serving_status) list \<Rightarrow> serving_status option" where
  "reported service log = map_of (rev log) service"

lemma reported_publish:
  assumes "service \<in> {[], embedding_service_name}"
  shows "reported service (log @ publish_health ready) = Some (if ready then Serving else NotServing)"
proof -
  have "embedding_service_name \<noteq> []" by (simp add: embedding_service_name_def lit_def)
  then show ?thesis using assms by (auto simp: reported_def publish_health_def Let_def)
qed

lemma track_health_ticks:
  assumes "service \<in> {[], embedding_service_name}" and "reported service log = Some (if ready then Serving else NotServing)"
  shows "reported service (log @ track_health ready (map Tick readings)) =
    Some (if last (ready # readings) then Serving else NotServing)"
  using assms(2)
proof (induction readings arbitrary: ready log)
  case (Cons reading readings)
  let ?log = "log @ (if reading \<noteq> ready then publish_health reading else [])"
  have "reported service ?log = Some (if reading then Serving else NotServing)"
    using Cons.prems reported_publish [OF assms(1)] by auto
  from Cons.IH [OF this] show ?case by simp
qed simp

lemma track_health_stops:
  assumes "service \<in> {[], embedding_service_name}"
  shows "reported service (log @ track_health ready (events @ [Stop_Seen])) = Some NotServing"
proof (induction events arbitrary: ready log)
  case (Cons e events)
  show ?case
  proof (cases e)
    case (Tick reading)
    then show ?thesis using Cons.IH [of "log @ (if reading \<noteq> ready then publish_health reading else [])" reading] by simp
  qed (simp add: reported_publish [OF assms])
qed (simp add: reported_publish [OF assms])

text \<open>
  Published health follows readiness: when the first reading of the tracker agrees with what was published at the
  start, then after every tick both services report the readiness that was read last, and after a
  shutdown they report that they do not serve, whatever was read.
\<close>

theorem grpc_health_follows_readiness:
  assumes "service \<in> {[], embedding_service_name}"
    and "spawn_grpc_server (Ok addr) readiness (Ok ()) st = (log, Ok h)"
  shows "reported service (log @ fst (grpc_task readiness (map Tick readings) result)) =
      Some (if last (readiness # readings) then Serving else NotServing) \<and>
    reported service (log @ fst (grpc_task first (events @ [Stop_Seen]) result)) = Some NotServing"
proof -
  have "log = [] @ publish_health readiness" using assms(2) by (simp add: spawn_grpc_server_def)
  then have "reported service log = Some (if readiness then Serving else NotServing)"
    using reported_publish [OF assms(1)] by blast
  from track_health_ticks [OF assms(1) this] show ?thesis
    by (simp add: grpc_task_def track_health_stops [OF assms(1)])
qed

text \<open>
  The tracker takes its first reading without publishing it. When readiness changes between the first publication and that
  reading, the change stays unpublished for as long as readiness keeps its new value.
\<close>

lemma grpc_health_misses_an_early_change:
  assumes "spawn_grpc_server (Ok addr) False (Ok ()) st = (log, Ok h)"
  shows "reported [] (log @ fst (grpc_task True (replicate n (Tick True)) result)) = Some NotServing"
proof -
  have "track_health True (replicate n (Tick True)) = []" by (induction n) simp_all
  then show ?thesis
    using assms reported_publish [of "[]" "[]" False] by (auto simp: grpc_task_def spawn_grpc_server_def)
qed

section \<open>Instances\<close>

definition ascii_text :: "bytes \<Rightarrow> rstr option" where
  "ascii_text v = (if list_all visible_ascii v then Some (map unat v) else None)"

lemma ascii_text_reads: "reads_visible_ascii ascii_text"
  by (simp add: reads_visible_ascii_def ascii_text_def)

definition demo_call :: grpc_request where
  "demo_call = \<lparr>gq_model = lit ''m'', gq_input = [lit ''x''], gq_task = 1, gq_truncation = 0, gq_dimensions = None, gq_normalize = None\<rparr>"

theorem grpc_calls_need_the_public_credential_witness:
  "\<exists>st. as_public_credential st = Some (Secret (as_bytes (lit ''one''))) \<and>
     grpc_call ascii_text st counting_service (\<lambda>_. False) [(lit ''authorization'', as_bytes (lit ''Bearer two''))] demo_call 0 =
       (0, Some (Err unauthenticated))"
proof -
  obtain st where st: "app_state_new (\<lambda>_. Some demo_url) two_keys (\<lambda>_. Inl Eloop) (Inr (map named_manifest curated_names)) True True
      exposed_config = Inr st" "as_public_credential st = Some (Secret (as_bytes (lit ''one'')))"
    by (rule exposed_state_built)
  have "as_bytes (lit ''Bearer two'') \<noteq> as_bytes (lit ''Bearer '') @ as_bytes (lit ''one'')"
    "length (as_bytes (lit ''Bearer two'')) < word_limit"
    by (simp_all add: evaluation_simps word_limit_def)
  then have "grpc_call ascii_text st counting_service (\<lambda>_. False) [(lit ''authorization'', as_bytes (lit ''Bearer two''))] demo_call 0 =
      (0, Some (Err unauthenticated))"
    by (intro grpc_calls_need_the_public_credential [OF st(1) ascii_text_reads st(2)]) (simp_all add: get_all_def)
  with st(2) show ?thesis by blast
qed

theorem grpc_and_http_authenticate_alike_witness:
  "\<exists>st. public_auth_required st \<and>
     (authorize ascii_text st (rq_headers (demo_request POST ''/v1/embed'' (as_bytes (lit ''Bearer one'')))) = Ok () \<longleftrightarrow>
      check_guard demo_http st Public_Auth (demo_request POST ''/v1/embed'' (as_bytes (lit ''Bearer one''))) = None)"
proof -
  obtain st :: app_state where st: "as_public_credential st = Some (Secret (as_bytes (lit ''one'')))"
    by (rule exposed_state_built) blast
  then have need: "public_auth_required st" by (simp add: public_auth_required_def)
  show ?thesis
    by (intro exI [of _ st] conjI need grpc_and_http_authenticate_alike [OF ascii_text_reads need])
       (simp_all add: demo_request_def contains_key_def get_all_def visible_ascii_def evaluation_simps)
qed

theorem grpc_timeout_grammar_witness:
  "parse_grpc_timeout ascii_text [(lit ''grpc-timeout'', as_bytes (lit ''15M''))] = Ok (Some 900000000000)"
proof -
  have "map unat (as_bytes (lit ''15M'')) = [49, 53] @ [77]" by (simp add: evaluation_simps)
  moreover have "digits_number [49, 53] = 15" "unit_nanoseconds 77 = Some 60000000000"
    by (simp_all add: digits_number_def unit_nanoseconds_def lit_def)
  ultimately have "\<exists>digits unit k. map unat (as_bytes (lit ''15M'')) = digits @ [unit] \<and> digits \<noteq> [] \<and> length digits \<le> 8 \<and>
      list_all is_digit digits \<and> unit_nanoseconds unit = Some k \<and> Some 900000000000 = Some (digits_number digits * k)"
    by (intro exI [of _ "[49, 53]"] exI [of _ 77] exI [of _ 60000000000]) (simp add: is_digit_def)
  then show ?thesis
    by (subst grpc_timeout_grammar [OF ascii_text_reads, where v = "as_bytes (lit ''15M'')"]) (simp_all add: contains_key_def get_all_def)
qed

theorem unsuccessful_grpc_calls_cancel_witness:
  "\<exists>st s2. fst (grpc_embed ascii_text st counting_service (\<lambda>_. True) [] demo_call 0) =
     sv_cancel counting_service (snd (sv_new_token counting_service 0)) s2"
proof -
  obtain st :: app_state where "as_admin_api_enabled st" by (rule exposed_state_built) blast
  have call: "grpc_embed ascii_text st counting_service (\<lambda>_. True) [] demo_call 0 = (1, Some (Err (status_for_application catalog_request_error)))"
    by (simp add: grpc_embed_def parse_grpc_timeout_def contains_key_def get_all_def decode_options_def demo_call_def counting_service_def)
  from unsuccessful_grpc_calls_cancel [OF this] show ?thesis by (intro exI [of _ st]) (simp add: call)
qed


theorem grpc_health_follows_readiness_witness:
  "\<exists>log. reported [] (log @ fst (grpc_task False [Tick False, Tick True] (Ok ()))) = Some Serving \<and>
     reported [] (log @ fst (grpc_task True [Tick True, Stop_Seen] (Ok ()))) = Some NotServing"
proof -
  obtain st :: app_state where "as_admin_api_enabled st" by (rule exposed_state_built) blast
  obtain h log where "spawn_grpc_server (Ok ()) False (Ok ()) st = (log, Ok h)" by (simp add: spawn_grpc_server_def)
  from grpc_health_follows_readiness [OF _ this, of "[]" "[False, True]" "Ok ()" True "[Tick True]"] show ?thesis
    by (intro exI [of _ log]) simp
qed

end
