(* ===== verification/Process.thy ===== *)
theory Process
  imports Grpc
begin

text \<open>
  The process \<^verbatim>\<open>impossible-server/src/process.rs\<close>: how a server host is started, waits for a signal and is shut down. What the
  operating system and the other tasks bring (sockets, signals, the ends of the transports, preload and
  drain of the application) is an argument; the visible actions are recorded in a trace.
\<close>

section \<open>Errors\<close>

datatype process_error =
    PE_ApplicationState app_state_error
  | PE_HttpBind
  | PE_GrpcBind
  | PE_Preload application_error
  | PE_HttpTransport
  | PE_HttpJoin
  | PE_Grpc grpc_server_error
  | PE_Signal
  | PE_UnexpectedTransportStop
  | PE_ShutdownTimeout

fun process_error_display :: "process_error \<Rightarrow> string" where
  "process_error_display (PE_ApplicationState _) = ''server initialization failed''"
| "process_error_display PE_HttpBind = ''HTTP listener could not be bound''"
| "process_error_display PE_GrpcBind = ''gRPC listener could not be bound''"
| "process_error_display (PE_Preload _) = ''configured model preload failed''"
| "process_error_display PE_HttpTransport = ''HTTP transport failed''"
| "process_error_display PE_HttpJoin = ''HTTP transport task failed''"
| "process_error_display (PE_Grpc _) = ''gRPC transport failed''"
| "process_error_display PE_Signal = ''shutdown signal handling failed''"
| "process_error_display PE_UnexpectedTransportStop = ''a server transport stopped unexpectedly''"
| "process_error_display PE_ShutdownTimeout = ''server shutdown exceeded its deadline''"

section \<open>The host\<close>

datatype process_action =
    Bound_Http | Bound_Grpc | Preloaded | Triggered | Drained bool | Started_Grpc | Started_Http | Ended_Http | Ended_Grpc

record 'a server_host =
  ho_state :: app_state
  ho_http_addr :: 'a
  ho_grpc_addr :: 'a
  ho_shutdown_timeout :: nat
  ho_http :: bool
  ho_grpc :: "'a grpc_handle option"
  ho_preload :: "preload_outcome list"

text \<open>Binding a listener and reading its address; the reflection builder; preload and shutdown of the application.\<close>

record 'a surroundings =
  su_http_bind :: "unit + unit"
  su_http_addr :: "unit + 'a"
  su_grpc_bind :: "unit + unit"
  su_grpc_addr :: "unit + 'a"
  su_listener_addr :: "unit + 'a"
  su_reflection :: "unit + unit"
  su_preload :: "application \<Rightarrow> application \<times> (application_error + preload_outcome list)"
  su_shutdown :: "application \<Rightarrow> application \<times> bool"

text \<open>
  \<open>new_state\<close> is the result of \<^verbatim>\<open>AppState::new\<close> (\<open>app_state_new\<close>). Every early return drops what was bound.
\<close>

definition server_host_start ::
  "'a surroundings \<Rightarrow> app_state_error + app_state \<Rightarrow> server_config \<Rightarrow> process_action list \<times> (process_error + 'a server_host)" where
  "server_host_start su new_state config =
     (case new_state of Inl e \<Rightarrow> ([], Err (PE_ApplicationState e))
      | Inr st \<Rightarrow>
     (case su_http_bind su of Inl _ \<Rightarrow> ([], Err PE_HttpBind)
      | Inr _ \<Rightarrow>
     (case su_http_addr su of Inl _ \<Rightarrow> ([Bound_Http], Err PE_HttpBind)
      | Inr http_addr \<Rightarrow>
     (case su_grpc_bind su of Inl _ \<Rightarrow> ([Bound_Http], Err PE_GrpcBind)
      | Inr _ \<Rightarrow>
     (case su_grpc_addr su of Inl _ \<Rightarrow> ([Bound_Http, Bound_Grpc], Err PE_GrpcBind)
      | Inr grpc_addr \<Rightarrow>
     (case su_preload su (as_application st) of
        (app1, Inl e) \<Rightarrow>
          (case su_shutdown su app1 of (app2, clean) \<Rightarrow> ([Bound_Http, Bound_Grpc, Drained clean], Err (PE_Preload e)))
      | (app1, Inr report) \<Rightarrow>
          let st1 = st\<lparr>as_application := app1\<rparr>;
              readiness = is_ready (health_readiness (rt_health (ap_runtime app1))) in
          (case spawn_grpc_server (su_listener_addr su) readiness (su_reflection su) st1 of
             (_, Inl e) \<Rightarrow> ([Bound_Http, Bound_Grpc, Preloaded], Err (PE_Grpc e))
           | (_, Inr grpc) \<Rightarrow>
               ([Bound_Http, Bound_Grpc, Preloaded, Started_Grpc, Started_Http],
                Ok \<lparr>ho_state = st1, ho_http_addr = http_addr, ho_grpc_addr = grpc_addr,
                    ho_shutdown_timeout = lim_shutdown_timeout (sc_limits config), ho_http = True, ho_grpc = Some grpc,
                    ho_preload = report\<rparr>))))))))"

section \<open>Shutdown\<close>

definition finish_http :: "bool \<Rightarrow> nat \<Rightarrow> (nat \<Rightarrow> process_error joined) \<Rightarrow> process_action list \<times> (process_error + unit)" where
  "finish_http task timeout wait =
     (if \<not> task then ([], Ok ())
      else ([Ended_Http],
        (case wait timeout of
           Task_Ended r \<Rightarrow> r
         | Join_Failed \<Rightarrow> Err PE_HttpJoin
         | Timed_Out \<Rightarrow> Err PE_ShutdownTimeout)))"

definition finish_grpc ::
  "'a grpc_handle option \<Rightarrow> (nat \<Rightarrow> grpc_server_error joined) \<Rightarrow> process_action list \<times> (process_error + unit)" where
  "finish_grpc server wait =
     (case server of None \<Rightarrow> ([], Ok ())
      | Some h \<Rightarrow> ([Ended_Grpc], map_err PE_Grpc (snd (grpc_handle_shutdown wait h))))"

text \<open>
  \<^verbatim>\<open>shutdown\<close> consumes the host. The three waits run concurrently; the trace lists them in the order of the call.
\<close>

definition server_host_shutdown ::
  "'a surroundings \<Rightarrow> (nat \<Rightarrow> process_error joined) \<Rightarrow> (nat \<Rightarrow> grpc_server_error joined) \<Rightarrow> 'a server_host \<Rightarrow>
   process_action list \<times> application \<times> (process_error + unit)" where
  "server_host_shutdown su http_wait grpc_wait ho =
     (case su_shutdown su (as_application (ho_state ho)) of (app, clean) \<Rightarrow>
     (case finish_http (ho_http ho) (ho_shutdown_timeout ho) http_wait of (http_trace, http_result) \<Rightarrow>
     (case finish_grpc (ho_grpc ho) grpc_wait of (grpc_trace, grpc_result) \<Rightarrow>
       (Triggered # Drained clean # http_trace @ grpc_trace, app,
        and_then http_result (\<lambda>_. and_then grpc_result (\<lambda>_. if clean then Ok () else Err PE_ShutdownTimeout))))))"

text \<open>What one turn of the loop of \<^verbatim>\<open>run_until_signal\<close> sees: the signal, or that the transports finished or not.\<close>

datatype signal_event = Signalled "process_error + unit" | Polled bool bool

fun wait_for_signal :: "'a server_host \<Rightarrow> signal_event list \<Rightarrow> (process_error + bool) option" where
  "wait_for_signal ho [] = None"
| "wait_for_signal ho (Signalled r # _) = Some (and_then r (\<lambda>_. Ok False))"
| "wait_for_signal ho (Polled http_finished grpc_finished # events) =
     (if (ho_http ho \<longrightarrow> http_finished) \<or> (case ho_grpc ho of None \<Rightarrow> True | Some h \<Rightarrow> grpc_is_finished grpc_finished h)
      then Some (Ok True) else wait_for_signal ho events)"

text \<open>The destructor, when the host is dropped without a shutdown.\<close>

definition server_host_drop :: "'a server_host \<Rightarrow> process_action list" where
  "server_host_drop ho =
     Triggered # (if ho_http ho then [Ended_Http] else []) @ (if ho_grpc ho \<noteq> None then [Ended_Grpc] else [])"

text \<open>\<open>None\<close>: still waiting.\<close>

definition run_until_signal ::
  "'a surroundings \<Rightarrow> (nat \<Rightarrow> process_error joined) \<Rightarrow> (nat \<Rightarrow> grpc_server_error joined) \<Rightarrow> signal_event list \<Rightarrow> 'a server_host \<Rightarrow>
   (process_action list \<times> (process_error + unit)) option" where
  "run_until_signal su http_wait grpc_wait events ho =
     (case wait_for_signal ho events of
        None \<Rightarrow> None
      | Some (Inl e) \<Rightarrow> Some (server_host_drop ho, Err e)
      | Some (Inr unexpected) \<Rightarrow>
          (case server_host_shutdown su http_wait grpc_wait ho of (trace, _, result) \<Rightarrow>
            Some (trace, if unexpected \<and> is_ok result then Err PE_UnexpectedTransportStop else result)))"

section \<open>Properties\<close>

text \<open>
  Starting is all or nothing: a host that starts has bound both listeners and finished the preload
  before either transport starts; a start that fails has started no transport, and when the preload failed the
  application was drained.
\<close>

theorem start_is_all_or_nothing:
  "case server_host_start su new_state config of
     (trace, Inr ho) \<Rightarrow> trace = [Bound_Http, Bound_Grpc, Preloaded, Started_Grpc, Started_Http] \<and> ho_http ho \<and> ho_grpc ho \<noteq> None
   | (trace, Inl e) \<Rightarrow> Started_Http \<notin> set trace \<and> Started_Grpc \<notin> set trace \<and>
       (case e of PE_Preload _ \<Rightarrow> \<exists>clean. Drained clean \<in> set trace | _ \<Rightarrow> True)"
  by (simp add: server_host_start_def Let_def split: sum.split prod.split)

lemma finish_http_trace: "fst (finish_http task timeout wait) = (if task then [Ended_Http] else [])"
  by (simp add: finish_http_def)

lemma finish_grpc_trace: "fst (finish_grpc h wait) = (if h = None then [] else [Ended_Grpc])"
  by (simp add: finish_grpc_def split: option.split)


section \<open>Instances\<close>

definition demo_surroundings :: "nat surroundings" where
  "demo_surroundings =
     \<lparr>su_http_bind = Ok (), su_http_addr = Ok 1, su_grpc_bind = Ok (), su_grpc_addr = Ok 2, su_listener_addr = Ok 2,
      su_reflection = Ok (), su_preload = (\<lambda>app. (app, Ok [])), su_shutdown = (\<lambda>app. (shutdown_fence app, True))\<rparr>"


end
