(* ===== verification/Cli.thy ===== *)
theory Cli
  imports Process
begin

text \<open>
  The command line \<^verbatim>\<open>impossible-server/src/cli.rs\<close>: the options handed to the configuration loader, the three server commands,
  and the HTTP client of the model commands. Parsed command lines (of the argument parser), the process environment and
  the HTTP client library are arguments.
\<close>

section \<open>Server options\<close>

record config_args =
  ca_config :: "rstr option"
  ca_http_bind :: "rstr option"
  ca_grpc_bind :: "rstr option"
  ca_allow_insecure_remote :: bool
  ca_auth_env :: "rstr option"
  ca_auth_file :: "rstr option"
  ca_admin_auth_env :: "rstr option"
  ca_admin_auth_file :: "rstr option"
  ca_admin_api_enabled :: "rstr option"
  ca_allowed_origins :: "rstr option"
  ca_model_directories :: "rstr option"
  ca_cache_directory :: "rstr option"
  ca_preload_models :: "rstr option"
  ca_offline :: bool
  ca_startup_policy :: "rstr option"
  ca_max_body_bytes :: "rstr option"
  ca_max_input_bytes :: "rstr option"
  ca_max_request_bytes :: "rstr option"
  ca_max_items :: "rstr option"
  ca_max_tokens :: "rstr option"
  ca_max_queue_depth :: "rstr option"
  ca_max_batch_items :: "rstr option"
  ca_max_batch_tokens :: "rstr option"
  ca_max_concurrency :: "rstr option"
  ca_request_timeout_ms :: "rstr option"
  ca_shutdown_timeout_ms :: "rstr option"

text \<open>What is appended to the arguments. A path is already text.\<close>

definition push_value :: "string \<Rightarrow> rstr option \<Rightarrow> rstr list" where
  "push_value name v = (case v of None \<Rightarrow> [] | Some x \<Rightarrow> [lit name, x])"

definition push_path :: "string \<Rightarrow> rstr option \<Rightarrow> rstr list" where
  "push_path name v = (case v of None \<Rightarrow> [] | Some x \<Rightarrow> [lit name, x])"

definition configuration_arguments :: "config_args \<Rightarrow> rstr list" where
  "configuration_arguments a =
     push_value ''--http-bind'' (ca_http_bind a) @
     push_value ''--grpc-bind'' (ca_grpc_bind a) @
     (if ca_allow_insecure_remote a then [lit ''--allow-insecure-remote''] else []) @
     push_value ''--auth-env'' (ca_auth_env a) @
     push_path ''--auth-file'' (ca_auth_file a) @
     push_value ''--admin-auth-env'' (ca_admin_auth_env a) @
     push_path ''--admin-auth-file'' (ca_admin_auth_file a) @
     push_value ''--admin-api-enabled'' (ca_admin_api_enabled a) @
     push_value ''--allowed-origins'' (ca_allowed_origins a) @
     push_value ''--model-directories'' (ca_model_directories a) @
     push_path ''--cache-directory'' (ca_cache_directory a) @
     push_value ''--preload-models'' (ca_preload_models a) @
     (if ca_offline a then [lit ''--offline''] else []) @
     push_value ''--startup-policy'' (ca_startup_policy a) @
     concat (map (\<lambda>(name, v). push_value name v)
       [(''--max-body-bytes'', ca_max_body_bytes a), (''--max-input-bytes'', ca_max_input_bytes a),
        (''--max-request-bytes'', ca_max_request_bytes a), (''--max-items'', ca_max_items a),
        (''--max-tokens'', ca_max_tokens a), (''--max-queue-depth'', ca_max_queue_depth a),
        (''--max-batch-items'', ca_max_batch_items a), (''--max-batch-tokens'', ca_max_batch_tokens a),
        (''--max-concurrency'', ca_max_concurrency a), (''--request-timeout-ms'', ca_request_timeout_ms a),
        (''--shutdown-timeout-ms'', ca_shutdown_timeout_ms a)])"

definition config_args_load :: "config_env \<Rightarrow> (rstr \<times> rstr) list \<Rightarrow> config_args \<Rightarrow> config_error + server_config" where
  "config_args_load env vars a = load env (ca_config a) vars (configuration_arguments a)"

section \<open>Errors\<close>

datatype client_error =
    CL_InvalidUrl | CL_Credential | CL_Unavailable | CL_Authentication | CL_Rejected | CL_Server | CL_InvalidResponse

definition for_status :: "nat \<Rightarrow> client_error" where
  "for_status status =
     (if status = 401 \<or> status = 403 then CL_Authentication
      else if 400 \<le> status \<and> status < 500 then CL_Rejected else CL_Server)"

fun client_exit_code :: "client_error \<Rightarrow> nat" where
  "client_exit_code CL_InvalidUrl = 2"
| "client_exit_code CL_Credential = 4"
| "client_exit_code CL_Authentication = 4"
| "client_exit_code CL_Unavailable = 3"
| "client_exit_code CL_InvalidResponse = 3"
| "client_exit_code CL_Rejected = 5"
| "client_exit_code CL_Server = 6"

fun client_error_display :: "client_error \<Rightarrow> string" where
  "client_error_display CL_InvalidUrl = ''server URL is invalid''"
| "client_error_display CL_Credential = ''client credential configuration is invalid''"
| "client_error_display CL_Unavailable = ''server is unavailable''"
| "client_error_display CL_Authentication = ''server authentication failed''"
| "client_error_display CL_Rejected = ''model operation was rejected''"
| "client_error_display CL_Server = ''server failed the model operation''"
| "client_error_display CL_InvalidResponse = ''server returned an invalid response''"

datatype cli_error =
    CLI_Config config_error
  | CLI_State app_state_error
  | CLI_Process process_error
  | CLI_Stdio
  | CLI_Client client_error

fun cli_exit_code :: "cli_error \<Rightarrow> nat" where
  "cli_exit_code (CLI_Config _) = 2"
| "cli_exit_code (CLI_Client e) = client_exit_code e"
| "cli_exit_code (CLI_State _) = 1"
| "cli_exit_code (CLI_Process _) = 1"
| "cli_exit_code CLI_Stdio = 1"

fun cli_error_display :: "cli_error \<Rightarrow> string" where
  "cli_error_display (CLI_Config e) = ''configuration failed: '' @ config_error_display e"
| "cli_error_display (CLI_State e) = app_state_error_display e"
| "cli_error_display (CLI_Process e) = process_error_display e"
| "cli_error_display CLI_Stdio = ''MCP stdio transport failed''"
| "cli_error_display (CLI_Client e) = client_error_display e"

section \<open>Server commands\<close>

text \<open>\<open>new_state\<close> is \<^verbatim>\<open>AppState::new\<close>; the answer \<open>None\<close> says that the server is still running.\<close>

definition run_server ::
  "config_env \<Rightarrow> (rstr \<times> rstr) list \<Rightarrow> (server_config \<Rightarrow> app_state_error + app_state) \<Rightarrow> 'a surroundings \<Rightarrow>
   (nat \<Rightarrow> process_error joined) \<Rightarrow> (nat \<Rightarrow> grpc_server_error joined) \<Rightarrow> signal_event list \<Rightarrow> config_args \<Rightarrow> (cli_error + unit) option" where
  "run_server env vars new_state su http_wait grpc_wait events a =
     (case config_args_load env vars a of
        Inl e \<Rightarrow> Some (Err (CLI_Config e))
      | Inr config \<Rightarrow>
     (case server_host_start su (new_state config) config of
        (_, Inl e) \<Rightarrow> Some (Err (CLI_Process e))
      | (_, Inr ho) \<Rightarrow> map_option (\<lambda>(_, r). map_err CLI_Process r) (run_until_signal su http_wait grpc_wait events ho)))"

text \<open>The standard input brings \<open>reader\<close>; the other arguments of the connection are those of \<open>run_stdio\<close>.\<close>

definition run_mcp ::
  "config_env \<Rightarrow> (rstr \<times> rstr) list \<Rightarrow> (server_config \<Rightarrow> app_state_error + app_state) \<Rightarrow> 'a surroundings \<Rightarrow> mcp_env \<Rightarrow> waits \<Rightarrow>
   (nat \<Rightarrow> bool) \<Rightarrow> (nat \<Rightarrow> io_error option) \<Rightarrow> io_error + unit \<Rightarrow> (io_error + bytes) list \<Rightarrow> config_args \<Rightarrow>
   process_action list \<times> (cli_error + unit) option" where
  "run_mcp env vars new_state su menv wt stop wr flush reader a =
     (case and_then (map_err CLI_Config (config_args_load env vars a)) (\<lambda>config. map_err CLI_State (new_state config)) of
        Inl e \<Rightarrow> ([], Some (Err e))
      | Inr st \<Rightarrow>
     (case su_preload su (as_application st) of
        (_, Inl e) \<Rightarrow> ([], Some (Err (CLI_Process (PE_Preload e))))
      | (app1, Inr _) \<Rightarrow>
     (case run_stdio menv (application_service wt) (lim_max_body_bytes (as_limits st)) stop wr flush 0 ((AwaitInitialize, app1), []) reader of
        (_, None) \<Rightarrow> ([Preloaded], None)
      | (((_, app2), _), Some result) \<Rightarrow>
     (case su_shutdown su app2 of (_, clean) \<Rightarrow>
       ([Preloaded, Triggered, Drained clean],
        Some (and_then (map_err (\<lambda>_. CLI_Stdio) result) (\<lambda>_. reject_if (\<not> clean) (CLI_Process PE_ShutdownTimeout))))))))"

fun lifecycle_name :: "lifecycle_state \<Rightarrow> rstr" where
  "lifecycle_name LC_Starting = lit ''starting''"
| "lifecycle_name LC_Ready = lit ''ready''"
| "lifecycle_name LC_Draining = lit ''draining''"
| "lifecycle_name LC_Stopped = lit ''stopped''"

definition doctor_json :: "doctor_report \<Rightarrow> json" where
  "doctor_json report = J_Obj
     [field ''version'' (J_Str (dr_version report)),
      field ''lifecycle'' (J_Str (lifecycle_name (dr_lifecycle report))),
      field ''reason_code'' (case dr_reason_code report of None \<Rightarrow> J_Null | Some r \<Rightarrow> J_Str (readiness_reason_code r)),
      field ''model_count'' (J_Pos (dr_model_count report)),
      field ''ready_model_count'' (J_Pos (dr_ready_model_count report))]"

definition run_doctor ::
  "config_env \<Rightarrow> (rstr \<times> rstr) list \<Rightarrow> (server_config \<Rightarrow> app_state_error + app_state) \<Rightarrow> 'a surroundings \<Rightarrow> rstr \<Rightarrow> config_args \<Rightarrow>
   process_action list \<times> (cli_error + json)" where
  "run_doctor env vars new_state su version a =
     (case and_then (map_err CLI_Config (config_args_load env vars a)) (\<lambda>config. map_err CLI_State (new_state config)) of
        Inl e \<Rightarrow> ([], Err e)
      | Inr st \<Rightarrow>
     (case su_preload su (as_application st) of
        (_, Inl e) \<Rightarrow> ([], Err (CLI_Process (PE_Preload e)))
      | (app1, Inr _) \<Rightarrow>
     (let readiness = health_readiness (rt_health (ap_runtime app1));
          (ready_models, model_count) = model_counts (rt_health (ap_runtime app1));
          report = doctor_from_readiness version readiness ready_models model_count in
      (case su_shutdown su app1 of (_, clean) \<Rightarrow> ([Preloaded, Triggered, Drained clean], Ok (doctor_json report))))))"

section \<open>The model client\<close>

datatype model_command =
    List_Models | Install_Command rstr | Load_Command rstr | Unload_Command rstr | Delete_Command rstr

record client_args =
  cl_server :: rstr
  cl_auth_env :: "rstr option"
  cl_auth_file :: "rstr option"
  cl_timeout_seconds :: nat

record outgoing =
  og_method :: http_method
  og_url :: url
  og_model :: "rstr option"
  og_authorization :: "bytes option"
  og_timeout_seconds :: nat

record incoming_response =
  ir_status :: nat
  ir_content_length :: "nat option"
  ir_chunks :: "(unit + bytes) list"

definition parse_server_url :: "(rstr \<Rightarrow> url option) \<Rightarrow> rstr \<Rightarrow> client_error + url" where
  "parse_server_url parse_url v =
     and_then (ok_or CL_InvalidUrl (parse_url v)) (\<lambda>url.
     and_then (reject_if (\<not> (url_scheme url = lit ''http'' \<or> url_scheme url = lit ''https'') \<or> url_host url = None \<or> url_username url \<noteq> [] \<or>
         url_password url \<noteq> None \<or> url_query url \<noteq> None \<or> url_fragment url \<noteq> None) CL_InvalidUrl) (\<lambda>_.
     Ok url))"

definition client_credential_source :: "(rstr \<Rightarrow> rstr option) \<Rightarrow> client_args \<Rightarrow> bool \<Rightarrow> credential_source option" where
  "client_credential_source var_os a administrative =
     (case cl_auth_env a of Some name \<Rightarrow> Some (Environment name)
      | None \<Rightarrow> (case cl_auth_file a of Some path \<Rightarrow> Some (File path)
      | None \<Rightarrow>
          let conventional = (if administrative then lit ''IMPOSSIBLE_ADMIN_AUTH_TOKEN'' else lit ''IMPOSSIBLE_AUTH_TOKEN'') in
          if var_os conventional \<noteq> None then Some (Environment conventional) else None))"

text \<open>\<open>from_bytes\<close> is \<^verbatim>\<open>HeaderValue::from_bytes\<close>.\<close>

definition bearer_header :: "(bytes \<Rightarrow> bytes option) \<Rightarrow> bytes \<Rightarrow> bytes option" where
  "bearer_header from_bytes secret = from_bytes (as_bytes (lit ''Bearer '') @ secret)"

definition max_client_response_bytes :: nat where
  "max_client_response_bytes = 2 * 1024 * 1024"

fun collect_chunks :: "bytes \<Rightarrow> (unit + bytes) list \<Rightarrow> client_error + bytes" where
  "collect_chunks body [] = Ok body"
| "collect_chunks body (Inl _ # _) = Err CL_Unavailable"
| "collect_chunks body (Inr chunk # chunks) =
     (if max_client_response_bytes < saturating_add (length body) (length chunk) then Err CL_InvalidResponse
      else collect_chunks (body @ chunk) chunks)"

definition bounded_response :: "incoming_response \<Rightarrow> client_error + bytes" where
  "bounded_response response =
     and_then (reject_if (case ir_content_length response of None \<Rightarrow> False | Some n \<Rightarrow> max_client_response_bytes < n) CL_InvalidResponse)
       (\<lambda>_. collect_chunks [] (ir_chunks response))"

fun command_action :: "model_command \<Rightarrow> (string \<times> rstr) option" where
  "command_action List_Models = None"
| "command_action (Install_Command model) = Some (''install'', model)"
| "command_action (Load_Command model) = Some (''load'', model)"
| "command_action (Unload_Command model) = Some (''unload'', model)"
| "command_action (Delete_Command model) = Some (''delete'', model)"

definition action_path :: "(string \<times> rstr) option \<Rightarrow> rstr" where
  "action_path action =
     (case action of None \<Rightarrow> lit ''/v1/models''
      | Some (name, _) \<Rightarrow>
          if name = ''install'' then lit ''/v1/admin/models/install''
          else if name = ''load'' then lit ''/v1/admin/models/load''
          else if name = ''unload'' then lit ''/v1/admin/models/unload''
          else if name = ''delete'' then lit ''/v1/admin/models/delete''
          else lit ''/v1/models'')"

text \<open>
  \<^verbatim>\<open>request_models\<close> up to sending: \<open>builds\<close> says whether the client library could be set up.
\<close>

definition prepare_request ::
  "(rstr \<Rightarrow> url option) \<Rightarrow> (rstr \<Rightarrow> rstr option) \<Rightarrow> (rstr \<Rightarrow> open_error + file_handle) \<Rightarrow> (bytes \<Rightarrow> bytes option) \<Rightarrow> bool \<Rightarrow>
   client_args \<Rightarrow> (string \<times> rstr) option \<Rightarrow> client_error + outgoing" where
  "prepare_request parse_url var_os open_file from_bytes builds a action =
     and_then (parse_server_url parse_url (cl_server a)) (\<lambda>url.
     let url = url\<lparr>url_path := action_path action, url_query := None, url_fragment := None\<rparr> in
     and_then (reject_if (\<not> builds) CL_Unavailable) (\<lambda>_.
     let request = \<lparr>og_method = (if action = None then GET else POST), og_url = url, og_model = map_option snd action,
           og_authorization = None, og_timeout_seconds = cl_timeout_seconds a\<rparr> in
     (case client_credential_source var_os a (action \<noteq> None) of
        None \<Rightarrow> Ok request
      | Some source \<Rightarrow>
          and_then (map_err (\<lambda>_. CL_Credential) (load_credential var_os open_file source)) (\<lambda>secret.
          and_then (ok_or CL_Credential (bearer_header from_bytes (secret_bytes secret))) (\<lambda>header.
          Ok (request\<lparr>og_authorization := Some header\<rparr>))))))"

text \<open>The rest of \<^verbatim>\<open>request_models\<close>: \<open>decode\<close> reads a JSON value, which is printed.\<close>

definition request_models ::
  "(outgoing \<Rightarrow> unit + incoming_response) \<Rightarrow> (bytes \<Rightarrow> json option) \<Rightarrow> client_error + outgoing \<Rightarrow> client_error + json" where
  "request_models send decode prepared =
     and_then prepared (\<lambda>request.
     and_then (map_err (\<lambda>_. CL_Unavailable) (send request)) (\<lambda>response.
     and_then (bounded_response response) (\<lambda>body.
     and_then (reject_if (\<not> (200 \<le> ir_status response \<and> ir_status response < 300)) (for_status (ir_status response))) (\<lambda>_.
     ok_or CL_InvalidResponse (decode body)))))"

definition run_models ::
  "(rstr \<Rightarrow> url option) \<Rightarrow> (rstr \<Rightarrow> rstr option) \<Rightarrow> (rstr \<Rightarrow> open_error + file_handle) \<Rightarrow> (bytes \<Rightarrow> bytes option) \<Rightarrow> bool \<Rightarrow>
   (outgoing \<Rightarrow> unit + incoming_response) \<Rightarrow> (bytes \<Rightarrow> json option) \<Rightarrow> client_args \<Rightarrow> model_command \<Rightarrow> cli_error + json" where
  "run_models parse_url var_os open_file from_bytes builds send decode a command =
     map_err CLI_Client (request_models send decode
       (prepare_request parse_url var_os open_file from_bytes builds a (command_action command)))"

section \<open>The options reach the configuration\<close>

text \<open>The patch that the options stand for.\<close>

definition given_options :: "config_args \<Rightarrow> patch" where
  "given_options a key =
     map_option Scalar (case key of
       HttpBind \<Rightarrow> ca_http_bind a | GrpcBind \<Rightarrow> ca_grpc_bind a
     | AllowInsecureRemote \<Rightarrow> (if ca_allow_insecure_remote a then Some (lit ''true'') else None)
     | AuthEnv \<Rightarrow> ca_auth_env a | AuthFile \<Rightarrow> ca_auth_file a
     | AdminAuthEnv \<Rightarrow> ca_admin_auth_env a | AdminAuthFile \<Rightarrow> ca_admin_auth_file a
     | AdminApiEnabled \<Rightarrow> ca_admin_api_enabled a | AllowedOrigins \<Rightarrow> ca_allowed_origins a
     | ModelDirectories \<Rightarrow> ca_model_directories a | CacheDirectory \<Rightarrow> ca_cache_directory a
     | PreloadModels \<Rightarrow> ca_preload_models a | Offline \<Rightarrow> (if ca_offline a then Some (lit ''true'') else None)
     | StartupPolicy \<Rightarrow> ca_startup_policy a
     | MaxBodyBytes \<Rightarrow> ca_max_body_bytes a | MaxInputBytes \<Rightarrow> ca_max_input_bytes a
     | MaxRequestBytes \<Rightarrow> ca_max_request_bytes a | MaxItems \<Rightarrow> ca_max_items a
     | MaxQueueDepth \<Rightarrow> ca_max_queue_depth a | MaxBatchItems \<Rightarrow> ca_max_batch_items a
     | MaxConcurrency \<Rightarrow> ca_max_concurrency a | RequestTimeout \<Rightarrow> ca_request_timeout_ms a
     | ShutdownTimeout \<Rightarrow> ca_shutdown_timeout_ms a | _ \<Rightarrow> None)"

definition add_option :: "config_key \<Rightarrow> rstr option \<Rightarrow> patch \<Rightarrow> patch" where
  "add_option key v patch = (case v of None \<Rightarrow> patch | Some x \<Rightarrow> patch(key \<mapsto> Scalar x))"

lemma add_option_apply: "add_option key v patch k = (if k = key \<and> v \<noteq> None then map_option Scalar v else patch k)"
  by (simp add: add_option_def split: option.split)

lemma cli_keys:
  "cli_key (lit ''http-bind'') = Ok HttpBind" "cli_key (lit ''grpc-bind'') = Ok GrpcBind"
  "cli_key (lit ''allow-insecure-remote'') = Ok AllowInsecureRemote"
  "cli_key (lit ''auth-env'') = Ok AuthEnv" "cli_key (lit ''auth-file'') = Ok AuthFile"
  "cli_key (lit ''admin-auth-env'') = Ok AdminAuthEnv" "cli_key (lit ''admin-auth-file'') = Ok AdminAuthFile"
  "cli_key (lit ''admin-api-enabled'') = Ok AdminApiEnabled" "cli_key (lit ''allowed-origins'') = Ok AllowedOrigins"
  "cli_key (lit ''model-directories'') = Ok ModelDirectories" "cli_key (lit ''cache-directory'') = Ok CacheDirectory"
  "cli_key (lit ''preload-models'') = Ok PreloadModels" "cli_key (lit ''offline'') = Ok Offline"
  "cli_key (lit ''startup-policy'') = Ok StartupPolicy" "cli_key (lit ''max-body-bytes'') = Ok MaxBodyBytes"
  "cli_key (lit ''max-input-bytes'') = Ok MaxInputBytes" "cli_key (lit ''max-request-bytes'') = Ok MaxRequestBytes"
  "cli_key (lit ''max-items'') = Ok MaxItems" "cli_key (lit ''max-queue-depth'') = Ok MaxQueueDepth"
  "cli_key (lit ''max-batch-items'') = Ok MaxBatchItems" "cli_key (lit ''max-concurrency'') = Ok MaxConcurrency"
  "cli_key (lit ''request-timeout-ms'') = Ok RequestTimeout" "cli_key (lit ''shutdown-timeout-ms'') = Ok ShutdownTimeout"
  "cli_key (lit ''max-tokens'') = Err (UnknownKey CS_CommandLine)"
  "cli_key (lit ''max-batch-tokens'') = Err (UnknownKey CS_CommandLine)"
  by (simp_all add: cli_key_def credential_like_option_def before_first_def replace_char_def lookup_name_def cli_limit_names_def
      parse_key_def key_table_def Let_def lit_def)

text \<open>One option, as it is pushed and as it is read.\<close>

lemma strip_dashes: "strip_prefix (lit ''--'') (lit (CHR ''-'' # CHR ''-'' # name)) = Some (lit name)"
  by (simp add: lit_def)

lemma parse_pushed_value:
  assumes "cli_key (lit name) = Ok key" and "61 \<notin> set (lit name)" and "key \<noteq> AllowInsecureRemote" "key \<noteq> Offline"
    and "patch key = None"
  shows "parse_cli_from (push_value (CHR ''-'' # CHR ''-'' # name) v @ rest) patch = parse_cli_from rest (add_option key v patch)"
    "parse_cli_from (push_path (CHR ''-'' # CHR ''-'' # name) v @ rest) patch = parse_cli_from rest (add_option key v patch)"
  using assms
  by (cases v; simp add: push_value_def push_path_def strip_dashes add_option_def patch_set_def)+

lemma parse_pushed_flag:
  assumes "cli_key (lit name) = Ok key" and "61 \<notin> set (lit name)" and "key = AllowInsecureRemote \<or> key = Offline"
    and "patch key = None"
  shows "parse_cli_from ((if b then [lit (CHR ''-'' # CHR ''-'' # name)] else []) @ rest) patch =
    parse_cli_from rest (add_option key (if b then Some (lit ''true'') else None) patch)"
  using assms by (auto simp: strip_dashes add_option_def patch_set_def)

lemma parse_pushed_unknown:
  assumes "cli_key (lit name) = Err e"
  shows "parse_cli_from (push_value (CHR ''-'' # CHR ''-'' # name) v @ rest) patch =
    (if v = None then parse_cli_from rest patch else Err e)"
  using assms by (cases v) (simp_all add: push_value_def strip_dashes)

lemma options_chain:
  "add_option ShutdownTimeout (ca_shutdown_timeout_ms a) (add_option RequestTimeout (ca_request_timeout_ms a) (add_option MaxConcurrency (ca_max_concurrency a)
      (add_option MaxBatchItems (ca_max_batch_items a) (add_option MaxQueueDepth (ca_max_queue_depth a) (add_option MaxItems (ca_max_items a)
      (add_option MaxRequestBytes (ca_max_request_bytes a) (add_option MaxInputBytes (ca_max_input_bytes a) (add_option MaxBodyBytes (ca_max_body_bytes a)
      (add_option StartupPolicy (ca_startup_policy a) (add_option Offline (if ca_offline a then Some (lit ''true'') else None) (add_option PreloadModels (ca_preload_models a)
      (add_option CacheDirectory (ca_cache_directory a) (add_option ModelDirectories (ca_model_directories a) (add_option AllowedOrigins (ca_allowed_origins a)
      (add_option AdminApiEnabled (ca_admin_api_enabled a) (add_option AdminAuthFile (ca_admin_auth_file a) (add_option AdminAuthEnv (ca_admin_auth_env a)
      (add_option AuthFile (ca_auth_file a) (add_option AuthEnv (ca_auth_env a) (add_option AllowInsecureRemote (if ca_allow_insecure_remote a then Some (lit ''true'') else None)
      (add_option GrpcBind (ca_grpc_bind a) (add_option HttpBind (ca_http_bind a) Map.empty)))))))))))))))))))))) = given_options a"
  (is "?chain = _")
proof
  fix key
  show "?chain key = given_options a key"
    by (cases key) (simp_all add: add_option_apply given_options_def)
qed



lemma parse_environment_unknown:
  assumes "(key, v) \<in> set vars" and "strip_prefix (lit ''IMPOSSIBLE_'') key = Some name" and "lookup_name environment_table name = None"
  shows "\<not> is_ok (parse_environment_from vars patch)"
  using assms
proof (induction vars arbitrary: patch)
  case (Cons entry vars)
  then show ?case
    by (cases entry) (auto simp: is_ok_iff result_simps split: option.split_asm if_split_asm)
qed simp

text \<open>
  C22. The variable of the client stops the servers: the model commands take the address of the server from
  \<^verbatim>\<open>IMPOSSIBLE_SERVER_URL\<close>; with that variable set no server command gets a configuration.
\<close>

theorem client_variable_stops_the_servers:
  assumes "(lit ''IMPOSSIBLE_SERVER_URL'', v) \<in> set vars"
  shows "\<not> is_ok (config_args_load env vars a)"
proof -
  have "strip_prefix (lit ''IMPOSSIBLE_'') (lit ''IMPOSSIBLE_SERVER_URL'') = Some (lit ''SERVER_URL'')"
    "lookup_name environment_table (lit ''SERVER_URL'') = None"
    by (simp_all add: lit_def lookup_name_def environment_table_def)
  then have "\<not> is_ok (parse_environment_from vars Map.empty)"
    using parse_environment_unknown [OF assms] by blast
  then show ?thesis
    by (auto simp: config_args_load_def load_def is_ok_iff parse_environment_def result_simps)
qed

section \<open>The client and the server\<close>

text \<open>
  Responses to the client are bounded: a body is accepted if and only if no announced length exceeds two
  mebibytes and all chunks arrive with at most that many bytes together, however they are cut.
\<close>

theorem bounded_response_exact:
  "bounded_response response = Ok body \<longleftrightarrow>
     (case ir_content_length response of None \<Rightarrow> True | Some n \<Rightarrow> n \<le> max_client_response_bytes) \<and>
     (\<exists>parts. ir_chunks response = map Inr parts \<and> body = concat parts) \<and> length body \<le> max_client_response_bytes"
proof -
  have sat: "max_client_response_bytes < saturating_add a b \<longleftrightarrow> max_client_response_bytes < a + b" for a b
    by (simp add: saturating_add_def max_client_response_bytes_def word_limit_def)
  have "length acc \<le> max_client_response_bytes \<Longrightarrow> collect_chunks acc chunks = Ok body \<longleftrightarrow>
      (\<exists>parts. chunks = map Inr parts \<and> body = acc @ concat parts) \<and> length body \<le> max_client_response_bytes" for acc chunks
  proof (induction acc chunks rule: collect_chunks.induct)
    case (3 acc chunk chunks)
    show ?case
    proof (cases "length (acc @ chunk) \<le> max_client_response_bytes")
      case True
      then show ?thesis using 3 by (auto simp: sat map_eq_Cons_conv Cons_eq_map_conv)
    next
      case False
      then show ?thesis by (auto simp: sat Cons_eq_map_conv)
    qed
  qed auto
  from this [of "[]" "ir_chunks response"] show ?thesis
    by (auto simp: bounded_response_def result_simps not_less split: option.split_asm option.split)
qed

text \<open>The endpoint that a model command is about, and the request as the server sees it.\<close>

fun command_endpoint :: "model_command \<Rightarrow> endpoint" where
  "command_endpoint List_Models = E_Models"
| "command_endpoint (Install_Command _) = E_Admin Install_Model"
| "command_endpoint (Load_Command _) = E_Admin Load_Model"
| "command_endpoint (Unload_Command _) = E_Admin Unload_Model"
| "command_endpoint (Delete_Command _) = E_Admin Delete_Model"

definition arrives_as :: "outgoing \<Rightarrow> http_request \<Rightarrow> bool" where
  "arrives_as og request \<longleftrightarrow> rq_method request = og_method og \<and> rq_path request = url_path (og_url og) \<and>
     get_all (rq_headers request) ''authorization'' = (case og_authorization og of None \<Rightarrow> [] | Some v \<Rightarrow> [v])"

lemma prepared_route:
  assumes "prepare_request parse_url var_os open_file from_bytes builds a (command_action command) = Ok og"
    and "as_admin_api_enabled st"
  obtains r where "r \<in> set (router st)" "rte_method r = og_method og" "rte_path r = url_path (og_url og)"
    "rte_endpoint r = command_endpoint command"
proof -
  have "og_method og = (if command_action command = None then GET else POST) \<and> url_path (og_url og) = action_path (command_action command)"
    using assms(1) by (auto simp: prepare_request_def result_simps Let_def split: option.split_asm)
  then have "\<exists>r \<in> set (router st). rte_method r = og_method og \<and> rte_path r = url_path (og_url og) \<and>
      rte_endpoint r = command_endpoint command"
    using assms(2) by (cases command) (simp_all add: router_def action_path_def)
  then show thesis using that by blast
qed

text \<open>
  C20. The client and the server fit together: every model command is sent to the route of its endpoint,
  and when the client's credential is the secret the server requires there, the guard of that route lets it pass.
\<close>

theorem client_requests_pass_their_guards:
  assumes "prepare_request parse_url var_os open_file from_bytes builds a (command_action command) = Ok og"
    and "as_admin_api_enabled st" and "\<forall>v w. from_bytes v = Some w \<longrightarrow> w = v"
    and "client_credential_source var_os a (command \<noteq> List_Models) = Some source"
    and "load_credential var_os open_file source = Ok secret"
    and "required_credential st (url_path (og_url og)) = Some secret"
    and "arrives_as og request"
  shows "\<exists>r \<in> set (router st). (rte_method r, rte_path r) = (rq_method request, rq_path request) \<and>
    rte_endpoint r = command_endpoint command \<and> check_guard env st (rte_guard r) request = None"
proof -
  obtain r where r: "r \<in> set (router st)" "rte_method r = og_method og" "rte_path r = url_path (og_url og)"
    "rte_endpoint r = command_endpoint command"
    using prepared_route [OF assms(1,2)] .
  have admin: "(command_action command \<noteq> None) = (command \<noteq> List_Models)" by (cases command) simp_all
  have "og_authorization og = Some (as_bytes (lit ''Bearer '') @ secret_bytes secret)"
    using assms(1,3,5) assms(4) [folded admin] by (auto simp: prepare_request_def result_simps Let_def bearer_header_def)
  then have auth: "get_all (rq_headers request) ''authorization'' = [as_bytes (lit ''Bearer '') @ secret_bytes secret]"
    using assms(7) by (simp add: arrives_as_def)
  have s: "secret_bytes secret \<noteq> []" "length (secret_bytes secret) \<le> max_credential_bytes"
    using assms(5) by (auto simp: load_credential_def result_simps Let_def split: if_split_asm)
  then have "bearer_candidate (rq_headers request) = Some (secret_bytes secret)" by (simp add: bearer_candidate_Some auth)
  moreover have "secret_verify secret (secret_bytes secret)"
    using s(2) by (subst secret_verify_iff) (simp_all add: max_credential_bytes_def word_limit_def)
  moreover have "guard_credential st (rte_guard r) = Some secret" using router_guards [OF r(1)] assms(6) r(3) by simp
  ultimately have "check_guard env st (rte_guard r) request = None"
    by (cases "rte_guard r") (simp_all add: candidate_verified_def verify_public_token_def verify_admin_token_def verify_metrics_token_def
        verify_with_def)
  with r assms(7) show ?thesis by (intro bexI [OF _ r(1)]) (simp add: arrives_as_def)
qed

section \<open>Instances\<close>

definition demo_config_args :: config_args where
  "demo_config_args =
     \<lparr>ca_config = None, ca_http_bind = None, ca_grpc_bind = None, ca_allow_insecure_remote = False, ca_auth_env = None, ca_auth_file = None,
      ca_admin_auth_env = None, ca_admin_auth_file = None, ca_admin_api_enabled = None, ca_allowed_origins = None,
      ca_model_directories = None, ca_cache_directory = None, ca_preload_models = None, ca_offline = True, ca_startup_policy = None,
      ca_max_body_bytes = None, ca_max_input_bytes = None, ca_max_request_bytes = None, ca_max_items = None, ca_max_tokens = None,
      ca_max_queue_depth = None, ca_max_batch_items = None, ca_max_batch_tokens = None, ca_max_concurrency = None,
      ca_request_timeout_ms = None, ca_shutdown_timeout_ms = None\<rparr>"

theorem client_variable_stops_the_servers_witness:
  "\<forall>env. \<not> is_ok (config_args_load env [(lit ''IMPOSSIBLE_SERVER_URL'', lit ''http://[::1]:8080'')] demo_config_args)"
  using client_variable_stops_the_servers [of "lit ''http://[::1]:8080''" "[(lit ''IMPOSSIBLE_SERVER_URL'', lit ''http://[::1]:8080'')]"]
  by simp

definition client_url :: url where
  "client_url =
     \<lparr>url_scheme = lit ''http'', url_host = Some (lit ''[::1]''), url_username = [], url_password = None, url_path = lit ''/'',
      url_query = None, url_fragment = None, url_origin = None\<rparr>"

definition demo_client_args :: client_args where
  "demo_client_args = \<lparr>cl_server = lit ''http://[::1]'', cl_auth_env = Some (lit ''ADMIN''), cl_auth_file = None, cl_timeout_seconds = 60\<rparr>"

theorem client_requests_pass_their_guards_witness:
  "\<exists>st request. as_admin_credential st = Some (Secret (as_bytes (lit ''two''))) \<and>
     (\<exists>r \<in> set (router st). (rte_method r, rte_path r) = (rq_method request, rq_path request) \<and>
       rte_endpoint r = E_Admin Load_Model \<and> check_guard demo_http st (rte_guard r) request = None)"
proof -
  obtain st :: app_state where st: "as_admin_credential st = Some (Secret (as_bytes (lit ''two'')))" "as_admin_api_enabled st"
    by (rule exposed_state_built) blast
  let ?var = "\<lambda>_. Some (lit ''two'')"
  let ?auth = "as_bytes (lit ''Bearer '') @ as_bytes (lit ''two'')"
  let ?request = "demo_request POST ''/v1/admin/models/load'' ?auth"
  let ?og = "\<lparr>og_method = POST, og_url = client_url\<lparr>url_path := lit ''/v1/admin/models/load''\<rparr>, og_model = Some (lit ''m''),
    og_authorization = Some ?auth, og_timeout_seconds = 60\<rparr>"
  have secret: "load_credential ?var (\<lambda>_. Inl Eloop) (Environment (lit ''ADMIN'')) = Ok (Secret (as_bytes (lit ''two'')))"
    by (simp add: loading_simps evaluation_simps)
  have prepared: "prepare_request (\<lambda>_. Some client_url) ?var (\<lambda>_. Inl Eloop) Some True demo_client_args (command_action (Load_Command (lit ''m''))) =
      Ok ?og"
    by (simp add: prepare_request_def parse_server_url_def client_url_def demo_client_args_def client_credential_source_def action_path_def
        bearer_header_def secret)
  have "required_credential st (url_path (og_url ?og)) = Some (Secret (as_bytes (lit ''two'')))"
    by (simp add: required_credential_def st(1))
  moreover have "arrives_as ?og ?request" by (simp add: arrives_as_def demo_request_def get_all_def)
  ultimately show ?thesis
    using client_requests_pass_their_guards [OF prepared st(2) _ _ secret, of ?request demo_http] st(1)
    by (auto simp: client_credential_source_def demo_client_args_def)
qed

end
