(* ===== verification/Runtime_Tasks.thy ===== *)
theory Runtime_Tasks
  imports Lifecycle "HOL-Library.Multiset"
begin

text \<open>
  The tasks around the critical sections of \<^verbatim>\<open>runtime.rs\<close>: the pool of blocking workers, an installation with its caller and
  the forced stop (\<^verbatim>\<open>run_install_transaction\<close>), the candidate of a scheduler and the destructor of the runtime.
\<close>

section \<open>The blocking pool\<close>

text \<open>A job is a number; the lists record what was accepted, started and finished, in order.\<close>

record blocking_pool =
  bp_depth :: nat
  bp_queue :: "nat list"
  bp_workers :: "nat option list"
  bp_accepted :: "nat list"
  bp_started :: "nat list"
  bp_finished :: "nat list"

definition blocking_pool_new :: "nat \<Rightarrow> nat \<Rightarrow> (nat \<Rightarrow> bool) \<Rightarrow> lifecycle_error + blocking_pool" where
  "blocking_pool_new n depth spawns =
     (if \<exists>i < n. \<not> spawns i then Err InitializationFailed
      else Ok \<lparr>bp_depth = depth, bp_queue = [], bp_workers = replicate n None, bp_accepted = [], bp_started = [], bp_finished = []\<rparr>)"

text \<open>\<^verbatim>\<open>try_execute\<close> on a channel of positive capacity: a full channel hands the job back.\<close>

definition try_execute :: "nat \<Rightarrow> blocking_pool \<Rightarrow> blocking_pool \<times> (nat + unit)" where
  "try_execute job p =
     (if length (bp_queue p) < bp_depth p
      then (p\<lparr>bp_queue := bp_queue p @ [job], bp_accepted := bp_accepted p @ [job]\<rparr>, Ok ())
      else (p, Err job))"

text \<open>\<^verbatim>\<open>run_blocking_worker\<close>: a worker takes the oldest job; the job returns or panics, and the worker goes on.\<close>

definition worker_take :: "nat \<Rightarrow> blocking_pool \<Rightarrow> blocking_pool" where
  "worker_take w p =
     (case bp_queue p of [] \<Rightarrow> p
      | job # rest \<Rightarrow> p\<lparr>bp_queue := rest, bp_workers := (bp_workers p)[w := Some job], bp_started := bp_started p @ [job]\<rparr>)"

datatype job_end = Returned_Normally | Panicked

definition worker_end :: "nat \<Rightarrow> job_end \<Rightarrow> blocking_pool \<Rightarrow> blocking_pool" where
  "worker_end w how p =
     (case bp_workers p ! w of None \<Rightarrow> p
      | Some job \<Rightarrow> p\<lparr>bp_workers := (bp_workers p)[w := None], bp_finished := bp_finished p @ [job]\<rparr>)"

inductive pool_step :: "blocking_pool \<Rightarrow> blocking_pool \<Rightarrow> bool" where
  submit: "pool_step p (fst (try_execute job p))"
| take: "w < length (bp_workers p) \<Longrightarrow> bp_workers p ! w = None \<Longrightarrow> pool_step p (worker_take w p)"
| finish: "w < length (bp_workers p) \<Longrightarrow> pool_step p (worker_end w how p)"

definition busy_jobs :: "blocking_pool \<Rightarrow> nat multiset" where
  "busy_jobs p = mset (List.map_filter id (bp_workers p))"

definition pool_inv :: "nat \<Rightarrow> nat \<Rightarrow> blocking_pool \<Rightarrow> bool" where
  "pool_inv n depth p \<longleftrightarrow>
     bp_depth p = depth \<and> length (bp_workers p) = n \<and> length (bp_queue p) \<le> depth \<and>
     bp_accepted p = bp_started p @ bp_queue p \<and> mset (bp_started p) = busy_jobs p + mset (bp_finished p)"

lemma busy_take: "w < length ws \<Longrightarrow> ws ! w = None \<Longrightarrow>
    mset (List.map_filter id (ws[w := Some job])) = add_mset job (mset (List.map_filter id ws))"
  by (induction ws arbitrary: w) (auto simp: List.map_filter_def less_Suc_eq_0_disj nth_Cons')

lemma busy_end: "w < length ws \<Longrightarrow> ws ! w = Some job \<Longrightarrow>
    mset (List.map_filter id ws) = add_mset job (mset (List.map_filter id (ws[w := None])))"
  by (induction ws arbitrary: w) (auto simp: List.map_filter_def less_Suc_eq_0_disj nth_Cons')

lemma pool_step_inv: "pool_step p q \<Longrightarrow> pool_inv n depth p \<Longrightarrow> pool_inv n depth q"
proof (induction rule: pool_step.induct)
  case (submit p job)
  then show ?case by (auto simp: pool_inv_def try_execute_def busy_jobs_def)
next
  case (take w p)
  then show ?case by (cases "bp_queue p") (auto simp: pool_inv_def worker_take_def busy_jobs_def busy_take)
next
  case (finish w p how)
  then show ?case
    by (cases "bp_workers p ! w") (auto simp: pool_inv_def worker_end_def busy_jobs_def dest: busy_end)
qed

text \<open>
  The blocking pool keeps its workers and its jobs: whatever jobs panic, the number of workers stays, the queue stays
  within its depth, jobs start in the order in which they were accepted, and every accepted job is waiting, running or finished
  exactly once.
\<close>

theorem blocking_pool_keeps_its_jobs:
  assumes "blocking_pool_new n depth spawns = Ok start" and "pool_step\<^sup>*\<^sup>* start p"
  shows "length (bp_workers p) = n \<and> length (bp_queue p) \<le> depth \<and> bp_accepted p = bp_started p @ bp_queue p \<and>
    mset (bp_accepted p) = mset (bp_queue p) + busy_jobs p + mset (bp_finished p)"
proof -
  have "pool_inv n depth start"
    using assms(1) by (auto simp: blocking_pool_new_def pool_inv_def busy_jobs_def List.map_filter_def split: if_split_asm)
  with assms(2) have "pool_inv n depth p" by (induction rule: rtranclp_induct) (auto intro: pool_step_inv)
  then show ?thesis by (auto simp: pool_inv_def)
qed

section \<open>An installation and its caller\<close>

text \<open>
  The spawned task of \<^verbatim>\<open>run_install_transaction\<close>: staging, past its commit gate, ended with a result in the channel, or aborted.
  The caller waits for the result, waits for it although a stop was forced, has its answer, or was dropped. \<open>fl_promoted\<close> is
  history: the installation replaced the model.
\<close>

datatype install_task = Staging | Committing | Ended "lifecycle_error + model_verification_status" | Aborted

datatype install_caller = Awaiting | Awaiting_Final | Answered "lifecycle_error + model_verification_status" | Caller_Gone

record install_flow =
  fl_control :: install_control
  fl_task :: install_task
  fl_abort :: bool
  fl_caller :: install_caller
  fl_promoted :: bool

text \<open>\<^verbatim>\<open>run_install_transaction\<close> up to its wait.\<close>

definition install_flow_start :: "bool \<Rightarrow> install_flow" where
  "install_flow_start forced =
     (let control = \<lparr>ic_cancelled = False, ic_commit = Commit_Open\<rparr> in
      if forced
      then \<lparr>fl_control = fst (cancel_before_commit control), fl_task = Aborted, fl_abort = True,
             fl_caller = Answered (Err ShuttingDown), fl_promoted = False\<rparr>
      else \<lparr>fl_control = control, fl_task = Staging, fl_abort = False, fl_caller = Awaiting, fl_promoted = False\<rparr>)"

text \<open>\<^verbatim>\<open>InstallCallerGuard::cancel_before_commit\<close>.\<close>

definition caller_cancel :: "install_flow \<Rightarrow> install_flow \<times> commit_decision" where
  "caller_cancel f =
     (case cancel_before_commit (fl_control f) of (c, d) \<Rightarrow>
       (f\<lparr>fl_control := c, fl_abort := fl_abort f \<or> d = CancelledBeforeCommit\<rparr>, d))"

text \<open>
  The task maps every failure of the installer to \<open>InstallFailed\<close>. A forced stop may be seen although the result has just been
  sent; the guard of the caller is armed until it has its answer.
\<close>

inductive flow_step :: "install_flow \<Rightarrow> install_flow \<Rightarrow> bool" where
  staging_fails: "fl_task f = Staging \<Longrightarrow> flow_step f (f\<lparr>fl_task := Ended (Err InstallFailed)\<rparr>)"
| already_installed: "fl_task f = Staging \<Longrightarrow> flow_step f (f\<lparr>fl_task := Ended (Ok status)\<rparr>)"
| commits: "fl_task f = Staging \<Longrightarrow> begin_commit (ic_commit (fl_control f)) = (g, True) \<Longrightarrow>
    flow_step f (f\<lparr>fl_control := (fl_control f)\<lparr>ic_commit := g\<rparr>, fl_task := Committing\<rparr>)"
| commit_refused: "fl_task f = Staging \<Longrightarrow> begin_commit (ic_commit (fl_control f)) = (g, False) \<Longrightarrow>
    flow_step f (f\<lparr>fl_control := (fl_control f)\<lparr>ic_commit := g\<rparr>, fl_task := Ended (Err InstallFailed)\<rparr>)"
| promotes: "fl_task f = Committing \<Longrightarrow> flow_step f (f\<lparr>fl_task := Ended (Ok status), fl_promoted := True\<rparr>)"
| promotion_fails: "fl_task f = Committing \<Longrightarrow> flow_step f (f\<lparr>fl_task := Ended (Err InstallFailed), fl_promoted := replaced\<rparr>)"
| aborts: "fl_task f = Staging \<Longrightarrow> fl_abort f \<Longrightarrow> flow_step f (f\<lparr>fl_task := Aborted\<rparr>)"
| receives: "fl_task f = Ended r \<Longrightarrow> fl_caller f = Awaiting \<or> fl_caller f = Awaiting_Final \<Longrightarrow>
    flow_step f (f\<lparr>fl_caller := Answered r\<rparr>)"
| sender_gone: "fl_task f = Aborted \<Longrightarrow> fl_caller f = Awaiting \<or> fl_caller f = Awaiting_Final \<Longrightarrow>
    flow_step f (f\<lparr>fl_caller := Answered (Err InstallFailed)\<rparr>)"
| stop_forced: "fl_caller f = Awaiting \<Longrightarrow> caller_cancel f = (f', d) \<Longrightarrow>
    flow_step f (f'\<lparr>fl_caller := (if d = CancelledBeforeCommit then Answered (Err ShuttingDown) else Awaiting_Final)\<rparr>)"
| caller_dropped: "fl_caller f = Awaiting \<or> fl_caller f = Awaiting_Final \<Longrightarrow> flow_step f ((fst (caller_cancel f))\<lparr>fl_caller := Caller_Gone\<rparr>)"
| shutdown_cancels: "flow_step f (f\<lparr>fl_control := fst (cancel_before_commit (fl_control f))\<rparr>)"

text \<open>Whatever is past the gate crossed it, and a caller told of a shutdown had closed it before.\<close>

definition flow_inv :: "install_flow \<Rightarrow> bool" where
  "flow_inv f \<longleftrightarrow>
     (fl_promoted f \<or> fl_task f = Committing \<or> fl_caller f = Awaiting_Final \<longrightarrow> ic_commit (fl_control f) = Commit_Crossed) \<and>
     (fl_caller f = Answered (Err ShuttingDown) \<or> fl_abort f \<or> fl_task f = Aborted \<longrightarrow> ic_commit (fl_control f) = Commit_Cancelled) \<and>
     (fl_task f = Staging \<longrightarrow> ic_commit (fl_control f) \<noteq> Commit_Crossed) \<and> fl_task f \<noteq> Ended (Err ShuttingDown) \<and>
     (\<forall>status. ic_commit (fl_control f) = Commit_Crossed \<and>
        (fl_task f = Ended (Ok status) \<or> fl_caller f = Answered (Ok status)) \<longrightarrow> fl_promoted f) \<and>
     (\<forall>status. fl_caller f = Answered (Ok status) \<longrightarrow> fl_task f = Ended (Ok status))"

lemma cancelled_gate:
  "ic_commit (fst (cancel_before_commit c)) = (if ic_commit c = Commit_Crossed then Commit_Crossed else Commit_Cancelled)"
  "snd (cancel_before_commit c) = (if ic_commit c = Commit_Crossed then AlreadyCommitted else CancelledBeforeCommit)"
  by (cases "ic_commit c"; simp add: cancel_before_commit_def request_cancel_def)+

lemma flow_step_inv: "flow_step f g \<Longrightarrow> flow_inv f \<Longrightarrow> flow_inv g"
proof (induction rule: flow_step.induct)
  case (stop_forced f f' d)
  then show ?case
    using cancelled_gate [of "fl_control f"]
    by (cases "ic_commit (fl_control f) = Commit_Crossed") (auto simp: caller_cancel_def flow_inv_def split: prod.split_asm)
next
  case (caller_dropped f)
  then show ?case
    using cancelled_gate [of "fl_control f"]
    by (auto simp: caller_cancel_def flow_inv_def split: prod.split)
qed (auto simp: flow_inv_def begin_commit_def cancelled_gate split: commit_gate.split_asm)

lemma flow_reachable_inv: "flow_step\<^sup>*\<^sup>* (install_flow_start forced) f \<Longrightarrow> flow_inv f"
proof (induction rule: rtranclp_induct)
  case base
  show ?case by (simp add: install_flow_start_def flow_inv_def Let_def cancelled_gate)
next
  case (step f g)
  then show ?case using flow_step_inv by blast
qed

text \<open>
  C25. The caller of an installation is told the truth: one that is told that the server shuts down has prevented the
  commit, and the installation does not replace the model then or later; one that is told of success has either found
  the model installed, with the gate never crossed, or the installation has replaced it.
\<close>

theorem install_answers_are_truthful:
  assumes "flow_step\<^sup>*\<^sup>* (install_flow_start forced) f" and "fl_caller f = Answered r" and "flow_step\<^sup>*\<^sup>* f later"
  shows "(r = Err ShuttingDown \<longrightarrow> \<not> fl_promoted later \<and> ic_commit (fl_control later) = Commit_Cancelled) \<and>
    (is_ok r \<longrightarrow> (fl_promoted later \<longleftrightarrow> ic_commit (fl_control later) = Commit_Crossed))"
proof -
  have "fl_caller later = Answered r"
    using assms(3,2)
  proof (induction rule: rtranclp_induct)
    case (step g h)
    then have "fl_caller g = Answered r" by blast
    with step(2) show ?case
      by (induction rule: flow_step.induct) (auto simp: caller_cancel_def split: prod.split_asm)
  qed simp
  moreover have "flow_inv later"
    using flow_reachable_inv [OF rtranclp_trans [OF assms(1,3)]] .
  ultimately show ?thesis
    by (cases r) (auto simp: flow_inv_def)
qed

section \<open>The destructor of the runtime\<close>

definition runtime_drop :: "nat \<Rightarrow> runtime \<Rightarrow> runtime" where
  "runtime_drop now rt =
     (let rt1 = rt\<lparr>rt_draining := True, rt_shutdown := force_stop (begin_shutdown (rt_shutdown rt)), rt_force_stop := True\<rparr>;
          rt2 = (case lock_read (rt_models rt1) of None \<Rightarrow> rt1
                 | Some models \<Rightarrow> fold (\<lambda>(_, i). stop_slot now i) models rt1);
          rt3 = (cancel_installs rt2)\<lparr>rt_schedulers := lock_update (\<lambda>_. []) (rt_schedulers rt2),
                  rt_retired := lock_update (\<lambda>_. []) (rt_retired rt2), rt_flight := lock_update (\<lambda>_. None) (rt_flight rt2),
                  rt_models := lock_update (\<lambda>_. []) (rt_models rt2), rt_loading := lock_update (\<lambda>_. []) (rt_loading rt2)\<rparr>
      in rt3\<lparr>rt_health := fst (health_transition LC_Stopped (Some RR_Stopped) (clear_models (rt_health rt3)))\<rparr>)"

text \<open>
  Dropping the runtime is terminal: whichever of its locks are poisoned, no installation can cross its commit gate
  afterwards, every registered slot is closed, and nothing is left registered, loading or scheduled.
\<close>

theorem dropped_runtime_is_terminal:
  assumes "rt' = runtime_drop now rt"
  shows "rt_draining rt' \<and> rt_force_stop rt' \<and> lock_list (rt_models rt') = [] \<and> lock_list (rt_loading rt') = [] \<and>
    lock_list (rt_schedulers rt') = [] \<and>
    (\<forall>(k, c) \<in> set (lock_list (rt_installs rt')). begin_commit (ic_commit c) = (ic_commit c, False)) \<and>
    (\<forall>(k, i) \<in> set (lock_list (rt_models rt)). i < length (rt_slots rt) \<longrightarrow> \<not> sl_accepting (rt_slots rt' ! i))"
proof -
  have gate: "begin_commit (ic_commit (fst (cancel_before_commit c))) = (ic_commit (fst (cancel_before_commit c)), False)" for c
    by (simp add: cancelled_gate begin_commit_def)
  show ?thesis
    unfolding assms
    by (cases "rt_models rt"; cases "rt_installs rt")
       (auto simp: runtime_drop_def Let_def stop_slots_frame stop_slots_more_frame cancel_installs_def gate
         stop_slots_accepting image_iff Bex_def split: prod.splits)
qed

section \<open>Instances\<close>

theorem blocking_pool_keeps_its_jobs_witness:
  "\<exists>p. length (bp_workers p) = 1 \<and> bp_finished p = [7] \<and>
     mset (bp_accepted p) = mset (bp_queue p) + busy_jobs p + mset (bp_finished p)"
proof -
  obtain p0 where p0: "blocking_pool_new 1 2 (\<lambda>_. True) = Ok p0" by (simp add: blocking_pool_new_def)
  let ?p1 = "fst (try_execute 7 p0)"
  let ?p2 = "worker_take 0 ?p1"
  let ?p3 = "worker_end 0 Panicked ?p2"
  have fields: "bp_workers p0 = [None]" "bp_queue p0 = []" "bp_depth p0 = 2" "bp_started p0 = []" "bp_finished p0 = []" "bp_accepted p0 = []"
    using p0 by (auto simp: blocking_pool_new_def)
  have "pool_step p0 ?p1" by (rule pool_step.submit)
  moreover have "pool_step ?p1 ?p2" by (rule pool_step.take) (simp_all add: try_execute_def fields)
  moreover have "pool_step ?p2 ?p3" by (rule pool_step.finish) (simp add: try_execute_def worker_take_def fields)
  ultimately have "pool_step\<^sup>*\<^sup>* p0 ?p3" by (rule rtranclp.rtrancl_into_rtrancl [OF rtranclp.rtrancl_into_rtrancl [OF r_into_rtranclp]])
  from blocking_pool_keeps_its_jobs [OF p0 this] show ?thesis
    by (intro exI [of _ ?p3]) (simp add: try_execute_def worker_take_def worker_end_def fields busy_jobs_def List.map_filter_def)
qed

theorem install_answers_are_truthful_witness:
  "\<exists>f. flow_step (install_flow_start False) f \<and> fl_caller f = Answered (Err ShuttingDown) \<and> \<not> fl_promoted f \<and>
     ic_commit (fl_control f) = Commit_Cancelled"
proof -
  let ?s = "install_flow_start False"
  have "fl_caller ?s = Awaiting" "snd (caller_cancel ?s) = CancelledBeforeCommit"
    by (simp_all add: install_flow_start_def Let_def caller_cancel_def cancel_before_commit_def request_cancel_def)
  then have "flow_step ?s ((fst (caller_cancel ?s))\<lparr>fl_caller := Answered (Err ShuttingDown)\<rparr>)"
    using flow_step.stop_forced [of ?s "fst (caller_cancel ?s)" "snd (caller_cancel ?s)"] by (metis prod.collapse)
  then obtain f where f: "flow_step ?s f" "fl_caller f = Answered (Err ShuttingDown)" by force
  then have "flow_step\<^sup>*\<^sup>* ?s f" by (simp add: r_into_rtranclp)
  from install_answers_are_truthful [OF this f(2) rtranclp.rtrancl_refl] f show ?thesis by blast
qed

theorem dropped_runtime_is_terminal_witness:
  "lock_list (rt_models (runtime_drop 0 demo_loaded)) = [] \<and> rt_draining (runtime_drop 0 demo_loaded)"
  using dropped_runtime_is_terminal [OF refl, of 0 demo_loaded] by blast

end
