(* ===== verification/Spec2Isabelle.thy ===== *)
theory Spec2Isabelle
  imports Cancel_Tokens Shutdown Health Metrics Security Config Scheduler Execution Runtime Lifecycle Store_Recovery
    Install Onnx_Runtime Application_Safety App_State Http Grpc Process Cli
    Runtime_Tasks
begin

text \<open>
  Verification of the embedding server \<^verbatim>\<open>impossible-embeddings\<close> (Rust workspace under \<^verbatim>\<open>src/crates\<close>).

  \<^bold>\<open>The program.\<close> Clients send texts over HTTP, gRPC or MCP; the application layer hands them to the
  runtime (\<^verbatim>\<open>impossible-server/src/runtime.rs\<close>), which admits a request, leases a model slot, takes a
  queue permit, lets the engine compute the token cost (preflight), and queues the request with the
  slot's scheduler. The scheduler combines compatible requests into native batches, a blocking worker
  runs the engine, validates its output and answers every request with its own slice. Around this
  core: cancellation tokens and deadlines, the shutdown coordinator, health, metrics, security,
  configuration, and the lifecycle of models (load, unload, delete, install).

  \<^bold>\<open>The theories.\<close>

  \<^item> Prelude: results as sums, locks that may be poisoned, saturating and checked 64-bit arithmetic on
    naturals below \<open>word_limit\<close>, list lemmas. Text: UTF-8, decimal numbers, splitting. Registry: the
    keyed maps, with the interface locale \<open>keyed_registry\<close>.
  \<^item> Errors, Batch, Cancel_Tokens: \<^verbatim>\<open>impossible-embedding-core/src/lib.rs\<close>. Tokens live in an explicit
    heap of cells; cancelling walks the dependents with a measure that proves it ends.
  \<^item> Shutdown, Health, Metrics, Security, Config: the files of the same names in
    \<^verbatim>\<open>impossible-server-core/src\<close> (telemetry is in Metrics, doctor in Health). The parsers of TOML, of
    socket addresses and of URLs and the file system calls are arguments.
  \<^item> Scheduler: batch policy and \<^verbatim>\<open>run_scheduler\<close> of runtime.rs as a step relation; what a poll of the
    clock and of the tokens sees at each moment is an arbitrary history.
  \<^item> Execution: preflight, \<^verbatim>\<open>await_controlled\<close>, \<^verbatim>\<open>execute_batch\<close> and publication; the engine is a record of
    functions.
  \<^item> Runtime: the critical sections of \<^verbatim>\<open>ApplicationRuntime\<close> (register, load, lease, unload, delete, install
    control, embedding admission, shutdown). Lifecycle: their interleavings and invariants. Runtime_Tasks: the
    blocking pool, an installation with its caller, and the destructor.
  \<^item> Manifest: errors, manifest validation, fingerprints, cache layout and trust of
    \<^verbatim>\<open>impossible-models/src\<close> (\<^verbatim>\<open>lib.rs\<close>, \<^verbatim>\<open>manifest.rs\<close>, \<^verbatim>\<open>store.rs\<close>). Store_Fs: the promotion, reconciliation and
    deletion transactions of \<^verbatim>\<open>store.rs\<close> as programs over a cache directory in which every call may
    fail or be the last before a stop, with a program logic for them. Store_Recovery: their crash safety.
    Store_Read: opening, hashing and reading artifacts while other processes may change them, and the
    verification status. Store_Import: locks and leases, creation below a base, import and discovery.
    Install: \<^verbatim>\<open>install.rs\<close>, the network policy, downloads and the installation transaction.
  \<^item> Float32, Onnx_Graph, Onnx_Engine: \<^verbatim>\<open>impossible-embedding-onnx/src/lib.rs\<close> (binary32 arithmetic; the checks
    on the graph; loading, preflight and the native run). Onnx_Output: their guarantees. Onnx_Runtime: the
    engine interface \<open>faithful_engine\<close> of the runtime and its interpretation on the ONNX engine.
  \<^item> Catalog, Application, App_State: \<^verbatim>\<open>impossible-server/src/application.rs\<close> (the catalog of names; the
    service behind every transport; credentials, request ids and the shutdown trigger).
    Application_Safety: the interleavings of the service's operations, cut at their suspension points,
    with its invariant.
  \<^item> Transport: the application as the transports call it, a record of functions with the interface locale
    \<open>service_contract\<close>. Mcp, Http, Grpc: \<^verbatim>\<open>impossible-server/src/mcp.rs\<close>, \<^verbatim>\<open>http.rs\<close> and \<^verbatim>\<open>grpc.rs\<close> with
    \<^verbatim>\<open>impossible-protocol/src/lib.rs\<close>; their lemmas about what every request keeps are proved in that locale and reach
    the application through its interpretation \<open>stopped\<close>. Process, Cli: \<^verbatim>\<open>process.rs\<close> and \<^verbatim>\<open>cli.rs\<close>.

  \<^bold>\<open>What is shown.\<close> No request is lost or answered twice by the scheduler; batches respect the policy;
  every published result is the request's own slice of a validated output; cancelled or late work
  publishes nothing; the atomic counters count the capabilities held; unload never removes a leased
  model; draining is final and shutdown quiesces; a rejected request leaks nothing; a configuration
  that loads is safe to expose, and sources take precedence as documented; credentials are compared
  exactly and read from a stable file; health, metrics and telemetry report what happened. A valid
  manifest names only paths inside the model directory; replacing and deleting a model survives any
  failure or stop, and recovery always ends with one whole model installed; an installation asks only
  allowed origins, promotes only authenticated bytes and never after a won cancellation, and its caller is told
  the truth. Names resolve to exactly one
  model; a strict preload is all or nothing and serves nothing before its commit; after a shutdown no
  late load publishes; no waiter misses the shutdown request. Guarded HTTP routes and gRPC calls reach the application only
  with exactly the required secret; MCP tools run only after the handshake, frames do not depend on how input is buffered,
  and the answers of a batch match its requests; only bounded inputs are handed on; HTTP and gRPC make the same
  call of the same request; after a shutdown no request of any transport changes the application. The process ends both
  transports however it stops; the options of the command line reach the configuration (the two token limits excepted),
  and the requests of the command-line client pass the guards of the server.

  \<^bold>\<open>Bounds and fuel.\<close> Atomic counters wrap at \<open>word_limit = 2 ^ 64\<close>; the theorems that need a counter not
  to wrap say so. Loops over events (waits, selects) consume a list of observations; an exhausted list
  is the value \<open>None\<close>, a wait that has not returned.

  \<^bold>\<open>Not modelled.\<close> Third-party crates (ONNX runtime, tokenizers, tokio, hyper, tonic, serde, toml, url)
  are parameters: the matching of requests against the route table, message size limits of the gRPC server, JSON and
  protobuf encodings, argument parsing and logging belong to them. The time a request spends is a number that the
  environment chooses. A NaN result carries the canonical payload.
\<close>

end
